(* ===== verification/Prelude.thy ===== *)
theory Prelude
  imports Main "HOL-Library.Word" "HOL-Library.Char_ord" "HOL-Library.List_Lexorder"
    "HOL-Library.Product_Lexorder"
begin

text \<open>
  Shared vocabulary of the development.

  \<^item> Bytes and strings: a Rust \<open>Vec<u8>\<close> and a Rust \<open>String\<close> are both a \<open>char list\<close>; HOL's
    \<open>char\<close> has exactly 256 values, and a \<open>String\<close> is the list of its UTF-8 bytes
    (\<open>utf8_valid\<close> is the test that \<open>String::from_utf8\<close> makes).
  \<^item> Integers: a \<open>u32\<close> checksum is a \<open>32 word\<close>, since the code adds checksums with
    \<open>wrapping_add\<close>; every \<open>u64\<close>/\<open>usize\<close> counter is a \<open>nat\<close> with the bound \<open>2 ^ 64\<close> written
    out at each \<open>checked_add\<close>, saturating or wrapping operation.
  \<^item> \<open>Result\<close>: \<open>ingest_error + 'a\<close> with the bind \<open>rbind\<close> for the \<open>?\<close> operator, \<open>rfold\<close> for a
    \<open>for\<close> loop whose body may return early with an error and \<open>rmap\<close> for
    \<open>collect::<Result<Vec<_>, _>>()\<close>. \<open>Panicked\<close> is not a variant of the Rust enum: it is the value
    of a path on which the code panics.
  \<^item> \<open>BTreeMap<String, _>\<close>: an association list in increasing key order (\<open>bt_insert\<close>,
    \<open>map_of\<close>); \<open>BTreeSet\<close>: an increasing list.
  \<^item> Positional notation: one generic fixed-width encoding \<open>fixw\<close> gives the big-endian bytes of
    \<open>to_be_bytes\<close> and the zero-padded decimals of \<open>{:020}\<close>, with their round trips and the fact
    that both keep the numeric order.
\<close>

section \<open>Collections of facts\<close>

named_theorems key_defs "definitions of the storage keys"
named_theorems codec_simps "rewriting a decoder past what an encoder wrote"
named_theorems view_simps "what a table operation does to the key-value view"

section \<open>Types\<close>

type_synonym bytes = "char list"
type_synonym u32 = "32 word"
type_synonym lsn = nat
type_synonym op_id = nat
type_synonym 'v btree = "(string \<times> 'v) list"
type_synonym routes = "string btree"

datatype ingest_error =
    PgWalstream string
  | MissingRelation nat
  | InvalidReplicaIdentity nat nat
  | ChangeOutsideTransaction string
  | CommitWithoutBegin lsn
  | BeginWhileTransactionOpen nat nat
  | UnsupportedPgoutputMessage string
  | Mdbx string
  | CorruptBatch string
  | InvalidPersistedLsn string
  | ResourceLimit string
  | Panicked

type_synonym 'a result = "ingest_error + 'a"

abbreviation u64_limit :: nat where
  "u64_limit \<equiv> 18446744073709551616"

abbreviation u32_limit :: nat where
  "u32_limit \<equiv> 4294967296"

section \<open>Results\<close>

fun rbind :: "'e + 'a \<Rightarrow> ('a \<Rightarrow> 'e + 'b) \<Rightarrow> 'e + 'b" where
  "rbind (Inl e) f = Inl e"
| "rbind (Inr a) f = f a"

fun map_err :: "('e \<Rightarrow> 'f) \<Rightarrow> 'e + 'a \<Rightarrow> 'f + 'a" where
  "map_err g (Inl e) = Inl (g e)"
| "map_err g (Inr a) = Inr a"

fun rfold :: "('s \<Rightarrow> 'x \<Rightarrow> 'e + 's) \<Rightarrow> 's \<Rightarrow> 'x list \<Rightarrow> 'e + 's" where
  "rfold f s [] = Inr s"
| "rfold f s (x # xs) = rbind (f s x) (\<lambda>s'. rfold f s' xs)"

fun rmap :: "('x \<Rightarrow> 'e + 'y) \<Rightarrow> 'x list \<Rightarrow> 'e + 'y list" where
  "rmap f [] = Inr []"
| "rmap f (x # xs) = rbind (f x) (\<lambda>y. rbind (rmap f xs) (\<lambda>ys. Inr (y # ys)))"

fun ok_or :: "'e \<Rightarrow> 'a option \<Rightarrow> 'e + 'a" where
  "ok_or e None = Inl e"
| "ok_or e (Some a) = Inr a"

fun omap :: "('x \<Rightarrow> 'y option) \<Rightarrow> 'x list \<Rightarrow> 'y list option" where
  "omap f [] = Some []"
| "omap f (x # xs) =
     (case f x of None \<Rightarrow> None
      | Some y \<Rightarrow> (case omap f xs of None \<Rightarrow> None | Some ys \<Rightarrow> Some (y # ys)))"

lemma rbind_Inr_iff: "rbind m f = Inr b \<longleftrightarrow> (\<exists>a. m = Inr a \<and> f a = Inr b)"
  by (cases m) auto

lemma rbindE:
  assumes "rbind m f = Inr b"
  obtains a where "m = Inr a" and "f a = Inr b"
  using assms by (cases m) auto

lemma map_err_Inr_iff [simp]: "map_err g m = Inr a \<longleftrightarrow> m = Inr a"
  by (cases m) auto

lemma ok_or_Inr_iff [simp]: "ok_or e x = Inr a \<longleftrightarrow> x = Some a"
  by (cases x) auto

lemma rbind_assoc: "rbind (rbind m f) g = rbind m (\<lambda>a. rbind (f a) g)"
  by (cases m) auto

lemma rfold_append: "rfold f s (xs @ ys) = rbind (rfold f s xs) (\<lambda>s'. rfold f s' ys)"
  by (induction xs arbitrary: s) (auto simp: rbind_assoc)

text \<open>Invariants and relations of a loop that ends normally.\<close>

lemma rfold_invariant:
  assumes "rfold f s xs = Inr s'" and "P s"
    and "\<And>s x s'. x \<in> set xs \<Longrightarrow> P s \<Longrightarrow> f s x = Inr s' \<Longrightarrow> P s'"
  shows "P s'"
  using assms by (induction xs arbitrary: s) (auto elim!: rbindE)

lemma rfold_track:
  assumes "rfold f s xs = Inr s'" and "P [] s"
    and "\<And>ys s x s'. P ys s \<Longrightarrow> x \<in> set xs \<Longrightarrow> f s x = Inr s' \<Longrightarrow> P (ys @ [x]) s'"
  shows "P xs s'"
proof -
  have "rfold f s zs = Inr s' \<Longrightarrow> P ys s \<Longrightarrow> set zs \<subseteq> set xs \<Longrightarrow> P (ys @ zs) s'" for ys zs s
  proof (induction zs arbitrary: ys s)
    case Nil
    then show ?case by simp
  next
    case (Cons z zs)
    from Cons.prems(1) obtain t where t: "f s z = Inr t" "rfold f t zs = Inr s'"
      by (auto elim: rbindE)
    from Cons.prems have "P (ys @ [z]) t"
      using assms(3) t(1) by simp
    from Cons.IH [OF t(2) this] Cons.prems(3) show ?case by simp
  qed
  from this [of s xs "[]"] assms(1,2) show ?thesis by simp
qed

lemma rfold_total:
  assumes "\<And>s x. x \<in> set xs \<Longrightarrow> \<exists>s'. f s x = Inr s'"
  shows "\<exists>s'. rfold f s xs = Inr s'"
  using assms
proof (induction xs arbitrary: s)
  case (Cons x xs)
  then obtain t where "f s x = Inr t" by (metis list.set_intros(1))
  with Cons show ?case by simp
qed simp

lemma rmap_Inr_length: "rmap f xs = Inr ys \<Longrightarrow> length ys = length xs"
  by (induction xs arbitrary: ys) (auto elim!: rbindE)

lemma rmap_Inr_list_all2: "rmap f xs = Inr ys \<Longrightarrow> list_all2 (\<lambda>x y. f x = Inr y) xs ys"
  by (induction xs arbitrary: ys) (auto elim!: rbindE)

lemma rmap_Inr_iff: "rmap f xs = Inr ys \<longleftrightarrow> list_all2 (\<lambda>x y. f x = Inr y) xs ys"
proof
  show "list_all2 (\<lambda>x y. f x = Inr y) xs ys \<Longrightarrow> rmap f xs = Inr ys"
    by (induction rule: list_all2_induct) auto
qed (rule rmap_Inr_list_all2)

lemma omap_Some_iff: "omap f xs = Some ys \<longleftrightarrow> list_all2 (\<lambda>x y. f x = Some y) xs ys"
proof
  show "omap f xs = Some ys \<Longrightarrow> list_all2 (\<lambda>x y. f x = Some y) xs ys"
    by (induction xs arbitrary: ys) (auto split: option.splits)
  show "list_all2 (\<lambda>x y. f x = Some y) xs ys \<Longrightarrow> omap f xs = Some ys"
    by (induction rule: list_all2_induct) auto
qed

lemma subset_image_map: "set ys \<subseteq> f ` S \<Longrightarrow> \<exists>xs. ys = map f xs \<and> set xs \<subseteq> S"
proof (induction ys)
  case (Cons y ys)
  then obtain x xs where "y = f x" "x \<in> S" "ys = map f xs" "set xs \<subseteq> S" by auto
  then show ?case by (intro exI [of _ "x # xs"]) simp
qed simp

lemma rmap_map_Inr: "(\<And>x. x \<in> set xs \<Longrightarrow> f (g x) = Inr (h x)) \<Longrightarrow> rmap f (map g xs) = Inr (map h xs)"
  by (induction xs) auto

section \<open>Fixed-width positional notation\<close>

fun fixw :: "nat \<Rightarrow> nat \<Rightarrow> nat \<Rightarrow> nat list" where
  "fixw b 0 n = []"
| "fixw b (Suc k) n = fixw b k (n div b) @ [n mod b]"

definition unfix :: "nat \<Rightarrow> nat list \<Rightarrow> nat" where
  "unfix b ds = foldl (\<lambda>a d. a * b + d) 0 ds"

lemma length_fixw [simp]: "length (fixw b k n) = k"
  by (induction k arbitrary: n) auto

lemma fixw_digits: "0 < b \<Longrightarrow> d \<in> set (fixw b k n) \<Longrightarrow> d < b"
  by (induction k arbitrary: n) auto

lemma unfix_snoc [simp]: "unfix b (ds @ [d]) = unfix b ds * b + d"
  by (simp add: unfix_def)

lemma unfix_Nil [simp]: "unfix b [] = 0"
  by (simp add: unfix_def)

lemma unfix_fixw: "unfix b (fixw b k n) = n mod b ^ k"
proof (induction k arbitrary: n)
  case (Suc k)
  have "n mod (b * b ^ k) = b * (n div b mod b ^ k) + n mod b"
    by (rule mod_mult2_eq)
  then show ?case using Suc by (simp add: mult.commute)
qed simp

lemma fixw_unfix: "\<forall>d \<in> set ds. d < b \<Longrightarrow> fixw b (length ds) (unfix b ds) = ds"
  by (induction ds rule: rev_induct) auto

lemma unfix_bound: "\<forall>d \<in> set ds. d < b \<Longrightarrow> unfix b ds < b ^ length ds"
proof (induction ds rule: rev_induct)
  case (snoc d ds)
  then have "unfix b ds + 1 \<le> b ^ length ds" and d: "d < b" by simp_all
  then have "(unfix b ds + 1) * b \<le> b ^ length ds * b" by (meson mult_le_mono1)
  with d show ?case by (simp add: algebra_simps)
qed simp

lemma fixw_inj: "m < b ^ k \<Longrightarrow> n < b ^ k \<Longrightarrow> fixw b k m = fixw b k n \<Longrightarrow> m = n"
  by (metis unfix_fixw mod_less)

lemma append_less_append [simp]: "(xs @ ys < xs @ zs) \<longleftrightarrow> ys < (zs :: 'a :: linorder list)"
  by (induction xs) auto

lemma append_le_append [simp]: "(xs @ ys \<le> xs @ zs) \<longleftrightarrow> ys \<le> (zs :: 'a :: linorder list)"
  by (induction xs) auto

lemma less_append_same_length:
  "length xs = length ys \<Longrightarrow>
   (xs @ us < ys @ vs) \<longleftrightarrow> xs < ys \<or> xs = ys \<and> us < (vs :: 'a :: linorder list)"
  by (induction xs ys rule: list_induct2) auto

lemma quotient_less_imp_less: "0 < b \<Longrightarrow> m div b < n div b \<Longrightarrow> m < (n :: nat)"
  by (metis div_le_mono leD leI)

lemma div_mod_less_iff:
  fixes m n b :: nat
  assumes "0 < b"
  shows "m < n \<longleftrightarrow> m div b < n div b \<or> m div b = n div b \<and> m mod b < n mod b"
proof (cases "m div b" "n div b" rule: linorder_cases)
  case less
  then show ?thesis using quotient_less_imp_less [OF assms less] by simp
next
  case equal
  have "m = m div b * b + m mod b" "n = n div b * b + n mod b" by simp_all
  with equal show ?thesis by (metis nat_add_left_cancel_less less_irrefl)
next
  case greater
  then show ?thesis using quotient_less_imp_less [OF assms greater] by simp
qed

lemma fixw_mono: "0 < b \<Longrightarrow> m < b ^ k \<Longrightarrow> n < b ^ k \<Longrightarrow> fixw b k m < fixw b k n \<longleftrightarrow> m < n"
proof (induction k arbitrary: m n)
  case (Suc k)
  let ?q = "\<lambda>x. x div b" and ?r = "\<lambda>x. x mod b"
  have q: "?q m < b ^ k" "?q n < b ^ k"
    using Suc.prems by (simp_all add: less_mult_imp_div_less mult.commute)
  have eq: "fixw b k (?q m) = fixw b k (?q n) \<longleftrightarrow> ?q m = ?q n"
    using fixw_inj [OF q] by auto
  have "m < n \<longleftrightarrow> ?q m < ?q n \<or> ?q m = ?q n \<and> ?r m < ?r n"
    by (rule div_mod_less_iff [OF Suc.prems(1)])
  then show ?case
    using Suc.IH [OF Suc.prems(1) q] eq by (simp add: less_append_same_length)
qed simp

lemma map_strict_mono_less:
  assumes "\<And>x y. x \<in> set xs \<Longrightarrow> y \<in> set ys \<Longrightarrow> f x < f y \<longleftrightarrow> x < (y :: 'a :: linorder)"
    and "\<And>x y. x \<in> set xs \<Longrightarrow> y \<in> set ys \<Longrightarrow> f x = f y \<longleftrightarrow> x = y"
  shows "map f xs < map f ys \<longleftrightarrow> xs < (ys :: 'a list)"
  using assms
proof (induction xs arbitrary: ys)
  case Nil
  then show ?case by (cases ys) auto
next
  case (Cons x xs)
  show ?case
  proof (cases ys)
    case (Cons y ys')
    with Cons.prems have "map f xs < map f ys' \<longleftrightarrow> xs < ys'"
      by (intro Cons.IH) auto
    with Cons Cons.prems show ?thesis by simp
  qed simp
qed

end
