(* ===== verification/Encoding.thy ===== *)
theory Encoding
  imports Prelude
begin

text \<open>
  Concrete encodings the program takes from the Rust standard library: \<open>to_be_bytes\<close> and
  \<open>from_be_bytes\<close>, \<open>u64::to_string\<close> and \<open>parse::<u64>\<close>, the zero-padded decimal \<open>{:020}\<close>,
  upper-case hexadecimal \<open>{:X}\<close> with \<open>from_str_radix\<close>, the UTF-8 test of \<open>String::from_utf8\<close>,
  and ordered association lists for \<open>BTreeMap\<close>. The lemmas are the round trips and the order facts
  that the key and codec theories use.
\<close>

section \<open>Characters as bytes\<close>

abbreviation byte_val :: "char \<Rightarrow> nat" where
  "byte_val \<equiv> of_char"

lemma byte_val_less [simp]: "byte_val c < 256"
  using nat_of_char_less_256 by simp

lemma byte_val_char_of: "n < 256 \<Longrightarrow> byte_val (char_of n) = n"
  by simp

lemma char_less_iff: "c < d \<longleftrightarrow> byte_val c < byte_val d"
  by (rule less_char_def)

lemma char_of_less_iff: "(m :: nat) < 256 \<Longrightarrow> n < 256 \<Longrightarrow> char_of m < char_of n \<longleftrightarrow> m < n"
  by (simp add: char_less_iff)

lemma char_of_inj: "(m :: nat) < 256 \<Longrightarrow> n < 256 \<Longrightarrow> char_of m = char_of n \<longleftrightarrow> m = n"
  by (metis byte_val_char_of)

section \<open>Big-endian integers\<close>

definition be_bytes :: "nat \<Rightarrow> nat \<Rightarrow> bytes" where
  "be_bytes k n = map char_of (fixw 256 k n)"

definition from_be :: "bytes \<Rightarrow> nat" where
  "from_be bs = unfix 256 (map byte_val bs)"

lemma length_be_bytes [simp]: "length (be_bytes k n) = k"
  by (simp add: be_bytes_def)

lemma from_be_be_bytes: "from_be (be_bytes k n) = n mod 256 ^ k"
proof -
  have "map (\<lambda>d. d mod 256) (fixw 256 k n) = fixw 256 k n"
    using fixw_digits [of 256] by (intro map_idI) auto
  then show ?thesis
    by (simp add: from_be_def be_bytes_def o_def unfix_fixw)
qed

lemma be_bytes_from_be: "length bs = k \<Longrightarrow> be_bytes k (from_be bs) = bs"
proof -
  assume "length bs = k"
  then have "fixw 256 k (from_be bs) = map byte_val bs"
    using fixw_unfix [of "map byte_val bs" 256] by (simp add: from_be_def)
  then show ?thesis by (simp add: be_bytes_def o_def)
qed

lemma from_be_bound: "from_be bs < 256 ^ length bs"
  using unfix_bound [of "map byte_val bs" 256] by (simp add: from_be_def)

lemma be_bytes_u64_inverse [codec_simps]: "n < u64_limit \<Longrightarrow> from_be (be_bytes 8 n) = n"
  by (simp add: from_be_be_bytes)

lemma be_bytes_u32_inverse [codec_simps]: "n < u32_limit \<Longrightarrow> from_be (be_bytes 4 n) = n"
  by (simp add: from_be_be_bytes)

section \<open>Numerals\<close>

fun digits :: "nat \<Rightarrow> nat \<Rightarrow> nat list" where
  "digits b n = (if n < b \<or> b \<le> 1 then [n] else digits b (n div b) @ [n mod b])"

declare digits.simps [simp del]

definition digit_char :: "nat \<Rightarrow> char" where
  "digit_char d = char_of (if d < 10 then 48 + d else 55 + d)"

definition char_digit :: "nat \<Rightarrow> char \<Rightarrow> nat option" where
  "char_digit b c =
     (let n = byte_val c in
      if 48 \<le> n \<and> n \<le> 57 \<and> n - 48 < b then Some (n - 48)
      else if 65 \<le> n \<and> n \<le> 90 \<and> n - 55 < b then Some (n - 55)
      else if 97 \<le> n \<and> n \<le> 122 \<and> n - 87 < b then Some (n - 87)
      else None)"

definition show_radix :: "nat \<Rightarrow> nat \<Rightarrow> string" where
  "show_radix b n = map digit_char (digits b n)"

abbreviation decimal :: "nat \<Rightarrow> string" where
  "decimal \<equiv> show_radix 10"

definition pad20 :: "nat \<Rightarrow> string" where
  "pad20 n = replicate (20 - length (decimal n)) (digit_char 0) @ decimal n"

definition parse_radix :: "nat \<Rightarrow> nat \<Rightarrow> string \<Rightarrow> nat option" where
  "parse_radix b lim s =
     (let ds = (case s of [] \<Rightarrow> [] | c # r \<Rightarrow> if c = CHR ''+'' then r else s) in
      if ds = [] then None
      else (case omap (char_digit b) ds of
              None \<Rightarrow> None
            | Some vs \<Rightarrow> if unfix b vs < lim then Some (unfix b vs) else None))"

abbreviation parse_u64 :: "string \<Rightarrow> nat option" where
  "parse_u64 \<equiv> parse_radix 10 u64_limit"

lemma digits_nonempty [simp]: "digits b n \<noteq> []"
  by (subst digits.simps) simp

lemma unfix_digits: "unfix b (digits b n) = n"
proof (induction b n rule: digits.induct)
  case (1 b n)
  show ?case
  proof (cases "n < b \<or> b \<le> 1")
    case True
    then show ?thesis by (simp add: digits.simps [of b n] unfix_def)
  next
    case False
    with 1 show ?thesis by (simp add: digits.simps [of b n])
  qed
qed

lemma digits_less: "2 \<le> b \<Longrightarrow> d \<in> set (digits b n) \<Longrightarrow> d < b"
proof (induction b n rule: digits.induct)
  case (1 b n)
  then show ?case by (cases "n < b") (auto simp: digits.simps [of b n])
qed

lemma length_digits: "2 \<le> b \<Longrightarrow> n < b ^ k \<Longrightarrow> 0 < k \<Longrightarrow> length (digits b n) \<le> k"
proof (induction b n arbitrary: k rule: digits.induct)
  case (1 b n)
  show ?case
  proof (cases "n < b")
    case True
    with 1 show ?thesis by (simp add: digits.simps [of b n])
  next
    case False
    with 1 obtain j where k: "k = Suc j" "0 < j"
      by (cases k; cases "k - 1") auto
    have "n div b < b ^ j"
      using 1 k by (simp add: less_mult_imp_div_less mult.commute)
    with 1 k False have "length (digits b (n div b)) \<le> j" by simp
    with False k "1.prems" show ?thesis by (simp add: digits.simps [of b n])
  qed
qed

lemma fixw_zero: "fixw b k 0 = replicate k 0"
  by (induction k) (simp_all add: replicate_append_same)

lemma fixw_digits_pad:
  "2 \<le> b \<Longrightarrow> n < b ^ k \<Longrightarrow> 0 < k \<Longrightarrow>
   fixw b k n = replicate (k - length (digits b n)) 0 @ digits b n"
proof (induction b n arbitrary: k rule: digits.induct)
  case (1 b n)
  then obtain j where k: "k = Suc j" by (cases k) auto
  show ?case
  proof (cases "n < b")
    case True
    with 1 k show ?thesis by (simp add: digits.simps [of b n] fixw_zero)
  next
    case False
    with 1 k have "0 < j" by (cases j) auto
    moreover have "n div b < b ^ j"
      using 1 k by (simp add: less_mult_imp_div_less mult.commute)
    ultimately have "fixw b j (n div b) =
        replicate (j - length (digits b (n div b))) 0 @ digits b (n div b)"
      using 1 False by simp
    with False k "1.prems" show ?thesis by (simp add: digits.simps [of b n])
  qed
qed

lemma digit_char_val: "d < 36 \<Longrightarrow> byte_val (digit_char d) = (if d < 10 then 48 + d else 55 + d)"
  by (simp add: digit_char_def)

lemma char_digit_inverse: "d < b \<Longrightarrow> b \<le> 36 \<Longrightarrow> char_digit b (digit_char d) = Some d"
  by (simp add: char_digit_def digit_char_val Let_def)

lemma digit_char_not_plus:
  assumes "d < 36"
  shows "digit_char d \<noteq> CHR ''+''"
proof
  assume "digit_char d = CHR ''+''"
  then have "byte_val (digit_char d) = 43" by simp
  then show False using digit_char_val [OF assms] by (simp split: if_splits)
qed

lemma omap_char_digit:
  "\<forall>d \<in> set ds. d < b \<Longrightarrow> b \<le> 36 \<Longrightarrow> omap (char_digit b) (map digit_char ds) = Some ds"
  by (induction ds) (auto simp: char_digit_inverse)

lemma parse_show_radix:
  assumes "2 \<le> b" "b \<le> 36" "n < lim"
  shows "parse_radix b lim (show_radix b n) = Some n"
proof -
  obtain d ds where ds: "digits b n = d # ds" by (cases "digits b n") auto
  have less: "\<forall>x \<in> set (digits b n). x < b" using digits_less assms by blast
  then have "digit_char d \<noteq> CHR ''+''" using ds assms by (intro digit_char_not_plus) auto
  then show ?thesis
    using omap_char_digit [OF less] unfix_digits [of b n] assms ds
    by (simp add: parse_radix_def show_radix_def)
qed

lemma parse_decimal [codec_simps]: "n < u64_limit \<Longrightarrow> parse_u64 (decimal n) = Some n"
  by (rule parse_show_radix) simp_all

lemma parse_radix_bound: "parse_radix b lim s = Some n \<Longrightarrow> n < lim"
  by (auto simp: parse_radix_def Let_def split: list.splits if_splits option.splits)

lemma pad20_fixw:
  assumes "n < u64_limit"
  shows "pad20 n = map digit_char (fixw 10 20 n)"
proof -
  define k :: nat where "k = 20"
  have "(10 :: nat) ^ k = 100000000000000000000" by (simp add: k_def)
  with assms have "fixw 10 k n = replicate (k - length (digits 10 n)) 0 @ digits 10 n"
    by (intro fixw_digits_pad) (simp_all add: k_def)
  then have "map digit_char (fixw 10 k n) =
      replicate (k - length (decimal n)) (digit_char 0) @ decimal n"
    by (simp only: show_radix_def map_append map_replicate length_map)
  then show ?thesis by (simp only: pad20_def k_def)
qed

lemma length_pad20: "n < u64_limit \<Longrightarrow> length (pad20 n) = 20"
  by (simp add: pad20_fixw)

lemma digit_char_less_iff: "m < 10 \<Longrightarrow> n < 10 \<Longrightarrow> digit_char m < digit_char n \<longleftrightarrow> m < n"
  by (simp add: char_less_iff digit_char_val)

lemma digit_char_eq_iff: "m < 10 \<Longrightarrow> n < 10 \<Longrightarrow> digit_char m = digit_char n \<longleftrightarrow> m = n"
  using digit_char_less_iff [of m n] digit_char_less_iff [of n m]
  by (metis less_irrefl linorder_neqE_nat)

lemma pad20_less_iff:
  assumes "m < u64_limit" "n < u64_limit"
  shows "pad20 m < pad20 n \<longleftrightarrow> m < n"
proof -
  have d: "x \<in> set (fixw 10 20 k) \<Longrightarrow> x < 10" for x k by (rule fixw_digits) simp
  have "map digit_char (fixw 10 20 m) < map digit_char (fixw 10 20 n) \<longleftrightarrow> fixw 10 20 m < fixw 10 20 n"
    by (rule map_strict_mono_less) (auto dest!: d simp: digit_char_less_iff digit_char_eq_iff)
  also have "\<dots> \<longleftrightarrow> m < n"
    using assms by (intro fixw_mono) simp_all
  finally show ?thesis using assms by (simp only: pad20_fixw)
qed

lemma pad20_inj: "m < u64_limit \<Longrightarrow> n < u64_limit \<Longrightarrow> pad20 m = pad20 n \<longleftrightarrow> m = n"
  using pad20_less_iff by (metis less_irrefl linorder_neqE_nat)

lemma parse_pad20 [codec_simps]:
  assumes "n < u64_limit"
  shows "parse_u64 (pad20 n) = Some n"
proof -
  define ds where "ds = fixw 10 20 n"
  have less: "\<forall>x \<in> set ds. x < 10" unfolding ds_def using fixw_digits by simp
  have len: "length ds = 20" by (simp add: ds_def)
  then obtain d ds' where ds: "ds = d # ds'" by (cases ds) auto
  then have "digit_char d \<noteq> CHR ''+''" using less by (intro digit_char_not_plus) auto
  moreover have "unfix 10 ds = n" using assms by (simp add: ds_def unfix_fixw)
  moreover have "pad20 n = map digit_char ds" using assms by (simp add: pad20_fixw ds_def)
  ultimately show ?thesis
    using omap_char_digit [OF less] assms ds by (simp add: parse_radix_def)
qed

lemma decimal_chars: "c \<in> set (decimal n) \<Longrightarrow> 48 \<le> byte_val c \<and> byte_val c \<le> 57"
proof -
  assume "c \<in> set (decimal n)"
  then obtain d where "d \<in> set (digits 10 n)" and c: "c = digit_char d"
    by (auto simp: show_radix_def)
  then have "d < 10" using digits_less by simp
  then show ?thesis using c digit_char_val [of d] by simp
qed

lemma decimal_no_sep: "CHR '':'' \<notin> set (decimal n)" "CHR ''|'' \<notin> set (decimal n)"
  using decimal_chars [of "CHR '':''" n] decimal_chars [of "CHR ''|''" n] by auto

lemma show_radix_inj: "2 \<le> b \<Longrightarrow> b \<le> 36 \<Longrightarrow> show_radix b m = show_radix b n \<Longrightarrow> m = n"
  using parse_show_radix [of b m "m + n + 1"] parse_show_radix [of b n "m + n + 1"] by simp

lemma decimal_inj [simp]: "decimal m = decimal n \<longleftrightarrow> m = n"
  using show_radix_inj [of 10 m n] by auto

section \<open>UTF-8\<close>

definition utf8_cont :: "char \<Rightarrow> bool" where
  "utf8_cont c \<longleftrightarrow> 128 \<le> byte_val c \<and> byte_val c \<le> 191"

definition byte_in :: "nat \<Rightarrow> nat \<Rightarrow> char \<Rightarrow> bool" where
  "byte_in lo hi c \<longleftrightarrow> lo \<le> byte_val c \<and> byte_val c \<le> hi"

fun utf8_valid :: "bytes \<Rightarrow> bool" where
  "utf8_valid [] = True"
| "utf8_valid (a # r) =
     (if byte_in 0 127 a then utf8_valid r
      else if byte_in 194 223 a then
        (case r of b # r' \<Rightarrow> utf8_cont b \<and> utf8_valid r' | [] \<Rightarrow> False)
      else if byte_in 224 239 a then
        (case r of b # c # r' \<Rightarrow>
           byte_in (if byte_val a = 224 then 160 else 128) (if byte_val a = 237 then 159 else 191) b
           \<and> utf8_cont c \<and> utf8_valid r'
         | _ \<Rightarrow> False)
      else if byte_in 240 244 a then
        (case r of b # c # d # r' \<Rightarrow>
           byte_in (if byte_val a = 240 then 144 else 128) (if byte_val a = 244 then 143 else 191) b
           \<and> utf8_cont c \<and> utf8_cont d \<and> utf8_valid r'
         | _ \<Rightarrow> False)
      else False)"

lemma ascii_utf8_valid: "\<forall>c \<in> set s. byte_val c \<le> 127 \<Longrightarrow> utf8_valid s"
  by (induction s) (auto simp: byte_in_def)

section \<open>Ordered maps and sets\<close>

fun bt_insert :: "'k :: linorder \<Rightarrow> 'v \<Rightarrow> ('k \<times> 'v) list \<Rightarrow> ('k \<times> 'v) list" where
  "bt_insert k v [] = [(k, v)]"
| "bt_insert k v ((k', v') # m) =
     (if k < k' then (k, v) # (k', v') # m
      else if k = k' then (k, v) # m
      else (k', v') # bt_insert k v m)"

definition bt_of_list :: "('k :: linorder \<times> 'v) list \<Rightarrow> ('k \<times> 'v) list" where
  "bt_of_list xs = foldl (\<lambda>m (k, v). bt_insert k v m) [] xs"

definition bt_sorted :: "('k :: linorder \<times> 'v) list \<Rightarrow> bool" where
  "bt_sorted m \<longleftrightarrow> sorted_wrt (<) (map fst m)"

definition btset_of_list :: "'a :: linorder list \<Rightarrow> 'a list" where
  "btset_of_list xs = sort (remdups xs)"

lemma set_btset_of_list [simp]: "set (btset_of_list xs) = set xs"
  by (simp add: btset_of_list_def)

lemma map_of_bt_insert [simp]: "map_of (bt_insert k v m) = (map_of m)(k \<mapsto> v)"
  by (induction m) (auto simp: fun_eq_iff)

lemma fst_bt_insert: "fst ` set (bt_insert k v m) = insert k (fst ` set m)"
  using map_of_bt_insert [of k v m] by (metis dom_fun_upd dom_map_of_conv_image_fst option.distinct(1))

lemma bt_sorted_insert [simp]: "bt_sorted m \<Longrightarrow> bt_sorted (bt_insert k v m)"
proof (induction m)
  case (Cons p m)
  obtain k' v' where p: "p = (k', v')" by (cases p)
  from Cons have IH: "bt_sorted (bt_insert k v m)" and lt: "\<forall>x \<in> fst ` set m. k' < x"
    by (auto simp: bt_sorted_def p)
  show ?case
  proof (cases "k' < k")
    case True
    have "\<forall>x \<in> fst ` set (bt_insert k v m). k' < x"
      using lt True unfolding fst_bt_insert by auto
    with IH True show ?thesis by (auto simp: bt_sorted_def p)
  next
    case False
    with Cons.prems lt show ?thesis by (auto simp: bt_sorted_def p)
  qed
qed (simp add: bt_sorted_def)

lemma bt_sorted_bt_of_list [simp]: "bt_sorted (bt_of_list xs)"
proof -
  have "bt_sorted m \<Longrightarrow> bt_sorted (foldl (\<lambda>m (k, v). bt_insert k v m) m xs)" for m
    by (induction xs arbitrary: m) auto
  from this [of "[]"] show ?thesis by (simp add: bt_of_list_def bt_sorted_def)
qed

lemma bt_sorted_eqI:
  assumes "bt_sorted m" "bt_sorted m'" "map_of m = map_of m'"
  shows "m = m'"
  using assms
proof (induction m arbitrary: m')
  case Nil
  then show ?case by (metis map_of_eq_empty_iff)
next
  case (Cons p m)
  obtain k v where p: "p = (k, v)" by (cases p)
  from Cons.prems(3) have "map_of m' k = Some v" by (simp add: p fun_eq_iff) (metis)
  then obtain k' v' n where m': "m' = (k', v') # n" by (cases m') auto
  have low: "\<forall>x \<in> fst ` set m. k < x" "\<forall>x \<in> fst ` set n. k' < x"
    and srt: "bt_sorted m" "bt_sorted n"
    using Cons.prems by (auto simp: bt_sorted_def p m')
  have "k \<in> fst ` set m'" "k' \<in> fst ` set (p # m)"
    using Cons.prems(3) by (metis dom_map_of_conv_image_fst image_eqI list.set_intros(1) fst_conv p m')+
  then have "\<not> k < k'" "\<not> k' < k" using low by (auto simp: p m' dest: less_asym)
  then have k: "k' = k" by simp
  have nin: "map_of m k = None" "map_of n k = None"
    using low k by (auto simp: map_of_eq_None_iff)
  have eq: "map_of ((k, v) # m) x = map_of ((k, v') # n) x" for x
    using fun_cong [OF Cons.prems(3), of x] k by (simp add: p m')
  have v: "v' = v" using eq [of k] by simp
  have "map_of m = map_of n"
  proof
    fix x show "map_of m x = map_of n x" using eq [of x] nin by (cases "x = k") auto
  qed
  with srt have "m = n" by (intro Cons.IH)
  then show ?case by (simp add: p m' k v)
qed

end
