(* ===== verification/Json_Value.thy ===== *)
theory Json_Value
  imports Encoding
begin

text \<open>
  JSON values as the program observes them. \<open>serde_json\<close> is a third-party crate: its value type is
  the datatype \<open>json\<close> (a number is a \<open>u64\<close>, a negative \<open>i64\<close> or the IEEE bits of a finite \<open>f64\<close>),
  and its parser, printers, map insertion and the standard library's \<open>f64\<close> parser are the fields of
  the record \<open>json_lib\<close>, an argument of every definition that calls them. The observers \<open>as_str\<close>, \<open>as_i64\<close>, ... and the
  equality of values are defined here.
\<close>

datatype json =
    JNull
  | JBool bool
  | JPos nat
  | JNeg int
  | JFloat "64 word"
  | JString string
  | JArray "json list"
  | JObject "(string \<times> json) list"

type_synonym json_object = "(string \<times> json) list"

record json_lib =
  js_from_str :: "string \<Rightarrow> json option"
  js_to_string :: "json \<Rightarrow> string"
  js_entries :: "(string \<times> json) list \<Rightarrow> string"
  js_insert :: "string \<Rightarrow> json \<Rightarrow> json_object \<Rightarrow> json_object"
  js_parse_f64 :: "string \<Rightarrow> 64 word option"

section \<open>Observers\<close>

fun as_str :: "json \<Rightarrow> string option" where
  "as_str (JString s) = Some s"
| "as_str _ = None"

fun as_i64 :: "json \<Rightarrow> int option" where
  "as_i64 (JPos n) = (if n < 2 ^ 63 then Some (int n) else None)"
| "as_i64 (JNeg i) = Some i"
| "as_i64 _ = None"

fun as_u64 :: "json \<Rightarrow> nat option" where
  "as_u64 (JPos n) = Some n"
| "as_u64 _ = None"

fun as_bool :: "json \<Rightarrow> bool option" where
  "as_bool (JBool b) = Some b"
| "as_bool _ = None"

fun as_array :: "json \<Rightarrow> json list option" where
  "as_array (JArray xs) = Some xs"
| "as_array _ = None"

fun as_object :: "json \<Rightarrow> json_object option" where
  "as_object (JObject o') = Some o'"
| "as_object _ = None"

definition is_null :: "json \<Rightarrow> bool" where
  "is_null j \<longleftrightarrow> j = JNull"

definition json_of_int :: "int \<Rightarrow> json" where
  "json_of_int i = (if i < 0 then JNeg i else JPos (nat i))"

definition int_to_string :: "int \<Rightarrow> string" where
  "int_to_string i = (if i < 0 then ''-'' @ decimal (nat (- i)) else decimal (nat i))"

text \<open>IEEE equality of finite doubles: the two zeros are equal.\<close>

definition f64_eq :: "64 word \<Rightarrow> 64 word \<Rightarrow> bool" where
  "f64_eq a b \<longleftrightarrow> a = b \<or> a + a = 0 \<and> b + b = 0"

definition f64_is_finite :: "64 word \<Rightarrow> bool" where
  "f64_is_finite a \<longleftrightarrow> unat a div 2 ^ 52 mod 2 ^ 11 \<noteq> 2047"

text \<open>Equality of values; objects compare as maps.\<close>

function json_eq :: "json \<Rightarrow> json \<Rightarrow> bool" where
  "json_eq a b =
     (case (a, b) of
        (JNull, JNull) \<Rightarrow> True
      | (JBool x, JBool y) \<Rightarrow> x = y
      | (JPos x, JPos y) \<Rightarrow> x = y
      | (JNeg x, JNeg y) \<Rightarrow> x = y
      | (JFloat x, JFloat y) \<Rightarrow> f64_eq x y
      | (JString x, JString y) \<Rightarrow> x = y
      | (JArray xs, JArray ys) \<Rightarrow>
          length xs = length ys \<and> list_all (\<lambda>(x, y). json_eq x y) (zip xs ys)
      | (JObject xs, JObject ys) \<Rightarrow>
          length xs = length ys \<and>
          list_all (\<lambda>(k, x). case map_of ys k of None \<Rightarrow> False | Some y \<Rightarrow> json_eq x y) xs
      | _ \<Rightarrow> False)"
  by pat_completeness auto

lemma size_list_member: "x \<in> set xs \<Longrightarrow> size x < Suc (size_list size xs)"
  by (induction xs) auto

lemma size_entry_member:
  "(k, x) \<in> set xs \<Longrightarrow> size x < Suc (size_list (size_prod (\<lambda>_. 0) size) xs)"
  by (induction xs) auto

termination json_eq
  by (relation "measure (\<lambda>(a, _). size a)")
     (auto intro!: size_list_member dest: set_zip_leftD size_entry_member)

declare json_eq.simps [simp del]

lemma json_eq_simps [simp]:
  "json_eq (JString s) j \<longleftrightarrow> j = JString s"
  "json_eq JNull j \<longleftrightarrow> j = JNull"
  "json_eq (JBool b) j \<longleftrightarrow> j = JBool b"
  "json_eq (JPos n) j \<longleftrightarrow> j = JPos n"
  "json_eq (JNeg i) j \<longleftrightarrow> j = JNeg i"
  by (auto simp: json_eq.simps split: json.splits)

section \<open>Text\<close>

definition to_ascii_lower :: "char \<Rightarrow> char" where
  "to_ascii_lower c = (if 65 \<le> byte_val c \<and> byte_val c \<le> 90 then char_of (byte_val c + 32) else c)"

definition eq_ignore_ascii_case :: "string \<Rightarrow> string \<Rightarrow> bool" where
  "eq_ignore_ascii_case a b \<longleftrightarrow> map to_ascii_lower a = map to_ascii_lower b"

definition strip_prefix :: "string \<Rightarrow> string \<Rightarrow> string option" where
  "strip_prefix p s = (if take (length p) s = p then Some (drop (length p) s) else None)"

definition is_ascii_digit :: "char \<Rightarrow> bool" where
  "is_ascii_digit c \<longleftrightarrow> 48 \<le> byte_val c \<and> byte_val c \<le> 57"

text \<open>Rust's \<open>parse::<i64>\<close>.\<close>

definition parse_i64 :: "string \<Rightarrow> int option" where
  "parse_i64 s =
     (case s of
        c # rest \<Rightarrow>
          if c = CHR ''-'' then
            (case rest of [] \<Rightarrow> None
             | d # _ \<Rightarrow> if d = CHR ''+'' then None
                        else map_option (\<lambda>n. - int n) (parse_radix 10 (2 ^ 63 + 1) rest))
          else map_option int (parse_radix 10 (2 ^ 63) s)
      | [] \<Rightarrow> None)"

end
