(* ===== verification/Sync_Model.thy ===== *)
theory Sync_Model
  imports Json_Value
begin

text \<open>
  The data model of compiled sync rules (\<open>sync_rules/model.rs\<close>): bindings, predicates, projections,
  the canonical plan, the lowered execution plan and the resolved buckets. A row of the source
  database is an association list from column names to column values; the column value type belongs
  to the third-party decoder, so \<open>column_value\<close> holds what the program observes of it.
  A \<open>HashMap\<close> is an association list read with \<open>map_of\<close>.
\<close>

record column_value =
  cv_as_str :: "string option"
  cv_is_null :: bool
  cv_display :: string
  cv_json :: json

type_synonym row_data = "(string \<times> column_value) list"

datatype JsonColumnType = String_Type | Number_Type | Boolean_Type | Timestamp_Type | Json_Type

type_synonym JsonColumnTypes = "JsonColumnType btree"

datatype sync_error = SyncRuleError string | SyncPanic

datatype LiteralValue = String_Lit string | Integer_Lit int | Boolean_Lit bool | Null_Lit

fun literal_to_json :: "LiteralValue \<Rightarrow> json" where
  "literal_to_json (String_Lit s) = JString s"
| "literal_to_json (Integer_Lit i) = json_of_int i"
| "literal_to_json (Boolean_Lit b) = JBool b"
| "literal_to_json Null_Lit = JNull"

record ParameterLookupSelectedColumn =
  sel_alias :: string
  sel_column :: string

datatype CanonicalBinding =
    AuthParameter string
  | SubscriptionParameter string
  | RequestUserId
  | RequestJwt string
  | RequestParameter string
  | RequestParameterArray string
  | ParameterQueryColumn string ParameterLookupPlan
  | BucketParameter string
and ParameterLookupPlan =
    ParameterLookupPlan (raw_query: string) (lookup_source_table: string)
      (selected: "ParameterLookupSelectedColumn list")
      (key_bindings: "(string \<times> CanonicalBinding) list")
      (row_predicate: "Predicate option") (lookup_id: string)
and Predicate =
    And "Predicate list"
  | Or "Predicate list"
  | IsNull Operand bool
  | Eq Operand Operand
  | In Operand Operand
and Operand =
    Column string
  | Literal LiteralValue
  | Binding CanonicalBinding

fun collect_operand_column :: "Operand \<Rightarrow> string list" where
  "collect_operand_column (Column name) = [name]"
| "collect_operand_column _ = []"

fun collect_predicate_columns :: "Predicate \<Rightarrow> string list" where
  "collect_predicate_columns (And terms) = concat (map collect_predicate_columns terms)"
| "collect_predicate_columns (Or terms) = concat (map collect_predicate_columns terms)"
| "collect_predicate_columns (IsNull operand _) = collect_operand_column operand"
| "collect_predicate_columns (Eq left right) =
     collect_operand_column left @ collect_operand_column right"
| "collect_predicate_columns (In left right) =
     collect_operand_column left @ collect_operand_column right"

definition referenced_columns :: "ParameterLookupPlan \<Rightarrow> string list" where
  "referenced_columns lookup =
     btset_of_list (map fst (key_bindings lookup) @ map sel_column (selected lookup) @
       (case row_predicate lookup of None \<Rightarrow> [] | Some p \<Rightarrow> collect_predicate_columns p))"

datatype CanonicalComputedTerm = ComputedColumn string | ComputedLiteral string

record CanonicalComputedExpression =
  ce_terms :: "CanonicalComputedTerm list"

record CanonicalComputedColumn =
  cc_alias :: string
  cc_expression :: CanonicalComputedExpression

record CanonicalProjectedColumn =
  pc_source_column :: string
  pc_alias :: string

datatype CanonicalProjection =
    Star
  | StarWithComputed "CanonicalComputedColumn list"
  | Columns "CanonicalProjectedColumn list"

record CanonicalBucketParameter =
  bp_name :: string
  bp_source_column :: string
  bp_binding :: CanonicalBinding

record CanonicalDataQuery =
  dq_source_table :: string
  dq_output_table :: string
  dq_bucket_parameters :: "CanonicalBucketParameter list"
  dq_row_filter :: "Predicate option"
  dq_request_filter :: "Predicate option"
  dq_projection :: CanonicalProjection

record CanonicalStream =
  cs_name :: string
  cs_source_table :: string
  cs_output_table :: string
  cs_auto_subscribe :: bool
  cs_bucket_parameters :: "CanonicalBucketParameter list"
  cs_row_filter :: "Predicate option"
  cs_request_filter :: "Predicate option"
  cs_projection :: CanonicalProjection
  cs_data_queries :: "CanonicalDataQuery list"

record CanonicalBucketGroup =
  bg_bucket_parameters :: "CanonicalBucketParameter list"
  bg_request_filter :: "Predicate option"

record StreamBucketGroup =
  sg_index :: nat
  sg_bucket_parameters :: "CanonicalBucketParameter list"
  sg_request_filter :: "Predicate option"
  sg_queries :: "CanonicalDataQuery list"

record CompiledTablePlan =
  tp_source_table :: string
  tp_object_type :: string
  tp_route_columns :: "string list"
  tp_object_id_expression :: "CanonicalComputedExpression option"

record CompiledLookupTablePlan =
  lt_source_table :: string
  lt_lookups :: "ParameterLookupPlan list"

record AccumulatorQueryTemplate =
  aq_stream_name :: string
  aq_object_type :: string
  aq_bucket_parameters :: "CanonicalBucketParameter list"
  aq_row_filter :: "Predicate option"
  aq_request_filter :: "Predicate option"
  aq_projection :: CanonicalProjection
  aq_projection_key :: string
  aq_is_default :: bool

record CanonicalSemanticPlan =
  sp_version :: nat
  sp_edition :: nat
  sp_compatibility_version :: nat
  sp_storage_version :: nat
  sp_streams :: "CanonicalStream list"

record RustExecutionPlan =
  canonical :: CanonicalSemanticPlan
  streams_by_name :: "(string \<times> CanonicalStream) list"
  tables_by_source :: "(string \<times> CompiledTablePlan) list"
  lookup_tables_by_source :: "CompiledLookupTablePlan btree"
  route_index_columns_by_object :: "(string \<times> string list list) list"
  stream_bucket_groups_by_name :: "(string \<times> StreamBucketGroup list) list"
  accumulator_queries_by_object :: "(string \<times> AccumulatorQueryTemplate list) list"
  default_stream_names :: "string list"
  storage_contract_id :: string
  storage_contract_fingerprint :: string

record ResolvedSyncQuery =
  rq_object_type :: string
  rq_route_constraints :: routes
  rq_row_filter :: "Predicate option"
  rq_request_filter :: "Predicate option"
  rq_projection :: CanonicalProjection
  rq_checkpoint_accumulator_key :: string

record ResolvedSyncBucket =
  rb_bucket_name :: string
  rb_stream_name :: string
  rb_object_type :: string
  rb_route_constraints :: routes
  rb_projection :: CanonicalProjection
  rb_projection_key :: string
  rb_queries :: "ResolvedSyncQuery list"
  rb_is_default :: bool

definition data_queries :: "CanonicalStream \<Rightarrow> CanonicalDataQuery list" where
  "data_queries s =
     (if cs_data_queries s = [] then
        [\<lparr> dq_source_table = cs_source_table s, dq_output_table = cs_output_table s,
           dq_bucket_parameters = cs_bucket_parameters s, dq_row_filter = cs_row_filter s,
           dq_request_filter = cs_request_filter s, dq_projection = cs_projection s \<rparr>]
      else cs_data_queries s)"

lemma data_queries_nonempty [simp]: "data_queries s \<noteq> []"
  by (simp add: data_queries_def)

end
