(* ===== verification/Postgres_Lsn.thy ===== *)
theory Postgres_Lsn
  imports Encoding
begin

unbundle bit_operations_syntax

text \<open>
  \<open>PostgresLsn\<close> of \<open>replication/postgres.rs\<close>: a 64-bit position printed as two upper-case hexadecimal
  32-bit halves and parsed back. Printing and parsing are inverse, the parser rejects a missing
  separator and an oversized half, and it never returns a value outside 64 bits.
\<close>

datatype PostgresLsnParseError = InvalidFormat string | InvalidHalf string

definition lsn_to_string :: "lsn \<Rightarrow> string" where
  "lsn_to_string n =
     (let high = drop_bit 32 n; low = n AND 4294967295
      in show_radix 16 high @ ''/'' @ show_radix 16 low)"

definition parse_lsn_half :: "string \<Rightarrow> PostgresLsnParseError + nat" where
  "parse_lsn_half value = ok_or (InvalidHalf value) (parse_radix 16 u32_limit value)"

definition split_once :: "char \<Rightarrow> string \<Rightarrow> (string \<times> string) option" where
  "split_once c s =
     (case dropWhile (\<lambda>x. x \<noteq> c) s of [] \<Rightarrow> None | _ # r \<Rightarrow> Some (takeWhile (\<lambda>x. x \<noteq> c) s, r))"

definition lsn_from_str :: "string \<Rightarrow> PostgresLsnParseError + lsn" where
  "lsn_from_str value =
     rbind (ok_or (InvalidFormat value) (split_once (CHR ''/'') value)) (\<lambda>(left, right).
     rbind (parse_lsn_half left) (\<lambda>l.
     rbind (parse_lsn_half right) (\<lambda>r.
       Inr (push_bit 32 l OR r))))"

lemma split_once_append: "c \<notin> set xs \<Longrightarrow> split_once c (xs @ c # ys) = Some (xs, ys)"
proof -
  assume "c \<notin> set xs"
  then have "dropWhile (\<lambda>x. x \<noteq> c) (xs @ c # ys) = c # ys"
    and "takeWhile (\<lambda>x. x \<noteq> c) (xs @ c # ys) = xs"
    by (auto simp: dropWhile_append takeWhile_append)
  then show ?thesis by (simp add: split_once_def)
qed

lemma split_once_SomeD: "split_once c s = Some (a, b) \<Longrightarrow> s = a @ c # b \<and> c \<notin> set a"
proof -
  assume s: "split_once c s = Some (a, b)"
  then obtain d r where d: "dropWhile (\<lambda>x. x \<noteq> c) s = d # r"
    by (auto simp: split_once_def split: list.splits)
  with s have ab: "a = takeWhile (\<lambda>x. x \<noteq> c) s" "b = r" by (auto simp: split_once_def)
  have "d = c" using hd_dropWhile [of "\<lambda>x. x \<noteq> c" s] d by auto
  then have "s = a @ c # b" using takeWhile_dropWhile_id [of "\<lambda>x. x \<noteq> c" s] d ab by simp
  moreover have "c \<notin> set a" using ab by (auto dest: set_takeWhileD)
  ultimately show ?thesis by simp
qed

lemma split_once_None_iff: "split_once c s = None \<longleftrightarrow> c \<notin> set s"
proof
  assume "split_once c s = None"
  then show "c \<notin> set s" by (auto simp: split_once_def split: list.splits)
next
  assume "c \<notin> set s"
  then show "split_once c s = None"
    using split_once_SomeD [of c s] by (cases "split_once c s") fastforce+
qed

lemma show_radix_no_slash: "2 \<le> b \<Longrightarrow> b \<le> 36 \<Longrightarrow> CHR ''/'' \<notin> set (show_radix b n)"
proof
  assume b: "2 \<le> b" "b \<le> 36" and "CHR ''/'' \<in> set (show_radix b n)"
  then obtain d where "d \<in> set (digits b n)" and c: "CHR ''/'' = digit_char d"
    by (auto simp: show_radix_def)
  then have d: "d < 36" using digits_less [OF b(1)] b(2) by fastforce
  have "byte_val (CHR ''/'') = byte_val (digit_char d)" using c by (rule arg_cong)
  then have "byte_val (digit_char d) = 47" by simp
  with digit_char_val [OF d] show False by (simp split: if_splits)
qed

lemma low_half: "(n :: nat) AND 4294967295 = n mod u32_limit"
proof -
  have "(4294967295 :: nat) = mask 32" by (simp add: mask_eq_exp_minus_1)
  then have "n AND 4294967295 = take_bit 32 n" by (simp add: take_bit_eq_mask)
  then show ?thesis by (simp add: take_bit_eq_mod)
qed

lemma high_half: "drop_bit 32 (n :: nat) = n div u32_limit"
  by (simp add: drop_bit_eq_div)

lemma join_halves: "r < u32_limit \<Longrightarrow> push_bit 32 l OR r = l * u32_limit + (r :: nat)"
proof -
  assume "r < u32_limit"
  then have r: "take_bit 32 r = r" by (simp add: take_bit_eq_mod)
  have "bit (push_bit 32 l) n \<Longrightarrow> \<not> bit r n" for n
    using r bit_take_bit_iff [of 32 r n] by (auto simp: bit_push_bit_iff)
  then have "push_bit 32 l + r = push_bit 32 l OR r"
    by (intro disjunctive_add) auto
  then show ?thesis by (simp add: push_bit_eq_mult)
qed

lemma parse_lsn_half_show:
  "n < u32_limit \<Longrightarrow> parse_lsn_half (show_radix 16 n) = Inr n"
  by (simp add: parse_lsn_half_def parse_show_radix)

lemma lsn_roundtrip:
  assumes "n < u64_limit"
  shows "lsn_from_str (lsn_to_string n) = Inr n"
proof -
  have "n div u32_limit < u32_limit" "n mod u32_limit < u32_limit"
    using assms by simp_all
  then show ?thesis
    by (simp add: lsn_from_str_def lsn_to_string_def Let_def low_half high_half
        split_once_append show_radix_no_slash parse_lsn_half_show join_halves)
qed

lemma lsn_from_str_bound:
  assumes "lsn_from_str s = Inr n"
  shows "n < u64_limit"
proof -
  obtain l r where "l < u32_limit" "r < u32_limit" "n = push_bit 32 l OR r"
    using assms
    by (auto simp: lsn_from_str_def parse_lsn_half_def elim!: rbindE dest!: parse_radix_bound)
  then show ?thesis by (simp add: join_halves)
qed

lemma lsn_from_str_no_separator:
  "CHR ''/'' \<notin> set s \<Longrightarrow> lsn_from_str s = Inl (InvalidFormat s)"
  by (simp add: lsn_from_str_def split_once_None_iff [symmetric])

lemma lsn_from_str_bad_half:
  assumes "split_once (CHR ''/'') s = Some (left, right)"
    and "parse_radix 16 u32_limit left = None"
  shows "lsn_from_str s = Inl (InvalidHalf left)"
  using assms by (simp add: lsn_from_str_def parse_lsn_half_def)

end
