(* ===== verification/Sync_Eval.thy ===== *)
theory Sync_Eval
  imports Sync_Model Postgres_Lsn
begin

text \<open>
  Evaluation of compiled sync rules (\<open>sync_rules/eval.rs\<close>, \<open>sync_rules/catalog.rs\<close>): row and request
  predicates, route matching, row serialization and projections, bucket-name resolution, the route
  indexes and accumulator buckets of a row.
\<close>

section \<open>Serialized form of plan values\<close>

text \<open>
  The derived \<open>Serialize\<close> instances of the plan types. The argument \<open>mk\<close> builds an object from its
  entries in declaration order: \<open>JObject\<close> when the value is written directly, \<open>js_obj J\<close> when the
  value is first collected into a \<open>serde_json::Map\<close>.
\<close>

definition js_obj :: "json_lib \<Rightarrow> json_object \<Rightarrow> json" where
  "js_obj J es = JObject (foldl (\<lambda>m (k, v). js_insert J k v m) [] es)"

fun literal_json :: "(json_object \<Rightarrow> json) \<Rightarrow> LiteralValue \<Rightarrow> json" where
  "literal_json mk (String_Lit s) = mk [(''type'', JString ''string''), (''value'', JString s)]"
| "literal_json mk (Integer_Lit i) = mk [(''type'', JString ''integer''), (''value'', json_of_int i)]"
| "literal_json mk (Boolean_Lit b) = mk [(''type'', JString ''boolean''), (''value'', JBool b)]"
| "literal_json mk Null_Lit = mk [(''type'', JString ''null'')]"

definition tagged :: "(json_object \<Rightarrow> json) \<Rightarrow> string \<Rightarrow> json_object \<Rightarrow> json" where
  "tagged mk t es = mk ((''type'', JString t) # es)"

primrec binding_json :: "(json_object \<Rightarrow> json) \<Rightarrow> CanonicalBinding \<Rightarrow> json"
  and lookup_json :: "(json_object \<Rightarrow> json) \<Rightarrow> ParameterLookupPlan \<Rightarrow> json"
  and predicate_json :: "(json_object \<Rightarrow> json) \<Rightarrow> Predicate \<Rightarrow> json"
  and operand_json :: "(json_object \<Rightarrow> json) \<Rightarrow> Operand \<Rightarrow> json" where
  "binding_json mk (AuthParameter n) = tagged mk ''auth_parameter'' [(''name'', JString n)]"
| "binding_json mk (SubscriptionParameter n) =
     tagged mk ''subscription_parameter'' [(''name'', JString n)]"
| "binding_json mk RequestUserId = tagged mk ''request_user_id'' []"
| "binding_json mk (RequestJwt c) = tagged mk ''request_jwt'' [(''claim'', JString c)]"
| "binding_json mk (RequestParameter n) = tagged mk ''request_parameter'' [(''name'', JString n)]"
| "binding_json mk (RequestParameterArray n) =
     tagged mk ''request_parameter_array'' [(''name'', JString n)]"
| "binding_json mk (ParameterQueryColumn n l) =
     tagged mk ''parameter_query_column'' [(''name'', JString n), (''lookup'', lookup_json mk l)]"
| "binding_json mk (BucketParameter n) = tagged mk ''bucket_parameter'' [(''name'', JString n)]"
| "lookup_json mk (ParameterLookupPlan q t sel kb rp lid) =
     mk ([(''raw_query'', JString q), (''source_table'', JString t),
          (''selected'', JArray (map (\<lambda>c. mk [(''alias'', JString (sel_alias c)),
             (''column'', JString (sel_column c))]) sel)),
          (''key_bindings'',
             JArray (map (\<lambda>(c, j). JArray [JString c, j]) (map (map_prod id (binding_json mk)) kb)))]
         @ (case map_option (predicate_json mk) rp of None \<Rightarrow> [] | Some j \<Rightarrow> [(''row_predicate'', j)])
         @ [(''lookup_id'', JString lid)])"
| "predicate_json mk (And ts) = tagged mk ''and'' [(''terms'', JArray (map (predicate_json mk) ts))]"
| "predicate_json mk (Or ts) = tagged mk ''or'' [(''terms'', JArray (map (predicate_json mk) ts))]"
| "predicate_json mk (IsNull x n) =
     tagged mk ''is_null'' [(''operand'', operand_json mk x), (''negated'', JBool n)]"
| "predicate_json mk (Eq x y) =
     tagged mk ''eq'' [(''left'', operand_json mk x), (''right'', operand_json mk y)]"
| "predicate_json mk (In x y) =
     tagged mk ''in'' [(''left'', operand_json mk x), (''right'', operand_json mk y)]"
| "operand_json mk (Column n) = tagged mk ''column'' [(''name'', JString n)]"
| "operand_json mk (Literal l) = tagged mk ''literal'' [(''value'', literal_json mk l)]"
| "operand_json mk (Binding b) = tagged mk ''binding'' [(''binding'', binding_json mk b)]"

fun computed_term_json :: "(json_object \<Rightarrow> json) \<Rightarrow> CanonicalComputedTerm \<Rightarrow> json" where
  "computed_term_json mk (ComputedColumn c) = tagged mk ''column'' [(''source_column'', JString c)]"
| "computed_term_json mk (ComputedLiteral v) = tagged mk ''literal'' [(''value'', JString v)]"

fun projection_json :: "(json_object \<Rightarrow> json) \<Rightarrow> CanonicalProjection \<Rightarrow> json" where
  "projection_json mk Star = tagged mk ''star'' []"
| "projection_json mk (StarWithComputed cs) = tagged mk ''star_with_computed''
     [(''computed'', JArray (map (\<lambda>c. mk [(''alias'', JString (cc_alias c)),
        (''expression'', mk [(''terms'',
           JArray (map (computed_term_json mk) (ce_terms (cc_expression c))))])]) cs))]"
| "projection_json mk (Columns cs) = tagged mk ''columns''
     [(''columns'', JArray (map (\<lambda>c. mk [(''source_column'', JString (pc_source_column c)),
        (''alias'', JString (pc_alias c))]) cs))]"

definition option_json :: "('a \<Rightarrow> json) \<Rightarrow> 'a option \<Rightarrow> json" where
  "option_json f x = (case x of None \<Rightarrow> JNull | Some a \<Rightarrow> f a)"

definition routes_json :: "(json_object \<Rightarrow> json) \<Rightarrow> routes \<Rightarrow> json" where
  "routes_json mk rs = mk (map (\<lambda>(k, v). (k, JString v)) rs)"

definition checkpoint_accumulator_name ::
  "json_lib \<Rightarrow> string \<Rightarrow> routes \<Rightarrow> Predicate option \<Rightarrow> Predicate option \<Rightarrow> CanonicalProjection \<Rightarrow> string" where
  "checkpoint_accumulator_name J object_type route_constraints row_filter request_filter projection =
     (let mk = js_obj J in
      js_to_string J (mk [(''object_type'', JString object_type),
        (''route_constraints'', routes_json mk route_constraints),
        (''row_filter'', option_json (predicate_json mk) row_filter),
        (''request_filter'', option_json (predicate_json mk) request_filter),
        (''projection'', projection_json mk projection)]))"

definition accumulator_fingerprint ::
  "json_lib \<Rightarrow> string \<Rightarrow> routes \<Rightarrow> Predicate option \<Rightarrow> Predicate option \<Rightarrow> CanonicalProjection \<Rightarrow> string" where
  "accumulator_fingerprint J object_type route_constraints row_filter request_filter projection =
     js_to_string J (JArray [JString object_type, routes_json JObject route_constraints,
        option_json (predicate_json JObject) row_filter,
        option_json (predicate_json JObject) request_filter, projection_json JObject projection])"

definition projection_key :: "json_lib \<Rightarrow> CanonicalProjection \<Rightarrow> string" where
  "projection_key J projection = js_to_string J (projection_json JObject projection)"

section \<open>Comparison\<close>

definition json_values_equal :: "json \<Rightarrow> json \<Rightarrow> bool" where
  "json_values_equal left right \<longleftrightarrow>
     json_eq left right \<or>
     (case as_str left of None \<Rightarrow> False
      | Some l \<Rightarrow>
          as_str right = Some l
          \<or> (case as_i64 right of None \<Rightarrow> False | Some number \<Rightarrow> l = int_to_string number)
          \<or> (case as_u64 right of None \<Rightarrow> False | Some number \<Rightarrow> l = decimal number)
          \<or> (case as_bool right of None \<Rightarrow> False
             | Some b \<Rightarrow> eq_ignore_ascii_case l (if b then ''true'' else ''false'')))"

definition route_json_array_contains :: "json_lib \<Rightarrow> string \<Rightarrow> string \<Rightarrow> bool" where
  "route_json_array_contains J actual expected \<longleftrightarrow>
     (case js_from_str J actual of None \<Rightarrow> False
      | Some value \<Rightarrow>
          (case as_array value of None \<Rightarrow> False
           | Some vs \<Rightarrow> list_ex (\<lambda>v. as_str v = Some expected
               \<or> (case as_i64 v of None \<Rightarrow> False | Some n \<Rightarrow> int_to_string n = expected)
               \<or> (case as_u64 v of None \<Rightarrow> False | Some n \<Rightarrow> decimal n = expected)) vs))"

definition route_constraints_match :: "json_lib \<Rightarrow> routes \<Rightarrow> routes \<Rightarrow> bool" where
  "route_constraints_match J route_constraints route_fields \<longleftrightarrow>
     list_all (\<lambda>(key, expected).
       case map_of route_fields key of None \<Rightarrow> False
       | Some actual \<Rightarrow> actual = expected \<or> route_json_array_contains J actual expected)
     route_constraints"

section \<open>Row predicates\<close>

fun row_operand_value :: "Operand \<Rightarrow> json \<Rightarrow> json option" where
  "row_operand_value (Literal value) row = Some (literal_to_json value)"
| "row_operand_value (Column name) row =
     (case as_object row of None \<Rightarrow> None | Some obj \<Rightarrow> map_of obj name)"
| "row_operand_value (Binding _) row = None"

definition in_eval :: "json option \<Rightarrow> json option \<Rightarrow> bool" where
  "in_eval left right =
     (case (left, right) of
        (Some l, Some (JArray vs)) \<Rightarrow> list_ex (json_values_equal l) vs
      | (Some l, Some r) \<Rightarrow> json_values_equal l r
      | _ \<Rightarrow> False)"

definition eq_eval :: "json option \<Rightarrow> json option \<Rightarrow> bool" where
  "eq_eval left right =
     (case (left, right) of (Some l, Some r) \<Rightarrow> json_values_equal l r | _ \<Rightarrow> False)"

fun row_predicate_eval :: "Predicate \<Rightarrow> json \<Rightarrow> bool" where
  "row_predicate_eval (And terms) row = list_all (\<lambda>t. row_predicate_eval t row) terms"
| "row_predicate_eval (Or terms) row = list_ex (\<lambda>t. row_predicate_eval t row) terms"
| "row_predicate_eval (IsNull operand negated) row =
     (let null = (case row_operand_value operand row of None \<Rightarrow> True | Some v \<Rightarrow> is_null v) in
      if negated then \<not> null else null)"
| "row_predicate_eval (In left right) row =
     in_eval (row_operand_value left row) (row_operand_value right row)"
| "row_predicate_eval (Eq left right) row =
     eq_eval (row_operand_value left row) (row_operand_value right row)"

definition row_filter_matches :: "json_lib \<Rightarrow> Predicate option \<Rightarrow> string \<Rightarrow> bool" where
  "row_filter_matches J row_filter data_json =
     (case row_filter of None \<Rightarrow> True
      | Some p \<Rightarrow> (case js_from_str J data_json of None \<Rightarrow> False
                  | Some value \<Rightarrow> row_predicate_eval p value))"

section \<open>Request predicates\<close>

fun request_operand_value :: "Operand \<Rightarrow> (CanonicalBinding \<Rightarrow> string option) \<Rightarrow> string option" where
  "request_operand_value (Binding b) binding_value = binding_value b"
| "request_operand_value (Literal _) binding_value = None"
| "request_operand_value (Column _) binding_value = None"

definition binding_equals_literal ::
  "CanonicalBinding \<Rightarrow> Operand \<Rightarrow> (CanonicalBinding \<Rightarrow> string option) \<Rightarrow> bool" where
  "binding_equals_literal b other binding_value =
     (case binding_value b of None \<Rightarrow> False
      | Some actual \<Rightarrow>
          (case other of Literal value \<Rightarrow> json_values_equal (JString actual) (literal_to_json value)
           | _ \<Rightarrow> False))"

fun request_eq :: "Operand \<Rightarrow> Operand \<Rightarrow> (CanonicalBinding \<Rightarrow> string option) \<Rightarrow> bool" where
  "request_eq (Binding b) other binding_value = binding_equals_literal b other binding_value"
| "request_eq other (Binding b) binding_value = binding_equals_literal b other binding_value"
| "request_eq _ _ _ = False"

fun request_predicate_eval :: "Predicate \<Rightarrow> (CanonicalBinding \<Rightarrow> string option) \<Rightarrow> bool" where
  "request_predicate_eval (And terms) bv = list_all (\<lambda>t. request_predicate_eval t bv) terms"
| "request_predicate_eval (Or terms) bv = list_ex (\<lambda>t. request_predicate_eval t bv) terms"
| "request_predicate_eval (IsNull operand negated) bv =
     (let null = (case request_operand_value operand bv of None \<Rightarrow> True | Some v \<Rightarrow> v = []) in
      if negated then \<not> null else null)"
| "request_predicate_eval (Eq left right) bv = request_eq left right bv"
| "request_predicate_eval (In _ _) bv = False"

definition request_filter_matches ::
  "Predicate option \<Rightarrow> (CanonicalBinding \<Rightarrow> string option) \<Rightarrow> bool" where
  "request_filter_matches request_filter binding_value =
     (case request_filter of None \<Rightarrow> True | Some p \<Rightarrow> request_predicate_eval p binding_value)"

end
