(* ===== verification/Row_Json.thy ===== *)
theory Row_Json
  imports Sync_Eval
begin

text \<open>
  Rows as JSON (\<open>sync_rules/eval.rs\<close>): typed serialization of a replicated row, canonical timestamps,
  computed expressions, object ids, route fields, and the projection of a stored document or of a
  row for a bucket.
\<close>

section \<open>Canonical timestamps\<close>

definition white_space :: "bytes list" where
  "white_space =
     map (\<lambda>n. [char_of (n :: nat)]) [9, 10, 11, 12, 13, 32]
     @ map (map (char_of :: nat \<Rightarrow> char))
         ([[0xC2, 0x85], [0xC2, 0xA0], [0xE1, 0x9A, 0x80]]
          @ map (\<lambda>n. [0xE2, 0x80, n]) ([0x80..<0x8B] @ [0xA8, 0xA9, 0xAF])
          @ [[0xE2, 0x81, 0x9F], [0xE3, 0x80, 0x80]])"

text \<open>Every step drops at least one byte, so \<open>length s\<close> steps are enough.\<close>

fun strip_leading :: "bytes list \<Rightarrow> nat \<Rightarrow> bytes \<Rightarrow> bytes" where
  "strip_leading ws 0 s = s"
| "strip_leading ws (Suc n) s =
     (case find (\<lambda>w. take (length w) s = w) ws of
        None \<Rightarrow> s
      | Some w \<Rightarrow> strip_leading ws n (drop (length w) s))"

definition trim :: "string \<Rightarrow> string" where
  "trim s =
     (let t = strip_leading white_space (length s) s in
      rev (strip_leading (map rev white_space) (length t) (rev t)))"

definition looks_like_timestamp :: "string \<Rightarrow> bool" where
  "looks_like_timestamp text \<longleftrightarrow>
     length text \<ge> 10 \<and> list_all is_ascii_digit (take 4 text) \<and> text ! 4 = CHR ''-''
     \<and> is_ascii_digit (text ! 5) \<and> is_ascii_digit (text ! 6) \<and> text ! 7 = CHR ''-''
     \<and> is_ascii_digit (text ! 8) \<and> is_ascii_digit (text ! 9)"

definition split_timestamp_timezone :: "string \<Rightarrow> string \<times> string" where
  "split_timestamp_timezone text =
     (if text \<noteq> [] \<and> last text = CHR ''Z'' then (butlast text, ''Z'')
      else
        (case find (\<lambda>i. text ! i = CHR ''+'' \<or> text ! i = CHR ''-'') (rev [10..<length text]) of
           Some i \<Rightarrow> (take i text, drop i text)
         | None \<Rightarrow> (text, [])))"

fun replace_first :: "char \<Rightarrow> char \<Rightarrow> string \<Rightarrow> string" where
  "replace_first a b [] = []"
| "replace_first a b (c # s) = (if c = a then b # s else c # replace_first a b s)"

definition rsplit_once :: "char \<Rightarrow> string \<Rightarrow> (string \<times> string) option" where
  "rsplit_once c s = map_option (\<lambda>(a, b). (rev b, rev a)) (split_once c (rev s))"

definition normalize_fraction :: "string \<Rightarrow> sync_error + string" where
  "normalize_fraction fraction =
     (if length fraction < 6 then Inr (fraction @ replicate (6 - length fraction) (CHR ''0''))
      else if length fraction > 6 then
        (if utf8_cont (fraction ! 6) then Inl SyncPanic else Inr (take 6 fraction))
      else Inr fraction)"

definition canonical_timestamp_string :: "string \<Rightarrow> sync_error + string option" where
  "canonical_timestamp_string text =
     (let trimmed = trim text in
      if \<not> looks_like_timestamp trimmed then Inr None
      else
        (let (date_time, timezone) = split_timestamp_timezone trimmed;
             normalized = replace_first (CHR '' '') (CHR ''T'') date_time in
         rbind
           (if CHR ''.'' \<notin> set normalized then Inr (normalized @ ''.000000'')
            else (case rsplit_once (CHR ''.'') normalized of
                    None \<Rightarrow> Inr normalized
                  | Some (prefix, fraction) \<Rightarrow>
                      rbind (normalize_fraction fraction) (\<lambda>f. Inr (prefix @ ''.'' @ f))))
           (\<lambda>normalized.
              Inr (Some (if timezone \<in> {'''', ''Z'', ''+00'', ''+00:00'', ''+0000''}
                         then normalized @ ''Z'' else normalized @ timezone)))))"

section \<open>Typed column values\<close>

definition serialize_json_number :: "json_lib \<Rightarrow> string \<Rightarrow> json" where
  "serialize_json_number J text =
     (case parse_i64 text of Some i \<Rightarrow> json_of_int i
      | None \<Rightarrow> (case parse_u64 text of Some n \<Rightarrow> JPos n
        | None \<Rightarrow> (case js_parse_f64 J text of
              Some x \<Rightarrow> if f64_is_finite x then JFloat x else JString text
            | None \<Rightarrow> JString text)))"

definition serialize_json_bool :: "string \<Rightarrow> json" where
  "serialize_json_bool text =
     (if text \<in> {''t'', ''true'', ''TRUE''} then JBool True
      else if text \<in> {''f'', ''false'', ''FALSE''} then JBool False
      else JString text)"

definition serialize_json_text :: "json_lib \<Rightarrow> string \<Rightarrow> json" where
  "serialize_json_text J text =
     (case js_from_str J text of Some value \<Rightarrow> value | None \<Rightarrow> JString text)"

definition json_column_value :: "json_lib \<Rightarrow> column_value \<Rightarrow> JsonColumnType \<Rightarrow> sync_error + json" where
  "json_column_value J v column_type =
     (case cv_as_str v of
        None \<Rightarrow> Inr (cv_json v)
      | Some text \<Rightarrow>
          (case column_type of
             String_Type \<Rightarrow> Inr (JString text)
           | Number_Type \<Rightarrow> Inr (serialize_json_number J text)
           | Boolean_Type \<Rightarrow> Inr (serialize_json_bool text)
           | Timestamp_Type \<Rightarrow>
               rbind (canonical_timestamp_string text) (\<lambda>c.
                 Inr (JString (case c of Some t \<Rightarrow> t | None \<Rightarrow> text)))
           | Json_Type \<Rightarrow> Inr (serialize_json_text J text)))"

definition column_type_of :: "JsonColumnTypes option \<Rightarrow> string \<Rightarrow> JsonColumnType" where
  "column_type_of column_types name =
     (case column_types of None \<Rightarrow> String_Type
      | Some types \<Rightarrow> (case map_of types name of None \<Rightarrow> String_Type | Some ty \<Rightarrow> ty))"

section \<open>Rows\<close>

definition serialize_row_json_fields ::
  "json_lib \<Rightarrow> row_data \<Rightarrow> JsonColumnTypes option \<Rightarrow> sync_error + string" where
  "serialize_row_json_fields J fs column_types =
     rbind (rmap (\<lambda>(name, v). rbind (json_column_value J v (column_type_of column_types name))
                    (\<lambda>j. Inr (name, j))) fs)
       (\<lambda>entries. Inr (js_entries J entries))"

definition serialize_full_row_json :: "json_lib \<Rightarrow> row_data \<Rightarrow> sync_error + string" where
  "serialize_full_row_json J data = serialize_row_json_fields J (sort_key fst data) None"

definition serialize_full_row_json_with_column_types ::
  "json_lib \<Rightarrow> row_data \<Rightarrow> JsonColumnTypes \<Rightarrow> sync_error + string" where
  "serialize_full_row_json_with_column_types J data column_types =
     serialize_row_json_fields J (sort_key fst data) (Some column_types)"

definition serialize_full_row_json_presorted :: "json_lib \<Rightarrow> row_data \<Rightarrow> sync_error + string" where
  "serialize_full_row_json_presorted J data = serialize_row_json_fields J data None"

definition serialize_full_row_json_presorted_with_column_types ::
  "json_lib \<Rightarrow> row_data \<Rightarrow> JsonColumnTypes \<Rightarrow> sync_error + string" where
  "serialize_full_row_json_presorted_with_column_types J data column_types =
     serialize_row_json_fields J data (Some column_types)"

definition serialize_projected_row_json_fields ::
  "json_lib \<Rightarrow> row_data \<Rightarrow> CanonicalProjectedColumn list \<Rightarrow> JsonColumnTypes option \<Rightarrow> sync_error + string" where
  "serialize_projected_row_json_fields J data columns column_types =
     rbind (rmap (\<lambda>c. case map_of data (pc_source_column c) of
               None \<Rightarrow> Inl (SyncRuleError ''row is missing projected column'')
             | Some v \<Rightarrow> rbind (json_column_value J v (column_type_of column_types (pc_source_column c)))
                          (\<lambda>j. Inr (pc_alias c, j))) columns)
       (\<lambda>entries. Inr (js_entries J entries))"

definition column_value_to_route_string :: "column_value \<Rightarrow> string option" where
  "column_value_to_route_string v = (if cv_is_null v then None else Some (cv_display v))"

definition row_route_value :: "row_data \<Rightarrow> string \<Rightarrow> string option" where
  "row_route_value data column = Option.bind (map_of data column) column_value_to_route_string"

definition route_fields_for_row ::
  "CompiledTablePlan \<Rightarrow> row_data \<Rightarrow> bool \<Rightarrow> sync_error + routes" where
  "route_fields_for_row tp data required =
     rbind (rmap (\<lambda>column. case row_route_value data column of
               Some value \<Rightarrow> Inr (Some (column, value))
             | None \<Rightarrow> if required then Inl (SyncRuleError ''change is missing required route column'')
                       else Inr None) (tp_route_columns tp))
       (\<lambda>pairs. Inr (bt_of_list (List.map_filter id pairs)))"

definition evaluate_computed_expression_for_row ::
  "CanonicalComputedExpression \<Rightarrow> row_data \<Rightarrow> sync_error + string" where
  "evaluate_computed_expression_for_row expression row =
     rfold (\<lambda>output term. case term of
         ComputedLiteral value \<Rightarrow> Inr (output @ value)
       | ComputedColumn source_column \<Rightarrow>
           (case row_route_value row source_column of
              None \<Rightarrow> Inl (SyncRuleError ''change is missing required object id column'')
            | Some value \<Rightarrow> Inr (output @ value))) [] (ce_terms expression)"

definition object_id_for_row :: "CompiledTablePlan \<Rightarrow> row_data \<Rightarrow> sync_error + string" where
  "object_id_for_row tp data =
     (case tp_object_id_expression tp of
        None \<Rightarrow> ok_or (SyncRuleError ''change is missing required object id column id'')
                  (row_route_value data ''id'')
      | Some expression \<Rightarrow> evaluate_computed_expression_for_row expression data)"

section \<open>Projections\<close>

definition scalar_text :: "json \<Rightarrow> string option" where
  "scalar_text value =
     (case as_str value of Some s \<Rightarrow> Some s
      | None \<Rightarrow> (case as_i64 value of Some i \<Rightarrow> Some (int_to_string i)
        | None \<Rightarrow> (case as_u64 value of Some n \<Rightarrow> Some (decimal n)
          | None \<Rightarrow> (case as_bool value of Some b \<Rightarrow> Some (if b then ''true'' else ''false'')
            | None \<Rightarrow> None))))"

definition evaluate_computed_expression ::
  "CanonicalComputedExpression \<Rightarrow> json_object \<Rightarrow> sync_error + string" where
  "evaluate_computed_expression expression obj =
     rfold (\<lambda>output term. case term of
         ComputedLiteral value \<Rightarrow> Inr (output @ value)
       | ComputedColumn source_column \<Rightarrow>
           (case map_of obj source_column of
              None \<Rightarrow> Inl (SyncRuleError ''persisted JSON is missing computed projection column'')
            | Some value \<Rightarrow>
                (case scalar_text value of
                   None \<Rightarrow> Inl (SyncRuleError ''computed projection column is not scalar'')
                 | Some s \<Rightarrow> Inr (output @ s)))) [] (ce_terms expression)"

definition decode_persisted_object :: "json_lib \<Rightarrow> string \<Rightarrow> sync_error + json_object" where
  "decode_persisted_object J data_json =
     rbind (ok_or (SyncRuleError ''failed to decode persisted JSON'') (js_from_str J data_json))
       (\<lambda>value. ok_or (SyncRuleError ''persisted JSON is not an object'') (as_object value))"

definition insert_computed_columns ::
  "json_lib \<Rightarrow> json_object \<Rightarrow> CanonicalComputedColumn list \<Rightarrow> sync_error + json_object" where
  "insert_computed_columns J obj computed =
     rfold (\<lambda>obj c. rbind (evaluate_computed_expression (cc_expression c) obj)
              (\<lambda>s. Inr (js_insert J (cc_alias c) (JString s) obj))) obj computed"

definition project_with ::
  "json_lib \<Rightarrow> CanonicalProjection \<Rightarrow> string \<Rightarrow> sync_error + string" where
  "project_with J projection data_json =
     (case projection of
        Star \<Rightarrow> Inr data_json
      | StarWithComputed computed \<Rightarrow>
          rbind (decode_persisted_object J data_json) (\<lambda>obj.
          rbind (insert_computed_columns J obj computed) (\<lambda>obj.
            Inr (js_to_string J (JObject obj))))
      | Columns columns \<Rightarrow>
          rbind (decode_persisted_object J data_json) (\<lambda>obj.
          rbind (rfold (\<lambda>projected c. case map_of obj (pc_source_column c) of
                     None \<Rightarrow> Inl (SyncRuleError ''persisted JSON is missing column'')
                   | Some value \<Rightarrow> Inr (js_insert J (pc_alias c) value projected)) [] columns)
            (\<lambda>projected. Inr (js_to_string J (JObject projected)))))"

definition project_row_json_from_serialized ::
  "json_lib \<Rightarrow> row_data \<Rightarrow> CanonicalProjection \<Rightarrow> string \<Rightarrow> JsonColumnTypes option \<Rightarrow> sync_error + string" where
  "project_row_json_from_serialized J data projection data_json column_types =
     (case projection of
        Star \<Rightarrow> Inr data_json
      | StarWithComputed computed \<Rightarrow>
          rbind (decode_persisted_object J data_json) (\<lambda>obj.
          rbind (insert_computed_columns J obj computed) (\<lambda>obj.
            Inr (js_to_string J (JObject obj))))
      | Columns columns \<Rightarrow> serialize_projected_row_json_fields J data columns column_types)"

end
