(* ===== verification/Bucket_Plan.thy ===== *)
theory Bucket_Plan
  imports Row_Json
begin

text \<open>
  Buckets (\<open>sync_rules/eval.rs\<close>, \<open>sync_rules/catalog.rs\<close>): grouping the data queries of a stream,
  resolving a bucket name to its queries, matching a document against a bucket, projecting it, and
  the route indexes and accumulator buckets a row takes part in.
\<close>

section \<open>Bucket groups of a stream\<close>

definition merge_bucket_parameter ::
  "CanonicalBucketParameter list \<Rightarrow> CanonicalBucketParameter \<Rightarrow> CanonicalBucketParameter list" where
  "merge_bucket_parameter merged p =
     (if list_ex (\<lambda>e. bp_name e = bp_name p \<and> bp_binding e = bp_binding p) merged then merged
      else merged @ [\<lparr> bp_name = bp_name p, bp_source_column = bp_name p, bp_binding = bp_binding p \<rparr>])"

definition merged_bucket_parameters_from_queries ::
  "CanonicalBucketParameter list list \<Rightarrow> CanonicalBucketParameter list" where
  "merged_bucket_parameters_from_queries queries =
     foldl (foldl merge_bucket_parameter) [] queries"

fun add_query_to_group ::
  "CanonicalBucketParameter list \<Rightarrow> Predicate option \<Rightarrow> CanonicalDataQuery \<Rightarrow>
   StreamBucketGroup list \<Rightarrow> StreamBucketGroup list option" where
  "add_query_to_group params flt query [] = None"
| "add_query_to_group params flt query (g # gs) =
     (if sg_bucket_parameters g = params \<and> sg_request_filter g = flt
      then Some (g\<lparr>sg_queries := sg_queries g @ [query]\<rparr> # gs)
      else map_option (\<lambda>gs'. g # gs') (add_query_to_group params flt query gs))"

definition push_query :: "StreamBucketGroup list \<Rightarrow> CanonicalDataQuery \<Rightarrow> StreamBucketGroup list" where
  "push_query groups query =
     (let params = merged_bucket_parameters_from_queries [dq_bucket_parameters query];
          flt = dq_request_filter query in
      case add_query_to_group params flt query groups of
        Some groups' \<Rightarrow> groups'
      | None \<Rightarrow> groups @ [\<lparr> sg_index = length groups, sg_bucket_parameters = params,
                            sg_request_filter = flt, sg_queries = [query] \<rparr>])"

definition stream_bucket_groups :: "CanonicalStream \<Rightarrow> StreamBucketGroup list" where
  "stream_bucket_groups s = foldl push_query [] (data_queries s)"

definition bucket_parameter_groups :: "CanonicalStream \<Rightarrow> CanonicalBucketParameter list list" where
  "bucket_parameter_groups s = map sg_bucket_parameters (stream_bucket_groups s)"

definition bucket_groups :: "CanonicalStream \<Rightarrow> CanonicalBucketGroup list" where
  "bucket_groups s =
     map (\<lambda>g. \<lparr> bg_bucket_parameters = sg_bucket_parameters g,
               bg_request_filter = sg_request_filter g \<rparr>) (stream_bucket_groups s)"

section \<open>Bucket names\<close>

definition STREAM_BUCKET_PREFIX :: string where
  "STREAM_BUCKET_PREFIX = ''1#''"

definition bucket_name_for_stream_group :: "json_lib \<Rightarrow> string \<Rightarrow> nat \<Rightarrow> string list \<Rightarrow> string" where
  "bucket_name_for_stream_group J stream_name group_index values =
     STREAM_BUCKET_PREFIX @ stream_name @ ''|'' @ decimal group_index
     @ js_to_string J (JArray (map JString values))"

definition parse_bucket_values :: "json_lib \<Rightarrow> string \<Rightarrow> string list option" where
  "parse_bucket_values J encoded_values =
     Option.bind (js_from_str J encoded_values) (\<lambda>value.
     Option.bind (as_array value) (omap as_str))"

definition find_char :: "char \<Rightarrow> string \<Rightarrow> nat option" where
  "find_char c s = (if c \<in> set s then Some (length (takeWhile (\<lambda>d. d \<noteq> c) s)) else None)"

definition resolve_query :: "json_lib \<Rightarrow> routes \<Rightarrow> CanonicalDataQuery \<Rightarrow> ResolvedSyncQuery" where
  "resolve_query J route_values query =
     (let route_constraints = bt_of_list (List.map_filter (\<lambda>p.
            map_option (\<lambda>value. (bp_source_column p, value)) (map_of route_values (bp_name p)))
            (dq_bucket_parameters query)) in
      \<lparr> rq_object_type = dq_output_table query, rq_route_constraints = route_constraints,
        rq_row_filter = dq_row_filter query, rq_request_filter = dq_request_filter query,
        rq_projection = dq_projection query,
        rq_checkpoint_accumulator_key =
          checkpoint_accumulator_name J (dq_output_table query) route_constraints
            (dq_row_filter query) (dq_request_filter query) (dq_projection query) \<rparr>)"

definition resolve_group ::
  "json_lib \<Rightarrow> string \<Rightarrow> CanonicalStream \<Rightarrow> StreamBucketGroup \<Rightarrow> string list \<Rightarrow> ResolvedSyncBucket option" where
  "resolve_group J name stream grp values =
     (let params = sg_bucket_parameters grp in
      if length values \<noteq> length params then None
      else
        (let route_values = bt_of_list (zip (map bp_name params) values) in
         case map (resolve_query J route_values) (sg_queries grp) of
           [] \<Rightarrow> None
         | first # rest \<Rightarrow>
             Some \<lparr> rb_bucket_name = name, rb_stream_name = cs_name stream,
                    rb_object_type = rq_object_type first,
                    rb_route_constraints = rq_route_constraints first,
                    rb_projection = rq_projection first,
                    rb_projection_key = projection_key J (rq_projection first),
                    rb_queries = first # rest,
                    rb_is_default = (cs_auto_subscribe stream \<and> params = []) \<rparr>))"

definition resolve_bucket_request ::
  "json_lib \<Rightarrow> RustExecutionPlan \<Rightarrow> string \<Rightarrow> ResolvedSyncBucket option" where
  "resolve_bucket_request J plan name =
     Option.bind (strip_prefix STREAM_BUCKET_PREFIX name) (\<lambda>suffix.
     Option.bind (split_once (CHR ''|'') suffix) (\<lambda>(stream_name, group_and_values).
     Option.bind (find_char (CHR ''['') group_and_values) (\<lambda>values_start.
     Option.bind (parse_u64 (take values_start group_and_values)) (\<lambda>group_index.
     Option.bind (parse_bucket_values J (drop values_start group_and_values)) (\<lambda>values.
     Option.bind (map_of (streams_by_name plan) stream_name) (\<lambda>stream.
     Option.bind (map_of (stream_bucket_groups_by_name plan) stream_name) (\<lambda>groups.
     Option.bind (find (\<lambda>g. sg_index g = group_index) groups) (\<lambda>grp.
       resolve_group J name stream grp values))))))))"

definition default_bucket_requests_matching ::
  "json_lib \<Rightarrow> RustExecutionPlan \<Rightarrow> (CanonicalBinding \<Rightarrow> string option) \<Rightarrow> ResolvedSyncBucket list" where
  "default_bucket_requests_matching J plan binding_value =
     concat (List.map_filter (\<lambda>stream_name.
       map_option (\<lambda>groups.
         List.map_filter (\<lambda>g. resolve_bucket_request J plan
                                (bucket_name_for_stream_group J stream_name (sg_index g) []))
           (filter (\<lambda>g. sg_bucket_parameters g = [] \<and>
                       request_filter_matches (sg_request_filter g) binding_value) groups))
       (map_of (stream_bucket_groups_by_name plan) stream_name)) (default_stream_names plan))"

definition default_bucket_requests :: "json_lib \<Rightarrow> RustExecutionPlan \<Rightarrow> ResolvedSyncBucket list" where
  "default_bucket_requests J plan =
     concat (List.map_filter (\<lambda>stream_name.
       map_option (\<lambda>groups.
         List.map_filter (\<lambda>g. resolve_bucket_request J plan
                                (bucket_name_for_stream_group J stream_name (sg_index g) []))
           (filter (\<lambda>g. sg_bucket_parameters g = []) groups))
       (map_of (stream_bucket_groups_by_name plan) stream_name)) (default_stream_names plan))"

section \<open>Lookups in the plan\<close>

definition table_plan :: "RustExecutionPlan \<Rightarrow> string \<Rightarrow> CompiledTablePlan option" where
  "table_plan plan source_table = map_of (tables_by_source plan) source_table"

definition lookup_table_plan :: "RustExecutionPlan \<Rightarrow> string \<Rightarrow> CompiledLookupTablePlan option" where
  "lookup_table_plan plan source_table =
     (case map_of (lookup_tables_by_source plan) source_table of
        Some l \<Rightarrow> Some l
      | None \<Rightarrow> Option.bind (strip_prefix ''public.'' source_table)
                  (map_of (lookup_tables_by_source plan)))"

definition stream_lookup :: "RustExecutionPlan \<Rightarrow> string \<Rightarrow> CanonicalStream option" where
  "stream_lookup plan name = map_of (streams_by_name plan) name"

section \<open>Matching and projecting a document\<close>

definition query_for_object_and_routes ::
  "json_lib \<Rightarrow> ResolvedSyncBucket \<Rightarrow> string \<Rightarrow> routes \<Rightarrow> ResolvedSyncQuery option" where
  "query_for_object_and_routes J bucket object_type route_fields =
     find (\<lambda>q. rq_object_type q = object_type
               \<and> route_constraints_match J (rq_route_constraints q) route_fields) (rb_queries bucket)"

definition matches_object_and_routes ::
  "json_lib \<Rightarrow> ResolvedSyncBucket \<Rightarrow> string \<Rightarrow> routes \<Rightarrow> bool" where
  "matches_object_and_routes J bucket object_type route_fields \<longleftrightarrow>
     query_for_object_and_routes J bucket object_type route_fields \<noteq> None"

definition matches_object_routes_and_data ::
  "json_lib \<Rightarrow> ResolvedSyncBucket \<Rightarrow> string \<Rightarrow> routes \<Rightarrow> string \<Rightarrow> bool" where
  "matches_object_routes_and_data J bucket object_type route_fields data_json \<longleftrightarrow>
     (case query_for_object_and_routes J bucket object_type route_fields of
        None \<Rightarrow> False
      | Some q \<Rightarrow> row_filter_matches J (rq_row_filter q) data_json)"

definition project_document_json ::
  "json_lib \<Rightarrow> ResolvedSyncBucket \<Rightarrow> string \<Rightarrow> string \<Rightarrow> sync_error + string" where
  "project_document_json J bucket object_type data_json =
     rbind (ok_or (SyncRuleError ''stream has no data query for object type'')
              (find (\<lambda>q. rq_object_type q = object_type) (rb_queries bucket)))
       (\<lambda>q. project_with J (rq_projection q) data_json)"

section \<open>Route indexes and accumulator buckets of a row\<close>

fun route_index_constraints :: "routes \<Rightarrow> string list \<Rightarrow> routes \<Rightarrow> routes option" where
  "route_index_constraints route_fields [] constraints = Some constraints"
| "route_index_constraints route_fields (column # columns) constraints =
     (case map_of route_fields column of
        None \<Rightarrow> None
      | Some value \<Rightarrow> route_index_constraints route_fields columns (bt_insert column value constraints))"

definition required_route_indexes_for_row ::
  "RustExecutionPlan \<Rightarrow> string \<Rightarrow> routes \<Rightarrow> routes list" where
  "required_route_indexes_for_row plan object_type route_fields =
     List.map_filter (\<lambda>columns. route_index_constraints route_fields columns [])
       (case map_of (route_index_columns_by_object plan) object_type of None \<Rightarrow> [] | Some ixs \<Rightarrow> ixs)"

definition route_constraints_from_template :: "AccumulatorQueryTemplate \<Rightarrow> routes \<Rightarrow> routes option" where
  "route_constraints_from_template query route_fields =
     map_option bt_of_list
       (omap (\<lambda>p. map_option (\<lambda>value. (bp_source_column p, value))
                    (map_of route_fields (bp_source_column p))) (aq_bucket_parameters query))"

definition accumulator_bucket ::
  "json_lib \<Rightarrow> AccumulatorQueryTemplate \<Rightarrow> routes \<Rightarrow> string \<Rightarrow> ResolvedSyncBucket" where
  "accumulator_bucket J query route_constraints fingerprint =
     \<lparr> rb_bucket_name = ''accumulator:'' @ fingerprint, rb_stream_name = aq_stream_name query,
       rb_object_type = aq_object_type query, rb_route_constraints = route_constraints,
       rb_projection = aq_projection query, rb_projection_key = aq_projection_key query,
       rb_queries =
         [\<lparr> rq_object_type = aq_object_type query, rq_route_constraints = route_constraints,
            rq_row_filter = aq_row_filter query, rq_request_filter = aq_request_filter query,
            rq_projection = aq_projection query,
            rq_checkpoint_accumulator_key =
              checkpoint_accumulator_name J (aq_object_type query) route_constraints
                (aq_row_filter query) (aq_request_filter query) (aq_projection query) \<rparr>],
       rb_is_default = aq_is_default query \<rparr>"

definition accumulator_step ::
  "json_lib \<Rightarrow> routes \<Rightarrow> ResolvedSyncBucket list \<times> string list \<Rightarrow> AccumulatorQueryTemplate \<Rightarrow>
   ResolvedSyncBucket list \<times> string list" where
  "accumulator_step J route_fields acc query =
     (case acc of (buckets, seen) \<Rightarrow>
        (case route_constraints_from_template query route_fields of
           None \<Rightarrow> (buckets, seen)
         | Some route_constraints \<Rightarrow>
             (let fingerprint = accumulator_fingerprint J (aq_object_type query) route_constraints
                    (aq_row_filter query) (aq_request_filter query) (aq_projection query) in
              if fingerprint \<in> set seen then (buckets, seen)
              else (buckets @ [accumulator_bucket J query route_constraints fingerprint],
                    fingerprint # seen))))"

definition accumulator_buckets_for_row ::
  "json_lib \<Rightarrow> RustExecutionPlan \<Rightarrow> string \<Rightarrow> routes \<Rightarrow> ResolvedSyncBucket list" where
  "accumulator_buckets_for_row J plan object_type route_fields =
     fst (foldl (accumulator_step J route_fields) ([], [])
            (case map_of (accumulator_queries_by_object plan) object_type of
               None \<Rightarrow> [] | Some qs \<Rightarrow> qs))"

end
