(* ===== verification/Crates.thy ===== *)
theory Crates
  imports Bucket_Plan
begin

text \<open>
  The records the ingest store persists and the third-party code that encodes them. The record
  \<open>crates\<close> collects what the store calls outside the repository besides the database engine: the
  JSON library, SHA-256, and the serializers that \<open>serde\<close> derives for the persisted records. The
  locale \<open>serde_codecs\<close> states that a decoder reads back what the encoder wrote; the reference
  codecs below satisfy it. The checksums of \<open>protocol/messages.rs\<close> are defined here, since the
  store and the wire layer share them.
\<close>

record PersistedBucketedDocument =
  doc_object_type :: string
  doc_object_id :: string
  doc_route_fields :: routes
  doc_data_json :: string

datatype PersistedSyncTailOperation = Clear | Put | Remove

record PersistedSyncTailOp =
  so_op_id :: nat
  so_operation :: PersistedSyncTailOperation
  so_object_type :: "string option"
  so_object_id :: "string option"
  so_route_fields :: routes
  so_data_json :: "string option"
  so_previous_route_fields :: "routes option"
  so_previous_data_json :: "string option"

type_synonym ParameterLookupRowDocument = "string option btree"

record crates =
  cr_json :: json_lib
  cr_sha256 :: "bytes \<Rightarrow> bytes"
  cr_doc_from_slice :: "bytes \<Rightarrow> PersistedBucketedDocument option"
  cr_op_to_vec :: "PersistedSyncTailOp \<Rightarrow> bytes option"
  cr_op_from_slice :: "bytes \<Rightarrow> PersistedSyncTailOp option"
  cr_names_to_vec :: "string list \<Rightarrow> bytes option"
  cr_names_from_slice :: "bytes \<Rightarrow> string list option"
  cr_lookup_row_to_vec :: "ParameterLookupRowDocument \<Rightarrow> bytes option"
  cr_lookup_row_from_slice :: "bytes \<Rightarrow> ParameterLookupRowDocument option"
  cr_payload_to_vec :: "routes \<Rightarrow> bytes option"
  cr_payload_from_slice :: "bytes \<Rightarrow> routes option"

locale serde_codecs =
  fixes C :: crates
  assumes op_codec: "cr_op_to_vec C op = Some bs \<Longrightarrow> cr_op_from_slice C bs = Some op"
    and names_codec: "cr_names_to_vec C ns = Some bs \<Longrightarrow> cr_names_from_slice C bs = Some ns"
    and lookup_row_codec:
      "cr_lookup_row_to_vec C d = Some bs \<Longrightarrow> cr_lookup_row_from_slice C bs = Some d"
    and payload_codec: "cr_payload_to_vec C p = Some bs \<Longrightarrow> cr_payload_from_slice C bs = Some p"

section \<open>Checksums\<close>

definition checksum_from_digest :: "bytes \<Rightarrow> u32" where
  "checksum_from_digest digest = word_of_nat (from_be (rev (take 4 digest)))"

definition put_checksum :: "crates \<Rightarrow> string \<Rightarrow> string \<Rightarrow> string \<Rightarrow> u32" where
  "put_checksum C object_type object_id data =
     checksum_from_digest (cr_sha256 C (''put.'' @ object_type @ ''.'' @ object_id @ ''.'' @ data))"

definition remove_checksum :: "crates \<Rightarrow> string \<Rightarrow> u32" where
  "remove_checksum C source_key = checksum_from_digest (cr_sha256 C (''delete.'' @ source_key))"

definition source_subkey_for_object :: "string \<Rightarrow> string \<Rightarrow> string" where
  "source_subkey_for_object object_type object_id = object_type @ ''/'' @ object_id"

definition protocol_checksum_i32 :: "u32 \<Rightarrow> int" where
  "protocol_checksum_i32 checksum = sint checksum"

fun sync_rule_error_to_ingest_error :: "sync_error \<Rightarrow> ingest_error" where
  "sync_rule_error_to_ingest_error (SyncRuleError s) = CorruptBatch s"
| "sync_rule_error_to_ingest_error SyncPanic = Panicked"

section \<open>Reference codecs\<close>

text \<open>
  A list of strings, each written with its length in front; options and pairs are flattened to such
  lists.
\<close>

definition esc :: "string \<Rightarrow> string" where
  "esc s = decimal (length s) @ CHR '':'' # s"

definition unesc :: "string \<Rightarrow> (string \<times> string) option" where
  "unesc bs =
     (case dropWhile (\<lambda>c. c \<noteq> CHR '':'') bs of
        [] \<Rightarrow> None
      | _ # rest \<Rightarrow>
          (case parse_radix 10 (Suc (length bs)) (takeWhile (\<lambda>c. c \<noteq> CHR '':'') bs) of
             None \<Rightarrow> None
           | Some n \<Rightarrow> if n \<le> length rest then Some (take n rest, drop n rest) else None))"

lemma unesc_esc [simp]: "unesc (esc s @ r) = Some (s, r)"
proof -
  have c: "c \<noteq> CHR '':''" if "c \<in> set (decimal n)" for c n using that decimal_no_sep(1) by metis
  then have "dropWhile (\<lambda>c. c \<noteq> CHR '':'') (esc s @ r) = CHR '':'' # s @ r"
    "takeWhile (\<lambda>c. c \<noteq> CHR '':'') (esc s @ r) = decimal (length s)"
    by (simp_all add: esc_def dropWhile_append2 takeWhile_append2)
  moreover have "parse_radix 10 (Suc (length (esc s @ r))) (decimal (length s)) = Some (length s)"
    by (rule parse_show_radix) (simp_all add: esc_def)
  ultimately show ?thesis by (simp add: unesc_def)
qed

fun unesc_list :: "nat \<Rightarrow> string \<Rightarrow> string list option" where
  "unesc_list 0 s = (if s = [] then Some [] else None)"
| "unesc_list (Suc n) s =
     (if s = [] then Some []
      else (case unesc s of None \<Rightarrow> None
            | Some (x, r) \<Rightarrow> map_option (\<lambda>xs. x # xs) (unesc_list n r)))"

definition ref_enc :: "string list \<Rightarrow> bytes" where
  "ref_enc xs = concat (map esc xs)"

definition ref_dec :: "bytes \<Rightarrow> string list option" where
  "ref_dec bs = unesc_list (length bs) bs"

lemma esc_nonempty [simp]: "esc s \<noteq> []" "esc s @ r \<noteq> []"
  by (simp_all add: esc_def)

lemma length_esc: "1 \<le> length (esc s)"
  by (simp add: esc_def)

lemma unesc_list_enough: "length (ref_enc xs) \<le> n \<Longrightarrow> unesc_list n (ref_enc xs) = Some xs"
proof (induction xs arbitrary: n)
  case Nil
  then show ?case by (cases n) (simp_all add: ref_enc_def)
next
  case (Cons x xs)
  then obtain m where m: "n = Suc m" using length_esc [of x] by (cases n) (auto simp: ref_enc_def)
  have "length (ref_enc xs) \<le> m"
    using Cons.prems length_esc [of x] m by (simp add: ref_enc_def)
  from Cons.IH [OF this] show ?case by (simp add: m ref_enc_def)
qed

lemma ref_dec_enc [simp]: "ref_dec (ref_enc xs) = Some xs"
  by (simp add: ref_dec_def unesc_list_enough)

fun ref_opt :: "string option \<Rightarrow> string" where
  "ref_opt None = ref_enc []"
| "ref_opt (Some s) = ref_enc [s]"

definition ref_opt_dec :: "string \<Rightarrow> string option option" where
  "ref_opt_dec bs =
     (case ref_dec bs of Some [] \<Rightarrow> Some None | Some [s] \<Rightarrow> Some (Some s) | _ \<Rightarrow> None)"

fun pairs_of :: "string list \<Rightarrow> (string \<times> string) list option" where
  "pairs_of [] = Some []"
| "pairs_of [k] = None"
| "pairs_of (k # v # xs) = map_option (\<lambda>ps. (k, v) # ps) (pairs_of xs)"

definition ref_pairs :: "(string \<times> string) list \<Rightarrow> string" where
  "ref_pairs ps = ref_enc (concat (map (\<lambda>(k, v). [k, v]) ps))"

definition ref_pairs_dec :: "string \<Rightarrow> (string \<times> string) list option" where
  "ref_pairs_dec bs = Option.bind (ref_dec bs) pairs_of"

lemma ref_opt_dec_enc [simp]: "ref_opt_dec (ref_opt x) = Some x"
  by (cases x) (simp_all add: ref_opt_dec_def)

declare ref_opt.simps [simp del]

lemma pairs_of_concat [simp]: "pairs_of (concat (map (\<lambda>(k, v). [k, v]) ps)) = Some ps"
  by (induction ps) auto

lemma ref_pairs_dec_enc [simp]: "ref_pairs_dec (ref_pairs ps) = Some ps"
  by (simp add: ref_pairs_def ref_pairs_dec_def)

definition ref_lookup_row :: "ParameterLookupRowDocument \<Rightarrow> string" where
  "ref_lookup_row d = ref_pairs (map (map_prod id ref_opt) d)"

definition ref_lookup_row_dec :: "string \<Rightarrow> ParameterLookupRowDocument option" where
  "ref_lookup_row_dec bs =
     Option.bind (ref_pairs_dec bs) (omap (\<lambda>(k, v). map_option (Pair k) (ref_opt_dec v)))"

lemma ref_lookup_row_dec_enc [simp]: "ref_lookup_row_dec (ref_lookup_row d) = Some d"
  by (induction d) (auto simp: ref_lookup_row_def ref_lookup_row_dec_def)

fun ref_operation :: "PersistedSyncTailOperation \<Rightarrow> string" where
  "ref_operation Clear = ''c''"
| "ref_operation Put = ''p''"
| "ref_operation Remove = ''r''"

definition ref_operation_dec :: "string \<Rightarrow> PersistedSyncTailOperation option" where
  "ref_operation_dec s =
     (if s = ''c'' then Some Clear else if s = ''p'' then Some Put
      else if s = ''r'' then Some Remove else None)"

lemma ref_operation_dec_enc [simp]: "ref_operation_dec (ref_operation x) = Some x"
  by (cases x) (simp_all add: ref_operation_dec_def)

definition ref_op :: "PersistedSyncTailOp \<Rightarrow> bytes option" where
  "ref_op x =
     (if so_op_id x < u64_limit then
        Some (ref_enc [decimal (so_op_id x), ref_operation (so_operation x),
          ref_opt (so_object_type x), ref_opt (so_object_id x), ref_pairs (so_route_fields x),
          ref_opt (so_data_json x), ref_opt (map_option ref_pairs (so_previous_route_fields x)),
          ref_opt (so_previous_data_json x)])
      else None)"

definition ref_op_dec :: "bytes \<Rightarrow> PersistedSyncTailOp option" where
  "ref_op_dec bs =
     (case ref_dec bs of
        Some [i, oper, ty, ident, rf, dj, prf, pdj] \<Rightarrow>
          Option.bind (parse_u64 i) (\<lambda>i.
          Option.bind (ref_operation_dec oper) (\<lambda>oper.
          Option.bind (ref_opt_dec ty) (\<lambda>ty.
          Option.bind (ref_opt_dec ident) (\<lambda>ident.
          Option.bind (ref_pairs_dec rf) (\<lambda>rf.
          Option.bind (ref_opt_dec dj) (\<lambda>dj.
          Option.bind (ref_opt_dec prf) (\<lambda>prf.
          Option.bind (ref_opt_dec pdj) (\<lambda>pdj.
          Option.bind (case prf of None \<Rightarrow> Some None | Some s \<Rightarrow> map_option Some (ref_pairs_dec s)) (\<lambda>prf.
            Some \<lparr> so_op_id = i, so_operation = oper, so_object_type = ty, so_object_id = ident,
                   so_route_fields = rf, so_data_json = dj, so_previous_route_fields = prf,
                   so_previous_data_json = pdj \<rparr>)))))))))
      | _ \<Rightarrow> None)"

lemma ref_op_dec_enc: "ref_op x = Some bs \<Longrightarrow> ref_op_dec bs = Some x"
  by (cases "so_previous_route_fields x")
     (auto simp: ref_op_def ref_op_dec_def codec_simps split: if_splits)

text \<open>
  The reference JSON library prints and reads arrays and objects of strings; \<open>js_insert\<close> keeps the
  position of an existing key and appends a new one.
\<close>

fun ref_json_text :: "json \<Rightarrow> string" where
  "ref_json_text (JString s) = CHR ''s'' # esc s"
| "ref_json_text (JArray xs) = CHR ''['' # concat (map (\<lambda>j. case j of JString s \<Rightarrow> esc s | _ \<Rightarrow> ref_json_text j) xs)"
| "ref_json_text (JObject es) = CHR ''{'' # concat (map (\<lambda>(k, j). esc k @ (case j of JString s \<Rightarrow> esc s | _ \<Rightarrow> ref_json_text j)) es)"
| "ref_json_text JNull = ''n''"
| "ref_json_text (JBool b) = (if b then ''t'' else ''f'')"
| "ref_json_text (JPos n) = decimal n"
| "ref_json_text (JNeg i) = int_to_string i"
| "ref_json_text (JFloat x) = ''d'' @ decimal (unat x)"

definition ref_json_parse :: "string \<Rightarrow> json option" where
  "ref_json_parse s =
     (case s of
        [] \<Rightarrow> None
      | c # r \<Rightarrow>
          if c = CHR ''['' then map_option (\<lambda>xs. JArray (map JString xs)) (ref_dec r)
          else if c = CHR ''{'' then
            map_option (\<lambda>ps. JObject (map (map_prod id JString) ps)) (ref_pairs_dec r)
          else None)"

fun ref_json_insert :: "string \<Rightarrow> json \<Rightarrow> json_object \<Rightarrow> json_object" where
  "ref_json_insert k v [] = [(k, v)]"
| "ref_json_insert k v ((k', v') # m) =
     (if k' = k then (k, v) # m else (k', v') # ref_json_insert k v m)"

definition ref_json :: json_lib where
  "ref_json = \<lparr> js_from_str = ref_json_parse, js_to_string = ref_json_text,
     js_entries = (\<lambda>es. ref_json_text (JObject es)), js_insert = ref_json_insert,
     js_parse_f64 = (\<lambda>_. None) \<rparr>"

definition ref_crates :: crates where
  "ref_crates = \<lparr> cr_json = ref_json, cr_sha256 = rev, cr_doc_from_slice = (\<lambda>_. None),
     cr_op_to_vec = ref_op, cr_op_from_slice = ref_op_dec,
     cr_names_to_vec = (\<lambda>ns. Some (ref_enc ns)), cr_names_from_slice = ref_dec,
     cr_lookup_row_to_vec = (\<lambda>d. Some (ref_lookup_row d)),
     cr_lookup_row_from_slice = ref_lookup_row_dec,
     cr_payload_to_vec = (\<lambda>p. Some (ref_pairs p)), cr_payload_from_slice = ref_pairs_dec \<rparr>"

interpretation ref: serde_codecs ref_crates
  by unfold_locales (auto simp: ref_crates_def ref_op_dec_enc)

end
