(* ===== verification/Mdbx_Table.thy ===== *)
theory Mdbx_Table
  imports Encoding
begin

text \<open>
  The MDBX environment. The database engine is the third-party crate \<open>libmdbx\<close>, so its calls are
  a parameter: the record \<open>mdbx\<close> holds the five calls the program makes on the default table inside
  a transaction, and the two that open and commit one. Every call may fail with an engine error. A transaction is the current table value
  \<open>'t\<close>; a function of the program that writes takes the table and returns the new one, and a
  function that returns \<open>Inl\<close> leaves its caller without a table to commit, as dropping a libmdbx
  transaction does.

  The locale \<open>mdbx_table\<close> states what the program relies on: where a call succeeds, it acts on the
  ordered key-value map \<open>view\<close> (get, upsert, delete, ordered iteration from a key, clear). The
  locale \<open>mdbx_reliable\<close> adds that no call fails. The reference table \<open>alist_mdbx\<close> satisfies both
  and is what the witnesses run on. \<open>scan_from\<close> is the ordered range read of a view, and
  \<open>scan_prefix\<close> the part of it the code's prefix loops visit.
\<close>

record 't mdbx =
  mdbx_get :: "'t \<Rightarrow> bytes \<Rightarrow> string + bytes option"
  mdbx_put :: "'t \<Rightarrow> bytes \<Rightarrow> bytes \<Rightarrow> string + 't"
  mdbx_del :: "'t \<Rightarrow> bytes \<Rightarrow> string + bool \<times> 't"
  mdbx_iter_from :: "'t \<Rightarrow> bytes \<Rightarrow> string + (bytes \<times> bytes) list"
  mdbx_clear :: "'t \<Rightarrow> string + 't"
  mdbx_begin :: "'t \<Rightarrow> string + 't"
  mdbx_commit :: "'t \<Rightarrow> string + 't"

type_synonym kv = "bytes \<rightharpoonup> bytes"

section \<open>Calls with the program's error conversion\<close>

definition t_get :: "'t mdbx \<Rightarrow> 't \<Rightarrow> bytes \<Rightarrow> bytes option result" where
  "t_get M t k = map_err Mdbx (mdbx_get M t k)"

definition t_put :: "'t mdbx \<Rightarrow> 't \<Rightarrow> bytes \<Rightarrow> bytes \<Rightarrow> 't result" where
  "t_put M t k v = map_err Mdbx (mdbx_put M t k v)"

definition t_del :: "'t mdbx \<Rightarrow> 't \<Rightarrow> bytes \<Rightarrow> 't result" where
  "t_del M t k = rbind (map_err Mdbx (mdbx_del M t k)) (\<lambda>(_, t'). Inr t')"

definition t_iter_from :: "'t mdbx \<Rightarrow> 't \<Rightarrow> bytes \<Rightarrow> (bytes \<times> bytes) list result" where
  "t_iter_from M t k = map_err Mdbx (mdbx_iter_from M t k)"

definition t_clear :: "'t mdbx \<Rightarrow> 't \<Rightarrow> 't result" where
  "t_clear M t = map_err Mdbx (mdbx_clear M t)"

definition t_begin :: "'t mdbx \<Rightarrow> 't \<Rightarrow> 't result" where
  "t_begin M t = map_err Mdbx (mdbx_begin M t)"

definition t_commit :: "'t mdbx \<Rightarrow> 't \<Rightarrow> 't result" where
  "t_commit M t = map_err Mdbx (mdbx_commit M t)"

definition starts_with :: "bytes \<Rightarrow> bytes \<Rightarrow> bool" where
  "starts_with p k \<longleftrightarrow> take (length p) k = p"

definition t_scan_prefix :: "'t mdbx \<Rightarrow> 't \<Rightarrow> bytes \<Rightarrow> (bytes \<times> bytes) list result" where
  "t_scan_prefix M t p =
     rbind (t_iter_from M t p) (\<lambda>items. Inr (takeWhile (\<lambda>(k, v). starts_with p k) items))"

lemma starts_with_append [simp]: "starts_with p (p @ s)"
  by (simp add: starts_with_def)

lemma starts_withE:
  assumes "starts_with p k"
  obtains s where "k = p @ s"
  using assms by (metis append_take_drop_id starts_with_def)

lemma starts_with_iff: "starts_with p k \<longleftrightarrow> (\<exists>s. k = p @ s)"
  by (auto elim: starts_withE)

section \<open>Ordered range reads\<close>

definition is_scan_from :: "kv \<Rightarrow> bytes \<Rightarrow> (bytes \<times> bytes) list \<Rightarrow> bool" where
  "is_scan_from kv k xs \<longleftrightarrow>
     sorted_wrt (<) (map fst xs) \<and> set xs = {(k', v). kv k' = Some v \<and> k \<le> k'}"

lemma starts_with_ge: "starts_with p k \<Longrightarrow> p \<le> (k :: bytes)"
  by (auto elim!: starts_withE) (metis append_Nil2 append_le_append Nil_le_Cons list.exhaust order_refl)

text \<open>The keys with a prefix are an interval of the byte order.\<close>

lemma prefix_convex:
  assumes "starts_with p a" and "p \<le> b" and "b < (a :: bytes)"
  shows "starts_with p b"
  using assms
proof (induction p arbitrary: a b)
  case Nil
  then show ?case by (simp add: starts_with_def)
next
  case (Cons c p)
  then obtain a' where a: "a = c # a'" "starts_with p a'"
    by (auto simp: starts_with_iff)
  from Cons.prems obtain d b' where b: "b = d # b'" by (cases b) auto
  have "d = c" "p \<le> b'" "b' < a'"
    using Cons.prems a b by auto
  with Cons.IH [of a' b'] a b show ?case by (simp add: starts_with_def)
qed

lemma takeWhile_prefix_filter:
  assumes "sorted_wrt (<) (map fst xs)" and "\<forall>(k, v) \<in> set xs. p \<le> k"
  shows "takeWhile (\<lambda>(k, v). starts_with p k) xs = filter (\<lambda>(k, v). starts_with p k) xs"
  using assms
proof (induction xs)
  case (Cons x xs)
  obtain k v where x: "x = (k, v)" by (cases x)
  show ?case
  proof (cases "starts_with p k")
    case True
    with Cons x show ?thesis by auto
  next
    case False
    have "\<not> starts_with p (fst y)" if "y \<in> set xs" for y
    proof
      assume s: "starts_with p (fst y)"
      have "k < fst y" using Cons.prems(1) that by (auto simp: x)
      with prefix_convex [OF s _ this] False Cons.prems(2) show False by (auto simp: x)
    qed
    with False x show ?thesis by (auto simp: filter_empty_conv case_prod_unfold)
  qed
qed simp

lemma sorted_filter_fst: "sorted_wrt (<) (map fst xs) \<Longrightarrow> sorted_wrt (<) (map fst (filter P xs))"
  by (induction xs) auto

lemma sorted_scan_unique:
  assumes "sorted_wrt (<) (map fst xs)" "sorted_wrt (<) (map fst ys)" "set xs = set ys"
  shows "xs = (ys :: (bytes \<times> 'v) list)"
proof -
  have d: "distinct (map fst xs)" "distinct (map fst ys)"
    using assms strict_sorted_iff by auto
  have "map_of xs = map_of ys"
    using d assms(3) by (metis map_of_eqI map_of_eq_Some_iff map_of_inject_set)
  then show ?thesis
    using bt_sorted_eqI [of xs ys] assms by (simp add: bt_sorted_def)
qed

section \<open>The contract of the storage engine\<close>

locale mdbx_table =
  fixes M :: "'t mdbx" and view :: "'t \<Rightarrow> kv"
  assumes get_law: "mdbx_get M t k = Inr r \<Longrightarrow> r = view t k"
    and put_law: "mdbx_put M t k v = Inr t' \<Longrightarrow> view t' = (view t)(k \<mapsto> v)"
    and del_law: "mdbx_del M t k = Inr (b, t') \<Longrightarrow>
          b = (view t k \<noteq> None) \<and> view t' = (view t)(k := None)"
    and iter_law: "mdbx_iter_from M t k = Inr xs \<Longrightarrow> is_scan_from (view t) k xs"
    and clear_law: "mdbx_clear M t = Inr t' \<Longrightarrow> view t' = Map.empty"
    and begin_law: "mdbx_begin M t = Inr t' \<Longrightarrow> view t' = view t"
    and commit_law: "mdbx_commit M t = Inr t' \<Longrightarrow> view t' = view t"
begin

lemma t_get_view [view_simps]: "t_get M t k = Inr r \<Longrightarrow> r = view t k"
  by (simp add: t_get_def get_law)

lemma t_put_view [view_simps]: "t_put M t k v = Inr t' \<Longrightarrow> view t' = (view t)(k \<mapsto> v)"
  by (simp add: t_put_def put_law)

lemma t_del_view [view_simps]: "t_del M t k = Inr t' \<Longrightarrow> view t' = (view t)(k := None)"
  by (auto simp: t_del_def dest!: del_law elim!: rbindE)

lemma t_clear_view [view_simps]: "t_clear M t = Inr t' \<Longrightarrow> view t' = Map.empty"
  by (simp add: t_clear_def clear_law)

lemma t_begin_view [view_simps]: "t_begin M t = Inr t' \<Longrightarrow> view t' = view t"
  by (simp add: t_begin_def begin_law)

lemma t_commit_view [view_simps]: "t_commit M t = Inr t' \<Longrightarrow> view t' = view t"
  by (simp add: t_commit_def commit_law)

lemma t_iter_from_scan: "t_iter_from M t k = Inr xs \<Longrightarrow> is_scan_from (view t) k xs"
  by (simp add: t_iter_from_def iter_law)

lemma t_scan_prefix_scan:
  assumes "t_scan_prefix M t p = Inr xs"
  shows "sorted_wrt (<) (map fst xs)"
    and "set xs = {(k, v). view t k = Some v \<and> starts_with p k}"
proof -
  obtain ys where ys: "is_scan_from (view t) p ys"
    and xs: "xs = takeWhile (\<lambda>(k, v). starts_with p k) ys"
    using assms by (auto simp: t_scan_prefix_def dest: t_iter_from_scan elim!: rbindE)
  then have xs: "xs = filter (\<lambda>(k, v). starts_with p k) ys"
    using takeWhile_prefix_filter [of ys p] by (auto simp: is_scan_from_def)
  with ys show "sorted_wrt (<) (map fst xs)"
    by (simp add: is_scan_from_def sorted_filter_fst)
  from xs ys show "set xs = {(k, v). view t k = Some v \<and> starts_with p k}"
    by (auto simp: is_scan_from_def dest: starts_with_ge)
qed

end

locale mdbx_reliable = mdbx_table +
  assumes get_total: "\<exists>r. mdbx_get M t k = Inr r"
    and put_total: "\<exists>t'. mdbx_put M t k v = Inr t'"
    and del_total: "\<exists>r. mdbx_del M t k = Inr r"
    and iter_total: "\<exists>xs. mdbx_iter_from M t k = Inr xs"
    and clear_total: "\<exists>t'. mdbx_clear M t = Inr t'"
    and begin_total: "\<exists>t'. mdbx_begin M t = Inr t'"
    and commit_total: "\<exists>t'. mdbx_commit M t = Inr t'"
begin

lemma t_get_ok: "t_get M t k = Inr (view t k)"
  using get_total [of t k] by (auto simp: t_get_def get_law)

lemma t_put_ok: "\<exists>t'. t_put M t k v = Inr t' \<and> view t' = (view t)(k \<mapsto> v)"
  using put_total [of t k v] by (auto simp: t_put_def put_law)

lemma t_del_ok: "\<exists>t'. t_del M t k = Inr t' \<and> view t' = (view t)(k := None)"
proof -
  obtain b t' where "mdbx_del M t k = Inr (b, t')" using del_total [of t k] by auto
  then show ?thesis using del_law [of t k b t'] by (auto simp: t_del_def)
qed

lemma t_scan_prefix_ok: "\<exists>xs. t_scan_prefix M t p = Inr xs"
  using iter_total [of t p] by (auto simp: t_scan_prefix_def t_iter_from_def)

end

section \<open>A reference table\<close>

definition alist_put :: "(bytes \<times> bytes) list \<Rightarrow> bytes \<Rightarrow> bytes \<Rightarrow> (bytes \<times> bytes) list" where
  "alist_put t k v = (k, v) # filter (\<lambda>(k', _). k' \<noteq> k) t"

definition alist_del :: "(bytes \<times> bytes) list \<Rightarrow> bytes \<Rightarrow> (bytes \<times> bytes) list" where
  "alist_del t k = filter (\<lambda>(k', _). k' \<noteq> k) t"

definition alist_iter_from :: "(bytes \<times> bytes) list \<Rightarrow> bytes \<Rightarrow> (bytes \<times> bytes) list" where
  "alist_iter_from t k =
     map (\<lambda>k'. (k', the (map_of t k'))) (sort (remdups (filter (\<lambda>k'. k \<le> k') (map fst t))))"

definition alist_mdbx :: "(bytes \<times> bytes) list mdbx" where
  "alist_mdbx = \<lparr>
     mdbx_get = (\<lambda>t k. Inr (map_of t k)),
     mdbx_put = (\<lambda>t k v. Inr (alist_put t k v)),
     mdbx_del = (\<lambda>t k. Inr (map_of t k \<noteq> None, alist_del t k)),
     mdbx_iter_from = (\<lambda>t k. Inr (alist_iter_from t k)),
     mdbx_clear = (\<lambda>t. Inr []),
     mdbx_begin = Inr,
     mdbx_commit = Inr \<rparr>"

lemma map_of_alist_del: "map_of (alist_del t k) = (map_of t)(k := None)"
  by (induction t) (auto simp: alist_del_def fun_eq_iff)

lemma map_of_alist_put: "map_of (alist_put t k v) = (map_of t)(k \<mapsto> v)"
  using map_of_alist_del [of t k] by (auto simp: alist_put_def alist_del_def fun_eq_iff)

lemma alist_iter_from_scan: "is_scan_from (map_of t) k (alist_iter_from t k)"
proof -
  let ?ks = "sort (remdups (filter (\<lambda>k'. k \<le> k') (map fst t)))"
  have "sorted_wrt (<) ?ks" by (simp add: strict_sorted_iff)
  moreover have "map fst (alist_iter_from t k) = ?ks"
    by (simp add: alist_iter_from_def o_def)
  moreover have "set (alist_iter_from t k) = {(k', v). map_of t k' = Some v \<and> k \<le> k'}"
    by (force simp: alist_iter_from_def weak_map_of_SomeI dest: map_of_SomeD)
  ultimately show ?thesis by (simp add: is_scan_from_def)
qed

interpretation alist: mdbx_reliable alist_mdbx map_of
  by unfold_locales
     (auto simp: alist_mdbx_def map_of_alist_put map_of_alist_del alist_iter_from_scan)

end
