(* ===== verification/Keys.thy ===== *)
theory Keys
  imports Mdbx_Table
begin

text \<open>
  The key layout of the ingest table (\<open>replication/ingest/keys.rs\<close>): metadata keys, current documents,
  current route indexes, the tail log with its references and index entries, checkpoint accumulators
  and parameter lookups. The lemmas show that the namespaces are pairwise disjoint, that the
  length-prefixed names are uniquely decodable, that every key function is injective on the
  arguments the program uses, and that tail keys keep the numeric order of operation ids.
\<close>

section \<open>Metadata keys\<close>

definition META_LAYOUT_VERSION_KEY :: bytes where [key_defs]:
  "META_LAYOUT_VERSION_KEY = ''meta:layout_version''"
definition META_LAST_COMMIT_END_LSN_KEY :: bytes where [key_defs]:
  "META_LAST_COMMIT_END_LSN_KEY = ''meta:last_commit_end_lsn''"
definition META_INITIAL_SNAPSHOT_COMPLETE_KEY :: bytes where [key_defs]:
  "META_INITIAL_SNAPSHOT_COMPLETE_KEY = ''meta:initial_snapshot_complete''"
definition META_INITIAL_SNAPSHOT_CURSOR_FLOOR_KEY :: bytes where [key_defs]:
  "META_INITIAL_SNAPSHOT_CURSOR_FLOOR_KEY = ''meta:initial_snapshot_cursor_floor''"
definition META_INITIAL_SNAPSHOT_BOOTSTRAP_INTENT_KEY :: bytes where [key_defs]:
  "META_INITIAL_SNAPSHOT_BOOTSTRAP_INTENT_KEY = ''meta:initial_snapshot_bootstrap_intent''"
definition META_INITIAL_SNAPSHOT_SOURCE_IDENTITY_KEY :: bytes where [key_defs]:
  "META_INITIAL_SNAPSHOT_SOURCE_IDENTITY_KEY = ''meta:initial_snapshot_source_identity''"
definition META_SYNC_TAIL_LAST_OP_ID_KEY :: bytes where [key_defs]:
  "META_SYNC_TAIL_LAST_OP_ID_KEY = ''meta:sync_tail_last_op_id''"
definition META_SYNC_TAIL_RETAINED_FLOOR_KEY :: bytes where [key_defs]:
  "META_SYNC_TAIL_RETAINED_FLOOR_KEY = ''meta:sync_tail_retained_floor''"
definition META_SYNC_TAIL_INDEXED_THROUGH_OP_ID_KEY :: bytes where [key_defs]:
  "META_SYNC_TAIL_INDEXED_THROUGH_OP_ID_KEY = ''meta:sync_tail_indexed_through_op_id''"

section \<open>Prefixes\<close>

definition BATCH_KEY_PREFIX :: bytes where [key_defs]: "BATCH_KEY_PREFIX = ''batch:''"
definition CURRENT_DOC_KEY_PREFIX :: bytes where [key_defs]:
  "CURRENT_DOC_KEY_PREFIX = ''sync:current:doc:''"
definition CURRENT_ROUTE_KEY_PREFIX :: bytes where [key_defs]:
  "CURRENT_ROUTE_KEY_PREFIX = ''sync:current:route:''"
definition CURRENT_CHECKPOINT_ACCUMULATOR_KEY_PREFIX :: bytes where [key_defs]:
  "CURRENT_CHECKPOINT_ACCUMULATOR_KEY_PREFIX = ''sync:current:checkpoint:''"
definition CURRENT_DOC_BINARY_MAGIC :: bytes where
  "CURRENT_DOC_BINARY_MAGIC = ''PSCD1'' @ [CHR 0x00]"
definition SYNC_TAIL_OP_KEY_PREFIX :: bytes where [key_defs]:
  "SYNC_TAIL_OP_KEY_PREFIX = ''sync:tail:op:''"
definition SYNC_TAIL_REFS_KEY_PREFIX :: bytes where [key_defs]:
  "SYNC_TAIL_REFS_KEY_PREFIX = ''sync:tail:refs:''"
definition SYNC_TAIL_INDEX_ENTRY_KEY_PREFIX :: bytes where [key_defs]:
  "SYNC_TAIL_INDEX_ENTRY_KEY_PREFIX = ''sync:tail:index:entry:''"
definition SYNC_TAIL_CHECKPOINT_ACCUMULATOR_KEY_PREFIX :: bytes where [key_defs]:
  "SYNC_TAIL_CHECKPOINT_ACCUMULATOR_KEY_PREFIX = ''sync:tail:checkpoint:''"
definition PARAMETER_LOOKUP_ROW_KEY_PREFIX :: bytes where [key_defs]:
  "PARAMETER_LOOKUP_ROW_KEY_PREFIX = ''paramlookup:row:''"
definition PARAMETER_LOOKUP_INDEX_KEY_PREFIX :: bytes where [key_defs]:
  "PARAMETER_LOOKUP_INDEX_KEY_PREFIX = ''paramlookup:idx:''"

section \<open>Key functions\<close>

definition push_len_prefixed :: "string \<Rightarrow> string" where
  "push_len_prefixed value = decimal (length value) @ '':'' @ value @ ''|''"

definition sync_tail_index_name :: "string \<Rightarrow> string \<Rightarrow> routes \<Rightarrow> string" where
  "sync_tail_index_name kind object_type route_constraints =
     push_len_prefixed kind @ push_len_prefixed object_type
     @ decimal (length route_constraints) @ ''|''
     @ concat (map (\<lambda>(key, value). push_len_prefixed key @ push_len_prefixed value) route_constraints)"

definition sync_tail_object_index_name :: "string \<Rightarrow> string" where
  "sync_tail_object_index_name object_type = sync_tail_index_name ''object'' object_type []"

definition sync_tail_clear_index_name :: "string \<Rightarrow> string" where
  "sync_tail_clear_index_name object_type = sync_tail_index_name ''clear'' object_type []"

definition sync_tail_route_index_name :: "string \<Rightarrow> routes \<Rightarrow> string" where
  "sync_tail_route_index_name object_type route_constraints =
     sync_tail_index_name ''route'' object_type route_constraints"

definition current_doc_prefix :: "string \<Rightarrow> bytes" where
  "current_doc_prefix object_type = CURRENT_DOC_KEY_PREFIX @ object_type @ '':''"

definition current_doc_key_from_object_id_bytes :: "string \<Rightarrow> bytes \<Rightarrow> bytes" where
  "current_doc_key_from_object_id_bytes object_type object_id =
     CURRENT_DOC_KEY_PREFIX @ object_type @ '':'' @ object_id"

definition current_doc_key :: "string \<Rightarrow> string \<Rightarrow> bytes" where
  "current_doc_key object_type object_id = current_doc_key_from_object_id_bytes object_type object_id"

definition current_route_index_prefix :: "string \<Rightarrow> routes \<Rightarrow> bytes" where
  "current_route_index_prefix object_type route_constraints =
     CURRENT_ROUTE_KEY_PREFIX @ object_type @ '':''
     @ sync_tail_route_index_name object_type route_constraints @ '':''"

definition current_route_index_key :: "string \<Rightarrow> routes \<Rightarrow> string \<Rightarrow> bytes" where
  "current_route_index_key object_type route_constraints object_id =
     current_route_index_prefix object_type route_constraints @ object_id"

definition sync_tail_op_key :: "op_id \<Rightarrow> bytes" where
  "sync_tail_op_key op_id = SYNC_TAIL_OP_KEY_PREFIX @ pad20 op_id"

definition sync_tail_refs_key :: "op_id \<Rightarrow> bytes" where
  "sync_tail_refs_key op_id = SYNC_TAIL_REFS_KEY_PREFIX @ pad20 op_id"

definition sync_tail_index_entry_prefix :: "string \<Rightarrow> bytes" where
  "sync_tail_index_entry_prefix index_key = SYNC_TAIL_INDEX_ENTRY_KEY_PREFIX @ index_key @ '':''"

definition sync_tail_index_entry_key :: "string \<Rightarrow> op_id \<Rightarrow> bytes" where
  "sync_tail_index_entry_key index_key global_op_id =
     SYNC_TAIL_INDEX_ENTRY_KEY_PREFIX @ index_key @ '':'' @ pad20 global_op_id"

definition sync_tail_global_op_id_from_key :: "bytes \<Rightarrow> bytes \<Rightarrow> op_id option" where
  "sync_tail_global_op_id_from_key key prefix =
     (if length prefix \<le> length key \<and> utf8_valid (drop (length prefix) key)
      then parse_u64 (drop (length prefix) key) else None)"

definition batch_key :: "lsn \<Rightarrow> bytes" where
  "batch_key end_lsn = BATCH_KEY_PREFIX @ pad20 end_lsn"

definition parameter_lookup_row_key :: "string \<Rightarrow> string \<Rightarrow> bytes" where
  "parameter_lookup_row_key source_table row_id =
     PARAMETER_LOOKUP_ROW_KEY_PREFIX @ push_len_prefixed source_table @ push_len_prefixed row_id"

definition parameter_lookup_index_prefix :: "string \<Rightarrow> string list \<Rightarrow> bytes" where
  "parameter_lookup_index_prefix lookup_id key_values =
     PARAMETER_LOOKUP_INDEX_KEY_PREFIX @ push_len_prefixed lookup_id
     @ concat (map push_len_prefixed key_values)"

definition parameter_lookup_index_key :: "string \<Rightarrow> string list \<Rightarrow> string \<Rightarrow> bytes" where
  "parameter_lookup_index_key lookup_id key_values row_id =
     parameter_lookup_index_prefix lookup_id key_values @ push_len_prefixed row_id"

definition checkpoint_accumulator_key :: "bytes \<Rightarrow> string \<Rightarrow> bytes" where
  "checkpoint_accumulator_key prefix accumulator_key = prefix @ accumulator_key"

definition tail_checkpoint_accumulator_key :: "string \<Rightarrow> bytes" where
  "tail_checkpoint_accumulator_key accumulator_key =
     checkpoint_accumulator_key SYNC_TAIL_CHECKPOINT_ACCUMULATOR_KEY_PREFIX accumulator_key"

definition current_checkpoint_accumulator_key :: "string \<Rightarrow> bytes" where
  "current_checkpoint_accumulator_key accumulator_key =
     checkpoint_accumulator_key CURRENT_CHECKPOINT_ACCUMULATOR_KEY_PREFIX accumulator_key"

lemmas key_fun_defs =
  current_doc_key_def current_doc_key_from_object_id_bytes_def
  current_route_index_key_def current_route_index_prefix_def sync_tail_op_key_def
  sync_tail_refs_key_def sync_tail_index_entry_key_def batch_key_def parameter_lookup_row_key_def
  parameter_lookup_index_key_def parameter_lookup_index_prefix_def checkpoint_accumulator_key_def
  tail_checkpoint_accumulator_key_def current_checkpoint_accumulator_key_def

section \<open>Unique decodability of length-prefixed names\<close>

lemma append_sep_eq:
  "c \<notin> set xs \<Longrightarrow> c \<notin> set ys \<Longrightarrow> xs @ c # us = ys @ c # vs \<longleftrightarrow> xs = ys \<and> us = vs"
  by (auto simp: append_eq_append_conv2 append_eq_Cons_conv Cons_eq_append_conv)

lemma push_len_prefixed_append [simp]:
  "push_len_prefixed a @ us = push_len_prefixed b @ vs \<longleftrightarrow> a = b \<and> us = vs"
proof -
  have "push_len_prefixed a @ us = push_len_prefixed b @ vs \<longleftrightarrow>
        length a = length b \<and> a @ CHR ''|'' # us = b @ CHR ''|'' # vs"
    using append_sep_eq [OF decimal_no_sep(1) decimal_no_sep(1)]
    by (auto simp: push_len_prefixed_def)
  then show ?thesis by auto
qed

lemma push_len_prefixed_inj [simp]: "push_len_prefixed a = push_len_prefixed b \<longleftrightarrow> a = b"
  using push_len_prefixed_append [of a "[]" b "[]"] by simp

lemma push_len_prefixed_nonempty [simp]: "push_len_prefixed a \<noteq> []"
  by (simp add: push_len_prefixed_def)

lemma concat_push_len_prefixed_append:
  "length xs = length ys \<Longrightarrow>
   concat (map push_len_prefixed xs) @ us = concat (map push_len_prefixed ys) @ vs
   \<longleftrightarrow> xs = ys \<and> us = vs"
  by (induction xs ys rule: list_induct2) auto

lemma route_pairs_append:
  "length xs = length ys \<Longrightarrow>
   concat (map (\<lambda>(k, v). push_len_prefixed k @ push_len_prefixed v) xs) @ us =
   concat (map (\<lambda>(k, v). push_len_prefixed k @ push_len_prefixed v) ys) @ vs
   \<longleftrightarrow> xs = ys \<and> us = vs"
  by (induction xs ys rule: list_induct2) auto

lemma sync_tail_index_name_append [simp]:
  "sync_tail_index_name k t r @ us = sync_tail_index_name k' t' r' @ vs
   \<longleftrightarrow> k = k' \<and> t = t' \<and> r = r' \<and> us = vs"
proof -
  have "decimal (length r) @ CHR ''|'' # ps = decimal (length r') @ CHR ''|'' # qs
        \<longleftrightarrow> length r = length r' \<and> ps = qs" for ps qs
    using append_sep_eq [OF decimal_no_sep(2) decimal_no_sep(2)] by simp
  then show ?thesis
    using route_pairs_append [of r r' us vs] by (auto simp: sync_tail_index_name_def)
qed

lemma sync_tail_index_name_inj [simp]:
  "sync_tail_index_name k t r = sync_tail_index_name k' t' r' \<longleftrightarrow> k = k' \<and> t = t' \<and> r = r'"
  using sync_tail_index_name_append [of k t r "[]" k' t' r' "[]"] by simp

section \<open>Disjoint namespaces\<close>

datatype key_space =
    Meta | Batch | Current_Doc | Current_Route | Current_Checkpoint
  | Tail_Op | Tail_Refs | Tail_Index | Tail_Checkpoint | Lookup_Row | Lookup_Index

text \<open>The space a key belongs to is decided by its prefix.\<close>

definition space_prefixes :: "(key_space \<times> bytes) list" where
  "space_prefixes =
     [(Meta, ''meta:''), (Batch, BATCH_KEY_PREFIX), (Current_Doc, CURRENT_DOC_KEY_PREFIX),
      (Current_Route, CURRENT_ROUTE_KEY_PREFIX),
      (Current_Checkpoint, CURRENT_CHECKPOINT_ACCUMULATOR_KEY_PREFIX),
      (Tail_Op, SYNC_TAIL_OP_KEY_PREFIX), (Tail_Refs, SYNC_TAIL_REFS_KEY_PREFIX),
      (Tail_Index, SYNC_TAIL_INDEX_ENTRY_KEY_PREFIX),
      (Tail_Checkpoint, SYNC_TAIL_CHECKPOINT_ACCUMULATOR_KEY_PREFIX),
      (Lookup_Row, PARAMETER_LOOKUP_ROW_KEY_PREFIX),
      (Lookup_Index, PARAMETER_LOOKUP_INDEX_KEY_PREFIX)]"

definition key_space_of :: "bytes \<Rightarrow> key_space option" where
  "key_space_of k = map_option fst (find (\<lambda>(_, p). starts_with p k) space_prefixes)"

lemmas key_space_simps = key_space_of_def space_prefixes_def starts_with_def key_defs

lemma key_space_meta [simp]:
  "key_space_of META_LAYOUT_VERSION_KEY = Some Meta"
  "key_space_of META_LAST_COMMIT_END_LSN_KEY = Some Meta"
  "key_space_of META_INITIAL_SNAPSHOT_COMPLETE_KEY = Some Meta"
  "key_space_of META_INITIAL_SNAPSHOT_CURSOR_FLOOR_KEY = Some Meta"
  "key_space_of META_INITIAL_SNAPSHOT_BOOTSTRAP_INTENT_KEY = Some Meta"
  "key_space_of META_INITIAL_SNAPSHOT_SOURCE_IDENTITY_KEY = Some Meta"
  "key_space_of META_SYNC_TAIL_LAST_OP_ID_KEY = Some Meta"
  "key_space_of META_SYNC_TAIL_RETAINED_FLOOR_KEY = Some Meta"
  "key_space_of META_SYNC_TAIL_INDEXED_THROUGH_OP_ID_KEY = Some Meta"
  by (simp_all add: key_space_simps)

lemma key_space_funs [simp]:
  "key_space_of (batch_key n) = Some Batch"
  "key_space_of (current_doc_key t i) = Some Current_Doc"
  "key_space_of (current_route_index_key t r i) = Some Current_Route"
  "key_space_of (sync_tail_op_key n) = Some Tail_Op"
  "key_space_of (sync_tail_refs_key n) = Some Tail_Refs"
  "key_space_of (sync_tail_index_entry_key k n) = Some Tail_Index"
  "key_space_of (tail_checkpoint_accumulator_key a) = Some Tail_Checkpoint"
  "key_space_of (current_checkpoint_accumulator_key a) = Some Current_Checkpoint"
  "key_space_of (parameter_lookup_row_key s i) = Some Lookup_Row"
  "key_space_of (parameter_lookup_index_key l ks i) = Some Lookup_Index"
  by (simp_all add: key_space_simps key_fun_defs)

lemma META_keys_distinct:
  "distinct [META_LAYOUT_VERSION_KEY, META_LAST_COMMIT_END_LSN_KEY, META_INITIAL_SNAPSHOT_COMPLETE_KEY,
     META_INITIAL_SNAPSHOT_CURSOR_FLOOR_KEY, META_INITIAL_SNAPSHOT_BOOTSTRAP_INTENT_KEY,
     META_INITIAL_SNAPSHOT_SOURCE_IDENTITY_KEY, META_SYNC_TAIL_LAST_OP_ID_KEY,
     META_SYNC_TAIL_RETAINED_FLOOR_KEY, META_SYNC_TAIL_INDEXED_THROUGH_OP_ID_KEY]"
  by (simp add: key_defs)

lemmas META_keys_neq [simp] = META_keys_distinct [simplified] distinct_rev [THEN iffD2, OF META_keys_distinct, simplified]

lemma key_space_neq: "key_space_of k \<noteq> key_space_of k' \<Longrightarrow> k \<noteq> k'"
  by auto

lemma META_batch_neq [simp]:
  "batch_key n \<noteq> META_LAYOUT_VERSION_KEY" "META_LAYOUT_VERSION_KEY \<noteq> batch_key n"
  "batch_key n \<noteq> META_LAST_COMMIT_END_LSN_KEY" "META_LAST_COMMIT_END_LSN_KEY \<noteq> batch_key n"
  "batch_key n \<noteq> META_INITIAL_SNAPSHOT_COMPLETE_KEY" "META_INITIAL_SNAPSHOT_COMPLETE_KEY \<noteq> batch_key n"
  "batch_key n \<noteq> META_INITIAL_SNAPSHOT_CURSOR_FLOOR_KEY" "META_INITIAL_SNAPSHOT_CURSOR_FLOOR_KEY \<noteq> batch_key n"
  "batch_key n \<noteq> META_INITIAL_SNAPSHOT_BOOTSTRAP_INTENT_KEY" "META_INITIAL_SNAPSHOT_BOOTSTRAP_INTENT_KEY \<noteq> batch_key n"
  "batch_key n \<noteq> META_INITIAL_SNAPSHOT_SOURCE_IDENTITY_KEY" "META_INITIAL_SNAPSHOT_SOURCE_IDENTITY_KEY \<noteq> batch_key n"
  "batch_key n \<noteq> META_SYNC_TAIL_LAST_OP_ID_KEY" "META_SYNC_TAIL_LAST_OP_ID_KEY \<noteq> batch_key n"
  "batch_key n \<noteq> META_SYNC_TAIL_RETAINED_FLOOR_KEY" "META_SYNC_TAIL_RETAINED_FLOOR_KEY \<noteq> batch_key n"
  "batch_key n \<noteq> META_SYNC_TAIL_INDEXED_THROUGH_OP_ID_KEY" "META_SYNC_TAIL_INDEXED_THROUGH_OP_ID_KEY \<noteq> batch_key n"
  by (rule key_space_neq; simp)+

lemma tail_keys_disjoint [simp]:
  "sync_tail_op_key m \<noteq> sync_tail_refs_key n" "sync_tail_refs_key n \<noteq> sync_tail_op_key m"
  "sync_tail_op_key m \<noteq> sync_tail_index_entry_key a n" "sync_tail_index_entry_key a n \<noteq> sync_tail_op_key m"
  "sync_tail_refs_key m \<noteq> sync_tail_index_entry_key a n" "sync_tail_index_entry_key a n \<noteq> sync_tail_refs_key m"
  by (rule key_space_neq; simp)+

lemma key_space_starts_with:
  "starts_with (current_doc_prefix t) k \<Longrightarrow> key_space_of k = Some Current_Doc"
  "starts_with CURRENT_DOC_KEY_PREFIX k \<Longrightarrow> key_space_of k = Some Current_Doc"
  "starts_with (current_route_index_prefix t r) k \<Longrightarrow> key_space_of k = Some Current_Route"
  "starts_with (sync_tail_index_entry_prefix n) k \<Longrightarrow> key_space_of k = Some Tail_Index"
  "starts_with (parameter_lookup_index_prefix l ks) k \<Longrightarrow> key_space_of k = Some Lookup_Index"
  by (elim starts_withE; simp add: key_space_simps current_doc_prefix_def
      current_route_index_prefix_def sync_tail_index_entry_prefix_def parameter_lookup_index_prefix_def)+

section \<open>Injectivity of the key functions\<close>

lemma current_doc_key_inj:
  "CHR '':'' \<notin> set t \<Longrightarrow> CHR '':'' \<notin> set t' \<Longrightarrow>
   current_doc_key t i = current_doc_key t' i' \<longleftrightarrow> t = t' \<and> i = i'"
  using append_sep_eq [of "CHR '':''" t t' i i'] by (simp add: key_fun_defs)

lemma current_doc_key_prefix:
  "CHR '':'' \<notin> set t \<Longrightarrow> CHR '':'' \<notin> set t' \<Longrightarrow>
   starts_with (current_doc_prefix t) (current_doc_key t' i) \<longleftrightarrow> t = t'"
  using append_sep_eq [of "CHR '':''" t' t i]
  by (auto simp: starts_with_iff current_doc_prefix_def key_fun_defs)

lemma current_route_index_key_inj:
  "CHR '':'' \<notin> set t \<Longrightarrow> CHR '':'' \<notin> set t' \<Longrightarrow>
   current_route_index_key t r i = current_route_index_key t' r' i' \<longleftrightarrow> t = t' \<and> r = r' \<and> i = i'"
  using append_sep_eq [of "CHR '':''" t t'
      "sync_tail_route_index_name t r @ '':'' @ i" "sync_tail_route_index_name t' r' @ '':'' @ i'"]
  by (auto simp: key_fun_defs sync_tail_route_index_name_def)

lemma current_route_index_key_prefix:
  "CHR '':'' \<notin> set t \<Longrightarrow> CHR '':'' \<notin> set t' \<Longrightarrow>
   starts_with (current_route_index_prefix t r) (current_route_index_key t' r' i)
   \<longleftrightarrow> t = t' \<and> r = r'"
  using append_sep_eq [of "CHR '':''" t' t "sync_tail_route_index_name t' r' @ '':'' @ i"]
  by (auto simp: starts_with_iff key_fun_defs sync_tail_route_index_name_def)

lemma sync_tail_op_key_inj:
  "m < u64_limit \<Longrightarrow> n < u64_limit \<Longrightarrow> sync_tail_op_key m = sync_tail_op_key n \<longleftrightarrow> m = n"
  by (simp add: key_fun_defs pad20_inj)

lemma sync_tail_refs_key_inj:
  "m < u64_limit \<Longrightarrow> n < u64_limit \<Longrightarrow> sync_tail_refs_key m = sync_tail_refs_key n \<longleftrightarrow> m = n"
  by (simp add: key_fun_defs pad20_inj)

lemma sync_tail_index_entry_key_inj:
  "m < u64_limit \<Longrightarrow> n < u64_limit \<Longrightarrow>
   sync_tail_index_entry_key a m = sync_tail_index_entry_key b n \<longleftrightarrow> a = b \<and> m = n"
  using length_pad20 [of m] length_pad20 [of n] pad20_inj [of m n]
  by (auto simp: key_fun_defs)

lemma sync_tail_index_entry_key_less:
  "m < u64_limit \<Longrightarrow> n < u64_limit \<Longrightarrow>
   sync_tail_index_entry_key a m < sync_tail_index_entry_key a n \<longleftrightarrow> m < n"
  by (simp add: key_fun_defs pad20_less_iff)

lemma sync_tail_index_entry_key_prefix_split:
  "sync_tail_index_entry_key a n = sync_tail_index_entry_prefix a @ pad20 n"
  by (simp add: key_fun_defs sync_tail_index_entry_prefix_def)

lemma utf8_valid_pad20: "n < u64_limit \<Longrightarrow> utf8_valid (pad20 n)"
proof (rule ascii_utf8_valid, rule ballI)
  fix c assume "n < u64_limit" and "c \<in> set (pad20 n)"
  then obtain d where "d \<in> set (fixw 10 20 n)" "c = digit_char d" by (auto simp: pad20_fixw)
  then show "byte_val c \<le> 127" using fixw_digits [of 10 d 20 n] by (simp add: digit_char_val)
qed

lemma sync_tail_global_op_id_from_key_inverse:
  "n < u64_limit \<Longrightarrow>
   sync_tail_global_op_id_from_key (sync_tail_index_entry_key a n) (sync_tail_index_entry_prefix a) = Some n"
  by (simp add: sync_tail_global_op_id_from_key_def sync_tail_index_entry_key_prefix_split
      utf8_valid_pad20 parse_pad20)

lemma accumulator_key_inj [simp]:
  "tail_checkpoint_accumulator_key a = tail_checkpoint_accumulator_key b \<longleftrightarrow> a = b"
  "current_checkpoint_accumulator_key a = current_checkpoint_accumulator_key b \<longleftrightarrow> a = b"
  by (simp_all add: key_fun_defs)

lemma parameter_lookup_row_key_inj [simp]:
  "parameter_lookup_row_key s r = parameter_lookup_row_key s' r' \<longleftrightarrow> s = s' \<and> r = r'"
  by (auto simp: key_fun_defs)

lemma parameter_lookup_index_key_inj:
  "length ks = length ks' \<Longrightarrow>
   parameter_lookup_index_key l ks r = parameter_lookup_index_key l' ks' r'
   \<longleftrightarrow> l = l' \<and> ks = ks' \<and> r = r'"
  using concat_push_len_prefixed_append [of ks ks'] by (auto simp: key_fun_defs)

lemma parameter_lookup_index_key_prefix:
  "length ks = length ks' \<Longrightarrow>
   starts_with (parameter_lookup_index_prefix l ks) (parameter_lookup_index_key l' ks' r)
   \<longleftrightarrow> l = l' \<and> ks = ks'"
  using concat_push_len_prefixed_append [of ks' ks]
  by (auto simp: starts_with_iff key_fun_defs)

end
