(* ===== verification/Batch_Codec.thy ===== *)
theory Batch_Codec
  imports Postgres_Lsn Keys Sync_Model
begin

text \<open>
  \<open>replication/ingest/batch_codec.rs\<close>: the cursor-based readers and writers of length-prefixed fields
  and the encoding of a whole replication batch. A change event is a value of the third-party crate
  \<open>pg_walstream\<close>; its codec is the parameter pair \<open>ce_encode\<close>/\<open>ce_decode\<close>, and the law the batch
  codec relies on is the locale \<open>change_codec\<close>. The lemmas show that each reader returns exactly what
  the writer wrote at that offset, that a batch decodes to itself, and that decoding rejects
  truncated input and trailing bytes.
\<close>

section \<open>Readers and writers\<close>

definition slice_get :: "bytes \<Rightarrow> nat \<Rightarrow> nat \<Rightarrow> bytes option" where
  "slice_get bs a b = (if a \<le> b \<and> b \<le> length bs then Some (take (b - a) (drop a bs)) else None)"

definition read_u32 :: "bytes \<Rightarrow> nat \<Rightarrow> (nat \<times> nat) result" where
  "read_u32 bs cursor =
     (if cursor + 4 < u64_limit then
        rbind (ok_or (CorruptBatch ''missing u32 at offset'') (slice_get bs cursor (cursor + 4)))
          (\<lambda>s. Inr (from_be s, cursor + 4))
      else Inl (CorruptBatch ''u32 cursor overflow''))"

definition read_u64 :: "bytes \<Rightarrow> nat \<Rightarrow> (nat \<times> nat) result" where
  "read_u64 bs cursor =
     (if cursor + 8 < u64_limit then
        rbind (ok_or (CorruptBatch ''missing u64 at offset'') (slice_get bs cursor (cursor + 8)))
          (\<lambda>s. Inr (from_be s, cursor + 8))
      else Inl (CorruptBatch ''u64 cursor overflow''))"

definition read_i64 :: "bytes \<Rightarrow> nat \<Rightarrow> (64 word \<times> nat) result" where
  "read_i64 bs cursor =
     (if cursor + 8 < u64_limit then
        rbind (ok_or (CorruptBatch ''missing i64 at offset'') (slice_get bs cursor (cursor + 8)))
          (\<lambda>s. Inr (word_of_nat (from_be s), cursor + 8))
      else Inl (CorruptBatch ''i64 cursor overflow''))"

definition push_u32 :: "bytes \<Rightarrow> nat \<Rightarrow> string \<Rightarrow> bytes result" where
  "push_u32 bs value label =
     (if value < u32_limit then Inr (bs @ be_bytes 4 value)
      else Inl (CorruptBatch (label @ '' exceeds u32 length'')))"

definition push_len_prefixed_bytes :: "bytes \<Rightarrow> bytes \<Rightarrow> string \<Rightarrow> bytes result" where
  "push_len_prefixed_bytes bs value label =
     rbind (push_u32 bs (length value) label) (\<lambda>bs'. Inr (bs' @ value))"

definition read_len_prefixed_string :: "bytes \<Rightarrow> nat \<Rightarrow> string \<Rightarrow> (string \<times> nat) result" where
  "read_len_prefixed_string bs cursor label =
     rbind (read_u32 bs cursor) (\<lambda>(len, cursor).
     if cursor + len < u64_limit then
       rbind (ok_or (CorruptBatch (''missing '' @ label)) (slice_get bs cursor (cursor + len))) (\<lambda>s.
       if utf8_valid s then Inr (s, cursor + len)
       else Inl (CorruptBatch (label @ '' is not UTF-8'')))
     else Inl (CorruptBatch (label @ '' cursor overflow'')))"

lemma slice_get_append:
  "slice_get (pre @ s @ rest) (length pre) (length pre + length s) = Some s"
  by (simp add: slice_get_def)

lemma slice_get_Some:
  "slice_get bs a b = Some s \<Longrightarrow> length s = b - a \<and> a \<le> b \<and> b \<le> length bs \<and> bs = take a bs @ s @ drop b bs"
  by (auto simp: slice_get_def split: if_splits)
     (metis append_take_drop_id drop_drop le_add_diff_inverse2)

lemma read_u32_at:
  assumes "n < u32_limit" "length pre + 4 < u64_limit"
  shows "read_u32 (pre @ be_bytes 4 n @ rest) (length pre) = Inr (n, length pre + 4)"
  using assms slice_get_append [of pre "be_bytes 4 n" rest]
  by (simp add: read_u32_def be_bytes_u32_inverse)

lemma read_u64_at:
  assumes "n < u64_limit" "length pre + 8 < u64_limit"
  shows "read_u64 (pre @ be_bytes 8 n @ rest) (length pre) = Inr (n, length pre + 8)"
  using assms slice_get_append [of pre "be_bytes 8 n" rest]
  by (simp add: read_u64_def be_bytes_u64_inverse)

lemma unat_u64_bound: "unat (w :: 64 word) < u64_limit"
  using unsigned_less [of w, where 'a = nat] by simp

lemma read_i64_at:
  assumes "length pre + 8 < u64_limit"
  shows "read_i64 (pre @ be_bytes 8 (unat w) @ rest) (length pre) = Inr (w, length pre + 8)"
  using assms slice_get_append [of pre "be_bytes 8 (unat w)" rest] unat_u64_bound [of w]
  by (simp add: read_i64_def be_bytes_u64_inverse)

lemma read_len_prefixed_at:
  assumes "length s < u32_limit" "utf8_valid s" "length pre + 4 + length s < u64_limit"
  shows "read_len_prefixed_string (pre @ be_bytes 4 (length s) @ s @ rest) (length pre) label
         = Inr (s, length pre + 4 + length s)"
  using assms read_u32_at [of "length s" pre "s @ rest"]
    slice_get_append [of "pre @ be_bytes 4 (length s)" s rest]
  by (simp add: read_len_prefixed_string_def)

lemma push_len_prefixed_bytes_ok:
  "push_len_prefixed_bytes bs value label = Inr bs' \<longleftrightarrow>
   length value < u32_limit \<and> bs' = bs @ be_bytes 4 (length value) @ value"
  by (auto simp: push_len_prefixed_bytes_def push_u32_def)

lemma read_u32_Inr:
  assumes "read_u32 bs c = Inr (n, c')"
  shows "c' = c + 4" "c' \<le> length bs" "n < u32_limit"
    and "bs = take c bs @ be_bytes 4 n @ drop c' bs"
proof -
  obtain s where s: "slice_get bs c (c + 4) = Some s" and n: "n = from_be s" and c: "c' = c + 4"
    using assms by (auto simp: read_u32_def elim!: rbindE split: if_splits)
  note p = slice_get_Some [OF s]
  then have l: "length s = 4" by simp
  show "c' = c + 4" by (rule c)
  show "c' \<le> length bs" using p c by simp
  show "n < u32_limit" using from_be_bound [of s] n l by simp
  show "bs = take c bs @ be_bytes 4 n @ drop c' bs"
    using p c n be_bytes_from_be [OF l] by metis
qed

section \<open>Replication batches\<close>

record 'c ReplicationCommitBatch =
  transaction_id :: nat
  begin_final_lsn :: lsn
  begin_commit_time_micros :: "64 word"
  commit_lsn :: lsn
  end_lsn :: lsn
  commit_time_micros :: "64 word"
  column_types_by_table :: "JsonColumnTypes btree"
  changes :: "'c list"

definition encode_change :: "('c \<Rightarrow> bytes) \<Rightarrow> 'c \<Rightarrow> bytes" where
  "encode_change ce_encode c = be_bytes 4 (length (ce_encode c)) @ ce_encode c"

definition batch_encode :: "('c \<Rightarrow> bytes) \<Rightarrow> 'c ReplicationCommitBatch \<Rightarrow> bytes" where
  "batch_encode ce_encode b =
     be_bytes 4 (transaction_id b) @ be_bytes 8 (begin_final_lsn b)
     @ be_bytes 8 (unat (begin_commit_time_micros b)) @ be_bytes 8 (commit_lsn b)
     @ be_bytes 8 (end_lsn b) @ be_bytes 8 (unat (commit_time_micros b))
     @ be_bytes 4 (length (changes b)) @ concat (map (encode_change ce_encode) (changes b))"

fun decode_changes ::
  "(bytes \<Rightarrow> string + 'c) \<Rightarrow> bytes \<Rightarrow> nat \<Rightarrow> nat \<Rightarrow> ('c list \<times> nat) result" where
  "decode_changes ce_decode bs 0 cursor = Inr ([], cursor)"
| "decode_changes ce_decode bs (Suc n) cursor =
     rbind (read_u32 bs cursor) (\<lambda>(encoded_len, cursor).
     if cursor + encoded_len < u64_limit then
       rbind (ok_or (CorruptBatch ''encoded change exceeds batch bounds'')
                (slice_get bs cursor (cursor + encoded_len))) (\<lambda>encoded.
       rbind (map_err PgWalstream (ce_decode encoded)) (\<lambda>c.
       rbind (decode_changes ce_decode bs n (cursor + encoded_len)) (\<lambda>(cs, cursor).
         Inr (c # cs, cursor))))
     else Inl (CorruptBatch ''encoded change length overflow''))"

definition batch_decode :: "(bytes \<Rightarrow> string + 'c) \<Rightarrow> bytes \<Rightarrow> 'c ReplicationCommitBatch result" where
  "batch_decode ce_decode bs =
     rbind (read_u32 bs 0) (\<lambda>(xid, cursor).
     rbind (read_u64 bs cursor) (\<lambda>(bfl, cursor).
     rbind (read_i64 bs cursor) (\<lambda>(bct, cursor).
     rbind (read_u64 bs cursor) (\<lambda>(cl, cursor).
     rbind (read_u64 bs cursor) (\<lambda>(el, cursor).
     rbind (read_i64 bs cursor) (\<lambda>(ct, cursor).
     rbind (read_u32 bs cursor) (\<lambda>(change_count, cursor).
     rbind (decode_changes ce_decode bs change_count cursor) (\<lambda>(cs, cursor).
     if cursor \<noteq> length bs then Inl (CorruptBatch ''expected batch payload to end'')
     else Inr \<lparr> transaction_id = xid, begin_final_lsn = bfl, begin_commit_time_micros = bct,
                commit_lsn = cl, end_lsn = el, commit_time_micros = ct,
                column_types_by_table = [], changes = cs \<rparr>))))))))"

text \<open>The ranges of the Rust field types.\<close>

definition batch_in_range :: "('c \<Rightarrow> bytes) \<Rightarrow> 'c ReplicationCommitBatch \<Rightarrow> bool" where
  "batch_in_range ce_encode b \<longleftrightarrow>
     transaction_id b < u32_limit \<and> begin_final_lsn b < u64_limit \<and> commit_lsn b < u64_limit \<and>
     end_lsn b < u64_limit \<and> length (changes b) < u32_limit \<and>
     (\<forall>c \<in> set (changes b). length (ce_encode c) < u32_limit) \<and>
     length (batch_encode ce_encode b) < u64_limit"

locale change_codec =
  fixes ce_encode :: "'c \<Rightarrow> bytes" and ce_decode :: "bytes \<Rightarrow> string + 'c"
  assumes change_roundtrip: "ce_decode (ce_encode c) = Inr c"
begin

lemma decode_changes_at:
  assumes "\<forall>c \<in> set cs. length (ce_encode c) < u32_limit"
    and "length pre + length (concat (map (encode_change ce_encode) cs)) < u64_limit"
  shows "decode_changes ce_decode (pre @ concat (map (encode_change ce_encode) cs)) (length cs)
           (length pre)
         = Inr (cs, length pre + length (concat (map (encode_change ce_encode) cs)))"
  using assms
proof (induction cs arbitrary: pre)
  case (Cons c cs)
  let ?e = "ce_encode c" and ?rest = "concat (map (encode_change ce_encode) cs)"
  let ?pre = "pre @ be_bytes 4 (length ?e) @ ?e"
  have IH: "decode_changes ce_decode (?pre @ ?rest) (length cs) (length ?pre)
      = Inr (cs, length ?pre + length ?rest)"
    using Cons.prems by (intro Cons.IH) (simp_all add: encode_change_def)
  have r: "read_u32 (pre @ be_bytes 4 (length ?e) @ ?e @ ?rest) (length pre)
      = Inr (length ?e, length pre + 4)"
    using Cons.prems by (intro read_u32_at) (simp_all add: encode_change_def)
  have s: "slice_get (pre @ be_bytes 4 (length ?e) @ ?e @ ?rest) (length pre + 4)
      (length pre + 4 + length ?e) = Some ?e"
    using slice_get_append [of "pre @ be_bytes 4 (length ?e)" ?e ?rest] by simp
  have e: "encode_change ce_encode c = be_bytes 4 (length ?e) @ ?e"
    by (simp add: encode_change_def)
  have lim: "length pre + 4 + length ?e < u64_limit"
    using Cons.prems(2) by (simp add: e)
  show ?case
    using IH r s lim by (simp add: e change_roundtrip add.assoc)
qed simp

lemma batch_decode_encode:
  assumes "batch_in_range ce_encode b"
  shows "batch_decode ce_decode (batch_encode ce_encode b)
         = Inr (b\<lparr>column_types_by_table := []\<rparr>)"
proof -
  define f1 f2 f3 f4 f5 f6 f7 where
    "f1 = be_bytes 4 (transaction_id b)" and "f2 = be_bytes 8 (begin_final_lsn b)" and
    "f3 = be_bytes 8 (unat (begin_commit_time_micros b))" and "f4 = be_bytes 8 (commit_lsn b)" and
    "f5 = be_bytes 8 (end_lsn b)" and "f6 = be_bytes 8 (unat (commit_time_micros b))" and
    "f7 = be_bytes 4 (length (changes b))"
  note fs = f1_def f2_def f3_def f4_def f5_def f6_def f7_def
  define cs where "cs = concat (map (encode_change ce_encode) (changes b))"
  let ?bs = "f1 @ f2 @ f3 @ f4 @ f5 @ f6 @ f7 @ cs"
  have bs: "batch_encode ce_encode b = ?bs" by (simp add: batch_encode_def fs cs_def)
  have len: "length f1 = 4" "length f2 = 8" "length f3 = 8" "length f4 = 8" "length f5 = 8"
    "length f6 = 8" "length f7 = 4" by (simp_all add: fs)
  have lim: "48 + length cs < u64_limit"
    using assms by (simp add: batch_in_range_def bs len)
  note rng = assms [unfolded batch_in_range_def]
  have "read_u32 ?bs 0 = Inr (transaction_id b, 4)"
    using read_u32_at [of "transaction_id b" "[]" "f2 @ f3 @ f4 @ f5 @ f6 @ f7 @ cs"] rng by (simp add: fs)
  moreover have "read_u64 ?bs 4 = Inr (begin_final_lsn b, 12)"
    using read_u64_at [of "begin_final_lsn b" f1 "f3 @ f4 @ f5 @ f6 @ f7 @ cs"] rng by (simp add: fs)
  moreover have "read_i64 ?bs 12 = Inr (begin_commit_time_micros b, 20)"
    using read_i64_at [of "f1 @ f2" "begin_commit_time_micros b" "f4 @ f5 @ f6 @ f7 @ cs"] by (simp add: fs)
  moreover have "read_u64 ?bs 20 = Inr (commit_lsn b, 28)"
    using read_u64_at [of "commit_lsn b" "f1 @ f2 @ f3" "f5 @ f6 @ f7 @ cs"] rng by (simp add: fs)
  moreover have "read_u64 ?bs 28 = Inr (end_lsn b, 36)"
    using read_u64_at [of "end_lsn b" "f1 @ f2 @ f3 @ f4" "f6 @ f7 @ cs"] rng by (simp add: fs)
  moreover have "read_i64 ?bs 36 = Inr (commit_time_micros b, 44)"
    using read_i64_at [of "f1 @ f2 @ f3 @ f4 @ f5" "commit_time_micros b" "f7 @ cs"] by (simp add: fs)
  moreover have "read_u32 ?bs 44 = Inr (length (changes b), 48)"
    using read_u32_at [of "length (changes b)" "f1 @ f2 @ f3 @ f4 @ f5 @ f6" cs] rng by (simp add: fs)
  moreover have "decode_changes ce_decode ?bs (length (changes b)) 48 = Inr (changes b, 48 + length cs)"
    using decode_changes_at [of "changes b" "f1 @ f2 @ f3 @ f4 @ f5 @ f6 @ f7"] rng lim len
    by (simp add: cs_def)
  ultimately show ?thesis
    unfolding bs by (simp add: batch_decode_def len)
qed

end

text \<open>A byte-string payload codec that witnesses the contract.\<close>

interpretation bytes_codec: change_codec "\<lambda>c :: bytes. c" Inr
  by unfold_locales simp

lemma decode_changes_length:
  "decode_changes d bs n c = Inr (cs, c') \<Longrightarrow> length cs = n \<and> c \<le> c'"
proof (induction n arbitrary: c cs c')
  case (Suc n)
  then obtain len c1 e x cs1 where
    "read_u32 bs c = Inr (len, c1)" and "decode_changes d bs n (c1 + len) = Inr (cs1, c')"
    and "cs = x # cs1"
    by (auto elim!: rbindE split: prod.splits if_splits)
  with Suc.IH [of "c1 + len" cs1 c'] read_u32_Inr(1) [of bs c len c1] show ?case by simp
qed simp

lemma batch_decode_consumes_all:
  assumes "batch_decode d bs = Inr b"
  shows "48 \<le> length bs" and "column_types_by_table b = []"
    and "\<exists>cs. decode_changes d bs (length (changes b)) 48 = Inr (cs, length bs)"
proof -
  note unfold = assms [unfolded batch_decode_def read_u64_def read_i64_def read_u32_def]
  obtain n cs c where n: "read_u32 bs 44 = Inr (n, 48)"
    and cs: "decode_changes d bs n 48 = Inr (cs, c)" "c = length bs" and b: "changes b = cs"
      "column_types_by_table b = []"
    using unfold by (auto simp: read_u32_def elim!: rbindE split: if_splits)
  show "48 \<le> length bs" using read_u32_Inr(2) [OF n] by simp
  show "column_types_by_table b = []" by (rule b)
  show "\<exists>cs. decode_changes d bs (length (changes b)) 48 = Inr (cs, length bs)"
    using cs b decode_changes_length [OF cs(1)] by auto
qed

end
