(* ===== verification/Accumulators.thy ===== *)
theory Accumulators
  imports Crates Keys Batch_Codec
begin

text \<open>
  Checkpoint accumulators (\<open>replication/ingest/accumulators.rs\<close>). Two families of accumulators, each
  a wrapping 32-bit checksum and a count under a per-query key: the current accumulator covers the
  documents that match the query now, the tail accumulator covers the history that superseded
  them. The definitions follow the source; the lemmas describe the delta collection as a list of
  contributions and give its effect on the stored accumulators.
\<close>

section \<open>Accumulators\<close>

record PersistedCheckpointAccumulator =
  acc_checksum :: u32
  acc_count :: nat

definition acc_default :: PersistedCheckpointAccumulator where
  "acc_default = \<lparr> acc_checksum = 0, acc_count = 0 \<rparr>"

definition acc_add ::
  "PersistedCheckpointAccumulator \<Rightarrow> PersistedCheckpointAccumulator \<Rightarrow> PersistedCheckpointAccumulator result" where
  "acc_add a delta =
     (if acc_count a + acc_count delta < u64_limit then
        Inr \<lparr> acc_checksum = acc_checksum a + acc_checksum delta,
              acc_count = acc_count a + acc_count delta \<rparr>
      else Inl (CorruptBatch ''sync checkpoint accumulator count overflow''))"

definition encode_checkpoint_accumulator :: "PersistedCheckpointAccumulator \<Rightarrow> bytes" where
  "encode_checkpoint_accumulator a = be_bytes 4 (unat (acc_checksum a)) @ be_bytes 8 (acc_count a)"

definition decode_checkpoint_accumulator :: "bytes \<Rightarrow> PersistedCheckpointAccumulator result" where
  "decode_checkpoint_accumulator bs =
     (if length bs \<noteq> 12 then Inl (CorruptBatch ''sync checkpoint accumulator should be 12 bytes'')
      else Inr \<lparr> acc_checksum = word_of_nat (from_be (take 4 bs)),
                 acc_count = from_be (drop 4 bs) \<rparr>)"

definition read_checkpoint_accumulator_with_key ::
  "'t mdbx \<Rightarrow> 't \<Rightarrow> bytes \<Rightarrow> PersistedCheckpointAccumulator result" where
  "read_checkpoint_accumulator_with_key M t storage_key =
     rbind (t_get M t storage_key) (\<lambda>bs.
       case bs of None \<Rightarrow> Inr acc_default | Some bytes \<Rightarrow> decode_checkpoint_accumulator bytes)"

definition read_checkpoint_accumulator ::
  "'t mdbx \<Rightarrow> 't \<Rightarrow> string \<Rightarrow> PersistedCheckpointAccumulator result" where
  "read_checkpoint_accumulator M t accumulator_key =
     read_checkpoint_accumulator_with_key M t (tail_checkpoint_accumulator_key accumulator_key)"

definition read_current_checkpoint_accumulator ::
  "'t mdbx \<Rightarrow> 't \<Rightarrow> string \<Rightarrow> PersistedCheckpointAccumulator result" where
  "read_current_checkpoint_accumulator M t accumulator_key =
     read_checkpoint_accumulator_with_key M t (current_checkpoint_accumulator_key accumulator_key)"

definition write_checkpoint_accumulator_with_key ::
  "'t mdbx \<Rightarrow> 't \<Rightarrow> bytes \<Rightarrow> PersistedCheckpointAccumulator \<Rightarrow> 't result" where
  "write_checkpoint_accumulator_with_key M t storage_key a =
     t_put M t storage_key (encode_checkpoint_accumulator a)"

definition write_checkpoint_accumulator ::
  "'t mdbx \<Rightarrow> 't \<Rightarrow> string \<Rightarrow> PersistedCheckpointAccumulator \<Rightarrow> 't result" where
  "write_checkpoint_accumulator M t accumulator_key a =
     write_checkpoint_accumulator_with_key M t (tail_checkpoint_accumulator_key accumulator_key) a"

definition write_current_checkpoint_accumulator ::
  "'t mdbx \<Rightarrow> 't \<Rightarrow> string \<Rightarrow> PersistedCheckpointAccumulator \<Rightarrow> 't result" where
  "write_current_checkpoint_accumulator M t accumulator_key a =
     write_checkpoint_accumulator_with_key M t (current_checkpoint_accumulator_key accumulator_key) a"

section \<open>Tail accumulators\<close>

definition sync_checkpoint_accumulator_keys_for_bucket :: "ResolvedSyncBucket \<Rightarrow> string list" where
  "sync_checkpoint_accumulator_keys_for_bucket bucket =
     btset_of_list (map rq_checkpoint_accumulator_key (rb_queries bucket))"

definition sync_tail_checkpoint_accumulator_keys_for_bucket :: "ResolvedSyncBucket \<Rightarrow> string list" where
  "sync_tail_checkpoint_accumulator_keys_for_bucket bucket =
     sync_checkpoint_accumulator_keys_for_bucket bucket"

definition sync_current_checkpoint_accumulator_keys_for_bucket ::
  "ResolvedSyncBucket \<Rightarrow> string list" where
  "sync_current_checkpoint_accumulator_keys_for_bucket bucket =
     sync_checkpoint_accumulator_keys_for_bucket bucket"

definition persist_checkpoint_accumulator_deltas ::
  "'t mdbx \<Rightarrow> 't \<Rightarrow> PersistedCheckpointAccumulator btree \<Rightarrow> 't result" where
  "persist_checkpoint_accumulator_deltas M t deltas =
     rfold (\<lambda>t (accumulator_key, delta).
       rbind (read_checkpoint_accumulator M t accumulator_key) (\<lambda>a.
       rbind (acc_add a delta) (\<lambda>a.
         write_checkpoint_accumulator M t accumulator_key a))) t deltas"

definition or_default :: "'v \<Rightarrow> 'v btree \<Rightarrow> string \<Rightarrow> 'v" where
  "or_default d m k = (case map_of m k of None \<Rightarrow> d | Some v \<Rightarrow> v)"

definition add_checkpoint_accumulator_delta ::
  "PersistedCheckpointAccumulator btree \<Rightarrow> ResolvedSyncBucket \<Rightarrow> PersistedCheckpointAccumulator \<Rightarrow>
   PersistedCheckpointAccumulator btree result" where
  "add_checkpoint_accumulator_delta deltas bucket delta =
     rfold (\<lambda>deltas key. rbind (acc_add (or_default acc_default deltas key) delta)
                            (\<lambda>a. Inr (bt_insert key a deltas)))
       deltas (sync_tail_checkpoint_accumulator_keys_for_bucket bucket)"

definition previous_put_data :: "PersistedSyncTailOp \<Rightarrow> string option" where
  "previous_put_data x =
     (case so_previous_data_json x of
        Some d \<Rightarrow> Some d
      | None \<Rightarrow> if so_operation x = Remove then so_data_json x else None)"

definition add_previous_put_accumulator_deltas ::
  "crates \<Rightarrow> PersistedSyncTailOp \<Rightarrow> RustExecutionPlan \<Rightarrow> PersistedCheckpointAccumulator btree \<Rightarrow>
   PersistedCheckpointAccumulator btree result" where
  "add_previous_put_accumulator_deltas C x plan deltas =
     (if so_operation x \<notin> {Put, Remove} then Inr deltas
      else case so_object_type x of None \<Rightarrow> Inr deltas
      | Some ty \<Rightarrow> (case so_object_id x of None \<Rightarrow> Inr deltas
      | Some ident \<Rightarrow> (case previous_put_data x of None \<Rightarrow> Inr deltas
      | Some previous \<Rightarrow>
          (let rf = (case so_previous_route_fields x of Some r \<Rightarrow> r | None \<Rightarrow> so_route_fields x) in
           rfold (\<lambda>deltas bucket.
               if \<not> matches_object_routes_and_data (cr_json C) bucket ty rf previous then Inr deltas
               else case project_document_json (cr_json C) bucket ty previous of
                      Inl _ \<Rightarrow> Inr deltas
                    | Inr projected \<Rightarrow>
                        add_checkpoint_accumulator_delta deltas bucket
                          \<lparr> acc_checksum = put_checksum C ty ident projected, acc_count = 1 \<rparr>)
             deltas (accumulator_buckets_for_row (cr_json C) plan ty rf)))))"

definition add_remove_accumulator_deltas ::
  "crates \<Rightarrow> PersistedSyncTailOp \<Rightarrow> RustExecutionPlan \<Rightarrow> PersistedCheckpointAccumulator btree \<Rightarrow>
   PersistedCheckpointAccumulator btree result" where
  "add_remove_accumulator_deltas C x plan deltas =
     (if so_operation x \<noteq> Remove then Inr deltas
      else case so_object_type x of None \<Rightarrow> Inr deltas
      | Some ty \<Rightarrow> (case so_object_id x of None \<Rightarrow> Inr deltas
      | Some ident \<Rightarrow>
          rfold (\<lambda>deltas bucket.
              if \<not> (case so_data_json x of
                      None \<Rightarrow> matches_object_and_routes (cr_json C) bucket ty (so_route_fields x)
                    | Some d \<Rightarrow> matches_object_routes_and_data (cr_json C) bucket ty (so_route_fields x) d)
              then Inr deltas
              else add_checkpoint_accumulator_delta deltas bucket
                     \<lparr> acc_checksum = remove_checksum C (source_subkey_for_object ty ident),
                       acc_count = 1 \<rparr>)
            deltas (accumulator_buckets_for_row (cr_json C) plan ty (so_route_fields x))))"

definition collect_checkpoint_accumulator_deltas_for_op ::
  "crates \<Rightarrow> PersistedCheckpointAccumulator btree \<Rightarrow> PersistedSyncTailOp \<Rightarrow> RustExecutionPlan \<Rightarrow>
   PersistedCheckpointAccumulator btree result" where
  "collect_checkpoint_accumulator_deltas_for_op C deltas x plan =
     rbind (add_previous_put_accumulator_deltas C x plan deltas) (\<lambda>deltas.
       add_remove_accumulator_deltas C x plan deltas)"

section \<open>Current accumulators\<close>

datatype CurrentAccumulatorDeltaDirection = Add_Delta | Remove_Delta

record CurrentAccumulatorDelta =
  cd_add :: PersistedCheckpointAccumulator
  cd_remove :: PersistedCheckpointAccumulator

definition cd_default :: CurrentAccumulatorDelta where
  "cd_default = \<lparr> cd_add = acc_default, cd_remove = acc_default \<rparr>"

record CurrentAccumulatorTarget =
  ct_bucket :: ResolvedSyncBucket
  ct_keys :: "string list"
  ct_projection_key :: string

text \<open>\<open>CurrentDocumentWrite\<close> is the borrowed form of a document.\<close>

type_synonym CurrentDocumentWrite = PersistedBucketedDocument

definition current_accumulator_targets_for_row ::
  "json_lib \<Rightarrow> RustExecutionPlan \<Rightarrow> string \<Rightarrow> routes \<Rightarrow> CurrentAccumulatorTarget list" where
  "current_accumulator_targets_for_row J plan ty rf =
     map (\<lambda>bucket. \<lparr> ct_bucket = bucket,
                     ct_keys = sync_current_checkpoint_accumulator_keys_for_bucket bucket,
                     ct_projection_key = rb_projection_key bucket \<rparr>)
       (accumulator_buckets_for_row J plan ty rf)"

definition bump :: "string \<Rightarrow> PersistedCheckpointAccumulator \<Rightarrow> u32 \<Rightarrow> PersistedCheckpointAccumulator result" where
  "bump msg a checksum =
     (if acc_count a + 1 < u64_limit then
        Inr \<lparr> acc_checksum = acc_checksum a + checksum, acc_count = acc_count a + 1 \<rparr>
      else Inl (CorruptBatch msg))"

definition add_current_accumulator_checksum_delta ::
  "CurrentAccumulatorDelta btree \<Rightarrow> CurrentAccumulatorTarget \<Rightarrow> u32 \<Rightarrow> CurrentAccumulatorDeltaDirection \<Rightarrow>
   CurrentAccumulatorDelta btree result" where
  "add_current_accumulator_checksum_delta deltas target checksum direction =
     rfold (\<lambda>deltas key.
       let delta = or_default cd_default deltas key in
       case direction of
         Add_Delta \<Rightarrow>
           rbind (bump ''current checkpoint accumulator add count overflow'' (cd_add delta) checksum)
             (\<lambda>a. Inr (bt_insert key (delta\<lparr>cd_add := a\<rparr>) deltas))
       | Remove_Delta \<Rightarrow>
           rbind (bump ''current checkpoint accumulator remove count overflow'' (cd_remove delta) checksum)
             (\<lambda>a. Inr (bt_insert key (delta\<lparr>cd_remove := a\<rparr>) deltas))) deltas (ct_keys target)"

definition checksum_for_target ::
  "crates \<Rightarrow> CurrentDocumentWrite \<Rightarrow> (CurrentAccumulatorTarget \<Rightarrow> string result) \<Rightarrow>
   (string \<times> u32) list \<Rightarrow> CurrentAccumulatorTarget \<Rightarrow> (u32 \<times> (string \<times> u32) list) result" where
  "checksum_for_target C document project_for_target checksums_by_projection target =
     (case map_of checksums_by_projection (ct_projection_key target) of
        Some checksum \<Rightarrow> Inr (checksum, checksums_by_projection)
      | None \<Rightarrow>
          rbind (project_for_target target) (\<lambda>projected.
            let checksum = put_checksum C (doc_object_type document) (doc_object_id document) projected in
            Inr (checksum, (ct_projection_key target, checksum) # checksums_by_projection)))"

definition target_matches :: "crates \<Rightarrow> CurrentDocumentWrite \<Rightarrow> CurrentAccumulatorTarget \<Rightarrow> bool" where
  "target_matches C document target \<longleftrightarrow>
     matches_object_routes_and_data (cr_json C) (ct_bucket target)
       (doc_object_type document) (doc_route_fields document) (doc_data_json document)"

fun collect_from_targets ::
  "crates \<Rightarrow> CurrentDocumentWrite \<Rightarrow> CurrentAccumulatorDeltaDirection \<Rightarrow>
   (CurrentAccumulatorTarget \<Rightarrow> string result) \<Rightarrow> (string \<times> u32) list \<Rightarrow>
   CurrentAccumulatorDelta btree \<Rightarrow> CurrentAccumulatorTarget list \<Rightarrow> CurrentAccumulatorDelta btree result" where
  "collect_from_targets C document direction prj cache deltas [] = Inr deltas"
| "collect_from_targets C document direction prj cache deltas (target # targets) =
     (if \<not> target_matches C document target
      then collect_from_targets C document direction prj cache deltas targets
      else
        rbind (checksum_for_target C document prj cache target) (\<lambda>(checksum, cache).
        rbind (add_current_accumulator_checksum_delta deltas target checksum direction) (\<lambda>deltas.
          collect_from_targets C document direction prj cache deltas targets)))"

definition collect_current_accumulator_deltas ::
  "crates \<Rightarrow> CurrentAccumulatorDelta btree \<Rightarrow> CurrentDocumentWrite \<Rightarrow> CurrentAccumulatorTarget list \<Rightarrow>
   CurrentAccumulatorDeltaDirection \<Rightarrow> (CurrentAccumulatorTarget \<Rightarrow> string result) \<Rightarrow>
   CurrentAccumulatorDelta btree result" where
  "collect_current_accumulator_deltas C deltas document targets direction project_for_target =
     collect_from_targets C document direction project_for_target [] deltas targets"

definition collect_current_document_accumulator_delta_for_targets ::
  "crates \<Rightarrow> CurrentAccumulatorDelta btree \<Rightarrow> CurrentDocumentWrite \<Rightarrow> CurrentAccumulatorTarget list \<Rightarrow>
   CurrentAccumulatorDeltaDirection \<Rightarrow> CurrentAccumulatorDelta btree result" where
  "collect_current_document_accumulator_delta_for_targets C deltas document targets direction =
     collect_current_accumulator_deltas C deltas document targets direction (\<lambda>target.
       map_err sync_rule_error_to_ingest_error
         (project_document_json (cr_json C) (ct_bucket target) (doc_object_type document)
            (doc_data_json document)))"

record SnapshotAccumulatorInput =
  si_row :: row_data
  si_column_types :: "JsonColumnTypes option"
  si_document :: CurrentDocumentWrite

definition collect_current_document_accumulator_delta_for_snapshot_targets ::
  "crates \<Rightarrow> CurrentAccumulatorDelta btree \<Rightarrow> SnapshotAccumulatorInput \<Rightarrow> CurrentAccumulatorTarget list \<Rightarrow>
   CurrentAccumulatorDeltaDirection \<Rightarrow> CurrentAccumulatorDelta btree result" where
  "collect_current_document_accumulator_delta_for_snapshot_targets C deltas inp targets direction =
     collect_current_accumulator_deltas C deltas (si_document inp) targets direction (\<lambda>target.
       map_err sync_rule_error_to_ingest_error
         (project_row_json_from_serialized (cr_json C) (si_row inp) (rb_projection (ct_bucket target))
            (doc_data_json (si_document inp)) (si_column_types inp)))"

definition apply_current_delta ::
  "PersistedCheckpointAccumulator \<Rightarrow> CurrentAccumulatorDelta \<Rightarrow> PersistedCheckpointAccumulator result" where
  "apply_current_delta a delta =
     rbind (acc_add a (cd_add delta)) (\<lambda>a.
       Inr (if acc_count (cd_remove delta) \<le> acc_count a
            then \<lparr> acc_checksum = acc_checksum a - acc_checksum (cd_remove delta),
                   acc_count = acc_count a - acc_count (cd_remove delta) \<rparr>
            else \<lparr> acc_checksum = 0, acc_count = 0 \<rparr>))"

definition persist_current_accumulator_deltas ::
  "'t mdbx \<Rightarrow> 't \<Rightarrow> CurrentAccumulatorDelta btree \<Rightarrow> 't result" where
  "persist_current_accumulator_deltas M t deltas =
     rfold (\<lambda>t (key, delta).
       rbind (read_current_checkpoint_accumulator M t key) (\<lambda>a.
       rbind (apply_current_delta a delta) (\<lambda>a.
         write_current_checkpoint_accumulator M t key a))) t deltas"

definition persist_current_document_accumulator_delta ::
  "crates \<Rightarrow> 't mdbx \<Rightarrow> 't \<Rightarrow> CurrentDocumentWrite \<Rightarrow> RustExecutionPlan \<Rightarrow>
   CurrentAccumulatorDeltaDirection \<Rightarrow> 't result" where
  "persist_current_document_accumulator_delta C M t document plan direction =
     rbind (collect_current_document_accumulator_delta_for_targets C [] document
              (current_accumulator_targets_for_row (cr_json C) plan (doc_object_type document)
                 (doc_route_fields document)) direction)
       (\<lambda>deltas. persist_current_accumulator_deltas M t deltas)"

definition add_current_document_accumulator ::
  "crates \<Rightarrow> 't mdbx \<Rightarrow> 't \<Rightarrow> CurrentDocumentWrite \<Rightarrow> RustExecutionPlan \<Rightarrow> 't result" where
  "add_current_document_accumulator C M t document plan =
     persist_current_document_accumulator_delta C M t document plan Add_Delta"

definition remove_current_document_accumulator ::
  "crates \<Rightarrow> 't mdbx \<Rightarrow> 't \<Rightarrow> PersistedBucketedDocument \<Rightarrow> RustExecutionPlan \<Rightarrow> 't result" where
  "remove_current_document_accumulator C M t document plan =
     persist_current_document_accumulator_delta C M t document plan Remove_Delta"

section \<open>Round trip of a stored accumulator\<close>

lemma decode_encode_checkpoint_accumulator:
  "acc_count a < u64_limit \<Longrightarrow>
   decode_checkpoint_accumulator (encode_checkpoint_accumulator a) = Inr a"
  using unsigned_less [of "acc_checksum a", where 'a = nat]
  by (simp add: decode_checkpoint_accumulator_def encode_checkpoint_accumulator_def codec_simps)

lemma decode_checkpoint_accumulator_bound:
  "decode_checkpoint_accumulator bs = Inr a \<Longrightarrow> acc_count a < u64_limit"
  using from_be_bound [of "drop 4 bs"] by (auto simp: decode_checkpoint_accumulator_def split: if_splits)

section \<open>Contributions of a document\<close>

text \<open>
  The pairs of accumulator key and checksum that one document adds, in the order of the targets,
  with the checksum cache of the source.
\<close>

fun collect_events ::
  "crates \<Rightarrow> CurrentDocumentWrite \<Rightarrow> (CurrentAccumulatorTarget \<Rightarrow> string result) \<Rightarrow>
   (string \<times> u32) list \<Rightarrow> CurrentAccumulatorTarget list \<Rightarrow> (string \<times> u32) list result" where
  "collect_events C d prj cache [] = Inr []"
| "collect_events C d prj cache (tg # tgs) =
     (if \<not> target_matches C d tg then collect_events C d prj cache tgs
      else
        rbind (checksum_for_target C d prj cache tg) (\<lambda>(checksum, cache).
        rbind (collect_events C d prj cache tgs) (\<lambda>es.
          Inr (map (\<lambda>k. (k, checksum)) (ct_keys tg) @ es))))"

definition bump_event ::
  "CurrentAccumulatorDeltaDirection \<Rightarrow> CurrentAccumulatorDelta btree \<Rightarrow> string \<times> u32 \<Rightarrow>
   CurrentAccumulatorDelta btree result" where
  "bump_event direction deltas e =
     add_current_accumulator_checksum_delta deltas
       \<lparr> ct_bucket = undefined, ct_keys = [fst e], ct_projection_key = [] \<rparr> (snd e) direction"

lemma add_delta_as_events:
  "add_current_accumulator_checksum_delta deltas tg c dir =
   rfold (bump_event dir) deltas (map (\<lambda>k. (k, c)) (ct_keys tg))"
proof -
  have "rfold f deltas ks = rfold (bump_event dir) deltas (map (\<lambda>k. (k, c)) ks)"
    if "\<And>ds k. f ds k = bump_event dir ds (k, c)" for f ks
    using that by (induction ks arbitrary: deltas) auto
  from this [where ks = "ct_keys tg"] show ?thesis
    unfolding add_current_accumulator_checksum_delta_def
    by (auto simp: bump_event_def add_current_accumulator_checksum_delta_def rbind_assoc Let_def
        split: CurrentAccumulatorDeltaDirection.split)
qed

lemma collect_from_targets_events:
  "collect_from_targets C d dir prj cache deltas tgs = Inr deltas' \<Longrightarrow>
   \<exists>es. collect_events C d prj cache tgs = Inr es \<and> rfold (bump_event dir) deltas es = Inr deltas'"
proof (induction tgs arbitrary: cache deltas)
  case (Cons tg tgs)
  show ?case
  proof (cases "target_matches C d tg")
    case True
    with Cons.prems obtain c cache1 deltas1 where
      1: "checksum_for_target C d prj cache tg = Inr (c, cache1)"
        "add_current_accumulator_checksum_delta deltas tg c dir = Inr deltas1"
        "collect_from_targets C d dir prj cache1 deltas1 tgs = Inr deltas'"
      by (auto elim!: rbindE)
    from Cons.IH [OF 1(3)] obtain es where
      "collect_events C d prj cache1 tgs = Inr es" "rfold (bump_event dir) deltas1 es = Inr deltas'"
      by blast
    with 1 True show ?thesis
      by (auto simp: add_delta_as_events rfold_append)
  next
    case False
    with Cons show ?thesis by simp
  qed
qed simp

text \<open>What a list of contributions adds up to under one key.\<close>

definition sum_under :: "string \<Rightarrow> (string \<times> u32) list \<Rightarrow> u32" where
  "sum_under k es = sum_list (map snd (filter (\<lambda>e. fst e = k) es))"

definition count_under :: "string \<Rightarrow> (string \<times> u32) list \<Rightarrow> nat" where
  "count_under k es = length (filter (\<lambda>e. fst e = k) es)"

lemma sum_under_simps [simp]:
  "sum_under k [] = 0" "sum_under k (e # es) = (if fst e = k then snd e else 0) + sum_under k es"
  "count_under k [] = 0" "count_under k (e # es) = (if fst e = k then 1 else 0) + count_under k es"
  by (simp_all add: sum_under_def count_under_def)

fun cd_side :: "CurrentAccumulatorDeltaDirection \<Rightarrow> CurrentAccumulatorDelta \<Rightarrow> PersistedCheckpointAccumulator" where
  "cd_side Add_Delta = cd_add"
| "cd_side Remove_Delta = cd_remove"

fun other_side :: "CurrentAccumulatorDeltaDirection \<Rightarrow> CurrentAccumulatorDeltaDirection" where
  "other_side Add_Delta = Remove_Delta"
| "other_side Remove_Delta = Add_Delta"

lemma or_default_bt_insert [simp]:
  "or_default d (bt_insert k v m) k' = (if k' = k then v else or_default d m k')"
  by (simp add: or_default_def)

lemma bump_eventE:
  assumes "bump_event dir ds e = Inr ds'"
  obtains x where "ds' = bt_insert (fst e) x ds"
    and "acc_checksum (cd_side dir x) = acc_checksum (cd_side dir (or_default cd_default ds (fst e))) + snd e"
    and "acc_count (cd_side dir x) = acc_count (cd_side dir (or_default cd_default ds (fst e))) + 1"
    and "cd_side (other_side dir) x = cd_side (other_side dir) (or_default cd_default ds (fst e))"
proof (cases dir)
  case Add_Delta
  with assms show thesis
    by (intro that [of "(or_default cd_default ds (fst e))\<lparr>cd_add :=
          \<lparr> acc_checksum = acc_checksum (cd_add (or_default cd_default ds (fst e))) + snd e,
            acc_count = acc_count (cd_add (or_default cd_default ds (fst e))) + 1 \<rparr>\<rparr>"])
       (auto simp: bump_event_def add_current_accumulator_checksum_delta_def bump_def Let_def
         split: if_splits)
next
  case Remove_Delta
  with assms show thesis
    by (intro that [of "(or_default cd_default ds (fst e))\<lparr>cd_remove :=
          \<lparr> acc_checksum = acc_checksum (cd_remove (or_default cd_default ds (fst e))) + snd e,
            acc_count = acc_count (cd_remove (or_default cd_default ds (fst e))) + 1 \<rparr>\<rparr>"])
       (auto simp: bump_event_def add_current_accumulator_checksum_delta_def bump_def Let_def
         split: if_splits)
qed

lemma bump_events_under_key:
  "rfold (bump_event dir) ds es = Inr ds' \<Longrightarrow>
   acc_checksum (cd_side dir (or_default cd_default ds' k))
     = acc_checksum (cd_side dir (or_default cd_default ds k)) + sum_under k es \<and>
   acc_count (cd_side dir (or_default cd_default ds' k))
     = acc_count (cd_side dir (or_default cd_default ds k)) + count_under k es \<and>
   cd_side (other_side dir) (or_default cd_default ds' k)
     = cd_side (other_side dir) (or_default cd_default ds k)"
proof (induction es arbitrary: ds)
  case (Cons e es)
  then obtain d where d: "bump_event dir ds e = Inr d" "rfold (bump_event dir) d es = Inr ds'"
    by (auto elim: rbindE)
  show ?case
  proof (rule bump_eventE [OF d(1)], goal_cases)
    case (1 x)
    with Cons.IH [OF d(2)] show ?case by (cases "fst e = k") (auto simp: add.assoc)
  qed
qed simp

lemma bump_events_keys:
  "rfold (bump_event dir) ds es = Inr ds' \<Longrightarrow> bt_sorted ds \<Longrightarrow>
   bt_sorted ds' \<and> fst ` set ds' = fst ` set es \<union> fst ` set ds"
proof (induction es arbitrary: ds)
  case (Cons e es)
  then obtain d where d: "bump_event dir ds e = Inr d" "rfold (bump_event dir) d es = Inr ds'"
    by (auto elim: rbindE)
  from d(1) obtain x where "d = bt_insert (fst e) x ds" by (rule bump_eventE)
  with Cons.IH [OF d(2)] Cons.prems(2) show ?case by (auto simp: fst_bt_insert)
qed simp

section \<open>Stored accumulators\<close>

definition acc_of :: "kv \<Rightarrow> bytes \<Rightarrow> PersistedCheckpointAccumulator" where
  "acc_of kv key =
     (case kv key of None \<Rightarrow> acc_default
      | Some bs \<Rightarrow> (case decode_checkpoint_accumulator bs of Inl _ \<Rightarrow> acc_default | Inr a \<Rightarrow> a))"

lemma acc_of_upd:
  "acc_count a < u64_limit \<Longrightarrow>
   acc_of (kv(k \<mapsto> encode_checkpoint_accumulator a)) k' = (if k' = k then a else acc_of kv k')"
  by (simp add: acc_of_def decode_encode_checkpoint_accumulator)

lemma acc_of_bound: "acc_count (acc_of kv k) < u64_limit"
  by (auto simp: acc_of_def acc_default_def dest: decode_checkpoint_accumulator_bound
      split: option.splits sum.splits)

text \<open>The contributions of a document to the current accumulators of a plan.\<close>

definition doc_events ::
  "crates \<Rightarrow> RustExecutionPlan \<Rightarrow> CurrentDocumentWrite \<Rightarrow> (string \<times> u32) list result" where
  "doc_events C plan d =
     collect_events C d (\<lambda>target. map_err sync_rule_error_to_ingest_error
         (project_document_json (cr_json C) (ct_bucket target) (doc_object_type d) (doc_data_json d)))
       [] (current_accumulator_targets_for_row (cr_json C) plan (doc_object_type d) (doc_route_fields d))"

definition contribution :: "(string \<times> u32) list \<Rightarrow> string \<Rightarrow> PersistedCheckpointAccumulator" where
  "contribution es K = \<lparr> acc_checksum = sum_under K es, acc_count = count_under K es \<rparr>"

definition acc_plus ::
  "PersistedCheckpointAccumulator \<Rightarrow> PersistedCheckpointAccumulator \<Rightarrow> PersistedCheckpointAccumulator" where
  "acc_plus a b = \<lparr> acc_checksum = acc_checksum a + acc_checksum b, acc_count = acc_count a + acc_count b \<rparr>"

context mdbx_table
begin

lemma read_accumulator_view:
  assumes "read_checkpoint_accumulator_with_key M t key = Inr a"
  shows "a = acc_of (view t) key" and "acc_count a < u64_limit"
  using assms
  by (auto simp: read_checkpoint_accumulator_with_key_def acc_of_def acc_default_def
      dest!: t_get_view decode_checkpoint_accumulator_bound elim!: rbindE split: option.splits)

lemma acc_add_bound: "acc_add a d = Inr a' \<Longrightarrow> acc_count a' < u64_limit"
  by (auto simp: acc_add_def split: if_splits)

lemma apply_current_delta_bound: "apply_current_delta a d = Inr a' \<Longrightarrow> acc_count a' < u64_limit"
  by (auto simp: apply_current_delta_def dest!: acc_add_bound elim!: rbindE)

text \<open>Persisting the collected deltas of the current accumulators touches exactly their keys.\<close>

lemma persist_current_accumulator_deltas_view:
  assumes "persist_current_accumulator_deltas M t deltas = Inr t'"
    and "distinct (map fst deltas)"
  shows "\<forall>k. (\<forall>K \<in> fst ` set deltas. k \<noteq> current_checkpoint_accumulator_key K) \<longrightarrow> view t' k = view t k"
    and "\<forall>(K, delta) \<in> set deltas.
           apply_current_delta (acc_of (view t) (current_checkpoint_accumulator_key K)) delta
           = Inr (acc_of (view t') (current_checkpoint_accumulator_key K))"
proof -
  let ?ck = current_checkpoint_accumulator_key
  have "(\<forall>k. (\<forall>K \<in> fst ` set deltas. k \<noteq> ?ck K) \<longrightarrow> view t' k = view t k) \<and>
        (\<forall>(K, delta) \<in> set deltas.
           apply_current_delta (acc_of (view t) (?ck K)) delta = Inr (acc_of (view t') (?ck K)))"
    using assms
  proof (induction deltas arbitrary: t)
    case (Cons kd deltas)
    obtain K delta where kd: "kd = (K, delta)" by (cases kd)
    from Cons.prems kd obtain a a' t1 where
      a: "read_current_checkpoint_accumulator M t K = Inr a" "apply_current_delta a delta = Inr a'"
        "write_current_checkpoint_accumulator M t K a' = Inr t1"
      and rest: "persist_current_accumulator_deltas M t1 deltas = Inr t'"
      by (auto simp: persist_current_accumulator_deltas_def elim!: rbindE)
    have v1: "view t1 = (view t)(?ck K \<mapsto> encode_checkpoint_accumulator a')"
      using a(3) by (simp add: write_current_checkpoint_accumulator_def
          write_checkpoint_accumulator_with_key_def t_put_view)
    have acc1: "acc_of (view t1) k = (if k = ?ck K then a' else acc_of (view t) k)" for k
      using acc_of_upd apply_current_delta_bound [OF a(2)] by (simp add: v1)
    have a0: "a = acc_of (view t) (?ck K)"
      using a(1) by (simp add: read_current_checkpoint_accumulator_def read_accumulator_view)
    have IH: "(\<forall>k. (\<forall>K \<in> fst ` set deltas. k \<noteq> ?ck K) \<longrightarrow> view t' k = view t1 k) \<and>
        (\<forall>(K, delta) \<in> set deltas.
           apply_current_delta (acc_of (view t1) (?ck K)) delta = Inr (acc_of (view t') (?ck K)))"
      using Cons.IH [OF rest] Cons.prems(2) by simp
    have fresh: "K \<notin> fst ` set deltas" using Cons.prems(2) kd by simp
    then have "\<forall>K' \<in> fst ` set deltas. ?ck K \<noteq> ?ck K'" by auto
    then have "view t' (?ck K) = view t1 (?ck K)" using IH by blast
    then have "acc_of (view t') (?ck K) = a'" using acc1 [of "?ck K"] by (simp add: acc_of_def)
    with IH fresh acc1 a0 a(2) kd v1 show ?case by (fastforce simp: image_iff)
  qed (simp add: persist_current_accumulator_deltas_def)
  then show "\<forall>k. (\<forall>K \<in> fst ` set deltas. k \<noteq> ?ck K) \<longrightarrow> view t' k = view t k"
    and "\<forall>(K, delta) \<in> set deltas.
           apply_current_delta (acc_of (view t) (?ck K)) delta = Inr (acc_of (view t') (?ck K))"
    by blast+
qed

text \<open>The effect of adding or removing the contributions of one document.\<close>

lemma persist_document_delta:
  assumes "persist_current_document_accumulator_delta C M t d plan dir = Inr t'"
  obtains es where "doc_events C plan d = Inr es"
    and "\<And>K. \<exists>delta. cd_side dir delta = \<lparr> acc_checksum = sum_under K es, acc_count = count_under K es \<rparr>
           \<and> cd_side (other_side dir) delta = acc_default
           \<and> apply_current_delta (acc_of (view t) (current_checkpoint_accumulator_key K)) delta
              = Inr (acc_of (view t') (current_checkpoint_accumulator_key K))"
    and "\<And>k. key_space_of k \<noteq> Some Current_Checkpoint \<Longrightarrow> view t' k = view t k"
proof -
  let ?ck = current_checkpoint_accumulator_key
  obtain deltas where
    c: "collect_current_document_accumulator_delta_for_targets C [] d
          (current_accumulator_targets_for_row (cr_json C) plan (doc_object_type d)
             (doc_route_fields d)) dir = Inr deltas"
    and p: "persist_current_accumulator_deltas M t deltas = Inr t'"
    using assms by (auto simp: persist_current_document_accumulator_delta_def elim: rbindE)
  obtain es where es: "doc_events C plan d = Inr es" "rfold (bump_event dir) [] es = Inr deltas"
    using c collect_from_targets_events
    unfolding collect_current_document_accumulator_delta_for_targets_def
      collect_current_accumulator_deltas_def doc_events_def by metis
  have srt: "bt_sorted deltas" and keys: "fst ` set deltas = fst ` set es"
    using bump_events_keys [OF es(2)] by (simp_all add: bt_sorted_def)
  have dist: "distinct (map fst deltas)" using srt by (simp add: bt_sorted_def strict_sorted_iff)
  note eff = persist_current_accumulator_deltas_view [OF p dist]
  show thesis
  proof (rule that [OF es(1)])
    fix K
    let ?d = "or_default cd_default deltas K"
    have d: "cd_side dir ?d = \<lparr> acc_checksum = sum_under K es, acc_count = count_under K es \<rparr>"
      "cd_side (other_side dir) ?d = acc_default"
      using bump_events_under_key [OF es(2), of K]
      by (cases dir; simp add: or_default_def cd_default_def acc_default_def)+
    have "apply_current_delta (acc_of (view t) (?ck K)) ?d = Inr (acc_of (view t') (?ck K))"
    proof (cases "K \<in> fst ` set es")
      case True
      then obtain v where "(K, v) \<in> set deltas" using keys by force
      with dist eff(2) show ?thesis by (auto simp: or_default_def)
    next
      case False
      then have "map_of deltas K = None" using keys by (simp add: map_of_eq_None_iff)
      then have 0: "?d = cd_default" by (simp add: or_default_def)
      have "\<forall>K' \<in> fst ` set deltas. ?ck K \<noteq> ?ck K'" using False keys by auto
      then have same: "view t' (?ck K) = view t (?ck K)" using eff(1) by blast
      have "acc_of (view t') (?ck K) = acc_of (view t) (?ck K)" by (simp add: acc_of_def same)
      with acc_of_bound [of "view t" "?ck K"] show ?thesis
        unfolding 0 by (simp add: apply_current_delta_def acc_add_def cd_default_def acc_default_def)
    qed
    with d show "\<exists>delta. cd_side dir delta
          = \<lparr> acc_checksum = sum_under K es, acc_count = count_under K es \<rparr>
        \<and> cd_side (other_side dir) delta = acc_default
        \<and> apply_current_delta (acc_of (view t) (?ck K)) delta = Inr (acc_of (view t') (?ck K))"
      by blast
  next
    fix k assume "key_space_of k \<noteq> Some Current_Checkpoint"
    then have "\<forall>K \<in> fst ` set deltas. k \<noteq> ?ck K" by auto
    with eff(1) show "view t' k = view t k" by blast
  qed
qed

lemma add_current_document_accumulator_effect:
  assumes "add_current_document_accumulator C M t d plan = Inr t'"
  obtains es where "doc_events C plan d = Inr es"
    and "\<And>K. acc_of (view t') (current_checkpoint_accumulator_key K)
           = acc_plus (acc_of (view t) (current_checkpoint_accumulator_key K)) (contribution es K)"
    and "\<And>k. key_space_of k \<noteq> Some Current_Checkpoint \<Longrightarrow> view t' k = view t k"
proof (rule persist_document_delta [OF assms [unfolded add_current_document_accumulator_def]])
  fix es
  assume 1: "doc_events C plan d = Inr es"
    "\<And>K. \<exists>delta. cd_side Add_Delta delta = \<lparr> acc_checksum = sum_under K es, acc_count = count_under K es \<rparr>
       \<and> cd_side (other_side Add_Delta) delta = acc_default
       \<and> apply_current_delta (acc_of (view t) (current_checkpoint_accumulator_key K)) delta
          = Inr (acc_of (view t') (current_checkpoint_accumulator_key K))"
    "\<And>k. key_space_of k \<noteq> Some Current_Checkpoint \<Longrightarrow> view t' k = view t k"
  show thesis
  proof (rule that [OF 1(1) _ 1(3)])
    fix K
    show "acc_of (view t') (current_checkpoint_accumulator_key K)
          = acc_plus (acc_of (view t) (current_checkpoint_accumulator_key K)) (contribution es K)"
      using 1(2) [of K]
      by (auto simp: apply_current_delta_def acc_add_def acc_plus_def contribution_def acc_default_def
          split: if_splits)
  qed
qed

lemma remove_current_document_accumulator_effect:
  assumes "remove_current_document_accumulator C M t d plan = Inr t'"
  obtains es where "doc_events C plan d = Inr es"
    and "\<And>K rest. acc_of (view t) (current_checkpoint_accumulator_key K) = acc_plus rest (contribution es K)
           \<Longrightarrow> acc_of (view t') (current_checkpoint_accumulator_key K) = rest"
    and "\<And>k. key_space_of k \<noteq> Some Current_Checkpoint \<Longrightarrow> view t' k = view t k"
proof (rule persist_document_delta [OF assms [unfolded remove_current_document_accumulator_def]])
  fix es
  assume 1: "doc_events C plan d = Inr es"
    "\<And>K. \<exists>delta. cd_side Remove_Delta delta = \<lparr> acc_checksum = sum_under K es, acc_count = count_under K es \<rparr>
       \<and> cd_side (other_side Remove_Delta) delta = acc_default
       \<and> apply_current_delta (acc_of (view t) (current_checkpoint_accumulator_key K)) delta
          = Inr (acc_of (view t') (current_checkpoint_accumulator_key K))"
    "\<And>k. key_space_of k \<noteq> Some Current_Checkpoint \<Longrightarrow> view t' k = view t k"
  show thesis
  proof (rule that [OF 1(1) _ 1(3)])
    fix K rest
    assume "acc_of (view t) (current_checkpoint_accumulator_key K) = acc_plus rest (contribution es K)"
    with 1(2) [of K] show "acc_of (view t') (current_checkpoint_accumulator_key K) = rest"
      by (cases rest) (auto simp: apply_current_delta_def acc_add_def acc_plus_def contribution_def
          acc_default_def split: if_splits)
  qed
qed

end

section \<open>Tail contributions\<close>

text \<open>What one operation adds to the tail accumulators.\<close>

definition bucket_events :: "ResolvedSyncBucket \<Rightarrow> u32 \<Rightarrow> (string \<times> u32) list" where
  "bucket_events bucket c = map (\<lambda>k. (k, c)) (sync_tail_checkpoint_accumulator_keys_for_bucket bucket)"

definition previous_put_events ::
  "crates \<Rightarrow> RustExecutionPlan \<Rightarrow> PersistedSyncTailOp \<Rightarrow> (string \<times> u32) list" where
  "previous_put_events C plan x =
     (case (so_object_type x, so_object_id x, previous_put_data x) of
        (Some ty, Some i, Some previous) \<Rightarrow>
          if so_operation x = Clear then []
          else
            (let rf = (case so_previous_route_fields x of Some r \<Rightarrow> r | None \<Rightarrow> so_route_fields x) in
             concat (map (\<lambda>bucket.
               if matches_object_routes_and_data (cr_json C) bucket ty rf previous
               then (case project_document_json (cr_json C) bucket ty previous of
                       Inl _ \<Rightarrow> []
                     | Inr projected \<Rightarrow> bucket_events bucket (put_checksum C ty i projected))
               else []) (accumulator_buckets_for_row (cr_json C) plan ty rf)))
      | _ \<Rightarrow> [])"

definition remove_events ::
  "crates \<Rightarrow> RustExecutionPlan \<Rightarrow> PersistedSyncTailOp \<Rightarrow> (string \<times> u32) list" where
  "remove_events C plan x =
     (case (so_object_type x, so_object_id x) of
        (Some ty, Some i) \<Rightarrow>
          if so_operation x \<noteq> Remove then []
          else concat (map (\<lambda>bucket.
             if (case so_data_json x of
                   None \<Rightarrow> matches_object_and_routes (cr_json C) bucket ty (so_route_fields x)
                 | Some d \<Rightarrow> matches_object_routes_and_data (cr_json C) bucket ty (so_route_fields x) d)
             then bucket_events bucket (remove_checksum C (source_subkey_for_object ty i)) else [])
             (accumulator_buckets_for_row (cr_json C) plan ty (so_route_fields x)))
      | _ \<Rightarrow> [])"

definition op_events :: "crates \<Rightarrow> RustExecutionPlan \<Rightarrow> PersistedSyncTailOp \<Rightarrow> (string \<times> u32) list" where
  "op_events C plan x = previous_put_events C plan x @ remove_events C plan x"

text \<open>\<open>adds_events ds es ds'\<close>: the deltas \<open>ds'\<close> are \<open>ds\<close> with the contributions \<open>es\<close> added.\<close>

definition adds_events ::
  "PersistedCheckpointAccumulator btree \<Rightarrow> (string \<times> u32) list \<Rightarrow> PersistedCheckpointAccumulator btree \<Rightarrow> bool" where
  "adds_events ds es ds' \<longleftrightarrow>
     (\<forall>K. or_default acc_default ds' K = acc_plus (or_default acc_default ds K) (contribution es K)) \<and>
     (bt_sorted ds \<longrightarrow> bt_sorted ds')"

lemma contribution_append: "contribution (es @ fs) K = acc_plus (contribution es K) (contribution fs K)"
  by (simp add: contribution_def acc_plus_def sum_under_def count_under_def)

lemma acc_plus_assoc: "acc_plus (acc_plus a b) c = acc_plus a (acc_plus b c)"
  by (simp add: acc_plus_def add.assoc)

lemma contribution_Nil [simp]: "acc_plus a (contribution [] K) = a" "acc_plus (contribution [] K) a = a"
  by (simp_all add: contribution_def acc_plus_def)

lemma acc_plus_default: "acc_plus a acc_default = a"
  by (simp add: acc_plus_def acc_default_def)

lemma adds_events_refl [simp]: "adds_events ds [] ds"
  by (simp add: adds_events_def)

lemma adds_events_trans: "adds_events ds es ds1 \<Longrightarrow> adds_events ds1 fs ds2 \<Longrightarrow> adds_events ds (es @ fs) ds2"
  by (simp add: adds_events_def contribution_append acc_plus_assoc)

lemma rfold_adds_events:
  assumes "rfold f ds xs = Inr ds'" and "\<And>x ds ds'. x \<in> set xs \<Longrightarrow> f ds x = Inr ds' \<Longrightarrow> adds_events ds (g x) ds'"
  shows "adds_events ds (concat (map g xs)) ds'"
  using assms
proof (induction xs arbitrary: ds)
  case (Cons x xs)
  then obtain d where d: "f ds x = Inr d" "rfold f d xs = Inr ds'" by (auto elim: rbindE)
  have "adds_events ds (g x) d" "adds_events d (concat (map g xs)) ds'"
    using Cons.prems(2) Cons.IH [OF d(2)] d(1) by simp_all
  then show ?case using adds_events_trans by force
qed simp

lemma add_checkpoint_accumulator_delta_events:
  assumes "add_checkpoint_accumulator_delta ds bucket \<lparr> acc_checksum = c, acc_count = 1 \<rparr> = Inr ds'"
  shows "adds_events ds (bucket_events bucket c) ds'"
proof -
  have "adds_events ds (concat (map (\<lambda>k. [(k, c)]) (sync_tail_checkpoint_accumulator_keys_for_bucket bucket))) ds'"
    using assms unfolding add_checkpoint_accumulator_delta_def
  proof (rule rfold_adds_events)
    fix k ds ds'
    assume "rbind (acc_add (or_default acc_default ds k) \<lparr> acc_checksum = c, acc_count = 1 \<rparr>)
        (\<lambda>a. Inr (bt_insert k a ds)) = Inr ds'"
    then show "adds_events ds [(k, c)] ds'"
      by (auto simp: adds_events_def acc_add_def acc_plus_def contribution_def elim!: rbindE split: if_splits)
  qed
  then show ?thesis by (simp add: bucket_events_def concat_map_singleton)
qed

lemma collect_for_op_events:
  assumes "collect_checkpoint_accumulator_deltas_for_op C ds x plan = Inr ds'"
  shows "adds_events ds (op_events C plan x) ds'"
proof -
  from assms obtain d where p: "add_previous_put_accumulator_deltas C x plan ds = Inr d"
    and r: "add_remove_accumulator_deltas C x plan d = Inr ds'"
    by (auto simp: collect_checkpoint_accumulator_deltas_for_op_def elim: rbindE)
  have "adds_events ds (previous_put_events C plan x) d"
    using p unfolding add_previous_put_accumulator_deltas_def previous_put_events_def Let_def
    by (cases "so_operation x")
      (auto split: option.splits elim!: rfold_adds_events
         dest!: add_checkpoint_accumulator_delta_events [unfolded One_nat_def] split: if_splits sum.splits)
  moreover have "adds_events d (remove_events C plan x) ds'"
    using r unfolding add_remove_accumulator_deltas_def remove_events_def
    by (auto split: option.splits if_splits elim!: rfold_adds_events
         dest!: add_checkpoint_accumulator_delta_events [unfolded One_nat_def])
  ultimately show ?thesis unfolding op_events_def by (rule adds_events_trans)
qed

context mdbx_table
begin

lemma persist_checkpoint_accumulator_deltas_view:
  assumes "persist_checkpoint_accumulator_deltas M t deltas = Inr t'" and "bt_sorted deltas"
  shows "\<And>K. acc_of (view t') (tail_checkpoint_accumulator_key K)
           = acc_plus (acc_of (view t) (tail_checkpoint_accumulator_key K)) (or_default acc_default deltas K)"
    and "\<And>k. key_space_of k \<noteq> Some Tail_Checkpoint \<Longrightarrow> view t' k = view t k"
proof -
  let ?tk = tail_checkpoint_accumulator_key
  have "(\<forall>K. acc_of (view t') (?tk K) = acc_plus (acc_of (view t) (?tk K)) (or_default acc_default deltas K)) \<and>
        (\<forall>k. key_space_of k \<noteq> Some Tail_Checkpoint \<longrightarrow> view t' k = view t k)"
    using assms
  proof (induction deltas arbitrary: t)
    case Nil
    then show ?case by (simp add: persist_checkpoint_accumulator_deltas_def or_default_def acc_default_def acc_plus_def)
  next
    case (Cons kd deltas)
    obtain K delta where kd: "kd = (K, delta)" by (cases kd)
    from Cons.prems kd obtain a a' t1 where
      a: "read_checkpoint_accumulator M t K = Inr a" "acc_add a delta = Inr a'"
        "write_checkpoint_accumulator M t K a' = Inr t1"
      and rest: "persist_checkpoint_accumulator_deltas M t1 deltas = Inr t'"
      by (auto simp: persist_checkpoint_accumulator_deltas_def elim!: rbindE)
    have v1: "view t1 = (view t)(?tk K \<mapsto> encode_checkpoint_accumulator a')"
      using a(3) by (simp add: write_checkpoint_accumulator_def
          write_checkpoint_accumulator_with_key_def t_put_view)
    have a': "a' = acc_plus (acc_of (view t) (?tk K)) delta"
      using a(1,2) read_accumulator_view(1)
      by (auto simp: read_checkpoint_accumulator_def acc_add_def acc_plus_def split: if_splits)
    have acc1: "acc_of (view t1) (?tk K') = (if K' = K then a' else acc_of (view t) (?tk K'))" for K'
      using acc_of_upd [OF acc_add_bound [OF a(2)]] by (simp add: v1)
    have srt: "bt_sorted deltas" using Cons.prems(2) by (simp add: bt_sorted_def)
    have "K \<notin> fst ` set deltas" using Cons.prems(2) by (auto simp: bt_sorted_def kd)
    then have "map_of deltas K = None" by (simp add: map_of_eq_None_iff)
    then have K: "or_default acc_default deltas K = acc_default" by (simp add: or_default_def)
    have od: "or_default acc_default (kd # deltas) K' = (if K' = K then delta else or_default acc_default deltas K')" for K'
      by (simp add: kd or_default_def)
    have "acc_of (view t') (?tk K') = acc_plus (acc_of (view t) (?tk K')) (or_default acc_default (kd # deltas) K')" for K'
      using Cons.IH [OF rest srt] by (cases "K' = K") (simp_all add: acc1 a' K od acc_plus_default)
    moreover have "view t' k = view t k" if "key_space_of k \<noteq> Some Tail_Checkpoint" for k
      using Cons.IH [OF rest srt] that by (auto simp: v1)
    ultimately show ?case by blast
  qed
  then show "\<And>K. acc_of (view t') (?tk K) = acc_plus (acc_of (view t) (?tk K)) (or_default acc_default deltas K)"
    and "\<And>k. key_space_of k \<noteq> Some Tail_Checkpoint \<Longrightarrow> view t' k = view t k" by blast+
qed

end

end
