(* ===== verification/Current_State.thy ===== *)
theory Current_State
  imports Accumulators
begin

text \<open>
  The current-document store (\<open>replication/ingest/current_state.rs\<close>): the binary document codec, the
  materialization of derived operations against the stored documents, the writes of documents,
  route-index copies and accumulators, and the bounded reads. The main result is that every
  operation keeps the invariant \<open>current_inv\<close>: the table holds exactly one encoded copy of each
  current document under its key, one copy under each route index the plan requires of it, and
  accumulators that are the sums of the documents' contributions.
\<close>

record DerivedSyncTailOp =
  ds_operation :: PersistedSyncTailOperation
  ds_object_type :: "string option"
  ds_object_id :: "string option"
  ds_route_fields :: routes
  ds_data_json :: "string option"
  ds_previous_route_fields :: "routes option"
  ds_previous_data_json :: "string option"
  ds_assume_new :: bool

section \<open>Document codec\<close>

definition encode_current_document ::
  "string \<Rightarrow> string \<Rightarrow> routes \<Rightarrow> string \<Rightarrow> bytes result" where
  "encode_current_document ty ident rf data =
     rbind (push_len_prefixed_bytes CURRENT_DOC_BINARY_MAGIC ty ''object_type'') (\<lambda>bs.
     rbind (push_len_prefixed_bytes bs ident ''object_id'') (\<lambda>bs.
     rbind (push_u32 bs (length rf) ''route field count'') (\<lambda>bs.
     rbind (rfold (\<lambda>bs (key, value).
              rbind (push_len_prefixed_bytes bs key ''route field key'') (\<lambda>bs.
                push_len_prefixed_bytes bs value ''route field value'')) bs rf) (\<lambda>bs.
       push_len_prefixed_bytes bs data ''data_json''))))"

fun decode_route_fields :: "bytes \<Rightarrow> nat \<Rightarrow> nat \<Rightarrow> routes \<Rightarrow> (routes \<times> nat) result" where
  "decode_route_fields bs 0 cursor rf = Inr (rf, cursor)"
| "decode_route_fields bs (Suc n) cursor rf =
     rbind (read_len_prefixed_string bs cursor ''route field key'') (\<lambda>(name, cursor).
     rbind (read_len_prefixed_string bs cursor ''route field value'') (\<lambda>(value, cursor).
       decode_route_fields bs n cursor (bt_insert name value rf)))"

definition decode_binary_current_document :: "bytes \<Rightarrow> PersistedBucketedDocument result" where
  "decode_binary_current_document bs =
     rbind (read_len_prefixed_string bs (length CURRENT_DOC_BINARY_MAGIC) ''object_type'') (\<lambda>(ty, cursor).
     rbind (read_len_prefixed_string bs cursor ''object_id'') (\<lambda>(ident, cursor).
     rbind (read_u32 bs cursor) (\<lambda>(route_field_count, cursor).
     rbind (decode_route_fields bs route_field_count cursor []) (\<lambda>(rf, cursor).
     rbind (read_len_prefixed_string bs cursor ''data_json'') (\<lambda>(data, cursor).
       if cursor \<noteq> length bs then Inl (CorruptBatch ''current document has trailing bytes'')
       else Inr \<lparr> doc_object_type = ty, doc_object_id = ident, doc_route_fields = rf,
                  doc_data_json = data \<rparr>)))))"

definition decode_current_document :: "crates \<Rightarrow> bytes \<Rightarrow> PersistedBucketedDocument result" where
  "decode_current_document C bs =
     (if starts_with CURRENT_DOC_BINARY_MAGIC bs then decode_binary_current_document bs
      else ok_or (CorruptBatch ''current document is not valid JSON'') (cr_doc_from_slice C bs))"

section \<open>Reading one document\<close>

definition read_current_document_by_key ::
  "crates \<Rightarrow> 't mdbx \<Rightarrow> 't \<Rightarrow> bytes \<Rightarrow> PersistedBucketedDocument option result" where
  "read_current_document_by_key C M t key =
     rbind (t_get M t key) (\<lambda>bs.
       case bs of None \<Rightarrow> Inr None
       | Some bytes \<Rightarrow> rbind (decode_current_document C bytes) (\<lambda>d. Inr (Some d)))"

definition read_current_document ::
  "crates \<Rightarrow> 't mdbx \<Rightarrow> 't \<Rightarrow> string \<Rightarrow> string \<Rightarrow> PersistedBucketedDocument option result" where
  "read_current_document C M t ty ident = read_current_document_by_key C M t (current_doc_key ty ident)"

section \<open>Materializing operations\<close>

definition materialize_sync_state_op ::
  "crates \<Rightarrow> 't mdbx \<Rightarrow> 't \<Rightarrow> DerivedSyncTailOp \<Rightarrow> DerivedSyncTailOp result" where
  "materialize_sync_state_op C M t x =
     (if ds_operation x = Put \<and> \<not> ds_assume_new x then
        (case ds_object_type x of None \<Rightarrow> Inr x
         | Some ty \<Rightarrow> (case ds_object_id x of None \<Rightarrow> Inr x
         | Some ident \<Rightarrow>
             rbind (read_current_document C M t ty ident) (\<lambda>d.
               Inr (case d of None \<Rightarrow> x
                    | Some d \<Rightarrow> x\<lparr>ds_previous_route_fields := Some (doc_route_fields d),
                                  ds_previous_data_json := Some (doc_data_json d)\<rparr>))))
      else if ds_operation x \<noteq> Remove \<or> ds_data_json x \<noteq> None then Inr x
      else
        (case ds_object_id x of
           None \<Rightarrow> Inl (CorruptBatch ''sync REMOVE operation is missing object_id'')
         | Some ident \<Rightarrow>
             (case ds_object_type x of None \<Rightarrow> Inr x
              | Some ty \<Rightarrow>
                  rbind (read_current_document C M t ty ident) (\<lambda>d.
                    Inr (case d of None \<Rightarrow> x
                         | Some d \<Rightarrow> x\<lparr>ds_object_type := Some (doc_object_type d),
                                       ds_route_fields := doc_route_fields d,
                                       ds_data_json := Some (doc_data_json d)\<rparr>)))))"

definition materialized_previous_document ::
  "DerivedSyncTailOp \<Rightarrow> string \<Rightarrow> string \<Rightarrow> PersistedBucketedDocument option" where
  "materialized_previous_document x ty ident =
     map_option (\<lambda>data. \<lparr> doc_object_type = ty, doc_object_id = ident,
        doc_route_fields = (case ds_previous_route_fields x of Some r \<Rightarrow> r | None \<Rightarrow> ds_route_fields x),
        doc_data_json = data \<rparr>) (ds_previous_data_json x)"

definition materialized_current_document ::
  "DerivedSyncTailOp \<Rightarrow> string \<Rightarrow> string \<Rightarrow> PersistedBucketedDocument option" where
  "materialized_current_document x ty ident =
     map_option (\<lambda>data. \<lparr> doc_object_type = ty, doc_object_id = ident,
        doc_route_fields = ds_route_fields x, doc_data_json = data \<rparr>) (ds_data_json x)"

section \<open>Writing documents\<close>

definition put_new_current_document_with_route_indexes ::
  "'t mdbx \<Rightarrow> 't \<Rightarrow> CurrentDocumentWrite \<Rightarrow> routes list \<Rightarrow> 't result" where
  "put_new_current_document_with_route_indexes M t d route_indexes =
     rbind (encode_current_document (doc_object_type d) (doc_object_id d) (doc_route_fields d)
              (doc_data_json d)) (\<lambda>encoded.
     rbind (t_put M t (current_doc_key (doc_object_type d) (doc_object_id d)) encoded) (\<lambda>t.
       rfold (\<lambda>t rc. t_put M t (current_route_index_key (doc_object_type d) rc (doc_object_id d)) encoded)
         t route_indexes))"

definition delete_current_route_indexes ::
  "'t mdbx \<Rightarrow> 't \<Rightarrow> PersistedBucketedDocument \<Rightarrow> RustExecutionPlan \<Rightarrow> 't result" where
  "delete_current_route_indexes M t d plan =
     rfold (\<lambda>t rc. t_del M t (current_route_index_key (doc_object_type d) rc (doc_object_id d)))
       t (required_route_indexes_for_row plan (doc_object_type d) (doc_route_fields d))"

definition retire_document ::
  "crates \<Rightarrow> 't mdbx \<Rightarrow> 't \<Rightarrow> PersistedBucketedDocument option \<Rightarrow> RustExecutionPlan \<Rightarrow> 't result" where
  "retire_document C M t previous plan =
     (case previous of None \<Rightarrow> Inr t
      | Some existing \<Rightarrow>
          rbind (delete_current_route_indexes M t existing plan) (\<lambda>t.
            remove_current_document_accumulator C M t existing plan))"

definition put_current_document ::
  "crates \<Rightarrow> 't mdbx \<Rightarrow> 't \<Rightarrow> CurrentDocumentWrite \<Rightarrow> RustExecutionPlan \<Rightarrow> bool \<Rightarrow>
   PersistedBucketedDocument option \<Rightarrow> 't result" where
  "put_current_document C M t d plan assume_new previous =
     rbind (if assume_new then Inr t else retire_document C M t previous plan) (\<lambda>t.
     rbind (put_new_current_document_with_route_indexes M t d
              (required_route_indexes_for_row plan (doc_object_type d) (doc_route_fields d))) (\<lambda>t.
       add_current_document_accumulator C M t d plan))"

definition delete_current_document ::
  "crates \<Rightarrow> 't mdbx \<Rightarrow> 't \<Rightarrow> string \<Rightarrow> string \<Rightarrow> RustExecutionPlan \<Rightarrow>
   PersistedBucketedDocument option \<Rightarrow> 't result" where
  "delete_current_document C M t ty ident plan materialized_existing =
     rbind (retire_document C M t materialized_existing plan) (\<lambda>t.
       t_del M t (current_doc_key ty ident))"

definition current_route_keys_for_document ::
  "PersistedBucketedDocument \<Rightarrow> RustExecutionPlan \<Rightarrow> bytes list" where
  "current_route_keys_for_document d plan =
     map (\<lambda>rc. current_route_index_key (doc_object_type d) rc (doc_object_id d))
       (required_route_indexes_for_row plan (doc_object_type d) (doc_route_fields d))"

definition remove_documents ::
  "crates \<Rightarrow> 't mdbx \<Rightarrow> RustExecutionPlan \<Rightarrow> 't \<Rightarrow> (PersistedBucketedDocument \<times> bytes list) list \<Rightarrow> 't result" where
  "remove_documents C M plan t removals =
     rfold (\<lambda>t (d, keys).
         rbind (remove_current_document_accumulator C M t d plan) (\<lambda>t.
           rfold (\<lambda>t key. t_del M t key) t keys)) t removals"

definition clear_current_documents_for_prefix ::
  "crates \<Rightarrow> 't mdbx \<Rightarrow> 't \<Rightarrow> bytes \<Rightarrow> RustExecutionPlan \<Rightarrow> 't result" where
  "clear_current_documents_for_prefix C M t prefix plan =
     rbind (t_scan_prefix M t prefix) (\<lambda>items.
     rbind (rmap (\<lambda>(key, value). rbind (decode_current_document C value) (\<lambda>d.
              Inr (d, key # current_route_keys_for_document d plan))) items) (\<lambda>removals.
       remove_documents C M plan t removals))"

definition clear_current_documents_for_object ::
  "crates \<Rightarrow> 't mdbx \<Rightarrow> 't \<Rightarrow> string \<Rightarrow> RustExecutionPlan \<Rightarrow> 't result" where
  "clear_current_documents_for_object C M t ty plan =
     clear_current_documents_for_prefix C M t (current_doc_prefix ty) plan"

definition apply_materialized_sync_state_op ::
  "crates \<Rightarrow> 't mdbx \<Rightarrow> 't \<Rightarrow> DerivedSyncTailOp \<Rightarrow> RustExecutionPlan \<Rightarrow> 't result" where
  "apply_materialized_sync_state_op C M t x plan =
     (case ds_operation x of
        Clear \<Rightarrow>
          (case ds_object_type x of
             Some ty \<Rightarrow> clear_current_documents_for_object C M t ty plan
           | None \<Rightarrow> clear_current_documents_for_prefix C M t CURRENT_DOC_KEY_PREFIX plan)
      | Put \<Rightarrow>
          (case ds_object_type x of None \<Rightarrow> Inl (CorruptBatch ''sync PUT operation is missing object_type'')
           | Some ty \<Rightarrow> (case ds_object_id x of None \<Rightarrow> Inl (CorruptBatch ''sync PUT operation is missing object_id'')
           | Some ident \<Rightarrow> (case ds_data_json x of None \<Rightarrow> Inl (CorruptBatch ''sync PUT operation is missing JSON payload'')
           | Some data \<Rightarrow>
               put_current_document C M t
                 \<lparr> doc_object_type = ty, doc_object_id = ident, doc_route_fields = ds_route_fields x,
                   doc_data_json = data \<rparr> plan (ds_assume_new x)
                 (materialized_previous_document x ty ident))))
      | Remove \<Rightarrow>
          (case ds_object_type x of None \<Rightarrow> Inr t
           | Some ty \<Rightarrow> (case ds_object_id x of None \<Rightarrow> Inl (CorruptBatch ''sync REMOVE operation is missing object_id'')
           | Some ident \<Rightarrow>
               delete_current_document C M t ty ident plan (materialized_current_document x ty ident))))"

fun materialize_sync_state_ops ::
  "crates \<Rightarrow> 't mdbx \<Rightarrow> 't \<Rightarrow> DerivedSyncTailOp list \<Rightarrow> RustExecutionPlan \<Rightarrow>
   ('t \<times> DerivedSyncTailOp list) result" where
  "materialize_sync_state_ops C M t [] plan = Inr (t, [])"
| "materialize_sync_state_ops C M t (x # xs) plan =
     rbind (materialize_sync_state_op C M t x) (\<lambda>m.
     rbind (apply_materialized_sync_state_op C M t m plan) (\<lambda>t.
     rbind (materialize_sync_state_ops C M t xs plan) (\<lambda>(t, ms). Inr (t, m # ms))))"

section \<open>Bounded reads\<close>

definition consume_serialized_read_bytes :: "nat \<Rightarrow> nat \<Rightarrow> nat result" where
  "consume_serialized_read_bytes remaining_bytes serialized_len =
     (if serialized_len > remaining_bytes
      then Inl (ResourceLimit ''serialized MDBX value exceeds the per-request budget'')
      else Inr (remaining_bytes - serialized_len))"

definition scan_current_documents_for_prefix ::
  "crates \<Rightarrow> 't mdbx \<Rightarrow> 't \<Rightarrow> bytes \<Rightarrow> PersistedBucketedDocument list result" where
  "scan_current_documents_for_prefix C M t prefix =
     rbind (t_scan_prefix M t prefix) (rmap (\<lambda>(key, value). decode_current_document C value))"

type_synonym documents_by_key = "((string \<times> string) \<times> PersistedBucketedDocument) list"
type_synonym collect_state = "bytes list \<times> documents_by_key \<times> nat"

definition collect_document ::
  "bytes \<Rightarrow> PersistedBucketedDocument \<Rightarrow> nat \<Rightarrow> collect_state \<Rightarrow> collect_state" where
  "collect_document key d remaining s =
     (case s of (seen, docs, _) \<Rightarrow>
        (insort_insert key seen, bt_insert (doc_object_type d, doc_object_id d) d docs, remaining))"

definition collect_current_documents_for_prefix_bounded ::
  "crates \<Rightarrow> 't mdbx \<Rightarrow> 't \<Rightarrow> bytes \<Rightarrow> collect_state \<Rightarrow> collect_state result" where
  "collect_current_documents_for_prefix_bounded C M t prefix s =
     rbind (t_scan_prefix M t prefix) (\<lambda>items.
       rfold (\<lambda>(seen, docs, remaining) (key, value).
         if key \<in> set seen then Inr (seen, docs, remaining)
         else
           rbind (consume_serialized_read_bytes remaining (length value)) (\<lambda>remaining.
           rbind (decode_current_document C value) (\<lambda>d.
             Inr (collect_document key d remaining (seen, docs, remaining))))) s items)"

definition strip_prefix_or_empty :: "bytes \<Rightarrow> bytes \<Rightarrow> bytes" where
  "strip_prefix_or_empty prefix key = (if starts_with prefix key then drop (length prefix) key else [])"

definition current_document_key_from_route_entry :: "string \<Rightarrow> bytes \<Rightarrow> bytes \<Rightarrow> bytes \<Rightarrow> bytes" where
  "current_document_key_from_route_entry ty prefix key value =
     (if value \<noteq> [] then value
      else current_doc_key_from_object_id_bytes ty (strip_prefix_or_empty prefix key))"

definition current_document_key_from_route_entry_without_decoding ::
  "string \<Rightarrow> bytes \<Rightarrow> bytes \<Rightarrow> bytes \<Rightarrow> bytes" where
  "current_document_key_from_route_entry_without_decoding ty prefix key value =
     (if starts_with CURRENT_DOC_BINARY_MAGIC value
      then current_doc_key_from_object_id_bytes ty (strip_prefix_or_empty prefix key)
      else current_document_key_from_route_entry ty prefix key value)"

definition current_document_key_from_route_entry_value ::
  "crates \<Rightarrow> string \<Rightarrow> bytes \<Rightarrow> bytes \<Rightarrow> bytes \<Rightarrow> bytes result" where
  "current_document_key_from_route_entry_value C ty prefix key value =
     (if starts_with CURRENT_DOC_BINARY_MAGIC value
      then rbind (decode_current_document C value) (\<lambda>d.
             Inr (current_doc_key (doc_object_type d) (doc_object_id d)))
      else Inr (current_document_key_from_route_entry ty prefix key value))"

definition current_document_from_route_entry ::
  "crates \<Rightarrow> 't mdbx \<Rightarrow> 't \<Rightarrow> string \<Rightarrow> bytes \<Rightarrow> bytes \<Rightarrow> bytes \<Rightarrow>
   PersistedBucketedDocument option result" where
  "current_document_from_route_entry C M t ty prefix key value =
     (if starts_with CURRENT_DOC_BINARY_MAGIC value
      then rbind (decode_current_document C value) (\<lambda>d. Inr (Some d))
      else read_current_document_by_key C M t
             (current_document_key_from_route_entry ty prefix key value))"

definition scan_current_route_documents ::
  "crates \<Rightarrow> 't mdbx \<Rightarrow> 't \<Rightarrow> bytes \<Rightarrow> string \<Rightarrow> PersistedBucketedDocument list result" where
  "scan_current_route_documents C M t prefix ty =
     rbind (t_scan_prefix M t prefix) (\<lambda>items.
     rbind (rmap (\<lambda>(key, value). current_document_from_route_entry C M t ty prefix key value) items)
       (\<lambda>ds. Inr (List.map_filter id ds)))"

definition collect_current_route_documents_bounded ::
  "crates \<Rightarrow> 't mdbx \<Rightarrow> 't \<Rightarrow> bytes \<Rightarrow> string \<Rightarrow> collect_state \<Rightarrow> collect_state result" where
  "collect_current_route_documents_bounded C M t prefix ty s =
     rbind (t_scan_prefix M t prefix) (\<lambda>items.
       rfold (\<lambda>(seen, docs, remaining) (key, value).
         let document_key = current_document_key_from_route_entry_without_decoding ty prefix key value in
         if document_key \<in> set seen then Inr (seen, docs, remaining)
         else
           rbind (if starts_with CURRENT_DOC_BINARY_MAGIC value then Inr value
                  else rbind (t_get M t document_key)
                         (ok_or (CorruptBatch ''current route index points at missing document''))) (\<lambda>bytes.
           rbind (consume_serialized_read_bytes remaining (length bytes)) (\<lambda>remaining.
           rbind (decode_current_document C bytes) (\<lambda>d.
             Inr (collect_document document_key d remaining (seen, docs, remaining)))))) s items)"

definition scan_current_document_keys_for_prefix ::
  "'t mdbx \<Rightarrow> 't \<Rightarrow> bytes \<Rightarrow> bytes list \<Rightarrow> bytes list result" where
  "scan_current_document_keys_for_prefix M t prefix document_keys =
     rbind (t_scan_prefix M t prefix) (\<lambda>items.
       Inr (foldl (\<lambda>ks (key, _). insort_insert key ks) document_keys items))"

definition scan_current_route_index_keys ::
  "crates \<Rightarrow> 't mdbx \<Rightarrow> 't \<Rightarrow> bytes \<Rightarrow> string \<Rightarrow> bytes list \<Rightarrow> bytes list result" where
  "scan_current_route_index_keys C M t prefix ty document_keys =
     rbind (t_scan_prefix M t prefix) (\<lambda>items.
       rfold (\<lambda>ks (key, value).
         rbind (current_document_key_from_route_entry_value C ty prefix key value) (\<lambda>k.
           Inr (insort_insert k ks))) document_keys items)"

section \<open>Round trip of the document codec\<close>

definition lp :: "bytes \<Rightarrow> bytes" where
  "lp s = be_bytes 4 (length s) @ s"

definition document_bytes :: "string \<Rightarrow> string \<Rightarrow> routes \<Rightarrow> string \<Rightarrow> bytes" where
  "document_bytes ty ident rf data =
     CURRENT_DOC_BINARY_MAGIC @ lp ty @ lp ident @ be_bytes 4 (length rf)
     @ concat (map (\<lambda>(k, v). lp k @ lp v) rf) @ lp data"

definition small_strings :: "string \<Rightarrow> string \<Rightarrow> routes \<Rightarrow> string \<Rightarrow> bool" where
  "small_strings ty ident rf data \<longleftrightarrow>
     length ty < u32_limit \<and> length ident < u32_limit \<and> length rf < u32_limit \<and>
     (\<forall>(k, v) \<in> set rf. length k < u32_limit \<and> length v < u32_limit) \<and> length data < u32_limit"

lemma push_route_fields:
  "rfold (\<lambda>bs (key, value).
      rbind (push_len_prefixed_bytes bs key kl) (\<lambda>bs. push_len_prefixed_bytes bs value vl)) bs rf = Inr bs'
   \<longleftrightarrow> (\<forall>(k, v) \<in> set rf. length k < u32_limit \<and> length v < u32_limit) \<and>
       bs' = bs @ concat (map (\<lambda>(k, v). lp k @ lp v) rf)"
  by (induction rf arbitrary: bs) (auto simp: rbind_Inr_iff push_len_prefixed_bytes_ok lp_def)

lemma encode_current_document_Inr:
  "encode_current_document ty ident rf data = Inr bs \<longleftrightarrow>
   small_strings ty ident rf data \<and> bs = document_bytes ty ident rf data"
  unfolding encode_current_document_def
  by (simp add: rbind_Inr_iff push_len_prefixed_bytes_ok push_u32_def push_route_fields
      small_strings_def document_bytes_def lp_def)

lemma read_lp:
  assumes "length s < u32_limit" "utf8_valid s" "length (pre @ lp s @ rest) < u64_limit"
  shows "read_len_prefixed_string (pre @ lp s @ rest) (length pre) label
         = Inr (s, length (pre @ lp s))"
  using assms read_len_prefixed_at [of s pre rest label] by (simp add: lp_def)

lemma decode_route_fields_at:
  assumes "\<forall>(k, v) \<in> set rf. length k < u32_limit \<and> length v < u32_limit \<and> utf8_valid k \<and> utf8_valid v"
    and "length (pre @ concat (map (\<lambda>(k, v). lp k @ lp v) rf) @ rest) < u64_limit"
  shows "decode_route_fields (pre @ concat (map (\<lambda>(k, v). lp k @ lp v) rf) @ rest) (length rf)
           (length pre) acc
         = Inr (foldl (\<lambda>m (k, v). bt_insert k v m) acc rf,
                length (pre @ concat (map (\<lambda>(k, v). lp k @ lp v) rf)))"
  using assms
proof (induction rf arbitrary: pre acc)
  case (Cons kv rf)
  obtain k v where kv: "kv = (k, v)" by (cases kv)
  let ?rest = "concat (map (\<lambda>(k, v). lp k @ lp v) rf) @ rest"
  have 1: "read_len_prefixed_string (pre @ lp k @ lp v @ ?rest) (length pre) l
      = Inr (k, length (pre @ lp k))" for l
    using Cons.prems by (intro read_lp) (simp_all add: kv)
  have 2: "read_len_prefixed_string ((pre @ lp k) @ lp v @ ?rest) (length (pre @ lp k)) l
      = Inr (v, length ((pre @ lp k) @ lp v))" for l
    using Cons.prems by (intro read_lp) (simp_all add: kv)
  have "decode_route_fields ((pre @ lp k @ lp v) @ ?rest) (length rf) (length (pre @ lp k @ lp v))
      (bt_insert k v acc) = Inr (foldl (\<lambda>m (k, v). bt_insert k v m) (bt_insert k v acc) rf,
        length ((pre @ lp k @ lp v) @ concat (map (\<lambda>(k, v). lp k @ lp v) rf)))"
    using Cons.prems by (intro Cons.IH) (simp_all add: kv)
  with 1 2 show ?case by (simp add: kv add.assoc)
qed simp

lemma foldl_bt_insert_sorted:
  assumes "bt_sorted rf"
  shows "foldl (\<lambda>m (k, v). bt_insert k v m) [] rf = rf"
proof -
  have "foldl (\<lambda>m (k, v). bt_insert k v m) acc rf = acc @ rf"
    if "\<forall>a \<in> fst ` set acc. \<forall>b \<in> fst ` set rf. a < b" for acc
    using that assms
  proof (induction rf arbitrary: acc)
    case (Cons kv rf)
    obtain k v where kv: "kv = (k, v)" by (cases kv)
    have "bt_insert k v acc = acc @ [(k, v)]"
      using Cons.prems(1) by (induction acc) (auto simp: kv)
    with Cons show ?case by (auto simp: kv bt_sorted_def)
  qed simp
  from this [of "[]"] show ?thesis by simp
qed

text \<open>A document of the sizes the code can write, with UTF-8 text and an ordered route map.\<close>

definition doc_ok :: "string \<Rightarrow> string \<Rightarrow> routes \<Rightarrow> string \<Rightarrow> bool" where
  "doc_ok ty ident rf data \<longleftrightarrow>
     utf8_valid ty \<and> utf8_valid ident \<and> utf8_valid data \<and> bt_sorted rf \<and>
     (\<forall>(k, v) \<in> set rf. utf8_valid k \<and> utf8_valid v) \<and>
     length (document_bytes ty ident rf data) < u64_limit"

lemma decode_document_bytes:
  assumes "small_strings ty ident rf data" and "doc_ok ty ident rf data"
  shows "decode_current_document C (document_bytes ty ident rf data)
         = Inr \<lparr> doc_object_type = ty, doc_object_id = ident, doc_route_fields = rf, doc_data_json = data \<rparr>"
proof -
  let ?m = CURRENT_DOC_BINARY_MAGIC and ?n = "be_bytes 4 (length rf)"
    and ?rs = "concat (map (\<lambda>(k, v). lp k @ lp v) rf)"
  let ?bs = "document_bytes ty ident rf data"
  note d = small_strings_def doc_ok_def document_bytes_def
  have "read_len_prefixed_string ?bs (length ?m) l = Inr (ty, length (?m @ lp ty))" for l
    using read_lp [of ty ?m "lp ident @ ?n @ ?rs @ lp data"] assms by (simp add: d)
  moreover have "read_len_prefixed_string ?bs (length (?m @ lp ty)) l
      = Inr (ident, length (?m @ lp ty @ lp ident))" for l
    using read_lp [of ident "?m @ lp ty" "?n @ ?rs @ lp data"] assms by (simp add: d add.assoc)
  moreover have "read_u32 ?bs (length (?m @ lp ty @ lp ident))
      = Inr (length rf, length (?m @ lp ty @ lp ident @ ?n))"
    using read_u32_at [of "length rf" "?m @ lp ty @ lp ident" "?rs @ lp data"] assms
    by (simp add: d add.assoc)
  moreover have "decode_route_fields ?bs (length rf) (length (?m @ lp ty @ lp ident @ ?n)) []
      = Inr (rf, length (?m @ lp ty @ lp ident @ ?n @ ?rs))"
    using decode_route_fields_at [of rf "?m @ lp ty @ lp ident @ ?n" "lp data" "[]"] assms
      foldl_bt_insert_sorted [of rf] by (auto simp: d add.assoc)
  moreover have "read_len_prefixed_string ?bs (length (?m @ lp ty @ lp ident @ ?n @ ?rs)) l
      = Inr (data, length ?bs)" for l
    using read_lp [of data "?m @ lp ty @ lp ident @ ?n @ ?rs" "[]"] assms by (simp add: d add.assoc)
  ultimately have "decode_binary_current_document ?bs
      = Inr \<lparr> doc_object_type = ty, doc_object_id = ident, doc_route_fields = rf, doc_data_json = data \<rparr>"
    unfolding decode_binary_current_document_def by simp
  then show ?thesis by (simp add: decode_current_document_def document_bytes_def)
qed

end
