(* ===== verification/Current_Invariant.thy ===== *)
theory Current_Invariant
  imports Current_State
begin

text \<open>
  The invariant of the current-document store and its preservation. The abstract state is a map
  from (object type, object id) to route fields and data. Three parts of the table are tied to it:
  the documents, the route-index copies, and the current accumulators. A write goes through states
  in which the parts lag behind one another, so each part has its own predicate and each step of
  the code moves one of them.
\<close>

type_synonym docs = "string \<times> string \<rightharpoonup> routes \<times> string"

section \<open>The three parts\<close>

definition space_entries :: "key_space \<Rightarrow> kv \<Rightarrow> (bytes \<times> bytes) set" where
  "space_entries sp kv = {(k, v). kv k = Some v \<and> key_space_of k = Some sp}"

fun doc_entry :: "string \<times> string \<Rightarrow> routes \<times> string \<Rightarrow> (bytes \<times> bytes) set" where
  "doc_entry (ty, i) (rf, data) = {(current_doc_key ty i, document_bytes ty i rf data)}"

fun route_entry ::
  "RustExecutionPlan \<Rightarrow> string \<times> string \<Rightarrow> routes \<times> string \<Rightarrow> (bytes \<times> bytes) set" where
  "route_entry plan (ty, i) (rf, data) =
     (\<lambda>rc. (current_route_index_key ty rc i, document_bytes ty i rf data))
       ` set (required_route_indexes_for_row plan ty rf)"

definition doc_entries :: "docs \<Rightarrow> (bytes \<times> bytes) set" where
  "doc_entries D = (\<Union>(x, p) \<in> Map.graph D. doc_entry x p)"

definition route_entries :: "RustExecutionPlan \<Rightarrow> docs \<Rightarrow> (bytes \<times> bytes) set" where
  "route_entries plan D = (\<Union>(x, p) \<in> Map.graph D. route_entry plan x p)"

fun doc_of :: "string \<times> string \<Rightarrow> routes \<times> string \<Rightarrow> PersistedBucketedDocument" where
  "doc_of (ty, i) (rf, data) =
     \<lparr> doc_object_type = ty, doc_object_id = i, doc_route_fields = rf, doc_data_json = data \<rparr>"

definition events_of ::
  "crates \<Rightarrow> RustExecutionPlan \<Rightarrow> string \<times> string \<Rightarrow> routes \<times> string \<Rightarrow> (string \<times> u32) list" where
  "events_of C plan x p = (case doc_events C plan (doc_of x p) of Inl _ \<Rightarrow> [] | Inr es \<Rightarrow> es)"

definition total_contribution ::
  "crates \<Rightarrow> RustExecutionPlan \<Rightarrow> docs \<Rightarrow> string \<Rightarrow> PersistedCheckpointAccumulator" where
  "total_contribution C plan D K =
     \<lparr> acc_checksum = (\<Sum>(x, p) \<in> Map.graph D. sum_under K (events_of C plan x p)),
       acc_count = (\<Sum>(x, p) \<in> Map.graph D. count_under K (events_of C plan x p)) \<rparr>"

text \<open>What the documents of a store satisfy: object types are plain table names, and the sizes and
  encodings are those the codec can write.\<close>

definition docs_ok :: "docs \<Rightarrow> bool" where
  "docs_ok D \<longleftrightarrow> finite (dom D) \<and>
     (\<forall>ty i rf data. D (ty, i) = Some (rf, data) \<longrightarrow>
        CHR '':'' \<notin> set ty \<and> small_strings ty i rf data \<and> doc_ok ty i rf data)"

definition accs_match :: "crates \<Rightarrow> RustExecutionPlan \<Rightarrow> docs \<Rightarrow> kv \<Rightarrow> bool" where
  "accs_match C plan D kv \<longleftrightarrow>
     (\<forall>K. acc_of kv (current_checkpoint_accumulator_key K) = total_contribution C plan D K)"

definition current_inv :: "crates \<Rightarrow> RustExecutionPlan \<Rightarrow> docs \<Rightarrow> kv \<Rightarrow> bool" where
  "current_inv C plan D kv \<longleftrightarrow>
     docs_ok D \<and> space_entries Current_Doc kv = doc_entries D \<and>
     space_entries Current_Route kv = route_entries plan D \<and> accs_match C plan D kv"

section \<open>Changing one key\<close>

lemma space_entries_cong:
  "(\<And>k. key_space_of k = Some sp \<Longrightarrow> kv k = kv' k) \<Longrightarrow> space_entries sp kv = space_entries sp kv'"
  by (auto simp: space_entries_def)

lemma accs_match_cong:
  "(\<And>k. key_space_of k = Some Current_Checkpoint \<Longrightarrow> kv k = kv' k) \<Longrightarrow>
   accs_match C plan D kv = accs_match C plan D kv'"
  by (simp add: accs_match_def acc_of_def)

lemma current_inv_cong:
  assumes "\<And>k. key_space_of k \<in> {Some Current_Doc, Some Current_Route, Some Current_Checkpoint} \<Longrightarrow> kv' k = kv k"
    and "current_inv C plan D kv"
  shows "current_inv C plan D kv'"
  using assms space_entries_cong [of Current_Doc kv' kv] space_entries_cong [of Current_Route kv' kv]
    accs_match_cong [of kv' kv]
  by (simp add: current_inv_def)

lemma in_graph_iff: "(k, v) \<in> Map.graph m \<longleftrightarrow> m k = Some v"
  by (simp add: graph_def)

lemma UN_graph_iff: "e \<in> (\<Union>(y, q) \<in> Map.graph D. f y q) \<longleftrightarrow> (\<exists>y q. D y = Some q \<and> e \<in> f y q)"
  by (auto simp: in_graph_iff) (metis case_prod_conv in_graph_iff)

lemma UN_graph_remove:
  assumes "\<And>y q e. D y = Some q \<Longrightarrow> e \<in> f y q \<Longrightarrow> fst e \<in> K \<longleftrightarrow> y = x"
  shows "(\<Union>(y, q) \<in> Map.graph (D(x := None)). f y q) = {e \<in> \<Union>(y, q) \<in> Map.graph D. f y q. fst e \<notin> K}"
proof (rule set_eqI)
  fix e
  have "(D(x := None)) y = Some q \<and> e \<in> f y q \<longleftrightarrow> D y = Some q \<and> e \<in> f y q \<and> fst e \<notin> K" for y q
    using assms [of y q e] by (cases "y = x") auto
  then show "e \<in> (\<Union>(y, q) \<in> Map.graph (D(x := None)). f y q)
      \<longleftrightarrow> e \<in> {e \<in> \<Union>(y, q) \<in> Map.graph D. f y q. fst e \<notin> K}"
    unfolding mem_Collect_eq UN_graph_iff by metis
qed

lemma doc_entries_remove:
  assumes "docs_ok D" and "CHR '':'' \<notin> set ty"
  shows "doc_entries (D((ty, i) := None)) = {e \<in> doc_entries D. fst e \<notin> {current_doc_key ty i}}"
  unfolding doc_entries_def
proof (rule UN_graph_remove)
  fix y q e assume "D y = Some q" and "e \<in> doc_entry y q"
  with assms show "fst e \<in> {current_doc_key ty i} \<longleftrightarrow> y = (ty, i)"
    by (cases y; cases q) (auto simp: docs_ok_def current_doc_key_inj)
qed

lemma route_entries_remove:
  assumes "docs_ok D" and "D (ty, i) = Some (rf, data)"
  shows "route_entries plan (D((ty, i) := None))
     = {e \<in> route_entries plan D. fst e \<notin>
          (\<lambda>rc. current_route_index_key ty rc i) ` set (required_route_indexes_for_row plan ty rf)}"
  unfolding route_entries_def
proof (rule UN_graph_remove)
  fix y q e assume "D y = Some q" and "e \<in> route_entry plan y q"
  with assms show "fst e \<in> (\<lambda>rc. current_route_index_key ty rc i)
      ` set (required_route_indexes_for_row plan ty rf) \<longleftrightarrow> y = (ty, i)"
    by (cases y; cases q) (auto simp: docs_ok_def current_route_index_key_inj)
qed

lemma doc_entries_insert:
  "doc_entries (D(x \<mapsto> p)) = doc_entry x p \<union> doc_entries (D(x := None))"
  by (simp add: doc_entries_def)

lemma route_entries_insert:
  "route_entries plan (D(x \<mapsto> p)) = route_entry plan x p \<union> route_entries plan (D(x := None))"
  by (simp add: route_entries_def)

lemma total_contribution_insert:
  assumes "finite (dom D)"
  shows "total_contribution C plan (D(x \<mapsto> p)) K
     = acc_plus (total_contribution C plan (D(x := None)) K) (contribution (events_of C plan x p) K)"
proof -
  have "finite (Map.graph (D(x := None)))" using assms by (simp add: finite_graph_iff_finite_dom)
  moreover have "(x, p) \<notin> Map.graph (D(x := None))" by (simp add: graph_fun_upd_None)
  ultimately show ?thesis
    by (simp add: total_contribution_def acc_plus_def contribution_def add.commute)
qed

lemma docs_ok_upd:
  "docs_ok D \<Longrightarrow> docs_ok (D(x := None))"
  "docs_ok D \<Longrightarrow> CHR '':'' \<notin> set ty \<Longrightarrow> small_strings ty i rf data \<Longrightarrow> doc_ok ty i rf data \<Longrightarrow>
   docs_ok (D((ty, i) \<mapsto> (rf, data)))"
  by (auto simp: docs_ok_def)

section \<open>Loops over keys\<close>

context mdbx_table
begin

lemma rfold_del_view:
  "rfold (\<lambda>t k. t_del M t (f k)) t ks = Inr t' \<Longrightarrow> view t' = (\<lambda>k. if k \<in> f ` set ks then None else view t k)"
proof (induction ks arbitrary: t)
  case (Cons k ks)
  then obtain t1 where "t_del M t (f k) = Inr t1" "rfold (\<lambda>t k. t_del M t (f k)) t1 ks = Inr t'"
    by (auto elim: rbindE)
  with Cons.IH [of t1] show ?case by (auto simp: t_del_view fun_eq_iff)
qed auto

lemma rfold_put_view:
  "rfold (\<lambda>t k. t_put M t (f k) v) t ks = Inr t' \<Longrightarrow> view t' = (\<lambda>k. if k \<in> f ` set ks then Some v else view t k)"
proof (induction ks arbitrary: t)
  case (Cons k ks)
  then obtain t1 where "t_put M t (f k) v = Inr t1" "rfold (\<lambda>t k. t_put M t (f k) v) t1 ks = Inr t'"
    by (auto elim: rbindE)
  with Cons.IH [of t1] show ?case by (auto simp: t_put_view fun_eq_iff)
qed auto

section \<open>Steps of a write\<close>

lemma retire_document_step:
  assumes "retire_document C M t (map_option (doc_of (ty, i)) (D (ty, i))) plan = Inr t'"
    and "docs_ok D" and "space_entries Current_Route (view t) = route_entries plan D"
    and "accs_match C plan D (view t)"
  shows "space_entries Current_Route (view t') = route_entries plan (D((ty, i) := None))"
    and "accs_match C plan (D((ty, i) := None)) (view t')"
    and "\<And>k. key_space_of k \<notin> {Some Current_Route, Some Current_Checkpoint} \<Longrightarrow> view t' k = view t k"
proof -
  let ?D = "D((ty, i) := None)"
  have "space_entries Current_Route (view t') = route_entries plan ?D \<and> accs_match C plan ?D (view t') \<and>
    (\<forall>k. key_space_of k \<notin> {Some Current_Route, Some Current_Checkpoint} \<longrightarrow> view t' k = view t k)"
  proof (cases "D (ty, i)")
    case None
    then have "?D = D" by (simp add: fun_upd_idem)
    with None assms show ?thesis by (simp add: retire_document_def)
  next
    case (Some p)
    obtain rf data where p: "p = (rf, data)" by (cases p)
    let ?ks = "(\<lambda>rc. current_route_index_key ty rc i) ` set (required_route_indexes_for_row plan ty rf)"
    from assms(1) Some p obtain t1 where
      d: "delete_current_route_indexes M t (doc_of (ty, i) (rf, data)) plan = Inr t1"
      and r: "remove_current_document_accumulator C M t1 (doc_of (ty, i) (rf, data)) plan = Inr t'"
      by (auto simp: retire_document_def elim: rbindE)
    have v1: "view t1 = (\<lambda>k. if k \<in> ?ks then None else view t k)"
      using rfold_del_view [OF d [unfolded delete_current_route_indexes_def]] by simp
    have ks: "k \<in> ?ks \<Longrightarrow> key_space_of k = Some Current_Route" for k by auto
    obtain es where es: "doc_events C plan (doc_of (ty, i) (rf, data)) = Inr es"
      and acc: "\<And>K rest. acc_of (view t1) (current_checkpoint_accumulator_key K) = acc_plus rest (contribution es K)
           \<Longrightarrow> acc_of (view t') (current_checkpoint_accumulator_key K) = rest"
      and fr: "\<And>k. key_space_of k \<noteq> Some Current_Checkpoint \<Longrightarrow> view t' k = view t1 k"
      by (rule remove_current_document_accumulator_effect [OF r]) blast
    have "space_entries Current_Route (view t') = {e \<in> space_entries Current_Route (view t). fst e \<notin> ?ks}"
      using fr by (auto simp: space_entries_def v1 split: if_splits)
    also have "\<dots> = route_entries plan ?D"
      using assms(2,3) Some p by (simp add: route_entries_remove)
    finally have "space_entries Current_Route (view t') = route_entries plan ?D" .
    moreover have "accs_match C plan ?D (view t')"
      unfolding accs_match_def
    proof (intro allI acc)
      fix K
      have "D = D((ty, i) \<mapsto> (rf, data))" using Some p by (simp add: fun_upd_idem)
      then have "total_contribution C plan D K = acc_plus (total_contribution C plan ?D K) (contribution es K)"
        using total_contribution_insert [of D C plan "(ty, i)" "(rf, data)" K] assms(2) es
        by (simp add: docs_ok_def events_of_def)
      moreover have "acc_of (view t1) (current_checkpoint_accumulator_key K)
          = acc_of (view t) (current_checkpoint_accumulator_key K)"
        using ks [of "current_checkpoint_accumulator_key K"] by (auto simp: acc_of_def v1)
      ultimately show "acc_of (view t1) (current_checkpoint_accumulator_key K)
          = acc_plus (total_contribution C plan ?D K) (contribution es K)"
        using assms(4) by (simp add: accs_match_def)
    qed
    moreover have "view t' k = view t k"
      if "key_space_of k \<notin> {Some Current_Route, Some Current_Checkpoint}" for k
      using that fr [of k] ks [of k] by (auto simp: v1)
    ultimately show ?thesis by blast
  qed
  then show "space_entries Current_Route (view t') = route_entries plan ?D"
    and "accs_match C plan ?D (view t')"
    and "\<And>k. key_space_of k \<notin> {Some Current_Route, Some Current_Checkpoint} \<Longrightarrow> view t' k = view t k"
    by blast+
qed

lemma put_new_step:
  assumes "put_new_current_document_with_route_indexes M t (doc_of (ty, i) (rf, data))
             (required_route_indexes_for_row plan ty rf) = Inr t'"
    and "docs_ok D" and "CHR '':'' \<notin> set ty"
    and "space_entries Current_Doc (view t) = doc_entries D"
    and "space_entries Current_Route (view t) = route_entries plan (D((ty, i) := None))"
  shows "space_entries Current_Doc (view t') = doc_entries (D((ty, i) \<mapsto> (rf, data)))"
    and "space_entries Current_Route (view t') = route_entries plan (D((ty, i) \<mapsto> (rf, data)))"
    and "\<And>k. key_space_of k \<notin> {Some Current_Doc, Some Current_Route} \<Longrightarrow> view t' k = view t k"
    and "small_strings ty i rf data"
proof -
  let ?e = "document_bytes ty i rf data" and ?ix = "required_route_indexes_for_row plan ty rf"
  let ?dk = "current_doc_key ty i" and ?rk = "\<lambda>rc. current_route_index_key ty rc i"
  from assms(1) obtain t1 where small: "small_strings ty i rf data"
    and p1: "t_put M t ?dk ?e = Inr t1" and p2: "rfold (\<lambda>t rc. t_put M t (?rk rc) ?e) t1 ?ix = Inr t'"
    by (auto simp: put_new_current_document_with_route_indexes_def encode_current_document_Inr elim!: rbindE)
  have v: "view t' = (\<lambda>k. if k \<in> ?rk ` set ?ix then Some ?e else if k = ?dk then Some ?e else view t k)"
    using rfold_put_view [OF p2] t_put_view [OF p1] by auto
  have rk: "k \<in> ?rk ` set ?ix \<Longrightarrow> key_space_of k = Some Current_Route" for k by auto
  show "small_strings ty i rf data" by (rule small)
  have "space_entries Current_Doc (view t')
      = insert (?dk, ?e) {e \<in> space_entries Current_Doc (view t). fst e \<notin> {?dk}}"
    using rk by (auto simp: space_entries_def v split: if_splits)
  then show "space_entries Current_Doc (view t') = doc_entries (D((ty, i) \<mapsto> (rf, data)))"
    using assms(2,3,4) by (simp add: doc_entries_insert doc_entries_remove)
  have fresh: "fst e \<notin> ?rk ` set ?ix" if "e \<in> route_entries plan (D((ty, i) := None))" for e
    using that assms(2,3)
    by (auto simp: route_entries_def in_graph_iff docs_ok_def current_route_index_key_inj split: if_splits)
  have "space_entries Current_Route (view t')
      = (\<lambda>rc. (?rk rc, ?e)) ` set ?ix \<union> {e \<in> space_entries Current_Route (view t). fst e \<notin> ?rk ` set ?ix}"
    using key_space_funs(2) [of ty i] by (auto simp: space_entries_def v split: if_splits)
  also have "{e \<in> space_entries Current_Route (view t). fst e \<notin> ?rk ` set ?ix}
      = route_entries plan (D((ty, i) := None))"
    using fresh assms(5) by auto
  finally show "space_entries Current_Route (view t') = route_entries plan (D((ty, i) \<mapsto> (rf, data)))"
    by (simp add: route_entries_insert)
  show "\<And>k. key_space_of k \<notin> {Some Current_Doc, Some Current_Route} \<Longrightarrow> view t' k = view t k"
    using rk key_space_funs(2) [of ty i] by (auto simp: v)
qed

lemma add_accumulator_step:
  assumes "add_current_document_accumulator C M t (doc_of x p) plan = Inr t'"
    and "finite (dom D)" and "accs_match C plan (D(x := None)) (view t)"
  shows "accs_match C plan (D(x \<mapsto> p)) (view t')"
    and "\<And>k. key_space_of k \<noteq> Some Current_Checkpoint \<Longrightarrow> view t' k = view t k"
proof -
  obtain es where es: "doc_events C plan (doc_of x p) = Inr es"
    and acc: "\<And>K. acc_of (view t') (current_checkpoint_accumulator_key K)
           = acc_plus (acc_of (view t) (current_checkpoint_accumulator_key K)) (contribution es K)"
    and fr: "\<And>k. key_space_of k \<noteq> Some Current_Checkpoint \<Longrightarrow> view t' k = view t k"
    by (rule add_current_document_accumulator_effect [OF assms(1)]) blast
  show "accs_match C plan (D(x \<mapsto> p)) (view t')"
    using assms(3) acc es total_contribution_insert [OF assms(2), of C plan x p]
    by (simp add: accs_match_def events_of_def)
  show "\<And>k. key_space_of k \<noteq> Some Current_Checkpoint \<Longrightarrow> view t' k = view t k" by (rule fr)
qed

section \<open>Operations keep the invariant\<close>

lemma put_current_document_inv:
  assumes "put_current_document C M t (doc_of (ty, i) (rf, data)) plan assume_new previous = Inr t'"
    and "current_inv C plan D (view t)" and "CHR '':'' \<notin> set ty" and "doc_ok ty i rf data"
    and "if assume_new then D (ty, i) = None else previous = map_option (doc_of (ty, i)) (D (ty, i))"
  shows "current_inv C plan (D((ty, i) \<mapsto> (rf, data))) (view t')"
    and "\<And>k. key_space_of k \<notin> {Some Current_Doc, Some Current_Route, Some Current_Checkpoint} \<Longrightarrow>
           view t' k = view t k"
proof -
  let ?D = "D((ty, i) := None)" and ?D' = "D((ty, i) \<mapsto> (rf, data))"
  have inv: "docs_ok D" "space_entries Current_Doc (view t) = doc_entries D"
    "space_entries Current_Route (view t) = route_entries plan D" "accs_match C plan D (view t)"
    using assms(2) by (simp_all add: current_inv_def)
  from assms(1) obtain t1 t2 where
    r: "(if assume_new then Inr t else retire_document C M t previous plan) = Inr t1"
    and p: "put_new_current_document_with_route_indexes M t1 (doc_of (ty, i) (rf, data))
             (required_route_indexes_for_row plan ty rf) = Inr t2"
    and a: "add_current_document_accumulator C M t2 (doc_of (ty, i) (rf, data)) plan = Inr t'"
    by (auto simp: put_current_document_def elim!: rbindE)
  have 1: "space_entries Current_Route (view t1) = route_entries plan ?D" "accs_match C plan ?D (view t1)"
    "\<And>k. key_space_of k \<notin> {Some Current_Route, Some Current_Checkpoint} \<Longrightarrow> view t1 k = view t k"
  proof -
    have "retire_document C M t (map_option (doc_of (ty, i)) (D (ty, i))) plan = Inr t1"
      using r assms(5) by (auto simp: retire_document_def split: if_splits)
    from retire_document_step [OF this inv(1,3,4)]
    show "space_entries Current_Route (view t1) = route_entries plan ?D" "accs_match C plan ?D (view t1)"
      "\<And>k. key_space_of k \<notin> {Some Current_Route, Some Current_Checkpoint} \<Longrightarrow> view t1 k = view t k"
      by blast+
  qed
  have d1: "space_entries Current_Doc (view t1) = doc_entries D"
    using inv(2) 1(3) space_entries_cong [of Current_Doc "view t1" "view t"] by simp
  note 2 = put_new_step [OF p inv(1) assms(3) d1 1(1)]
  have a2: "accs_match C plan ?D (view t2)"
    using 1(2) 2(3) accs_match_cong [of "view t2" "view t1"] by simp
  have f: "finite (dom D)" using inv(1) by (simp add: docs_ok_def)
  note 3 = add_accumulator_step [OF a f a2]
  have "space_entries Current_Doc (view t') = doc_entries ?D'"
    "space_entries Current_Route (view t') = route_entries plan ?D'"
    using 2(1,2) 3(2) space_entries_cong [of _ "view t'" "view t2"] by simp_all
  moreover have "docs_ok ?D'" using docs_ok_upd(2) [OF inv(1) assms(3) 2(4) assms(4)] .
  ultimately show "current_inv C plan ?D' (view t')" using 3(1) by (simp add: current_inv_def)
  show "\<And>k. key_space_of k \<notin> {Some Current_Doc, Some Current_Route, Some Current_Checkpoint} \<Longrightarrow>
      view t' k = view t k"
    using 1(3) 2(3) 3(2) by simp
qed

lemma delete_current_document_inv:
  assumes "delete_current_document C M t ty i plan (map_option (doc_of (ty, i)) (D (ty, i))) = Inr t'"
    and "current_inv C plan D (view t)" and "CHR '':'' \<notin> set ty"
  shows "current_inv C plan (D((ty, i) := None)) (view t')"
    and "\<And>k. key_space_of k \<notin> {Some Current_Doc, Some Current_Route, Some Current_Checkpoint} \<Longrightarrow>
           view t' k = view t k"
proof -
  let ?D = "D((ty, i) := None)" and ?dk = "current_doc_key ty i"
  have inv: "docs_ok D" "space_entries Current_Doc (view t) = doc_entries D"
    "space_entries Current_Route (view t) = route_entries plan D" "accs_match C plan D (view t)"
    using assms(2) by (simp_all add: current_inv_def)
  from assms(1) obtain t1 where
    r: "retire_document C M t (map_option (doc_of (ty, i)) (D (ty, i))) plan = Inr t1"
    and d: "t_del M t1 ?dk = Inr t'"
    by (auto simp: delete_current_document_def elim!: rbindE)
  note 1 = retire_document_step [OF r inv(1,3,4)]
  have v: "view t' = (view t1)(?dk := None)" by (rule t_del_view [OF d])
  have fr: "view t' k = view t1 k" if "key_space_of k \<noteq> Some Current_Doc" for k
    using that key_space_funs(2) [of ty i] by (auto simp: v)
  have "space_entries Current_Doc (view t') = {e \<in> space_entries Current_Doc (view t). fst e \<notin> {?dk}}"
    using 1(3) by (auto simp: space_entries_def v split: if_splits)
  also have "\<dots> = doc_entries ?D" using inv(2) by (simp add: doc_entries_remove [OF inv(1) assms(3)])
  finally have "space_entries Current_Doc (view t') = doc_entries ?D" .
  moreover have "space_entries Current_Route (view t') = route_entries plan ?D"
    using 1(1) fr space_entries_cong [of Current_Route "view t'" "view t1"] by simp
  moreover have "accs_match C plan ?D (view t')"
    using 1(2) fr accs_match_cong [of "view t'" "view t1"] by simp
  ultimately show "current_inv C plan ?D (view t')"
    using docs_ok_upd(1) [OF inv(1)] by (simp add: current_inv_def)
  show "\<And>k. key_space_of k \<notin> {Some Current_Doc, Some Current_Route, Some Current_Checkpoint} \<Longrightarrow>
      view t' k = view t k"
    using 1(3) fr by simp
qed

lemma read_current_document_inv:
  assumes "read_current_document C M t ty i = Inr r"
    and "current_inv C plan D (view t)" and "CHR '':'' \<notin> set ty"
  shows "r = map_option (doc_of (ty, i)) (D (ty, i))"
proof -
  have ok: "docs_ok D" and e: "space_entries Current_Doc (view t) = doc_entries D"
    using assms(2) by (simp_all add: current_inv_def)
  show ?thesis
  proof (cases "D (ty, i)")
    case None
    have "view t (current_doc_key ty i) = None"
    proof (rule ccontr)
      assume "view t (current_doc_key ty i) \<noteq> None"
      then have "\<exists>v. (current_doc_key ty i, v) \<in> doc_entries D"
        unfolding e [symmetric] by (auto simp: space_entries_def)
      then have "(ty, i) \<in> dom D"
        using ok assms(3) by (auto simp: doc_entries_def in_graph_iff docs_ok_def current_doc_key_inj)
      with None show False by auto
    qed
    with assms(1) None show ?thesis
      by (auto simp: read_current_document_def read_current_document_by_key_def dest!: t_get_view elim!: rbindE)
  next
    case (Some p)
    obtain rf data where p: "p = (rf, data)" by (cases p)
    have "(current_doc_key ty i, document_bytes ty i rf data) \<in> space_entries Current_Doc (view t)"
      unfolding e doc_entries_def UN_graph_iff using Some p by force
    then have v: "view t (current_doc_key ty i) = Some (document_bytes ty i rf data)"
      by (simp add: space_entries_def)
    have "decode_current_document C (document_bytes ty i rf data) = Inr (doc_of (ty, i) (rf, data))"
      using ok Some p by (auto simp: docs_ok_def decode_document_bytes)
    with assms(1) v Some p show ?thesis
      by (auto simp: read_current_document_def read_current_document_by_key_def dest!: t_get_view elim!: rbindE)
  qed
qed

lemma clear_one_step:
  assumes "remove_current_document_accumulator C M t (doc_of (ty, i) (rf, data)) plan = Inr t1"
    and "rfold (\<lambda>t key. t_del M t key) t1
           (current_doc_key ty i # current_route_keys_for_document (doc_of (ty, i) (rf, data)) plan) = Inr t'"
    and "current_inv C plan D (view t)" and "D (ty, i) = Some (rf, data)"
  shows "current_inv C plan (D((ty, i) := None)) (view t')"
    and "\<And>k. key_space_of k \<notin> {Some Current_Doc, Some Current_Route, Some Current_Checkpoint} \<Longrightarrow>
           view t' k = view t k"
proof -
  let ?D = "D((ty, i) := None)" and ?dk = "current_doc_key ty i"
  let ?rks = "(\<lambda>rc. current_route_index_key ty rc i) ` set (required_route_indexes_for_row plan ty rf)"
  have inv: "docs_ok D" "space_entries Current_Doc (view t) = doc_entries D"
    "space_entries Current_Route (view t) = route_entries plan D" "accs_match C plan D (view t)"
    using assms(3) by (simp_all add: current_inv_def)
  have colon: "CHR '':'' \<notin> set ty" using inv(1) assms(4) by (simp add: docs_ok_def)
  obtain es where es: "doc_events C plan (doc_of (ty, i) (rf, data)) = Inr es"
    and acc: "\<And>K rest. acc_of (view t) (current_checkpoint_accumulator_key K) = acc_plus rest (contribution es K)
         \<Longrightarrow> acc_of (view t1) (current_checkpoint_accumulator_key K) = rest"
    and fr: "\<And>k. key_space_of k \<noteq> Some Current_Checkpoint \<Longrightarrow> view t1 k = view t k"
    by (rule remove_current_document_accumulator_effect [OF assms(1)]) blast
  have v: "view t' = (\<lambda>k. if k = ?dk \<or> k \<in> ?rks then None else view t1 k)"
    using rfold_del_view [where f = "\<lambda>k. k", OF assms(2)]
    by (simp add: current_route_keys_for_document_def fun_eq_iff)
  have rk: "k \<in> ?rks \<Longrightarrow> key_space_of k = Some Current_Route" for k by auto
  have dk: "key_space_of ?dk = Some Current_Doc" by simp
  have "D = D((ty, i) \<mapsto> (rf, data))" using assms(4) by (simp add: fun_upd_idem)
  then have tot: "total_contribution C plan D K = acc_plus (total_contribution C plan ?D K) (contribution es K)" for K
    using total_contribution_insert [of D C plan "(ty, i)" "(rf, data)" K] inv(1) es
    by (simp add: docs_ok_def events_of_def)
  have "acc_of (view t') (current_checkpoint_accumulator_key K)
      = acc_of (view t1) (current_checkpoint_accumulator_key K)" for K
    using rk [of "current_checkpoint_accumulator_key K"] key_space_neq [of "current_checkpoint_accumulator_key K" ?dk]
    by (auto simp: acc_of_def v)
  then have "accs_match C plan ?D (view t')"
    using acc tot inv(4) by (simp add: accs_match_def)
  moreover have "space_entries Current_Doc (view t') = doc_entries ?D"
  proof -
    have "space_entries Current_Doc (view t') = {e \<in> space_entries Current_Doc (view t). fst e \<notin> {?dk}}"
      using rk fr by (auto simp: space_entries_def v split: if_splits)
    then show ?thesis using inv(2) by (simp add: doc_entries_remove [OF inv(1) colon])
  qed
  moreover have "space_entries Current_Route (view t') = route_entries plan ?D"
  proof -
    have "space_entries Current_Route (view t') = {e \<in> space_entries Current_Route (view t). fst e \<notin> ?rks}"
      using dk fr by (auto simp: space_entries_def v split: if_splits)
    then show ?thesis using inv(3) by (simp add: route_entries_remove [OF inv(1) assms(4)])
  qed
  ultimately show "current_inv C plan ?D (view t')"
    using docs_ok_upd(1) [OF inv(1)] by (simp add: current_inv_def)
  show "\<And>k. key_space_of k \<notin> {Some Current_Doc, Some Current_Route, Some Current_Checkpoint} \<Longrightarrow>
      view t' k = view t k"
    using rk dk fr by (auto simp: v)
qed

lemma remove_documents_inv:
  assumes "remove_documents C M plan t
      (map (\<lambda>(x, q). (doc_of x q, current_doc_key (fst x) (snd x) # current_route_keys_for_document (doc_of x q) plan)) xs)
      = Inr t'"
    and "current_inv C plan D (view t)" and "distinct (map fst xs)" and "\<forall>(x, q) \<in> set xs. D x = Some q"
  shows "current_inv C plan (D |` (- fst ` set xs)) (view t') \<and>
    (\<forall>k. key_space_of k \<notin> {Some Current_Doc, Some Current_Route, Some Current_Checkpoint} \<longrightarrow>
       view t' k = view t k)"
  using assms
proof (induction xs arbitrary: t D)
  case Nil
  then show ?case by (simp add: remove_documents_def)
next
  case (Cons y ys)
  obtain ty i rf data where y: "y = ((ty, i), (rf, data))" by (metis surj_pair)
  from Cons.prems(1) obtain t1 t2 where
    1: "remove_current_document_accumulator C M t (doc_of (ty, i) (rf, data)) plan = Inr t1"
    "rfold (\<lambda>t key. t_del M t key) t1
       (current_doc_key ty i # current_route_keys_for_document (doc_of (ty, i) (rf, data)) plan) = Inr t2"
    and rest: "remove_documents C M plan t2
      (map (\<lambda>(x, q). (doc_of x q, current_doc_key (fst x) (snd x) # current_route_keys_for_document (doc_of x q) plan)) ys)
      = Inr t'"
    by (auto simp: remove_documents_def y elim!: rbindE)
  have Dy: "D (ty, i) = Some (rf, data)" using Cons.prems(4) by (simp add: y)
  note s = clear_one_step [OF 1 Cons.prems(2) Dy]
  have ys: "\<forall>(x, q) \<in> set ys. (D((ty, i) := None)) x = Some q"
    using Cons.prems(3,4) by (force simp: y)
  have "distinct (map fst ys)" using Cons.prems(3) by simp
  note IH = Cons.IH [OF rest s(1) this ys]
  have eq: "D((ty, i) := None) |` (- fst ` set ys) = D |` (- fst ` set (y # ys))"
    by (auto simp: y restrict_map_def fun_eq_iff)
  from IH s(2) show ?case unfolding eq by metis
qed

text \<open>What a scan of the document keys returns.\<close>

lemma scan_documents:
  assumes "t_scan_prefix M t prefix = Inr items" and "current_inv C plan D (view t)"
    and "\<And>k. starts_with prefix k \<Longrightarrow> key_space_of k = Some Current_Doc"
    and "\<And>ty i. (ty, i) \<in> dom D \<Longrightarrow> starts_with prefix (current_doc_key ty i) \<longleftrightarrow> ty \<in> T"
  obtains xs where "items = map (\<lambda>((ty, i), (rf, data)). (current_doc_key ty i, document_bytes ty i rf data)) xs"
    and "distinct (map fst xs)" and "\<forall>(x, q) \<in> set xs. D x = Some q \<and> fst x \<in> T"
    and "fst ` set xs = {x \<in> dom D. fst x \<in> T}"
proof -
  let ?item = "\<lambda>((ty, i), (rf, data)). (current_doc_key ty i, document_bytes ty i rf data)"
  have ok: "docs_ok D" and e: "space_entries Current_Doc (view t) = doc_entries D"
    using assms(2) by (simp_all add: current_inv_def)
  note sc = t_scan_prefix_scan [OF assms(1)]
  have "set items \<subseteq> ?item ` {(x, q). D x = Some q \<and> fst x \<in> T}"
  proof
    fix it assume it: "it \<in> set items"
    obtain k v where kv: "it = (k, v)" by (cases it)
    then have k: "view t k = Some v" "starts_with prefix k" using it sc(2) by auto
    then have "(k, v) \<in> doc_entries D" using assms(3) unfolding e [symmetric] by (simp add: space_entries_def)
    then obtain ty i rf data where d: "D (ty, i) = Some (rf, data)" "k = current_doc_key ty i"
      "v = document_bytes ty i rf data" by (auto simp: doc_entries_def in_graph_iff)
    have "ty \<in> T" using assms(4) [of ty i] d k by auto
    with d kv show "it \<in> ?item ` {(x, q). D x = Some q \<and> fst x \<in> T}"
      by (intro image_eqI [of _ _ "((ty, i), (rf, data))"]) simp_all
  qed
  from subset_image_map [OF this] obtain xs where xs: "items = map ?item xs"
    and S: "set xs \<subseteq> {(x, q). D x = Some q \<and> fst x \<in> T}" by (elim exE conjE)
  from S have D: "\<forall>(x, q) \<in> set xs. D x = Some q \<and> fst x \<in> T" by auto
  have keys: "map fst items = map (\<lambda>x. current_doc_key (fst x) (snd x)) (map fst xs)"
    by (simp add: xs case_prod_unfold)
  have "distinct (map fst items)" using sc(1) strict_sorted_iff by blast
  then have dist: "distinct (map fst xs)" unfolding keys by (simp only: distinct_map)
  have "x \<in> fst ` set xs" if xD: "x \<in> dom D" and xT: "fst x \<in> T" for x
  proof -
    obtain ty i where "x = (ty, i)" by (cases x)
    moreover obtain rf data where "D x = Some (rf, data)" using xD by (auto simp: dom_def)
    ultimately have x: "x = (ty, i)" "D (ty, i) = Some (rf, data)" "ty \<in> T" using xT by simp_all
    have c: "CHR '':'' \<notin> set ty" using ok x by (simp add: docs_ok_def)
    have "(current_doc_key ty i, document_bytes ty i rf data) \<in> space_entries Current_Doc (view t)"
      unfolding e doc_entries_def UN_graph_iff using x by force
    then have "(current_doc_key ty i, document_bytes ty i rf data) \<in> set items"
      using assms(4) [of ty i] x by (auto simp: space_entries_def sc(2))
    then have "current_doc_key ty i \<in> set (map fst items)" by force
    then obtain ty' i' q where y: "((ty', i'), q) \<in> set xs" "current_doc_key ty i = current_doc_key ty' i'"
      unfolding keys by auto
    then have "CHR '':'' \<notin> set ty'" using D ok by (cases q) (auto simp: docs_ok_def)
    with y c have "(ty', i') = x" by (simp add: current_doc_key_inj x)
    with y(1) show ?thesis by force
  qed
  moreover have "x \<in> dom D \<and> fst x \<in> T" if "x \<in> fst ` set xs" for x using that D by auto
  ultimately have "fst ` set xs = {x \<in> dom D. fst x \<in> T}" by blast
  from that [OF xs dist D this] show thesis .
qed

lemma clear_current_documents_inv:
  assumes "clear_current_documents_for_prefix C M t prefix plan = Inr t'"
    and "current_inv C plan D (view t)"
    and "\<And>k. starts_with prefix k \<Longrightarrow> key_space_of k = Some Current_Doc"
    and "\<And>ty i. (ty, i) \<in> dom D \<Longrightarrow> starts_with prefix (current_doc_key ty i) \<longleftrightarrow> ty \<in> T"
  shows "current_inv C plan (D |` {x. fst x \<notin> T}) (view t')"
    and "\<And>k. key_space_of k \<notin> {Some Current_Doc, Some Current_Route, Some Current_Checkpoint} \<Longrightarrow>
           view t' k = view t k"
proof -
  let ?f = "\<lambda>(x, q). (doc_of x q,
      current_doc_key (fst x) (snd x) # current_route_keys_for_document (doc_of x q) plan)"
  have ok: "docs_ok D" using assms(2) by (simp add: current_inv_def)
  from assms(1) obtain items removals where
    items: "t_scan_prefix M t prefix = Inr items"
    and rm: "rmap (\<lambda>(key, value). rbind (decode_current_document C value) (\<lambda>d.
              Inr (d, key # current_route_keys_for_document d plan))) items = Inr removals"
    and del: "remove_documents C M plan t removals = Inr t'"
    by (auto simp: clear_current_documents_for_prefix_def elim!: rbindE)
  obtain xs where
    xs: "items = map (\<lambda>((ty, i), (rf, data)). (current_doc_key ty i, document_bytes ty i rf data)) xs"
    and dist: "distinct (map fst xs)" and D: "\<forall>(x, q) \<in> set xs. D x = Some q \<and> fst x \<in> T"
    and eq: "fst ` set xs = {x \<in> dom D. fst x \<in> T}"
    by (rule scan_documents [OF items assms(2,3,4)])
  have dec: "decode_current_document C (document_bytes ty i rf data) = Inr (doc_of (ty, i) (rf, data))"
    if "((ty, i), (rf, data)) \<in> set xs" for ty i rf data
    using that D ok by (fastforce simp: docs_ok_def intro!: decode_document_bytes)
  have "removals = map ?f xs"
    using rm unfolding xs by (subst (asm) rmap_map_Inr [where h = ?f]) (auto simp: dec)
  with del have "remove_documents C M plan t (map ?f xs) = Inr t'" by simp
  from remove_documents_inv [OF this assms(2) dist] D
  have "current_inv C plan (D |` (- fst ` set xs)) (view t') \<and>
    (\<forall>k. key_space_of k \<notin> {Some Current_Doc, Some Current_Route, Some Current_Checkpoint} \<longrightarrow>
       view t' k = view t k)" by blast
  moreover have "D |` (- fst ` set xs) = D |` {x. fst x \<notin> T}"
    unfolding eq by (auto simp: restrict_map_def fun_eq_iff)
  ultimately show "current_inv C plan (D |` {x. fst x \<notin> T}) (view t')"
    and "\<And>k. key_space_of k \<notin> {Some Current_Doc, Some Current_Route, Some Current_Checkpoint} \<Longrightarrow>
           view t' k = view t k" by simp_all
qed

end

section \<open>Specification of the operations\<close>

definition abs_apply :: "docs \<Rightarrow> DerivedSyncTailOp \<Rightarrow> docs" where
  "abs_apply D x =
     (case ds_operation x of
        Put \<Rightarrow> (case (ds_object_type x, ds_object_id x, ds_data_json x) of
                 (Some ty, Some i, Some data) \<Rightarrow> D((ty, i) \<mapsto> (ds_route_fields x, data))
               | _ \<Rightarrow> D)
      | Remove \<Rightarrow> (case (ds_object_type x, ds_object_id x) of
                    (Some ty, Some i) \<Rightarrow> D((ty, i) := None) | _ \<Rightarrow> D)
      | Clear \<Rightarrow> (case ds_object_type x of Some ty \<Rightarrow> D |` {y. fst y \<noteq> ty} | None \<Rightarrow> Map.empty))"

text \<open>The operations that replication derives: a put carries its data and no previous row, a removal
  carries no data, and a put that skips the lookup is of a new object.\<close>

definition derived_ok :: "docs \<Rightarrow> DerivedSyncTailOp \<Rightarrow> bool" where
  "derived_ok D x \<longleftrightarrow>
     (case ds_operation x of
        Put \<Rightarrow> (case (ds_object_type x, ds_object_id x, ds_data_json x) of
                 (Some ty, Some i, Some data) \<Rightarrow>
                   CHR '':'' \<notin> set ty \<and> doc_ok ty i (ds_route_fields x) data \<and>
                   ds_previous_route_fields x = None \<and> ds_previous_data_json x = None \<and>
                   (ds_assume_new x \<longrightarrow> D (ty, i) = None)
               | _ \<Rightarrow> False)
      | Remove \<Rightarrow> (case (ds_object_type x, ds_object_id x) of
                    (Some ty, Some i) \<Rightarrow> CHR '':'' \<notin> set ty \<and> ds_data_json x = None
                  | _ \<Rightarrow> False)
      | Clear \<Rightarrow> (case ds_object_type x of Some ty \<Rightarrow> CHR '':'' \<notin> set ty | None \<Rightarrow> True))"

definition mat_spec :: "docs \<Rightarrow> DerivedSyncTailOp \<Rightarrow> DerivedSyncTailOp" where
  "mat_spec D x =
     (case (ds_object_type x, ds_object_id x) of
        (Some ty, Some i) \<Rightarrow>
          (case D (ty, i) of
             None \<Rightarrow> x
           | Some (rf, data) \<Rightarrow>
               (case ds_operation x of
                  Put \<Rightarrow> if ds_assume_new x then x
                         else x\<lparr>ds_previous_route_fields := Some rf, ds_previous_data_json := Some data\<rparr>
                | Remove \<Rightarrow> x\<lparr>ds_route_fields := rf, ds_data_json := Some data\<rparr>
                | Clear \<Rightarrow> x))
      | _ \<Rightarrow> x)"

fun ops_ok :: "docs \<Rightarrow> DerivedSyncTailOp list \<Rightarrow> bool" where
  "ops_ok D [] = True"
| "ops_ok D (x # xs) \<longleftrightarrow> derived_ok D x \<and> ops_ok (abs_apply D x) xs"

fun mat_specs :: "docs \<Rightarrow> DerivedSyncTailOp list \<Rightarrow> DerivedSyncTailOp list" where
  "mat_specs D [] = []"
| "mat_specs D (x # xs) = mat_spec D x # mat_specs (abs_apply D x) xs"

abbreviation same_outside_current :: "kv \<Rightarrow> kv \<Rightarrow> bool" where
  "same_outside_current kv kv' \<equiv>
     (\<forall>k. key_space_of k \<notin> {Some Current_Doc, Some Current_Route, Some Current_Checkpoint} \<longrightarrow>
        kv' k = kv k)"

lemma derived_okE:
  assumes "derived_ok D x"
  obtains (put) ty i data where "ds_operation x = Put" "ds_object_type x = Some ty" "ds_object_id x = Some i"
      "ds_data_json x = Some data" "CHR '':'' \<notin> set ty" "doc_ok ty i (ds_route_fields x) data"
      "ds_previous_route_fields x = None" "ds_previous_data_json x = None"
      "ds_assume_new x \<Longrightarrow> D (ty, i) = None"
    | (remove) ty i where "ds_operation x = Remove" "ds_object_type x = Some ty" "ds_object_id x = Some i"
      "CHR '':'' \<notin> set ty" "ds_data_json x = None"
    | (clear_type) ty where "ds_operation x = Clear" "ds_object_type x = Some ty" "CHR '':'' \<notin> set ty"
    | (clear_all) "ds_operation x = Clear" "ds_object_type x = None"
  using assms
  by (auto simp: derived_ok_def split: PersistedSyncTailOperation.splits option.splits)

context mdbx_table
begin

lemma materialize_sync_state_op_spec:
  assumes "materialize_sync_state_op C M t x = Inr m"
    and "current_inv C plan D (view t)" and "derived_ok D x"
  shows "m = mat_spec D x"
  using assms(3)
proof (cases rule: derived_okE)
  case (put ty i data)
  with assms(1) show ?thesis
    by (cases "D (ty, i)")
      (auto simp: materialize_sync_state_op_def mat_spec_def
         dest!: read_current_document_inv [OF _ assms(2) put(5)] elim!: rbindE split: if_splits)
next
  case (remove ty i)
  with assms(1) show ?thesis
    by (cases "D (ty, i)")
      (auto simp: materialize_sync_state_op_def mat_spec_def
         dest!: read_current_document_inv [OF _ assms(2) remove(4)] elim!: rbindE)
qed (use assms(1) in \<open>auto simp: materialize_sync_state_op_def mat_spec_def split: option.splits\<close>)

lemma apply_materialized_spec:
  assumes "apply_materialized_sync_state_op C M t (mat_spec D x) plan = Inr t'"
    and "current_inv C plan D (view t)" and "derived_ok D x"
  shows "current_inv C plan (abs_apply D x) (view t') \<and> same_outside_current (view t) (view t')"
  using assms(3)
proof (cases rule: derived_okE)
  case (put ty i data)
  let ?d = "doc_of (ty, i) (ds_route_fields x, data)"
  obtain prev where p: "put_current_document C M t ?d plan (ds_assume_new x) prev = Inr t'"
    and prev: "if ds_assume_new x then D (ty, i) = None else prev = map_option (doc_of (ty, i)) (D (ty, i))"
    using assms(1) put
    by (cases "D (ty, i)") (auto simp: apply_materialized_sync_state_op_def mat_spec_def
        materialized_previous_document_def split: if_splits)
  from put_current_document_inv [OF p assms(2) put(5,6) prev] show ?thesis
    by (simp add: abs_apply_def put)
next
  case (remove ty i)
  have "delete_current_document C M t ty i plan (map_option (doc_of (ty, i)) (D (ty, i))) = Inr t'"
    using assms(1) remove
    by (cases "D (ty, i)") (auto simp: apply_materialized_sync_state_op_def mat_spec_def
        materialized_current_document_def)
  from delete_current_document_inv [OF this assms(2) remove(4)] show ?thesis
    by (simp add: abs_apply_def remove)
next
  case (clear_type ty)
  have ok: "docs_ok D" using assms(2) by (simp add: current_inv_def)
  have "clear_current_documents_for_prefix C M t (current_doc_prefix ty) plan = Inr t'"
    using assms(1) clear_type
    by (auto simp: apply_materialized_sync_state_op_def mat_spec_def clear_current_documents_for_object_def
        split: option.splits)
  moreover have "starts_with (current_doc_prefix ty) (current_doc_key ty' i) \<longleftrightarrow> ty' \<in> {ty}"
    if "(ty', i) \<in> dom D" for ty' i
    using that ok clear_type(3) current_doc_key_prefix [of ty ty' i] by (auto simp: docs_ok_def)
  ultimately show ?thesis
    using clear_current_documents_inv [where T = "{ty}", OF _ assms(2) key_space_starts_with(1)]
    by (simp add: abs_apply_def clear_type)
next
  case clear_all
  have "clear_current_documents_for_prefix C M t CURRENT_DOC_KEY_PREFIX plan = Inr t'"
    using assms(1) clear_all
    by (auto simp: apply_materialized_sync_state_op_def mat_spec_def split: option.splits)
  moreover have "starts_with CURRENT_DOC_KEY_PREFIX (current_doc_key ty' i) \<longleftrightarrow> ty' \<in> UNIV" for ty' i
    by (simp add: key_fun_defs)
  ultimately show ?thesis
    using clear_current_documents_inv [where T = UNIV, OF _ assms(2) key_space_starts_with(2)]
    by (simp add: abs_apply_def clear_all)
qed

lemma materialize_sync_state_ops_spec:
  "materialize_sync_state_ops C M t xs plan = Inr (t', ms) \<Longrightarrow> current_inv C plan D (view t) \<Longrightarrow>
   ops_ok D xs \<Longrightarrow>
   ms = mat_specs D xs \<and> current_inv C plan (foldl abs_apply D xs) (view t') \<and>
   same_outside_current (view t) (view t')"
proof (induction xs arbitrary: t D ms)
  case (Cons x xs)
  from Cons.prems obtain m t1 ms1 where 1: "materialize_sync_state_op C M t x = Inr m"
    "apply_materialized_sync_state_op C M t m plan = Inr t1"
    and 2: "materialize_sync_state_ops C M t1 xs plan = Inr (t', ms1)" "ms = m # ms1"
    by (auto elim!: rbindE)
  have ok: "derived_ok D x" "ops_ok (abs_apply D x) xs" using Cons.prems(3) by simp_all
  have m: "m = mat_spec D x" by (rule materialize_sync_state_op_spec [OF 1(1) Cons.prems(2) ok(1)])
  note a = apply_materialized_spec [OF 1(2) [unfolded m] Cons.prems(2) ok(1)]
  from Cons.IH [OF 2(1) _ ok(2)] a m 2(2) show ?case by simp
qed simp

end

end
