(* ===== verification/Derive.thy ===== *)
theory Derive
  imports Current_Invariant
begin

text \<open>
  Deriving store operations from a replication batch (\<open>replication/ingest/derive.rs\<close>). The change
  events belong to the third-party crate \<open>pg_walstream\<close>; \<open>EventType\<close> has the variants and the fields
  the program builds and reads, and \<open>OtherEvent\<close> stands for the variants it ignores. A row change of
  a table of the sync plan becomes removals and puts of that table's object type, a change of a
  lookup table becomes a lookup operation, and a truncate of either is an error.

  The lemmas give the operations of each kind of change, show that every derived operation is one
  that the current-document store accepts (\<open>derived_ok\<close>), and that changes outside the plan derive
  nothing.
\<close>

section \<open>Change events\<close>

datatype EventType =
    Insert string string nat row_data
  | Update string string nat "row_data option" row_data char "string list"
  | Delete string string nat row_data char "string list"
  | Truncate "string list"
  | OtherEvent

record ChangeEvent =
  ev_event_type :: EventType
  ev_lsn :: lsn

type_synonym batch = "ChangeEvent ReplicationCommitBatch"

datatype ParameterLookupOperation =
    LookupPut row_data
  | LookupUpdate "row_data option" row_data
  | LookupRemove row_data

record DerivedParameterLookupOp =
  dl_source_table :: string
  dl_operation :: ParameterLookupOperation

section \<open>Operations of one row\<close>

definition derive_row_put :: "string \<Rightarrow> string \<Rightarrow> routes \<Rightarrow> string \<Rightarrow> bool \<Rightarrow> DerivedSyncTailOp" where
  "derive_row_put object_type object_id rf data_json assume_new =
     \<lparr> ds_operation = Put, ds_object_type = Some object_type, ds_object_id = Some object_id,
       ds_route_fields = rf, ds_data_json = Some data_json, ds_previous_route_fields = None,
       ds_previous_data_json = None, ds_assume_new = assume_new \<rparr>"

definition derive_row_remove :: "string \<Rightarrow> string \<Rightarrow> routes \<Rightarrow> DerivedSyncTailOp" where
  "derive_row_remove object_type object_id rf =
     \<lparr> ds_operation = Remove, ds_object_type = Some object_type, ds_object_id = Some object_id,
       ds_route_fields = rf, ds_data_json = None, ds_previous_route_fields = None,
       ds_previous_data_json = None, ds_assume_new = False \<rparr>"

definition serialize_row_for_tail ::
  "json_lib \<Rightarrow> row_data \<Rightarrow> JsonColumnTypes option \<Rightarrow> sync_error + string" where
  "serialize_row_for_tail J data column_types =
     (case column_types of
        None \<Rightarrow> serialize_full_row_json J data
      | Some types \<Rightarrow> serialize_full_row_json_with_column_types J data types)"

definition put_of_row ::
  "crates \<Rightarrow> CompiledTablePlan \<Rightarrow> row_data \<Rightarrow> JsonColumnTypes option \<Rightarrow> bool \<Rightarrow> DerivedSyncTailOp result" where
  "put_of_row C tp data column_types assume_new =
     rbind (map_err sync_rule_error_to_ingest_error (object_id_for_row tp data)) (\<lambda>object_id.
     rbind (map_err sync_rule_error_to_ingest_error (route_fields_for_row tp data True)) (\<lambda>rf.
     rbind (map_err sync_rule_error_to_ingest_error (serialize_row_for_tail (cr_json C) data column_types))
       (\<lambda>data_json. Inr (derive_row_put (tp_object_type tp) object_id rf data_json assume_new))))"

definition remove_of_row :: "CompiledTablePlan \<Rightarrow> row_data \<Rightarrow> DerivedSyncTailOp result" where
  "remove_of_row tp data =
     rbind (map_err sync_rule_error_to_ingest_error (object_id_for_row tp data)) (\<lambda>object_id.
     rbind (map_err sync_rule_error_to_ingest_error (route_fields_for_row tp data False)) (\<lambda>rf.
       Inr (derive_row_remove (tp_object_type tp) object_id rf)))"

definition reject_truncate :: "(string \<Rightarrow> bool) \<Rightarrow> string list \<Rightarrow> unit result" where
  "reject_truncate materialized tables =
     rfold (\<lambda>_ table_name.
       case strip_prefix ''public.'' table_name of
         None \<Rightarrow> Inr ()
       | Some source_table \<Rightarrow>
           if materialized source_table
           then Inl (UnsupportedPgoutputMessage ''truncate on a materialized table'') else Inr ()) () tables"

section \<open>Operations of a batch\<close>

fun derive_change ::
  "crates \<Rightarrow> RustExecutionPlan \<Rightarrow> JsonColumnTypes btree \<Rightarrow> bool \<Rightarrow> EventType \<Rightarrow> DerivedSyncTailOp list result" where
  "derive_change C plan types assume_new_inserts (Insert schema table _ data) =
     (if schema \<noteq> ''public'' then Inr []
      else case table_plan plan table of
        None \<Rightarrow> Inr []
      | Some tp \<Rightarrow> rbind (put_of_row C tp data (map_of types table) assume_new_inserts) (\<lambda>p. Inr [p]))"
| "derive_change C plan types assume_new_inserts (Update schema table _ old_data new_data _ _) =
     (if schema \<noteq> ''public'' then Inr []
      else case table_plan plan table of
        None \<Rightarrow> Inr []
      | Some tp \<Rightarrow>
          rbind (case old_data of None \<Rightarrow> Inr []
                 | Some old \<Rightarrow> rbind (remove_of_row tp old) (\<lambda>r. Inr [r])) (\<lambda>removes.
          rbind (put_of_row C tp new_data (map_of types table) False) (\<lambda>p. Inr (removes @ [p]))))"
| "derive_change C plan types assume_new_inserts (Delete schema table _ old_data _ _) =
     (if schema \<noteq> ''public'' then Inr []
      else case table_plan plan table of
        None \<Rightarrow> Inr []
      | Some tp \<Rightarrow> rbind (remove_of_row tp old_data) (\<lambda>r. Inr [r]))"
| "derive_change C plan types assume_new_inserts (Truncate tables) =
     rbind (reject_truncate (\<lambda>source_table. table_plan plan source_table \<noteq> None
                                          \<or> lookup_table_plan plan source_table \<noteq> None) tables)
       (\<lambda>_. Inr [])"
| "derive_change C plan types assume_new_inserts OtherEvent = Inr []"

definition derive_sync_tail_ops_with_options ::
  "crates \<Rightarrow> batch \<Rightarrow> RustExecutionPlan \<Rightarrow> bool \<Rightarrow> DerivedSyncTailOp list result" where
  "derive_sync_tail_ops_with_options C batch plan assume_new_inserts =
     rfold (\<lambda>ops change.
       rbind (derive_change C plan (column_types_by_table batch) assume_new_inserts (ev_event_type change))
         (\<lambda>new. Inr (ops @ new))) [] (changes batch)"

fun derive_lookup_change ::
  "RustExecutionPlan \<Rightarrow> EventType \<Rightarrow> DerivedParameterLookupOp list result" where
  "derive_lookup_change plan (Insert schema table _ data) =
     (if schema \<noteq> ''public'' then Inr []
      else case lookup_table_plan plan table of
        None \<Rightarrow> Inr []
      | Some lt \<Rightarrow> Inr [\<lparr> dl_source_table = lt_source_table lt, dl_operation = LookupPut data \<rparr>])"
| "derive_lookup_change plan (Update schema table _ old_data new_data _ _) =
     (if schema \<noteq> ''public'' then Inr []
      else case lookup_table_plan plan table of
        None \<Rightarrow> Inr []
      | Some lt \<Rightarrow> Inr [\<lparr> dl_source_table = lt_source_table lt,
                        dl_operation = LookupUpdate old_data new_data \<rparr>])"
| "derive_lookup_change plan (Delete schema table _ old_data _ _) =
     (if schema \<noteq> ''public'' then Inr []
      else case lookup_table_plan plan table of
        None \<Rightarrow> Inr []
      | Some lt \<Rightarrow> Inr [\<lparr> dl_source_table = lt_source_table lt, dl_operation = LookupRemove old_data \<rparr>])"
| "derive_lookup_change plan (Truncate tables) =
     rbind (reject_truncate (\<lambda>source_table. lookup_table_plan plan source_table \<noteq> None) tables)
       (\<lambda>_. Inr [])"
| "derive_lookup_change plan OtherEvent = Inr []"

definition derive_parameter_lookup_ops ::
  "batch \<Rightarrow> RustExecutionPlan \<Rightarrow> DerivedParameterLookupOp list result" where
  "derive_parameter_lookup_ops batch plan =
     rfold (\<lambda>ops change.
       rbind (derive_lookup_change plan (ev_event_type change)) (\<lambda>new. Inr (ops @ new))) [] (changes batch)"

section \<open>Loops that append\<close>

lemma rfold_concat:
  "rfold (\<lambda>ops x. rbind (f x) (\<lambda>new. Inr (ops @ new))) ops0 xs = rbind (rmap f xs) (\<lambda>nss. Inr (ops0 @ concat nss))"
proof (induction xs arbitrary: ops0)
  case (Cons x xs)
  then show ?case by (cases "f x") (simp_all add: rbind_assoc)
qed simp

lemma derive_ops_eq:
  "derive_sync_tail_ops_with_options C batch plan a =
     rbind (rmap (\<lambda>c. derive_change C plan (column_types_by_table batch) a (ev_event_type c)) (changes batch))
       (\<lambda>ops. Inr (concat ops))"
  by (simp add: derive_sync_tail_ops_with_options_def rfold_concat)

lemma derive_lookup_ops_eq:
  "derive_parameter_lookup_ops batch plan =
     rbind (rmap (\<lambda>c. derive_lookup_change plan (ev_event_type c)) (changes batch)) (\<lambda>ops. Inr (concat ops))"
  by (simp add: derive_parameter_lookup_ops_def rfold_concat)

section \<open>Shape of the derived operations\<close>

lemma bt_of_list_sorted_routes: "route_fields_for_row tp data required = Inr rf \<Longrightarrow> bt_sorted rf"
  by (auto simp: route_fields_for_row_def bt_sorted_bt_of_list elim!: rbindE)

lemma put_of_row_Inr:
  "put_of_row C tp data types a = Inr x \<longleftrightarrow>
   (\<exists>i rf json. object_id_for_row tp data = Inr i \<and> route_fields_for_row tp data True = Inr rf \<and>
      serialize_row_for_tail (cr_json C) data types = Inr json \<and> x = derive_row_put (tp_object_type tp) i rf json a)"
  by (auto simp: put_of_row_def rbind_Inr_iff)

lemma remove_of_row_Inr:
  "remove_of_row tp data = Inr x \<longleftrightarrow>
   (\<exists>i rf. object_id_for_row tp data = Inr i \<and> route_fields_for_row tp data False = Inr rf \<and>
      x = derive_row_remove (tp_object_type tp) i rf)"
  by (auto simp: remove_of_row_def rbind_Inr_iff)

text \<open>An operation of the plan: a put or a removal of an object type that some table of the plan feeds.\<close>

definition op_of_plan :: "RustExecutionPlan \<Rightarrow> bool \<Rightarrow> DerivedSyncTailOp \<Rightarrow> bool" where
  "op_of_plan plan a x \<longleftrightarrow>
     (\<exists>table tp i rf. table_plan plan table = Some tp \<and> bt_sorted rf \<and>
        (x = derive_row_remove (tp_object_type tp) i rf \<or>
         (\<exists>json a'. x = derive_row_put (tp_object_type tp) i rf json a' \<and> (a' \<longrightarrow> a))))"

lemma put_of_plan:
  "table_plan plan table = Some tp \<Longrightarrow> put_of_row C tp data types a' = Inr x \<Longrightarrow> (a' \<longrightarrow> a) \<Longrightarrow> op_of_plan plan a x"
  by (force simp: op_of_plan_def put_of_row_Inr dest: bt_of_list_sorted_routes)

lemma remove_of_plan:
  "table_plan plan table = Some tp \<Longrightarrow> remove_of_row tp data = Inr x \<Longrightarrow> op_of_plan plan a x"
  by (force simp: op_of_plan_def remove_of_row_Inr dest: bt_of_list_sorted_routes)

lemma derive_change_of_plan:
  "derive_change C plan types a e = Inr xs \<Longrightarrow> x \<in> set xs \<Longrightarrow> op_of_plan plan a x"
  by (cases e)
    (auto elim!: rbindE intro: put_of_plan remove_of_plan split: if_splits option.splits)

lemma derive_ops_of_plan:
  assumes "derive_sync_tail_ops_with_options C batch plan a = Inr ops" and "x \<in> set ops"
  shows "op_of_plan plan a x"
proof -
  obtain nss where n: "rmap (\<lambda>c. derive_change C plan (column_types_by_table batch) a (ev_event_type c))
      (changes batch) = Inr nss" and ops: "ops = concat nss"
    using assms(1) by (auto simp: derive_ops_eq elim!: rbindE)
  obtain xs where "xs \<in> set nss" "x \<in> set xs" using assms(2) ops by auto
  with rmap_Inr_list_all2 [OF n] obtain c :: ChangeEvent where
    "derive_change C plan (column_types_by_table batch) a (ev_event_type c) = Inr xs"
    by (force simp: list_all2_conv_all_nth in_set_conv_nth)
  with \<open>x \<in> set xs\<close> show ?thesis by (rule derive_change_of_plan [rotated])
qed

text \<open>Object types that can name documents, and the size bounds of a derived put.\<close>

definition plan_types_ok :: "RustExecutionPlan \<Rightarrow> bool" where
  "plan_types_ok plan \<longleftrightarrow> (\<forall>tp \<in> snd ` set (tables_by_source plan). CHR '':'' \<notin> set (tp_object_type tp))"

definition put_fits :: "DerivedSyncTailOp \<Rightarrow> bool" where
  "put_fits x \<longleftrightarrow>
     (case (ds_object_type x, ds_object_id x, ds_data_json x) of
        (Some ty, Some i, Some data) \<Rightarrow> doc_ok ty i (ds_route_fields x) data | _ \<Rightarrow> True)"

lemma op_of_plan_derived_ok:
  assumes "op_of_plan plan False x" and "plan_types_ok plan" and "put_fits x"
  shows "derived_ok D x"
proof -
  have "CHR '':'' \<notin> set (tp_object_type tp)" if "table_plan plan table = Some tp" for table tp
    using assms(2) that by (force simp: plan_types_ok_def table_plan_def dest: map_of_SomeD)
  with assms(1,3) show ?thesis
    by (auto simp: op_of_plan_def derived_ok_def put_fits_def derive_row_put_def derive_row_remove_def)
qed

lemma derived_ops_ok:
  assumes "derive_sync_tail_ops_with_options C batch plan False = Inr ops"
    and "plan_types_ok plan" and "\<forall>x \<in> set ops. put_fits x"
  shows "ops_ok D ops"
proof -
  have "\<forall>x \<in> set ops. op_of_plan plan False x \<and> put_fits x"
    using derive_ops_of_plan [OF assms(1)] assms(3) by blast
  then show ?thesis
    by (induction ops arbitrary: D) (auto intro: op_of_plan_derived_ok [OF _ assms(2)])
qed

section \<open>Effect of a change on the documents\<close>

lemma derive_change_outside:
  "(\<forall>s t i d. e = Insert s t i d \<longrightarrow> s \<noteq> ''public'' \<or> table_plan plan t = None) \<Longrightarrow>
   (\<forall>s t i od nd r k. e = Update s t i od nd r k \<longrightarrow> s \<noteq> ''public'' \<or> table_plan plan t = None) \<Longrightarrow>
   (\<forall>s t i d r k. e = Delete s t i d r k \<longrightarrow> s \<noteq> ''public'' \<or> table_plan plan t = None) \<Longrightarrow>
   (\<forall>ts. e \<noteq> Truncate ts) \<Longrightarrow> derive_change C plan types a e = Inr []"
  by (cases e) auto

lemma abs_apply_row:
  "abs_apply D (derive_row_put ty i rf json a) = D((ty, i) \<mapsto> (rf, json))"
  "abs_apply D (derive_row_remove ty i rf) = D((ty, i) := None)"
  by (simp_all add: abs_apply_def derive_row_put_def derive_row_remove_def)

lemma reject_truncate_Inr:
  "reject_truncate m tables = Inr () \<longleftrightarrow>
   (\<forall>name \<in> set tables. \<forall>t. strip_prefix ''public.'' name = Some t \<longrightarrow> \<not> m t)"
  by (induction tables) (auto simp: reject_truncate_def rbind_Inr_iff split: option.splits)

lemma derive_insert_effect:
  assumes "derive_change C plan types a (Insert ''public'' table r data) = Inr ops"
    and "table_plan plan table = Some tp"
  shows "\<exists>i rf json. object_id_for_row tp data = Inr i \<and> route_fields_for_row tp data True = Inr rf \<and>
           serialize_row_for_tail (cr_json C) data (map_of types table) = Inr json \<and>
           foldl abs_apply D ops = D((tp_object_type tp, i) \<mapsto> (rf, json))"
  using assms by (auto simp: put_of_row_Inr abs_apply_row elim!: rbindE)

lemma derive_update_effect:
  assumes "derive_change C plan types a (Update ''public'' table r old new ri kc) = Inr ops"
    and "table_plan plan table = Some tp"
  shows "\<exists>i rf json. object_id_for_row tp new = Inr i \<and> route_fields_for_row tp new True = Inr rf \<and>
           serialize_row_for_tail (cr_json C) new (map_of types table) = Inr json \<and>
           (case old of
              None \<Rightarrow> foldl abs_apply D ops = D((tp_object_type tp, i) \<mapsto> (rf, json))
            | Some o_data \<Rightarrow> \<exists>i0. object_id_for_row tp o_data = Inr i0 \<and>
                foldl abs_apply D ops
                = D((tp_object_type tp, i0) := None, (tp_object_type tp, i) \<mapsto> (rf, json)))"
  using assms
  by (auto simp: put_of_row_Inr remove_of_row_Inr abs_apply_row elim!: rbindE split: option.splits)

lemma derive_delete_effect:
  assumes "derive_change C plan types a (Delete ''public'' table r data ri kc) = Inr ops"
    and "table_plan plan table = Some tp"
  shows "\<exists>i. object_id_for_row tp data = Inr i \<and> foldl abs_apply D ops = D((tp_object_type tp, i) := None)"
  using assms by (auto simp: remove_of_row_Inr abs_apply_row elim!: rbindE)

end
