(* ===== verification/Tail_Log.thy ===== *)
theory Tail_Log
  imports Current_Invariant
begin

text \<open>
  The sync tail log (\<open>replication/ingest/tail_log.rs\<close>): appending materialized operations with
  contiguous ids, their index entries and references, pruning below a retained floor, and the
  ordered scans of one index.
\<close>

record IndexedSyncTailOps =
  ix_latest_op_id :: nat
  ix_ops :: "PersistedSyncTailOp list"

section \<open>Counters\<close>

definition parse_decimal_u64 :: "bytes \<Rightarrow> string \<Rightarrow> nat result" where
  "parse_decimal_u64 bs label =
     (if \<not> utf8_valid bs then Inl (CorruptBatch (label @ '' metadata is not UTF-8''))
      else ok_or (CorruptBatch (label @ '' metadata is invalid'')) (parse_u64 bs))"

definition parse_be_u64 :: "bytes \<Rightarrow> string \<Rightarrow> nat result" where
  "parse_be_u64 bs label =
     (if length bs \<noteq> 8 then Inl (CorruptBatch (label @ '' metadata is not an 8-byte big-endian u64''))
      else Inr (from_be bs))"

definition read_optional_u64 :: "'t mdbx \<Rightarrow> 't \<Rightarrow> bytes \<Rightarrow> string \<Rightarrow> nat option result" where
  "read_optional_u64 M t key label =
     rbind (t_get M t key) (\<lambda>bs.
       case bs of None \<Rightarrow> Inr None
       | Some bytes \<Rightarrow> rbind (parse_decimal_u64 bytes label) (\<lambda>n. Inr (Some n)))"

definition read_u64_or :: "'t mdbx \<Rightarrow> 't \<Rightarrow> bytes \<Rightarrow> string \<Rightarrow> nat \<Rightarrow> nat result" where
  "read_u64_or M t key label d =
     rbind (read_optional_u64 M t key label) (\<lambda>n. Inr (case n of None \<Rightarrow> d | Some n \<Rightarrow> n))"

section \<open>Index names of an operation\<close>

definition sync_tail_index_keys_for_bucket :: "string \<Rightarrow> routes \<Rightarrow> string list" where
  "sync_tail_index_keys_for_bucket ty route_constraints =
     (if route_constraints = [] then [sync_tail_object_index_name ty]
      else [sync_tail_clear_index_name ty, sync_tail_route_index_name ty route_constraints])"

definition sync_tail_index_keys_for_op :: "PersistedSyncTailOp \<Rightarrow> RustExecutionPlan \<Rightarrow> string list" where
  "sync_tail_index_keys_for_op x plan =
     (case so_object_type x of
        None \<Rightarrow> []
      | Some ty \<Rightarrow>
          btset_of_list (sync_tail_object_index_name ty #
            (case so_operation x of
               Clear \<Rightarrow> [sync_tail_clear_index_name ty]
             | _ \<Rightarrow>
                 map (sync_tail_route_index_name ty)
                   (required_route_indexes_for_row plan ty (so_route_fields x)
                    @ (case so_previous_route_fields x of
                         None \<Rightarrow> []
                       | Some prev \<Rightarrow> required_route_indexes_for_row plan ty prev)))))"

section \<open>Appending\<close>

definition put_sync_tail_index_entry :: "'t mdbx \<Rightarrow> 't \<Rightarrow> string \<Rightarrow> nat \<Rightarrow> 't result" where
  "put_sync_tail_index_entry M t index_key global_op_id =
     t_put M t (sync_tail_index_entry_key index_key global_op_id) (be_bytes 8 global_op_id)"

definition persist_sync_tail_index_entries ::
  "'t mdbx \<Rightarrow> 't \<Rightarrow> PersistedSyncTailOp \<Rightarrow> string list \<Rightarrow> 't result" where
  "persist_sync_tail_index_entries M t x index_keys =
     rfold (\<lambda>t index_key. put_sync_tail_index_entry M t index_key (so_op_id x)) t index_keys"

definition persist_sync_tail_index_entries_if_missing ::
  "'t mdbx \<Rightarrow> 't \<Rightarrow> PersistedSyncTailOp \<Rightarrow> RustExecutionPlan \<Rightarrow> 't result" where
  "persist_sync_tail_index_entries_if_missing M t x plan =
     rfold (\<lambda>t index_key. put_sync_tail_index_entry M t index_key (so_op_id x)) t
       (sync_tail_index_keys_for_op x plan)"

definition persisted_op :: "nat \<Rightarrow> DerivedSyncTailOp \<Rightarrow> PersistedSyncTailOp" where
  "persisted_op n d =
     \<lparr> so_op_id = n, so_operation = ds_operation d, so_object_type = ds_object_type d,
       so_object_id = ds_object_id d, so_route_fields = ds_route_fields d, so_data_json = ds_data_json d,
       so_previous_route_fields = ds_previous_route_fields d,
       so_previous_data_json = ds_previous_data_json d \<rparr>"

definition append_tail_op ::
  "crates \<Rightarrow> 't mdbx \<Rightarrow> 't \<Rightarrow> PersistedSyncTailOp \<Rightarrow> RustExecutionPlan \<Rightarrow> 't result" where
  "append_tail_op C M t x plan =
     (let index_keys = sync_tail_index_keys_for_op x plan in
      rbind (ok_or (CorruptBatch ''serialize sync tail op'') (cr_op_to_vec C x)) (\<lambda>bs.
      rbind (t_put M t (sync_tail_op_key (so_op_id x)) bs) (\<lambda>t.
      rbind (persist_sync_tail_index_entries M t x index_keys) (\<lambda>t.
      rbind (ok_or (CorruptBatch ''serialize sync tail index references'') (cr_names_to_vec C index_keys)) (\<lambda>bs.
        t_put M t (sync_tail_refs_key (so_op_id x)) bs)))))"

fun append_tail_ops ::
  "crates \<Rightarrow> 't mdbx \<Rightarrow> RustExecutionPlan \<Rightarrow> 't \<Rightarrow> nat \<Rightarrow> PersistedCheckpointAccumulator btree \<Rightarrow>
   DerivedSyncTailOp list \<Rightarrow> ('t \<times> nat \<times> PersistedCheckpointAccumulator btree) result" where
  "append_tail_ops C M plan t last_op_id deltas [] = Inr (t, last_op_id, deltas)"
| "append_tail_ops C M plan t last_op_id deltas (d # ds) =
     (let last_op_id = (last_op_id + 1) mod u64_limit; persisted = persisted_op last_op_id d in
      rbind (append_tail_op C M t persisted plan) (\<lambda>t.
      rbind (collect_checkpoint_accumulator_deltas_for_op C deltas persisted plan) (\<lambda>deltas.
        append_tail_ops C M plan t last_op_id deltas ds)))"

definition persist_task_tail_ops ::
  "crates \<Rightarrow> 't mdbx \<Rightarrow> 't \<Rightarrow> DerivedSyncTailOp list \<Rightarrow> RustExecutionPlan \<Rightarrow> 't result" where
  "persist_task_tail_ops C M t derived_ops plan =
     rbind (materialize_sync_state_ops C M t derived_ops plan) (\<lambda>(t, derived_ops).
     if derived_ops = [] then Inr t
     else
       rbind (read_u64_or M t META_SYNC_TAIL_LAST_OP_ID_KEY ''sync tail last op id'' 0) (\<lambda>last_op_id.
       rbind (append_tail_ops C M plan t last_op_id [] derived_ops) (\<lambda>(t, last_op_id, deltas).
       rbind (t_put M t META_SYNC_TAIL_LAST_OP_ID_KEY (decimal last_op_id)) (\<lambda>t.
       rbind (t_put M t META_SYNC_TAIL_INDEXED_THROUGH_OP_ID_KEY (decimal last_op_id)) (\<lambda>t.
         persist_checkpoint_accumulator_deltas M t deltas)))))"

section \<open>Snapshot rows without tail records\<close>

definition advance_sync_tail_snapshot_floor :: "'t mdbx \<Rightarrow> 't \<Rightarrow> nat \<Rightarrow> 't result" where
  "advance_sync_tail_snapshot_floor M t snapshot_op_count =
     (if snapshot_op_count = 0 then Inr t
      else
        rbind (read_u64_or M t META_SYNC_TAIL_LAST_OP_ID_KEY ''sync tail last op id'' 0) (\<lambda>current_floor.
        if current_floor + snapshot_op_count < u64_limit then
          rbind (t_put M t META_SYNC_TAIL_LAST_OP_ID_KEY (decimal (current_floor + snapshot_op_count))) (\<lambda>t.
            t_put M t META_SYNC_TAIL_INDEXED_THROUGH_OP_ID_KEY (decimal (current_floor + snapshot_op_count)))
        else Inl (CorruptBatch ''snapshot cursor floor overflow'')))"

fun apply_snapshot_ops ::
  "crates \<Rightarrow> 't mdbx \<Rightarrow> RustExecutionPlan \<Rightarrow> 't \<Rightarrow> nat \<Rightarrow> DerivedSyncTailOp list \<Rightarrow> ('t \<times> nat) result" where
  "apply_snapshot_ops C M plan t n [] = Inr (t, n)"
| "apply_snapshot_ops C M plan t n (d # ds) =
     rbind (materialize_sync_state_op C M t d) (\<lambda>m.
     rbind (apply_materialized_sync_state_op C M t m plan) (\<lambda>t.
     if ds_operation m \<noteq> Put then apply_snapshot_ops C M plan t n ds
     else if n + 1 < u64_limit then apply_snapshot_ops C M plan t (n + 1) ds
     else Inl (CorruptBatch ''snapshot cursor floor overflow'')))"

definition persist_snapshot_current_ops_without_tail ::
  "crates \<Rightarrow> 't mdbx \<Rightarrow> 't \<Rightarrow> DerivedSyncTailOp list \<Rightarrow> RustExecutionPlan \<Rightarrow> 't result" where
  "persist_snapshot_current_ops_without_tail C M t derived_ops plan =
     (if derived_ops = [] then Inr t
      else rbind (apply_snapshot_ops C M plan t 0 derived_ops) (\<lambda>(t, n).
             advance_sync_tail_snapshot_floor M t n))"

section \<open>Pruning\<close>

definition prune_tail_op :: "crates \<Rightarrow> 't mdbx \<Rightarrow> 't \<Rightarrow> nat \<Rightarrow> 't result" where
  "prune_tail_op C M t n =
     rbind (t_get M t (sync_tail_refs_key n)) (\<lambda>refs.
     rbind (case refs of
              None \<Rightarrow> Inr t
            | Some bs \<Rightarrow>
                rbind (ok_or (CorruptBatch ''sync tail index references are invalid'')
                         (cr_names_from_slice C bs)) (\<lambda>index_keys.
                  rfold (\<lambda>t index_key. t_del M t (sync_tail_index_entry_key index_key n)) t index_keys)) (\<lambda>t.
     rbind (t_del M t (sync_tail_refs_key n)) (\<lambda>t.
       t_del M t (sync_tail_op_key n))))"

definition sat_add :: "nat \<Rightarrow> nat \<Rightarrow> nat" where
  "sat_add a b = min (a + b) (u64_limit - 1)"

text \<open>
  The chunk loop. The code computes the chunk end as \<open>desired_floor.min(chunk_start.saturating_add(..))\<close>;
  the saturation never shows under the minimum (\<open>min_sat_add\<close>).
\<close>

lemma min_sat_add: "desired < u64_limit \<Longrightarrow> min desired (sat_add a b) = min desired (a + b)"
  by (simp add: sat_add_def min_def)

function prune_chunks :: "crates \<Rightarrow> 't mdbx \<Rightarrow> nat \<Rightarrow> nat \<Rightarrow> nat \<Rightarrow> 't \<Rightarrow> 't result" where
  "prune_chunks C M delete_chunk_ops desired_floor chunk_start t =
     (if chunk_start \<le> desired_floor then
        (let chunk_end = min desired_floor (chunk_start + (delete_chunk_ops - 1)) in
         rbind (rfold (prune_tail_op C M) t [chunk_start..<chunk_end + 1]) (\<lambda>t.
           if chunk_end = desired_floor then Inr t
           else prune_chunks C M delete_chunk_ops desired_floor (chunk_end + 1) t))
      else Inr t)"
  by pat_completeness auto

termination prune_chunks
  by (relation "measure (\<lambda>(C, M, n, d, c, t). d + 1 - c)") (auto simp: min_def split: if_splits)

declare prune_chunks.simps [simp del]

definition prune_sync_tail :: "crates \<Rightarrow> 't mdbx \<Rightarrow> 't \<Rightarrow> nat \<Rightarrow> nat \<Rightarrow> 't result" where
  "prune_sync_tail C M t retain_ops delete_chunk_ops =
     rbind (read_u64_or M t META_SYNC_TAIL_LAST_OP_ID_KEY ''sync tail last op id'' 0) (\<lambda>last_op_id.
     rbind (read_u64_or M t META_SYNC_TAIL_RETAINED_FLOOR_KEY ''sync tail retained floor'' 0) (\<lambda>retained_floor.
     rbind (read_u64_or M t META_INITIAL_SNAPSHOT_CURSOR_FLOOR_KEY ''initial snapshot cursor floor'' 0) (\<lambda>snapshot_floor.
     let desired_floor = last_op_id - retain_ops in
     if desired_floor \<le> retained_floor then Inr t
     else
       rbind (if desired_floor > snapshot_floor
              then prune_chunks C M (max delete_chunk_ops 1) desired_floor
                     (max (retained_floor + 1) (snapshot_floor + 1)) t
              else Inr t) (\<lambda>t.
         t_put M t META_SYNC_TAIL_RETAINED_FLOOR_KEY (decimal desired_floor)))))"

section \<open>Scanning an index\<close>

text \<open>
  The items are those the cursor yields up to where the scan stops. A failure of the cursor in the middle is the error of
  the call that opens it: the visits write nothing, so the scan ends with that error either way.
\<close>

fun visit_items ::
  "(nat \<Rightarrow> 's \<Rightarrow> ('s \<times> bool) result) \<Rightarrow> bytes \<Rightarrow> nat \<Rightarrow> (bytes \<times> bytes) list \<Rightarrow> 's \<Rightarrow> ('s \<times> bool) result" where
  "visit_items visit prefix last_id [] s = Inr (s, True)"
| "visit_items visit prefix last_id ((key, value) # items) s =
     (if \<not> starts_with prefix key then Inr (s, True)
      else case sync_tail_global_op_id_from_key key prefix of
        None \<Rightarrow> visit_items visit prefix last_id items s
      | Some n \<Rightarrow>
          if n > last_id then Inr (s, True)
          else
            rbind (parse_be_u64 value ''sync tail index entry'') (\<lambda>stored.
            if stored \<noteq> n then Inl (CorruptBatch ''sync tail index entry key points at another op'')
            else
              rbind (visit n s) (\<lambda>(s, continue).
                if continue then visit_items visit prefix last_id items s else Inr (s, False))))"

definition visit_sync_tail_index_entries ::
  "'t mdbx \<Rightarrow> 't \<Rightarrow> string \<Rightarrow> nat \<Rightarrow> nat \<Rightarrow> (nat \<Rightarrow> 's \<Rightarrow> ('s \<times> bool) result) \<Rightarrow> 's \<Rightarrow> ('s \<times> bool) result" where
  "visit_sync_tail_index_entries M t index_key first_id last_id visit s =
     (if first_id > last_id then Inr (s, True)
      else
        rbind (t_iter_from M t (sync_tail_index_entry_key index_key first_id)) (\<lambda>items.
          visit_items visit (sync_tail_index_entry_prefix index_key) last_id items s))"

definition scan_sync_tail_index_entries ::
  "'t mdbx \<Rightarrow> 't \<Rightarrow> string \<Rightarrow> nat \<Rightarrow> nat \<Rightarrow> nat list \<Rightarrow> nat list result" where
  "scan_sync_tail_index_entries M t index_key first_id last_id ids =
     rbind (visit_sync_tail_index_entries M t index_key first_id last_id (\<lambda>n ids. Inr (ids @ [n], True)) ids)
       (\<lambda>(ids, _). Inr ids)"

definition scan_sync_tail_index_entries_bounded ::
  "'t mdbx \<Rightarrow> 't \<Rightarrow> string \<Rightarrow> nat \<Rightarrow> nat \<Rightarrow> nat list \<times> nat \<Rightarrow> ((nat list \<times> nat) \<times> bool) result" where
  "scan_sync_tail_index_entries_bounded M t index_key first_id last_id s =
     visit_sync_tail_index_entries M t index_key first_id last_id (\<lambda>n (ids, remaining).
       if remaining = 0 then Inr ((ids, remaining), False)
       else Inr ((insort_insert n ids, remaining - 1), True)) s"

definition read_sync_tail_op :: "crates \<Rightarrow> 't mdbx \<Rightarrow> 't \<Rightarrow> nat \<Rightarrow> PersistedSyncTailOp result" where
  "read_sync_tail_op C M t n =
     rbind (t_get M t (sync_tail_op_key n)) (\<lambda>bs.
     rbind (ok_or (CorruptBatch ''sync tail index points at missing op'') bs) (\<lambda>bytes.
       ok_or (CorruptBatch ''sync tail op is not valid JSON'') (cr_op_from_slice C bytes)))"

definition read_sync_tail_op_bounded ::
  "crates \<Rightarrow> 't mdbx \<Rightarrow> 't \<Rightarrow> nat \<Rightarrow> nat \<Rightarrow> (PersistedSyncTailOp \<times> nat) result" where
  "read_sync_tail_op_bounded C M t n remaining_bytes =
     rbind (t_get M t (sync_tail_op_key n)) (\<lambda>bs.
     rbind (ok_or (CorruptBatch ''sync tail index points at missing op'') bs) (\<lambda>bytes.
     if length bytes > remaining_bytes
     then Inl (ResourceLimit ''serialized sync tail op exceeds the per-request budget'')
     else
       rbind (ok_or (CorruptBatch ''sync tail op is not valid JSON'') (cr_op_from_slice C bytes)) (\<lambda>x.
         Inr (x, remaining_bytes - length bytes))))"

end
