(* ===== verification/Tail_Invariant.thy ===== *)
theory Tail_Invariant
  imports Tail_Log
begin

text \<open>
  The invariant of the tail log and its preservation. The abstract state maps each retained
  operation id to its operation; the table holds exactly the encoded operations, their reference
  lists and their index entries. Appending extends the map, pruning restricts it, and an index scan
  returns exactly the ids of the operations the index covers, in increasing order.
\<close>

type_synonym tail = "nat \<rightharpoonup> PersistedSyncTailOp"

locale ingest_store = mdbx_table M view + serde_codecs C
  for M :: "'t mdbx" and view :: "'t \<Rightarrow> kv" and C :: crates

interpretation ref_store: ingest_store alist_mdbx map_of ref_crates
  by unfold_locales

section \<open>Entries\<close>

definition op_entry :: "crates \<Rightarrow> nat \<Rightarrow> PersistedSyncTailOp \<Rightarrow> (bytes \<times> bytes) set" where
  "op_entry C n x = {(sync_tail_op_key n, the (cr_op_to_vec C x))}"

definition ref_entry ::
  "crates \<Rightarrow> RustExecutionPlan \<Rightarrow> nat \<Rightarrow> PersistedSyncTailOp \<Rightarrow> (bytes \<times> bytes) set" where
  "ref_entry C plan n x =
     {(sync_tail_refs_key n, the (cr_names_to_vec C (sync_tail_index_keys_for_op x plan)))}"

definition index_entry ::
  "RustExecutionPlan \<Rightarrow> nat \<Rightarrow> PersistedSyncTailOp \<Rightarrow> (bytes \<times> bytes) set" where
  "index_entry plan n x =
     (\<lambda>name. (sync_tail_index_entry_key name n, be_bytes 8 n)) ` set (sync_tail_index_keys_for_op x plan)"

definition tail_op_ok :: "crates \<Rightarrow> RustExecutionPlan \<Rightarrow> nat \<Rightarrow> PersistedSyncTailOp \<Rightarrow> bool" where
  "tail_op_ok C plan n x \<longleftrightarrow>
     n < u64_limit \<and> so_op_id x = n \<and> cr_op_to_vec C x \<noteq> None \<and>
     cr_names_to_vec C (sync_tail_index_keys_for_op x plan) \<noteq> None"

definition tail_inv :: "crates \<Rightarrow> RustExecutionPlan \<Rightarrow> tail \<Rightarrow> kv \<Rightarrow> bool" where
  "tail_inv C plan L kv \<longleftrightarrow>
     (\<forall>n x. L n = Some x \<longrightarrow> tail_op_ok C plan n x) \<and>
     space_entries Tail_Op kv = (\<Union>(n, x) \<in> Map.graph L. op_entry C n x) \<and>
     space_entries Tail_Refs kv = (\<Union>(n, x) \<in> Map.graph L. ref_entry C plan n x) \<and>
     space_entries Tail_Index kv = (\<Union>(n, x) \<in> Map.graph L. index_entry plan n x)"

lemmas entry_defs = op_entry_def ref_entry_def index_entry_def

lemma tail_inv_cong:
  assumes "\<And>k. key_space_of k \<in> {Some Tail_Op, Some Tail_Refs, Some Tail_Index} \<Longrightarrow> kv' k = kv k"
    and "tail_inv C plan L kv"
  shows "tail_inv C plan L kv'"
  using assms space_entries_cong [of Tail_Op kv' kv] space_entries_cong [of Tail_Refs kv' kv]
    space_entries_cong [of Tail_Index kv' kv]
  by (simp add: tail_inv_def)

lemma restrict_dom_subset: "dom m \<subseteq> A \<Longrightarrow> m |` A = m"
  by (rule ext) (metis domIff restrict_map_def subsetD)

section \<open>Counters\<close>

definition counter_of :: "kv \<Rightarrow> bytes \<Rightarrow> nat" where
  "counter_of kv key =
     (case kv key of None \<Rightarrow> 0 | Some bs \<Rightarrow> (case parse_u64 bs of None \<Rightarrow> 0 | Some n \<Rightarrow> n))"

lemma counter_of_bound: "counter_of kv key < u64_limit"
  by (auto simp: counter_of_def dest: parse_radix_bound split: option.splits)

lemma counter_of_upd:
  "n < u64_limit \<Longrightarrow> counter_of (kv(k \<mapsto> decimal n)) k' = (if k' = k then n else counter_of kv k')"
  by (simp add: counter_of_def parse_decimal)

lemma counter_of_cong: "kv' k = kv k \<Longrightarrow> counter_of kv' k = counter_of kv k"
  by (simp add: counter_of_def)

context mdbx_table
begin

lemma read_u64_or_view: "read_u64_or M t key label 0 = Inr n \<Longrightarrow> n = counter_of (view t) key"
  by (auto simp: read_u64_or_def read_optional_u64_def parse_decimal_u64_def counter_of_def
      dest!: t_get_view elim!: rbindE split: option.splits if_splits)

end

section \<open>Appending and pruning one operation\<close>

context ingest_store
begin

lemma append_tail_op_step:
  assumes "append_tail_op C M t x plan = Inr t'" and "tail_inv C plan L (view t)"
    and "so_op_id x < u64_limit" and "L (so_op_id x) = None"
  shows "tail_inv C plan (L(so_op_id x \<mapsto> x)) (view t')"
    and "\<And>k. key_space_of k \<notin> {Some Tail_Op, Some Tail_Refs, Some Tail_Index} \<Longrightarrow> view t' k = view t k"
proof -
  let ?n = "so_op_id x" and ?names = "sync_tail_index_keys_for_op x plan"
  let ?ok = "sync_tail_op_key ?n" and ?rk = "sync_tail_refs_key ?n"
  let ?iks = "(\<lambda>name. sync_tail_index_entry_key name ?n) ` set ?names"
  from assms(1) obtain ob rb t1 t2 where ob: "cr_op_to_vec C x = Some ob" and rb: "cr_names_to_vec C ?names = Some rb"
    and s1: "t_put M t ?ok ob = Inr t1" and s2: "persist_sync_tail_index_entries M t1 x ?names = Inr t2"
    and s3: "t_put M t2 ?rk rb = Inr t'"
    by (auto simp: append_tail_op_def Let_def elim!: rbindE)
  have v2: "view t2 = (\<lambda>k. if k \<in> ?iks then Some (be_bytes 8 ?n) else view t1 k)"
    using rfold_put_view [OF s2 [unfolded persist_sync_tail_index_entries_def put_sync_tail_index_entry_def]] .
  have v: "view t' = (\<lambda>k. if k = ?rk then Some rb else if k \<in> ?iks then Some (be_bytes 8 ?n)
      else if k = ?ok then Some ob else view t k)"
    using t_put_view [OF s1] t_put_view [OF s3] by (auto simp: v2 fun_eq_iff)
  have ik: "k \<in> ?iks \<Longrightarrow> key_space_of k = Some Tail_Index" for k by auto
  have ok: "key_space_of ?ok = Some Tail_Op" and rk: "key_space_of ?rk = Some Tail_Refs" by simp_all
  have old: "tail_op_ok C plan n y" if "L n = Some y" for n y using that assms(2) by (simp add: tail_inv_def)
  have L: "Map.graph (L(?n \<mapsto> x)) = insert (?n, x) (Map.graph L)"
    using assms(4) by (simp add: fun_upd_idem)
  have ne: "n < u64_limit \<and> n \<noteq> ?n" if "L n = Some y" for n y
    using old [OF that] that assms(4) by (auto simp: tail_op_ok_def)
  have fresh: "e \<in> (\<Union>(n, y) \<in> Map.graph L. op_entry C n y) \<Longrightarrow> fst e \<noteq> ?ok"
    "e \<in> (\<Union>(n, y) \<in> Map.graph L. ref_entry C plan n y) \<Longrightarrow> fst e \<noteq> ?rk"
    "e \<in> (\<Union>(n, y) \<in> Map.graph L. index_entry plan n y) \<Longrightarrow> fst e \<notin> ?iks" for e
    unfolding UN_graph_iff using ne assms(3)
    by (auto simp: entry_defs sync_tail_op_key_inj sync_tail_refs_key_inj sync_tail_index_entry_key_inj)
  have op: "space_entries Tail_Op (view t') = insert (?ok, ob) {e \<in> space_entries Tail_Op (view t). fst e \<noteq> ?ok}"
    using ik ok rk by (auto simp: space_entries_def v split: if_splits)
  have rf: "space_entries Tail_Refs (view t') = insert (?rk, rb) {e \<in> space_entries Tail_Refs (view t). fst e \<noteq> ?rk}"
    using ik ok rk by (auto simp: space_entries_def v split: if_splits)
  have ix: "space_entries Tail_Index (view t')
      = (\<lambda>name. (sync_tail_index_entry_key name ?n, be_bytes 8 ?n)) ` set ?names
        \<union> {e \<in> space_entries Tail_Index (view t). fst e \<notin> ?iks}"
    using ok rk by (auto simp: space_entries_def v split: if_splits)
  have "tail_op_ok C plan ?n x" using ob rb assms(3) by (simp add: tail_op_ok_def)
  moreover have "space_entries Tail_Op (view t') = insert (?ok, ob) (\<Union>(n, y) \<in> Map.graph L. op_entry C n y)"
    unfolding op using assms(2) fresh(1) by (auto simp: tail_inv_def simp del: UN_iff)
  moreover have "space_entries Tail_Refs (view t') = insert (?rk, rb) (\<Union>(n, y) \<in> Map.graph L. ref_entry C plan n y)"
    unfolding rf using assms(2) fresh(2) by (auto simp: tail_inv_def simp del: UN_iff)
  moreover have "space_entries Tail_Index (view t') = index_entry plan ?n x \<union> (\<Union>(n, y) \<in> Map.graph L. index_entry plan n y)"
    unfolding ix index_entry_def [of plan ?n x] using assms(2) fresh(3) by (auto simp: tail_inv_def simp del: UN_iff)
  ultimately show "tail_inv C plan (L(?n \<mapsto> x)) (view t')"
    unfolding tail_inv_def L using old
    by (simp add: op_entry_def [of C ?n x] ref_entry_def [of C plan ?n x] ob rb)
  show "\<And>k. key_space_of k \<notin> {Some Tail_Op, Some Tail_Refs, Some Tail_Index} \<Longrightarrow> view t' k = view t k"
    using ik by (auto simp: v)
qed

lemma prune_tail_op_step:
  assumes "prune_tail_op C M t n = Inr t'" and "tail_inv C plan L (view t)" and "n < u64_limit"
  shows "tail_inv C plan (L(n := None)) (view t')"
    and "\<And>k. key_space_of k \<notin> {Some Tail_Op, Some Tail_Refs, Some Tail_Index} \<Longrightarrow> view t' k = view t k"
proof -
  let ?ok = "sync_tail_op_key n" and ?rk = "sync_tail_refs_key n"
  have inv: "\<And>m x. L m = Some x \<Longrightarrow> tail_op_ok C plan m x"
    "space_entries Tail_Op (view t) = (\<Union>(n, x) \<in> Map.graph L. op_entry C n x)"
    "space_entries Tail_Refs (view t) = (\<Union>(n, x) \<in> Map.graph L. ref_entry C plan n x)"
    "space_entries Tail_Index (view t) = (\<Union>(n, x) \<in> Map.graph L. index_entry plan n x)"
    using assms(2) by (simp_all add: tail_inv_def)
  define names where "names = (case L n of None \<Rightarrow> [] | Some x \<Rightarrow> sync_tail_index_keys_for_op x plan)"
  let ?iks = "(\<lambda>name. sync_tail_index_entry_key name n) ` set names"
  from assms(1) obtain refs t1 t2 where g: "t_get M t ?rk = Inr refs"
    and s1: "(case refs of None \<Rightarrow> Inr t | Some bs \<Rightarrow>
                rbind (ok_or (CorruptBatch ''sync tail index references are invalid'')
                         (cr_names_from_slice C bs)) (\<lambda>index_keys.
                  rfold (\<lambda>t index_key. t_del M t (sync_tail_index_entry_key index_key n)) t index_keys)) = Inr t1"
    and s2: "t_del M t1 ?rk = Inr t2" and s3: "t_del M t2 ?ok = Inr t'"
    by (auto simp: prune_tail_op_def elim!: rbindE)
  have v1: "view t1 = (\<lambda>k. if k \<in> ?iks then None else view t k)"
  proof (cases "L n")
    case None
    have "view t ?rk = None"
    proof (rule ccontr)
      assume "view t ?rk \<noteq> None"
      then obtain v where "(?rk, v) \<in> space_entries Tail_Refs (view t)" by (auto simp: space_entries_def)
      then obtain m x where "L m = Some x" "?rk = sync_tail_refs_key m"
        unfolding inv(3) UN_graph_iff by (auto simp: ref_entry_def)
      then show False using inv(1) assms(3) None by (auto simp: tail_op_ok_def sync_tail_refs_key_inj)
    qed
    with g s1 None show ?thesis by (auto simp: names_def dest!: t_get_view)
  next
    case (Some x)
    have "(?rk, the (cr_names_to_vec C names)) \<in> space_entries Tail_Refs (view t)"
      unfolding inv(3) UN_graph_iff using Some by (auto simp: ref_entry_def names_def)
    then have "view t ?rk = Some (the (cr_names_to_vec C names))" by (simp add: space_entries_def)
    moreover have "cr_names_to_vec C names \<noteq> None"
      using inv(1) [OF Some] Some by (simp add: names_def tail_op_ok_def)
    ultimately have "rfold (\<lambda>t index_key. t_del M t (sync_tail_index_entry_key index_key n)) t names = Inr t1"
      using g s1 names_codec by (auto dest!: t_get_view)
    from rfold_del_view [OF this] show ?thesis .
  qed
  have v: "view t' = (\<lambda>k. if k \<in> insert ?ok (insert ?rk ?iks) then None else view t k)"
    using t_del_view [OF s2] t_del_view [OF s3] by (auto simp: v1 fun_eq_iff)
  have cut: "space_entries sp (view t') = {e \<in> space_entries sp (view t). fst e \<notin> insert ?ok (insert ?rk ?iks)}" for sp
    by (auto simp: space_entries_def v split: if_splits)
  have own: "L m = Some x \<Longrightarrow> e \<in> op_entry C m x \<union> ref_entry C plan m x \<union> index_entry plan m x \<Longrightarrow>
      fst e \<in> insert ?ok (insert ?rk ?iks) \<longleftrightarrow> m = n" for m x e
    using inv(1) [of m x] assms(3)
    by (auto simp: entry_defs tail_op_ok_def names_def sync_tail_op_key_inj sync_tail_refs_key_inj
        sync_tail_index_entry_key_inj)
  have "space_entries Tail_Op (view t') = (\<Union>(m, x) \<in> Map.graph (L(n := None)). op_entry C m x)"
    "space_entries Tail_Refs (view t') = (\<Union>(m, x) \<in> Map.graph (L(n := None)). ref_entry C plan m x)"
    "space_entries Tail_Index (view t') = (\<Union>(m, x) \<in> Map.graph (L(n := None)). index_entry plan m x)"
    unfolding cut inv(2-4)
    by (rule UN_graph_remove [symmetric], rule own, assumption, blast)+
  then show "tail_inv C plan (L(n := None)) (view t')"
    using inv(1) by (simp add: tail_inv_def)
  show "\<And>k. key_space_of k \<notin> {Some Tail_Op, Some Tail_Refs, Some Tail_Index} \<Longrightarrow> view t' k = view t k"
    by (auto simp: v)
qed

section \<open>Pruning\<close>

lemma prune_range_step:
  "rfold (prune_tail_op C M) t ns = Inr t' \<Longrightarrow> tail_inv C plan L (view t) \<Longrightarrow> \<forall>n \<in> set ns. n < u64_limit \<Longrightarrow>
   tail_inv C plan (L |` (- set ns)) (view t') \<and>
   (\<forall>k. key_space_of k \<notin> {Some Tail_Op, Some Tail_Refs, Some Tail_Index} \<longrightarrow> view t' k = view t k)"
proof (induction ns arbitrary: t L)
  case (Cons n ns)
  then obtain t1 where t1: "prune_tail_op C M t n = Inr t1" "rfold (prune_tail_op C M) t1 ns = Inr t'"
    by (auto elim: rbindE)
  have n: "n < u64_limit" "\<forall>n \<in> set ns. n < u64_limit" using Cons.prems(3) by simp_all
  note s = prune_tail_op_step [OF t1(1) Cons.prems(2) n(1)]
  have eq: "L(n := None) |` (- set ns) = L |` (- set (n # ns))"
    by (auto simp: restrict_map_def fun_eq_iff)
  from Cons.IH [OF t1(2) s(1) n(2)] s(2) show ?case unfolding eq by metis
qed (simp add: restrict_map_def)

lemma prune_chunks_step:
  "prune_chunks C M chunk desired start t = Inr t' \<Longrightarrow> tail_inv C plan L (view t) \<Longrightarrow>
   desired < u64_limit \<Longrightarrow>
   tail_inv C plan (L |` (- {start..desired})) (view t') \<and>
   (\<forall>k. key_space_of k \<notin> {Some Tail_Op, Some Tail_Refs, Some Tail_Index} \<longrightarrow> view t' k = view t k)"
proof (induction "desired + 1 - start" arbitrary: start t L rule: less_induct)
  case less
  show ?case
  proof (cases "start \<le> desired")
    case False
    then have "{start..desired} = {}" by simp
    with less.prems False show ?thesis by (simp add: prune_chunks.simps [of C M chunk] restrict_map_def)
  next
    case True
    let ?e = "min desired (start + (chunk - 1))"
    obtain t1 where
      t1: "rfold (prune_tail_op C M) t [start..<?e + 1] = Inr t1"
      and rest: "(if ?e = desired then Inr t1 else prune_chunks C M chunk desired (?e + 1) t1) = Inr t'"
      using less.prems(1) True unfolding prune_chunks.simps [of C M chunk desired start t] Let_def
      by (auto simp del: upt_Suc elim!: rbindE)
    have rng: "set [start..<?e + 1] = {start..?e}" by auto
    have "\<forall>n \<in> set [start..<?e + 1]. n < u64_limit" using less.prems(3) by auto
    note s = prune_range_step [OF t1 less.prems(2) this, unfolded rng]
    show ?thesis
    proof (cases "?e = desired")
      case True
      with s rest show ?thesis by simp
    next
      case False
      then have p: "prune_chunks C M chunk desired (?e + 1) t1 = Inr t'"
        using rest by (simp only: if_False)
      have "desired + 1 - (?e + 1) < desired + 1 - start" using True by auto
      note IH = less.hyps [OF this p s [THEN conjunct1] less.prems(3)]
      have "{start..desired} = {start..?e} \<union> {?e + 1..desired}" using True by auto
      then have eq: "L |` (- {start..?e}) |` (- {?e + 1..desired}) = L |` (- {start..desired})"
        by (simp add: restrict_restrict Compl_Un)
      from IH s show ?thesis unfolding eq by metis
    qed
  qed
qed

text \<open>
  Pruning keeps exactly the operations above the new floor, provided the synthetic ids of snapshot
  rows carry no records.
\<close>

lemma prune_sync_tail_spec:
  assumes "prune_sync_tail C M t retain chunk = Inr t'" and "tail_inv C plan L (view t)"
    and "\<And>n. n \<in> dom L \<Longrightarrow> counter_of (view t) META_INITIAL_SNAPSHOT_CURSOR_FLOOR_KEY < n
          \<and> counter_of (view t) META_SYNC_TAIL_RETAINED_FLOOR_KEY < n"
  defines "flr \<equiv> max (counter_of (view t) META_SYNC_TAIL_RETAINED_FLOOR_KEY)
                     (counter_of (view t) META_SYNC_TAIL_LAST_OP_ID_KEY - retain)"
  shows "tail_inv C plan (L |` {n. flr < n}) (view t')"
    and "counter_of (view t') META_SYNC_TAIL_RETAINED_FLOOR_KEY = flr"
    and "\<And>k. key_space_of k \<notin> {Some Tail_Op, Some Tail_Refs, Some Tail_Index} \<Longrightarrow>
           k \<noteq> META_SYNC_TAIL_RETAINED_FLOOR_KEY \<Longrightarrow> view t' k = view t k"
proof -
  let ?last = "counter_of (view t) META_SYNC_TAIL_LAST_OP_ID_KEY"
    and ?ret = "counter_of (view t) META_SYNC_TAIL_RETAINED_FLOOR_KEY"
    and ?snap = "counter_of (view t) META_INITIAL_SNAPSHOT_CURSOR_FLOOR_KEY"
  let ?des = "?last - retain"
  have des: "?des < u64_limit" using counter_of_bound [of "view t" META_SYNC_TAIL_LAST_OP_ID_KEY] by simp
  have "tail_inv C plan (L |` {n. flr < n}) (view t') \<and>
    counter_of (view t') META_SYNC_TAIL_RETAINED_FLOOR_KEY = flr \<and>
    (\<forall>k. key_space_of k \<notin> {Some Tail_Op, Some Tail_Refs, Some Tail_Index} \<longrightarrow>
       k \<noteq> META_SYNC_TAIL_RETAINED_FLOOR_KEY \<longrightarrow> view t' k = view t k)"
  proof (cases "?des \<le> ?ret")
    case True
    have t': "t' = t"
      using assms(1) True by (auto simp: prune_sync_tail_def Let_def dest!: read_u64_or_view elim!: rbindE split: if_splits)
    have "L |` {n. flr < n} = L"
      using True assms(3) by (intro restrict_dom_subset) (auto simp: flr_def)
    with t' assms(2) True show ?thesis by (simp add: flr_def max_def)
  next
    case False
    let ?start = "max (?ret + 1) (?snap + 1)"
    obtain t1 where p: "(if ?des > ?snap then prune_chunks C M (max chunk 1) ?des ?start t else Inr t) = Inr t1"
      and w: "t_put M t1 META_SYNC_TAIL_RETAINED_FLOOR_KEY (decimal ?des) = Inr t'"
      using assms(1) False
      by (auto simp: prune_sync_tail_def Let_def dest!: read_u64_or_view elim!: rbindE split: if_splits)
    have f: "flr = ?des" using False by (simp add: flr_def)
    have 1: "tail_inv C plan (L |` {n. flr < n}) (view t1) \<and>
      (\<forall>k. key_space_of k \<notin> {Some Tail_Op, Some Tail_Refs, Some Tail_Index} \<longrightarrow> view t1 k = view t k)"
    proof (cases "?des > ?snap")
      case True
      have eq: "L |` (- {?start..?des}) = L |` {n. flr < n}"
        using assms(3) f by (force simp: restrict_map_def fun_eq_iff domIff)
      show ?thesis using p True prune_chunks_step [OF _ assms(2) des, of "max chunk 1" ?start t1]
        unfolding eq by simp
    next
      case snap: False
      have "L |` {n. flr < n} = L"
        using assms(3) f snap by (intro restrict_dom_subset) force
      with p snap assms(2) show ?thesis by simp
    qed
    have v: "view t' = (view t1)(META_SYNC_TAIL_RETAINED_FLOOR_KEY \<mapsto> decimal ?des)" by (rule t_put_view [OF w])
    have "tail_inv C plan (L |` {n. flr < n}) (view t')"
      by (rule tail_inv_cong [OF _ 1 [THEN conjunct1]]) (auto simp: v)
    moreover have "counter_of (view t') META_SYNC_TAIL_RETAINED_FLOOR_KEY = flr"
      using des f by (simp add: v counter_of_upd)
    ultimately show ?thesis using 1 by (simp add: v)
  qed
  then show "tail_inv C plan (L |` {n. flr < n}) (view t')"
    and "counter_of (view t') META_SYNC_TAIL_RETAINED_FLOOR_KEY = flr"
    and "\<And>k. key_space_of k \<notin> {Some Tail_Op, Some Tail_Refs, Some Tail_Index} \<Longrightarrow>
           k \<noteq> META_SYNC_TAIL_RETAINED_FLOOR_KEY \<Longrightarrow> view t' k = view t k" by blast+
qed

end

section \<open>Appending a batch\<close>

fun number_ops :: "nat \<Rightarrow> DerivedSyncTailOp list \<Rightarrow> PersistedSyncTailOp list" where
  "number_ops last_op_id [] = []"
| "number_ops last_op_id (d # ds) = persisted_op (last_op_id + 1) d # number_ops (last_op_id + 1) ds"

definition log_append :: "tail \<Rightarrow> PersistedSyncTailOp list \<Rightarrow> tail" where
  "log_append L xs = foldl (\<lambda>L x. L(so_op_id x \<mapsto> x)) L xs"

lemma number_ops_ids: "map so_op_id (number_ops n ds) = [n + 1..<n + 1 + length ds]"
proof (induction ds arbitrary: n)
  case (Cons d ds)
  have "[n + 1..<n + 1 + length (d # ds)] = (n + 1) # [n + 1 + 1..<n + 1 + 1 + length ds]"
    by (simp add: upt_conv_Cons del: upt_Suc)
  with Cons [of "n + 1"] show ?case by (simp add: persisted_op_def del: upt_Suc)
qed simp

abbreviation same_outside_tail :: "kv \<Rightarrow> kv \<Rightarrow> bool" where
  "same_outside_tail kv kv' \<equiv>
     (\<forall>k. key_space_of k \<notin> {Some Tail_Op, Some Tail_Refs, Some Tail_Index} \<longrightarrow> kv' k = kv k)"

context ingest_store
begin

lemma append_tail_ops_step:
  "append_tail_ops C M plan t l deltas ds = Inr (t', l', deltas') \<Longrightarrow> tail_inv C plan L (view t) \<Longrightarrow>
   l + length ds < u64_limit \<Longrightarrow> \<forall>n \<in> dom L. n \<le> l \<Longrightarrow>
   l' = l + length ds \<and> tail_inv C plan (log_append L (number_ops l ds)) (view t') \<and>
   same_outside_tail (view t) (view t') \<and>
   adds_events deltas (concat (map (op_events C plan) (number_ops l ds))) deltas'"
proof (induction ds arbitrary: t l deltas L)
  case (Cons d ds)
  let ?x = "persisted_op (l + 1) d"
  have m: "(l + 1) mod u64_limit = l + 1" using Cons.prems(3) by simp
  from Cons.prems(1) obtain t1 deltas1 where
    s: "append_tail_op C M t ?x plan = Inr t1"
    "collect_checkpoint_accumulator_deltas_for_op C deltas ?x plan = Inr deltas1"
    "append_tail_ops C M plan t1 (l + 1) deltas1 ds = Inr (t', l', deltas')"
    unfolding append_tail_ops.simps Let_def m by (auto elim!: rbindE)
  have id: "so_op_id ?x = l + 1" by (simp add: persisted_op_def)
  have "L (l + 1) = None" using Cons.prems(4) by (force simp: dom_def)
  note a = append_tail_op_step [OF s(1) Cons.prems(2), unfolded id, OF _ this]
  have lim: "l + 1 < u64_limit" "l + 1 + length ds < u64_limit" using Cons.prems(3) by simp_all
  have "\<forall>n \<in> dom (L(l + 1 \<mapsto> ?x)). n \<le> l + 1" using Cons.prems(4) by (auto intro: le_SucI dest: domI)
  note IH = Cons.IH [OF s(3) a(1) [OF lim(1)] lim(2) this]
  have "adds_events deltas (op_events C plan ?x @ concat (map (op_events C plan) (number_ops (l + 1) ds))) deltas'"
    using collect_for_op_events [OF s(2)] IH by (blast intro: adds_events_trans)
  moreover have "log_append L (number_ops l (d # ds)) = log_append (L(l + 1 \<mapsto> ?x)) (number_ops (l + 1) ds)"
    by (simp add: log_append_def persisted_op_def)
  moreover have "l' = l + length (d # ds)" using IH by simp
  ultimately show ?case
    using IH a(2) [OF lim(1)] unfolding number_ops.simps list.map concat.simps by metis
qed (simp add: log_append_def)

lemma persist_task_tail_ops_spec:
  assumes "persist_task_tail_ops C M t xs plan = Inr t'"
    and "current_inv C plan D (view t)" and "tail_inv C plan L (view t)" and "ops_ok D xs"
  defines "l \<equiv> counter_of (view t) META_SYNC_TAIL_LAST_OP_ID_KEY"
  defines "log \<equiv> number_ops l (mat_specs D xs)"
  assumes "\<forall>n \<in> dom L. n \<le> l" and "l + length xs < u64_limit"
  shows "current_inv C plan (foldl abs_apply D xs) (view t')"
    and "tail_inv C plan (log_append L log) (view t')"
    and "counter_of (view t') META_SYNC_TAIL_LAST_OP_ID_KEY = l + length xs"
    and "\<And>K. acc_of (view t') (tail_checkpoint_accumulator_key K)
           = acc_plus (acc_of (view t) (tail_checkpoint_accumulator_key K))
               (contribution (concat (map (op_events C plan) log)) K)"
    and "counter_of (view t') META_SYNC_TAIL_INDEXED_THROUGH_OP_ID_KEY
           = (if xs = [] then counter_of (view t) META_SYNC_TAIL_INDEXED_THROUGH_OP_ID_KEY else l + length xs)"
    and "\<And>k. key_space_of k \<in> {Some Meta, Some Batch, Some Lookup_Row, Some Lookup_Index} \<Longrightarrow>
           k \<notin> {META_SYNC_TAIL_LAST_OP_ID_KEY, META_SYNC_TAIL_INDEXED_THROUGH_OP_ID_KEY} \<Longrightarrow> view t' k = view t k"
proof -
  let ?D = "foldl abs_apply D xs"
  obtain t1 ms where m: "materialize_sync_state_ops C M t xs plan = Inr (t1, ms)"
    and rest: "(if ms = [] then Inr t1 else
       rbind (read_u64_or M t1 META_SYNC_TAIL_LAST_OP_ID_KEY ''sync tail last op id'' 0) (\<lambda>last_op_id.
       rbind (append_tail_ops C M plan t1 last_op_id [] ms) (\<lambda>(t, last_op_id, deltas).
       rbind (t_put M t META_SYNC_TAIL_LAST_OP_ID_KEY (decimal last_op_id)) (\<lambda>t.
       rbind (t_put M t META_SYNC_TAIL_INDEXED_THROUGH_OP_ID_KEY (decimal last_op_id)) (\<lambda>t.
         persist_checkpoint_accumulator_deltas M t deltas))))) = Inr t'"
    using assms(1) by (auto simp: persist_task_tail_ops_def elim!: rbindE)
  note ms = materialize_sync_state_ops_spec [OF m assms(2,4)]
  have len: "length (mat_specs D xs) = length xs" by (induction xs arbitrary: D) simp_all
  have l1: "counter_of (view t1) META_SYNC_TAIL_LAST_OP_ID_KEY = l"
    using ms by (simp add: l_def counter_of_def)
  have tl1: "tail_inv C plan L (view t1)"
    by (rule tail_inv_cong [OF _ assms(3)]) (use ms in auto)
  have tk: "acc_of (view t1) (tail_checkpoint_accumulator_key K) = acc_of (view t) (tail_checkpoint_accumulator_key K)" for K
    using ms by (simp add: acc_of_def)
  have "current_inv C plan ?D (view t') \<and> tail_inv C plan (log_append L log) (view t') \<and>
    counter_of (view t') META_SYNC_TAIL_LAST_OP_ID_KEY = l + length xs \<and>
    (\<forall>K. acc_of (view t') (tail_checkpoint_accumulator_key K)
      = acc_plus (acc_of (view t) (tail_checkpoint_accumulator_key K))
          (contribution (concat (map (op_events C plan) log)) K)) \<and>
    counter_of (view t') META_SYNC_TAIL_INDEXED_THROUGH_OP_ID_KEY
      = (if xs = [] then counter_of (view t) META_SYNC_TAIL_INDEXED_THROUGH_OP_ID_KEY else l + length xs) \<and>
    (\<forall>k. key_space_of k \<in> {Some Meta, Some Batch, Some Lookup_Row, Some Lookup_Index} \<longrightarrow>
       k \<notin> {META_SYNC_TAIL_LAST_OP_ID_KEY, META_SYNC_TAIL_INDEXED_THROUGH_OP_ID_KEY} \<longrightarrow> view t' k = view t k)"
  proof (cases "ms = []")
    case True
    then have "xs = []" using ms len by (metis length_0_conv)
    moreover have "counter_of (view t1) META_SYNC_TAIL_INDEXED_THROUGH_OP_ID_KEY
        = counter_of (view t) META_SYNC_TAIL_INDEXED_THROUGH_OP_ID_KEY"
      using ms by (intro counter_of_cong) simp
    ultimately show ?thesis using True rest ms tl1 l1 tk by (auto simp: log_def log_append_def)
  next
    case False
    obtain t2 l2 deltas t3 t4 where
      a: "append_tail_ops C M plan t1 l [] ms = Inr (t2, l2, deltas)"
      and w: "t_put M t2 META_SYNC_TAIL_LAST_OP_ID_KEY (decimal l2) = Inr t3"
        "t_put M t3 META_SYNC_TAIL_INDEXED_THROUGH_OP_ID_KEY (decimal l2) = Inr t4"
      and p: "persist_checkpoint_accumulator_deltas M t4 deltas = Inr t'"
      using rest False l1 by (auto dest!: read_u64_or_view elim!: rbindE)
    have "l + length ms < u64_limit" using assms(8) ms len by simp
    note ap = append_tail_ops_step [OF a tl1 this assms(7)]
    have l2: "l2 = l + length xs" and lim: "l2 < u64_limit"
      using ap ms len assms(8) by simp_all
    have evs: "adds_events [] (concat (map (op_events C plan) log)) deltas"
      using ap ms by (simp add: log_def)
    then have srt: "bt_sorted deltas" by (simp add: adds_events_def bt_sorted_def)
    note q = persist_checkpoint_accumulator_deltas_view [OF p srt]
    have v4: "view t4 = (view t2)(META_SYNC_TAIL_LAST_OP_ID_KEY \<mapsto> decimal l2,
        META_SYNC_TAIL_INDEXED_THROUGH_OP_ID_KEY \<mapsto> decimal l2)"
      using t_put_view [OF w(1)] t_put_view [OF w(2)] by simp
    have d: "or_default acc_default deltas K = contribution (concat (map (op_events C plan) log)) K" for K
      using evs by (simp add: adds_events_def or_default_def acc_plus_def acc_default_def contribution_def)
    have cur: "current_inv C plan ?D (view t')"
      by (rule current_inv_cong [of _ "view t1"]) (use ms ap q(2) in \<open>auto simp: v4\<close>)
    have tl: "tail_inv C plan (log_append L log) (view t')"
      by (rule tail_inv_cong [of _ "view t2"]) (use ms ap q(2) in \<open>auto simp: v4 log_def\<close>)
    have "counter_of (view t') META_SYNC_TAIL_LAST_OP_ID_KEY = counter_of (view t4) META_SYNC_TAIL_LAST_OP_ID_KEY"
      using q(2) by (intro counter_of_cong) simp
    also have "\<dots> = l2" using lim by (simp add: v4 counter_of_def parse_decimal)
    finally have cnt: "counter_of (view t') META_SYNC_TAIL_LAST_OP_ID_KEY = l + length xs" using l2 by simp
    have "acc_of (view t4) (tail_checkpoint_accumulator_key K) = acc_of (view t1) (tail_checkpoint_accumulator_key K)" for K
      using ap key_space_neq [of "tail_checkpoint_accumulator_key K"] by (simp add: acc_of_def v4)
    then have acc: "\<forall>K. acc_of (view t') (tail_checkpoint_accumulator_key K)
      = acc_plus (acc_of (view t) (tail_checkpoint_accumulator_key K))
          (contribution (concat (map (op_events C plan) log)) K)"
      using q(1) tk d by simp
    have "counter_of (view t') META_SYNC_TAIL_INDEXED_THROUGH_OP_ID_KEY
        = counter_of (view t4) META_SYNC_TAIL_INDEXED_THROUGH_OP_ID_KEY"
      using q(2) by (intro counter_of_cong) simp
    also have "\<dots> = l2" using lim by (simp add: v4 counter_of_def parse_decimal)
    finally have ix: "counter_of (view t') META_SYNC_TAIL_INDEXED_THROUGH_OP_ID_KEY = l + length xs" using l2 by simp
    have fr: "view t' k = view t k"
      if "key_space_of k \<in> {Some Meta, Some Batch, Some Lookup_Row, Some Lookup_Index}"
        "k \<notin> {META_SYNC_TAIL_LAST_OP_ID_KEY, META_SYNC_TAIL_INDEXED_THROUGH_OP_ID_KEY}" for k
    proof -
      have "view t' k = view t4 k" using q(2) that(1) by (metis insertE key_space.distinct option.inject singletonD)
      also have "\<dots> = view t2 k" using that(2) by (simp add: v4)
      also have "\<dots> = view t1 k" using ap that(1) by auto
      also have "\<dots> = view t k" using ms that(1) by auto
      finally show ?thesis .
    qed
    have "xs \<noteq> []" using False ms by auto
    with acc cur tl cnt ix fr show ?thesis by auto
  qed
  then show "current_inv C plan ?D (view t')"
    and "tail_inv C plan (log_append L log) (view t')"
    and "counter_of (view t') META_SYNC_TAIL_LAST_OP_ID_KEY = l + length xs"
    and "\<And>K. acc_of (view t') (tail_checkpoint_accumulator_key K)
           = acc_plus (acc_of (view t) (tail_checkpoint_accumulator_key K))
               (contribution (concat (map (op_events C plan) log)) K)"
    and "counter_of (view t') META_SYNC_TAIL_INDEXED_THROUGH_OP_ID_KEY
           = (if xs = [] then counter_of (view t) META_SYNC_TAIL_INDEXED_THROUGH_OP_ID_KEY else l + length xs)"
    and "\<And>k. key_space_of k \<in> {Some Meta, Some Batch, Some Lookup_Row, Some Lookup_Index} \<Longrightarrow>
           k \<notin> {META_SYNC_TAIL_LAST_OP_ID_KEY, META_SYNC_TAIL_INDEXED_THROUGH_OP_ID_KEY} \<Longrightarrow> view t' k = view t k" by blast+
qed

end

section \<open>Scanning an index\<close>

fun visit_ids :: "(nat \<Rightarrow> 's \<Rightarrow> ('s \<times> bool) result) \<Rightarrow> nat list \<Rightarrow> 's \<Rightarrow> ('s \<times> bool) result" where
  "visit_ids visit [] s = Inr (s, True)"
| "visit_ids visit (n # ns) s =
     rbind (visit n s) (\<lambda>(s, continue). if continue then visit_ids visit ns s else Inr (s, False))"

text \<open>The ids an index covers.\<close>

definition covered :: "RustExecutionPlan \<Rightarrow> tail \<Rightarrow> string \<Rightarrow> nat set" where
  "covered plan L name = {n. \<exists>x. L n = Some x \<and> name \<in> set (sync_tail_index_keys_for_op x plan)}"

definition is_index_name :: "string \<Rightarrow> bool" where
  "is_index_name name \<longleftrightarrow> (\<exists>kind ty rc. name = sync_tail_index_name kind ty rc)"

lemma index_names_of_op: "name \<in> set (sync_tail_index_keys_for_op x plan) \<Longrightarrow> is_index_name name"
  by (auto simp: sync_tail_index_keys_for_op_def is_index_name_def
      sync_tail_object_index_name_def sync_tail_clear_index_name_def sync_tail_route_index_name_def
      split: option.splits PersistedSyncTailOperation.splits)

lemma index_entry_prefix_iff:
  assumes "is_index_name a" and "is_index_name b"
  shows "starts_with (sync_tail_index_entry_prefix a) (sync_tail_index_entry_key b n) \<longleftrightarrow> a = b"
  using assms sync_tail_index_name_append
  by (auto simp: starts_with_iff sync_tail_index_entry_prefix_def sync_tail_index_entry_key_def is_index_name_def)

lemma visit_items_ids:
  assumes "\<forall>n \<in> set ns. n < u64_limit" and "sorted_wrt (<) ns"
    and "case rest of [] \<Rightarrow> True | (k, v) # _ \<Rightarrow> \<not> starts_with (sync_tail_index_entry_prefix name) k"
  shows "visit_items visit (sync_tail_index_entry_prefix name) last_id
           (map (\<lambda>n. (sync_tail_index_entry_key name n, be_bytes 8 n)) ns @ rest) s
         = visit_ids visit (filter (\<lambda>n. n \<le> last_id) ns) s"
  using assms
proof (induction ns arbitrary: s)
  case Nil
  then show ?case by (cases rest) auto
next
  case (Cons n ns)
  have n: "n < u64_limit" using Cons.prems(1) by simp
  have id: "sync_tail_global_op_id_from_key (sync_tail_index_entry_key name n) (sync_tail_index_entry_prefix name) = Some n"
    by (rule sync_tail_global_op_id_from_key_inverse [OF n])
  have p: "parse_be_u64 (be_bytes 8 n) l = Inr n" for l using n by (simp add: parse_be_u64_def codec_simps)
  have sw: "starts_with (sync_tail_index_entry_prefix name) (sync_tail_index_entry_key name n)"
    by (simp add: sync_tail_index_entry_key_prefix_split)
  have IH: "visit_items visit (sync_tail_index_entry_prefix name) last_id
      (map (\<lambda>n. (sync_tail_index_entry_key name n, be_bytes 8 n)) ns @ rest) s
      = visit_ids visit (filter (\<lambda>n. n \<le> last_id) ns) s" for s
    using Cons by simp
  show ?case
  proof (cases "n \<le> last_id")
    case True
    with IH show ?thesis by (simp add: id p sw cong: if_cong)
  next
    case False
    then have "filter (\<lambda>n. n \<le> last_id) ns = []" using Cons.prems(2) by (auto simp: filter_empty_conv)
    with False show ?thesis by (simp add: id sw)
  qed
qed

context ingest_store
begin

lemma visit_index_spec:
  assumes "visit_sync_tail_index_entries M t name first_id last_id visit s = Inr r"
    and "tail_inv C plan L (view t)" and "is_index_name name" and "first_id < u64_limit"
  shows "\<exists>ns. sorted_wrt (<) ns \<and> set ns = {n \<in> covered plan L name. first_id \<le> n \<and> n \<le> last_id}
           \<and> visit_ids visit ns s = Inr r"
proof (cases "first_id > last_id")
  case True
  with assms(1) show ?thesis
    by (intro exI [of _ "[]"]) (auto simp: visit_sync_tail_index_entries_def)
next
  case False
  let ?p = "sync_tail_index_entry_prefix name" and ?e = "\<lambda>n. (sync_tail_index_entry_key name n, be_bytes 8 n)"
  let ?start = "sync_tail_index_entry_key name first_id"
  from assms(1) False obtain items where it: "t_iter_from M t ?start = Inr items"
    and vis: "visit_items visit ?p last_id items s = Inr r"
    by (auto simp: visit_sync_tail_index_entries_def elim: rbindE)
  note sc = t_iter_from_scan [OF it, unfolded is_scan_from_def]
  have ok: "L n = Some x \<Longrightarrow> n < u64_limit" for n x using assms(2) by (auto simp: tail_inv_def tail_op_ok_def)
  let ?N = "{n \<in> covered plan L name. first_id \<le> n}"
  define pre where "pre = takeWhile (\<lambda>(k, v). starts_with ?p k) items"
  have "\<forall>(k, v) \<in> set items. ?p \<le> k"
    using sc starts_with_ge [of ?p ?start] by (auto simp: sync_tail_index_entry_key_prefix_split)
  then have pre: "pre = filter (\<lambda>(k, v). starts_with ?p k) items"
    using sc takeWhile_prefix_filter [of items ?p] by (simp add: pre_def)
  have set_pre: "set pre = ?e ` ?N"
  proof -
    have "(k, v) \<in> set pre \<longleftrightarrow> (k, v) \<in> space_entries Tail_Index (view t) \<and> starts_with ?p k \<and> ?start \<le> k" for k v
      using sc key_space_starts_with(4) [of name k] by (auto simp: pre space_entries_def)
    then have "set pre = {(k, v). (k, v) \<in> space_entries Tail_Index (view t) \<and> starts_with ?p k \<and> ?start \<le> k}"
      by auto
    also have "\<dots> = ?e ` ?N"
    proof (intro equalityI subsetI)
      fix e assume "e \<in> {(k, v). (k, v) \<in> space_entries Tail_Index (view t) \<and> starts_with ?p k \<and> ?start \<le> k}"
      then obtain n x name' where e: "L n = Some x" "name' \<in> set (sync_tail_index_keys_for_op x plan)"
        "e = (sync_tail_index_entry_key name' n, be_bytes 8 n)" "starts_with ?p (fst e)" "?start \<le> fst e"
        using assms(2) by (auto simp: tail_inv_def index_entry_def in_graph_iff)
      then have "name' = name" using index_entry_prefix_iff [OF assms(3) index_names_of_op] by auto
      moreover have "first_id \<le> n"
        using e ok [OF e(1)] assms(4) sync_tail_index_entry_key_less [of n first_id name] calculation
        by (auto simp: not_less [symmetric])
      ultimately show "e \<in> ?e ` ?N" using e by (auto simp: covered_def)
    next
      fix e assume "e \<in> ?e ` ?N"
      then obtain n x where e: "L n = Some x" "name \<in> set (sync_tail_index_keys_for_op x plan)" "first_id \<le> n" "e = ?e n"
        by (auto simp: covered_def)
      moreover have "e \<in> space_entries Tail_Index (view t)"
      proof -
        have sp: "space_entries Tail_Index (view t) = (\<Union>(n, x) \<in> Map.graph L. index_entry plan n x)"
          using assms(2) by (simp add: tail_inv_def)
        have "e \<in> index_entry plan n x" using e by (simp add: index_entry_def)
        with e(1) show ?thesis unfolding sp UN_graph_iff by blast
      qed
      moreover have "?start \<le> sync_tail_index_entry_key name n"
        using sync_tail_index_entry_key_less [of n first_id name] ok [OF e(1)] assms(4) e(3)
        by (auto simp: not_less [symmetric])
      ultimately show "e \<in> {(k, v). (k, v) \<in> space_entries Tail_Index (view t) \<and> starts_with ?p k \<and> ?start \<le> k}"
        by (simp add: sync_tail_index_entry_key_prefix_split)
    qed
    finally show ?thesis .
  qed
  then obtain ns where ns: "pre = map ?e ns" "set ns \<subseteq> ?N" using subset_image_map [of pre ?e ?N] by auto
  have lim: "\<forall>n \<in> set ns. n < u64_limit" using ns(2) ok by (auto simp: covered_def)
  have "inj_on ?e ?N" using ok by (auto simp: inj_on_def covered_def sync_tail_index_entry_key_inj)
  moreover have "?e ` set ns = ?e ` ?N" using set_pre ns(1) by simp
  ultimately have setns: "set ns = ?N" using ns(2) by (meson inj_on_image_eq_iff order_refl)
  have "sorted_wrt (<) (map fst pre)" unfolding pre using sc by (simp add: sorted_filter_fst)
  then have "sorted_wrt (\<lambda>m n. sync_tail_index_entry_key name m < sync_tail_index_entry_key name n) ns"
    by (simp add: ns(1) sorted_wrt_map)
  then have srt: "sorted_wrt (<) ns"
    by (rule sorted_wrt_mono_rel [rotated]) (use lim sync_tail_index_entry_key_less in auto)
  define rest where "rest = dropWhile (\<lambda>(k, v). starts_with ?p k) items"
  have its: "items = map ?e ns @ rest" unfolding rest_def ns(1) [symmetric] pre_def by simp
  have "case rest of [] \<Rightarrow> True | (k, v) # _ \<Rightarrow> \<not> starts_with ?p k"
    by (auto simp: rest_def dropWhile_eq_Cons_conv split: list.splits)
  then have "visit_ids visit (filter (\<lambda>n. n \<le> last_id) ns) s = Inr r"
    using vis unfolding its by (subst (asm) visit_items_ids [OF lim srt])
  moreover have "sorted_wrt (<) (filter (\<lambda>n. n \<le> last_id) ns)" using srt by (rule sorted_wrt_filter)
  ultimately show ?thesis using setns by (intro exI [of _ "filter (\<lambda>n. n \<le> last_id) ns"]) auto
qed

lemma scan_index_spec:
  assumes "scan_sync_tail_index_entries M t name first_id last_id [] = Inr ids"
    and "tail_inv C plan L (view t)" and "is_index_name name" and "first_id < u64_limit"
  shows "sorted_wrt (<) ids" and "set ids = {n \<in> covered plan L name. first_id \<le> n \<and> n \<le> last_id}"
proof -
  from assms(1) obtain b where
    "visit_sync_tail_index_entries M t name first_id last_id (\<lambda>n ids. Inr (ids @ [n], True)) [] = Inr (ids, b)"
    by (auto simp: scan_sync_tail_index_entries_def elim!: rbindE)
  from visit_index_spec [OF this assms(2-4)] obtain ns where
    ns: "sorted_wrt (<) ns" "set ns = {n \<in> covered plan L name. first_id \<le> n \<and> n \<le> last_id}"
      "visit_ids (\<lambda>n ids. Inr (ids @ [n], True)) ns [] = Inr (ids, b)" by blast
  have "visit_ids (\<lambda>n ids. Inr (ids @ [n], True)) ns acc = Inr (acc @ ns, True)" for acc
    by (induction ns arbitrary: acc) simp_all
  with ns show "sorted_wrt (<) ids" "set ids = {n \<in> covered plan L name. first_id \<le> n \<and> n \<le> last_id}"
    by simp_all
qed

end

end
