(* ===== verification/Lookup_Invariant.thy ===== *)
theory Lookup_Invariant
  imports Lookup_State
begin

text \<open>
  The invariant of the parameter-lookup store. The abstract state maps (source table, row id) to the
  stored row document. Both key spaces are determined by it: one row entry per row, and one index
  entry per row and lookup of its table that the row satisfies. Lookup ids are digests of the lookup
  in the code; \<open>lookup_plan_ok\<close> states that they identify their lookup.
\<close>

type_synonym lookup_rows = "string \<times> string \<rightharpoonup> ParameterLookupRowDocument"

section \<open>Entries\<close>

definition indexed_as :: "ParameterLookupPlan \<Rightarrow> ParameterLookupRowDocument \<Rightarrow> (string list \<times> routes) option" where
  "indexed_as l doc =
     (if row_predicate_matches (row_predicate l) doc
      then (case (index_key_values l doc, index_payload l doc) of
              (Some ks, Some p) \<Rightarrow> Some (ks, p) | _ \<Rightarrow> None)
      else None)"

definition lookup_entry ::
  "crates \<Rightarrow> string \<Rightarrow> ParameterLookupRowDocument \<Rightarrow> ParameterLookupPlan \<Rightarrow> (bytes \<times> bytes) set" where
  "lookup_entry C i doc l =
     (case indexed_as l doc of
        None \<Rightarrow> {}
      | Some (ks, p) \<Rightarrow> {(parameter_lookup_index_key (lookup_id l) ks i, the (cr_payload_to_vec C p))})"

definition lookup_table_of :: "RustExecutionPlan \<Rightarrow> string \<Rightarrow> CompiledLookupTablePlan option" where
  "lookup_table_of plan s = map_of (lookup_tables_by_source plan) s"

definition lookups_of :: "RustExecutionPlan \<Rightarrow> string \<Rightarrow> ParameterLookupPlan list" where
  "lookups_of plan s = (case lookup_table_of plan s of None \<Rightarrow> [] | Some lt \<Rightarrow> lt_lookups lt)"

fun row_entry :: "crates \<Rightarrow> string \<times> string \<Rightarrow> ParameterLookupRowDocument \<Rightarrow> (bytes \<times> bytes) set" where
  "row_entry C (s, i) doc = {(parameter_lookup_row_key s i, the (cr_lookup_row_to_vec C doc))}"

fun row_index_entry ::
  "crates \<Rightarrow> RustExecutionPlan \<Rightarrow> string \<times> string \<Rightarrow> ParameterLookupRowDocument \<Rightarrow> (bytes \<times> bytes) set" where
  "row_index_entry C plan (s, i) doc = (\<Union>l \<in> set (lookups_of plan s). lookup_entry C i doc l)"

text \<open>Tables are registered under their own name, and a lookup id names one lookup of one table.\<close>

definition lookup_plan_ok :: "RustExecutionPlan \<Rightarrow> bool" where
  "lookup_plan_ok plan \<longleftrightarrow>
     (\<forall>(s, lt) \<in> set (lookup_tables_by_source plan). lt_source_table lt = s) \<and>
     distinct (map fst (lookup_tables_by_source plan)) \<and>
     distinct (concat (map (\<lambda>(s, lt). map lookup_id (lt_lookups lt)) (lookup_tables_by_source plan)))"

definition lookup_inv :: "crates \<Rightarrow> RustExecutionPlan \<Rightarrow> lookup_rows \<Rightarrow> kv \<Rightarrow> bool" where
  "lookup_inv C plan R kv \<longleftrightarrow>
     (\<forall>x doc. R x = Some doc \<longrightarrow> cr_lookup_row_to_vec C doc \<noteq> None \<and>
        (\<forall>l \<in> set (lookups_of plan (fst x)). \<forall>ks p. indexed_as l doc = Some (ks, p) \<longrightarrow> cr_payload_to_vec C p \<noteq> None)) \<and>
     space_entries Lookup_Row kv = (\<Union>(x, doc) \<in> Map.graph R. row_entry C x doc) \<and>
     space_entries Lookup_Index kv = (\<Union>(x, doc) \<in> Map.graph R. row_index_entry C plan x doc)"

lemma lookup_inv_cong:
  assumes "\<And>k. key_space_of k \<in> {Some Lookup_Row, Some Lookup_Index} \<Longrightarrow> kv' k = kv k"
    and "lookup_inv C plan R kv"
  shows "lookup_inv C plan R kv'"
  using assms space_entries_cong [of Lookup_Row kv' kv] space_entries_cong [of Lookup_Index kv' kv]
  by (simp add: lookup_inv_def)

lemma lookup_inv_index:
  assumes "lookup_inv C plan R kv"
  shows "e \<in> space_entries Lookup_Index kv \<longleftrightarrow> (\<exists>x doc. R x = Some doc \<and> e \<in> row_index_entry C plan x doc)"
proof -
  have "space_entries Lookup_Index kv = (\<Union>(x, doc) \<in> Map.graph R. row_index_entry C plan x doc)"
    using assms unfolding lookup_inv_def by (elim conjE)
  then show ?thesis by (simp only: UN_graph_iff)
qed

lemma lookup_inv_payload:
  assumes "lookup_inv C plan R kv" and "R (s, i) = Some doc" and "l \<in> set (lookups_of plan s)"
    and "indexed_as l doc = Some (ks, p)"
  shows "cr_payload_to_vec C p \<noteq> None"
proof -
  from conjunct1 [OF assms(1) [unfolded lookup_inv_def], rule_format, OF assms(2)]
  have "\<forall>l \<in> set (lookups_of plan s). \<forall>ks p. indexed_as l doc = Some (ks, p) \<longrightarrow> cr_payload_to_vec C p \<noteq> None" by simp
  with assms(3,4) show ?thesis by blast
qed

section \<open>Separation of index keys\<close>

lemma lookup_ids_unique:
  assumes "lookup_plan_ok plan" and "l \<in> set (lookups_of plan s)" and "l' \<in> set (lookups_of plan s')"
    and "lookup_id l = lookup_id l'"
  shows "s = s' \<and> l = l'"
proof -
  have "s = s' \<and> l = l'"
    if "distinct (concat (map (\<lambda>(s, lt). map lookup_id (lt_lookups lt)) T))"
      and "map_of T s = Some lt" "l \<in> set (lt_lookups lt)"
      and "map_of T s' = Some lt'" "l' \<in> set (lt_lookups lt')" for T lt lt'
    using that
  proof (induction T)
    case (Cons x T)
    obtain s0 lt0 where x: "x = (s0, lt0)" by (cases x)
    define I where "I = set (concat (map (\<lambda>(s, lt). map lookup_id (lt_lookups lt)) T))"
    have d: "distinct (map lookup_id (lt_lookups lt0))"
      and dT: "distinct (concat (map (\<lambda>(s, lt). map lookup_id (lt_lookups lt)) T))"
      using Cons.prems(1) by (simp_all add: x)
    have "set (map lookup_id (lt_lookups lt0)) \<inter> I = {}"
      using Cons.prems(1) unfolding x I_def list.map concat.simps distinct_append by simp
    then have nin: "lookup_id k \<notin> I" if "k \<in> set (lt_lookups lt0)" for k using that by auto
    have mem: "lookup_id k \<in> I" if "map_of T u = Some w" "k \<in> set (lt_lookups w)" for u w k
      using map_of_SomeD [OF that(1)] that(2) unfolding I_def by force
    show ?case
    proof (cases "s0 = s"; cases "s0 = s'")
      assume "s0 = s" "s0 = s'"
      with Cons.prems d assms(4) show ?thesis by (auto simp: x distinct_map inj_on_def)
    next
      assume "s0 = s" "s0 \<noteq> s'"
      with Cons.prems have "l \<in> set (lt_lookups lt0)" "map_of T s' = Some lt'" by (auto simp: x)
      with mem [OF this(2) Cons.prems(5)] nin [OF this(1)] assms(4) show ?thesis by simp
    next
      assume "s0 \<noteq> s" "s0 = s'"
      with Cons.prems have "l' \<in> set (lt_lookups lt0)" "map_of T s = Some lt" by (auto simp: x)
      with mem [OF this(2) Cons.prems(3)] nin [OF this(1)] assms(4) show ?thesis by simp
    next
      assume "s0 \<noteq> s" "s0 \<noteq> s'"
      with Cons.prems Cons.IH [OF dT] show ?thesis by (auto simp: x)
    qed
  qed simp
  note unique = this
  obtain lt lt' where "map_of (lookup_tables_by_source plan) s = Some lt" "l \<in> set (lt_lookups lt)"
    "map_of (lookup_tables_by_source plan) s' = Some lt'" "l' \<in> set (lt_lookups lt')"
    using assms(2,3) by (cases "lookup_table_of plan s"; cases "lookup_table_of plan s'")
      (auto simp: lookups_of_def lookup_table_of_def simp del: map_of_eq_Some_iff)
  moreover have "distinct (concat (map (\<lambda>(s, lt). map lookup_id (lt_lookups lt)) (lookup_tables_by_source plan)))"
    using assms(1) unfolding lookup_plan_ok_def by blast
  ultimately show ?thesis using unique by blast
qed

lemma index_key_lookup_id:
  "parameter_lookup_index_key l ks r = parameter_lookup_index_key l' ks' r' \<Longrightarrow> l = l'"
  by (simp add: key_fun_defs)

lemma omap_length: "omap f xs = Some ys \<Longrightarrow> length ys = length xs"
  by (induction xs arbitrary: ys) (auto split: option.splits)

lemma index_key_values_length: "index_key_values l doc = Some ks \<Longrightarrow> length ks = length (key_bindings l)"
  by (auto simp: index_key_values_def dest: omap_length)

lemma indexed_as_keys: "indexed_as l doc = Some (ks, p) \<Longrightarrow> index_key_values l doc = Some ks"
  by (auto simp: indexed_as_def split: if_splits option.splits)

text \<open>Every key the deletion of a row visits.\<close>

definition deleted_keys :: "ParameterLookupPlan list \<Rightarrow> string \<Rightarrow> ParameterLookupRowDocument \<Rightarrow> bytes set" where
  "deleted_keys ls i doc =
     {k. \<exists>l ks. l \<in> set ls \<and> row_predicate_matches (row_predicate l) doc \<and> index_key_values l doc = Some ks \<and>
                k = parameter_lookup_index_key (lookup_id l) ks i}"

lemma entry_keys_deleted: "e \<in> lookup_entry C i doc l \<Longrightarrow> l \<in> set ls \<Longrightarrow> fst e \<in> deleted_keys ls i doc"
  by (auto simp: lookup_entry_def deleted_keys_def indexed_as_def split: option.splits if_splits)

lemma deleted_key_row:
  assumes "lookup_plan_ok plan" and "e \<in> row_index_entry C plan (s', i') doc'"
    and "fst e \<in> deleted_keys (lookups_of plan s) i doc"
  shows "s' = s \<and> i' = i"
proof -
  obtain l' where l': "l' \<in> set (lookups_of plan s')" "e \<in> lookup_entry C i' doc' l'"
    using assms(2) by auto
  then obtain ks' p where k': "indexed_as l' doc' = Some (ks', p)"
    "fst e = parameter_lookup_index_key (lookup_id l') ks' i'"
    by (auto simp: lookup_entry_def split: option.splits)
  obtain l ks where l: "l \<in> set (lookups_of plan s)" "index_key_values l doc = Some ks"
    "fst e = parameter_lookup_index_key (lookup_id l) ks i"
    using assms(3) by (auto simp: deleted_keys_def)
  have "lookup_id l' = lookup_id l" using k'(2) l(3) index_key_lookup_id by metis
  with lookup_ids_unique [OF assms(1) l'(1) l(1)] have eq: "s' = s" "l' = l" by auto
  then have "length ks' = length ks"
    using index_key_values_length indexed_as_keys [OF k'(1)] l(2) by metis
  then have "i' = i" using parameter_lookup_index_key_inj k'(2) l(3) eq(2) by metis
  with eq(1) show ?thesis by simp
qed

lemma row_index_remove:
  assumes "lookup_plan_ok plan" and "R (s, i) = Some doc"
  shows "(\<Union>(x, doc) \<in> Map.graph (R((s, i) := None)). row_index_entry C plan x doc)
     = {e \<in> \<Union>(x, doc) \<in> Map.graph R. row_index_entry C plan x doc. fst e \<notin> deleted_keys (lookups_of plan s) i doc}"
proof (rule UN_graph_remove)
  fix y q e assume y: "R y = Some q" "e \<in> row_index_entry C plan y q"
  show "fst e \<in> deleted_keys (lookups_of plan s) i doc \<longleftrightarrow> y = (s, i)"
  proof
    assume "fst e \<in> deleted_keys (lookups_of plan s) i doc"
    with deleted_key_row [OF assms(1)] y show "y = (s, i)" by (cases y) blast
  next
    assume "y = (s, i)"
    with y assms(2) show "fst e \<in> deleted_keys (lookups_of plan s) i doc"
      by (auto intro: entry_keys_deleted)
  qed
qed

lemma row_remove:
  "(\<Union>(x, doc) \<in> Map.graph (R((s, i) := None)). row_entry C x doc)
     = {e \<in> \<Union>(x, doc) \<in> Map.graph R. row_entry C x doc. fst e \<notin> {parameter_lookup_row_key s i}}"
  by (rule UN_graph_remove) (auto elim!: row_entry.elims)

section \<open>Index writes\<close>

lemma lookup_entry_keys_disjoint:
  assumes "lookup_id l \<notin> lookup_id ` set ls"
  shows "fst ` lookup_entry C i doc l \<inter> fst ` (\<Union>l \<in> set ls. lookup_entry C i doc l) = {}"
  using assms index_key_lookup_id
  by (fastforce simp: lookup_entry_def split: option.splits)

context mdbx_table
begin

lemma delete_indexes_view:
  assumes "delete_parameter_lookup_indexes M t lt i doc = Inr t'"
  shows "view t' = (\<lambda>k. if k \<in> deleted_keys (lt_lookups lt) i doc then None else view t k)"
proof -
  let ?f = "\<lambda>t lookup. if \<not> row_predicate_matches (row_predicate lookup) doc then Inr t
       else case index_key_values lookup doc of None \<Rightarrow> Inr t
       | Some key_values \<Rightarrow> t_del M t (parameter_lookup_index_key (lookup_id lookup) key_values i)"
  have "rfold ?f t ls = Inr t' \<Longrightarrow>
      view t' = (\<lambda>k. if k \<in> deleted_keys ls i doc then None else view t k)" for ls t
  proof (induction ls arbitrary: t)
    case (Cons l ls)
    from Cons.prems obtain t1 where t1: "?f t l = Inr t1" "rfold ?f t1 ls = Inr t'"
      by (auto elim: rbindE)
    have "deleted_keys (l # ls) i doc = deleted_keys [l] i doc \<union> deleted_keys ls i doc"
      by (auto simp: deleted_keys_def)
    moreover have "view t1 = (\<lambda>k. if k \<in> deleted_keys [l] i doc then None else view t k)"
      using t1(1) by (auto simp: deleted_keys_def fun_eq_iff dest!: t_del_view split: if_splits option.splits)
    ultimately show ?case using Cons.IH [OF t1(2)] by (auto simp: fun_eq_iff)
  qed (simp add: deleted_keys_def)
  then show ?thesis using assms by (simp add: delete_parameter_lookup_indexes_def)
qed

lemma put_indexes_view:
  assumes "put_parameter_lookup_indexes C M t lt i doc = Inr t'"
    and "distinct (map lookup_id (lt_lookups lt))"
  defines "E \<equiv> \<Union>l \<in> set (lt_lookups lt). lookup_entry C i doc l"
  shows "space_entries Lookup_Index (view t') = E \<union> {e \<in> space_entries Lookup_Index (view t). fst e \<notin> fst ` E}"
    and "\<And>k. key_space_of k \<noteq> Some Lookup_Index \<Longrightarrow> view t' k = view t k"
    and "\<And>l ks p. l \<in> set (lt_lookups lt) \<Longrightarrow> indexed_as l doc = Some (ks, p) \<Longrightarrow> cr_payload_to_vec C p \<noteq> None"
proof -
  let ?f = "\<lambda>t lookup. if \<not> row_predicate_matches (row_predicate lookup) doc then Inr t
       else case index_key_values lookup doc of None \<Rightarrow> Inr t
       | Some key_values \<Rightarrow> (case index_payload lookup doc of None \<Rightarrow> Inr t
            | Some payload \<Rightarrow>
                rbind (ok_or (CorruptBatch ''serialize parameter lookup entry'') (cr_payload_to_vec C payload))
                  (\<lambda>encoded. t_put M t (parameter_lookup_index_key (lookup_id lookup) key_values i) encoded))"
  let ?E = "\<lambda>ls. \<Union>l \<in> set ls. lookup_entry C i doc l"
  have step: "case indexed_as l doc of None \<Rightarrow> view t1 = view t
      | Some (ks, p) \<Rightarrow> \<exists>enc. cr_payload_to_vec C p = Some enc \<and>
          view t1 = (view t)(parameter_lookup_index_key (lookup_id l) ks i \<mapsto> enc)" if "?f t l = Inr t1" for t t1 l
    using that by (auto simp: indexed_as_def dest!: t_put_view elim!: rbindE split: if_splits option.splits)
  have "space_entries Lookup_Index (view t') = ?E ls \<union> {e \<in> space_entries Lookup_Index (view t). fst e \<notin> fst ` ?E ls} \<and>
      (\<forall>k. key_space_of k \<noteq> Some Lookup_Index \<longrightarrow> view t' k = view t k) \<and>
      (\<forall>l \<in> set ls. \<forall>ks p. indexed_as l doc = Some (ks, p) \<longrightarrow> cr_payload_to_vec C p \<noteq> None)"
    if "rfold ?f t ls = Inr t'" and "distinct (map lookup_id ls)" for ls t
    using that
  proof (induction ls arbitrary: t)
    case (Cons l ls)
    from Cons.prems obtain t1 where t1: "?f t l = Inr t1" "rfold ?f t1 ls = Inr t'"
      by (auto elim: rbindE)
    let ?e = "lookup_entry C i doc l"
    have sp: "space_entries Lookup_Index (view t1) = ?e \<union> {e \<in> space_entries Lookup_Index (view t). fst e \<notin> fst ` ?e}"
      using step [OF t1(1)] by (auto simp: lookup_entry_def space_entries_def split: option.splits if_splits)
    note IH = Cons.IH [OF t1(2)]
    have dj: "fst ` ?e \<inter> fst ` ?E ls = {}"
      using Cons.prems(2) by (intro lookup_entry_keys_disjoint) auto
    have "space_entries Lookup_Index (view t') = ?E ls \<union> {e \<in> ?e \<union> {e \<in> space_entries Lookup_Index (view t). fst e \<notin> fst ` ?e}. fst e \<notin> fst ` ?E ls}"
      using IH sp Cons.prems(2) by simp
    also have "\<dots> = ?E (l # ls) \<union> {e \<in> space_entries Lookup_Index (view t). fst e \<notin> fst ` ?E (l # ls)}"
      using dj by auto
    finally have 1: "space_entries Lookup_Index (view t') = \<dots>" .
    have 2: "view t' k = view t k" if "key_space_of k \<noteq> Some Lookup_Index" for k
      using IH Cons.prems(2) step [OF t1(1)] that by (auto split: option.splits)
    have 3: "cr_payload_to_vec C p \<noteq> None" if "indexed_as l doc = Some (ks, p)" for ks p
      using step [OF t1(1)] that by auto
    show ?case using 1 2 3 IH Cons.prems(2) by auto
  qed simp
  note all = this [OF assms(1) [unfolded put_parameter_lookup_indexes_def] assms(2)]
  show "space_entries Lookup_Index (view t') = E \<union> {e \<in> space_entries Lookup_Index (view t). fst e \<notin> fst ` E}"
    using all by (simp add: E_def)
  show "\<And>k. key_space_of k \<noteq> Some Lookup_Index \<Longrightarrow> view t' k = view t k" using all by blast
  show "\<And>l ks p. l \<in> set (lt_lookups lt) \<Longrightarrow> indexed_as l doc = Some (ks, p) \<Longrightarrow> cr_payload_to_vec C p \<noteq> None"
    using all by blast
qed

end

section \<open>Row writes\<close>

definition same_outside_lookup :: "kv \<Rightarrow> kv \<Rightarrow> bool" where
  "same_outside_lookup kv kv' \<longleftrightarrow>
     (\<forall>k. key_space_of k \<notin> {Some Lookup_Row, Some Lookup_Index} \<longrightarrow> kv' k = kv k)"

lemma deleted_keys_space: "k \<in> deleted_keys ls i doc \<Longrightarrow> key_space_of k = Some Lookup_Index"
  by (auto simp: deleted_keys_def)

lemma space_entries_delete:
  "space_entries sp (\<lambda>k. if k \<in> K then None else kv k) = {e \<in> space_entries sp kv. fst e \<notin> K}"
  by (auto simp: space_entries_def split: if_splits)

lemma space_entries_upd:
  "key_space_of k = Some sp \<Longrightarrow>
   space_entries sp (kv(k \<mapsto> v)) = insert (k, v) {e \<in> space_entries sp kv. fst e \<notin> {k}}"
  "space_entries sp (kv(k := None)) = {e \<in> space_entries sp kv. fst e \<notin> {k}}"
  by (auto simp: space_entries_def split: if_splits)

lemma row_index_absent:
  assumes "lookup_plan_ok plan" and "R (s, i) = None" and "R y = Some q" and "e \<in> row_index_entry C plan y q"
  shows "fst e \<notin> deleted_keys (lookups_of plan s) i doc"
proof
  assume d: "fst e \<in> deleted_keys (lookups_of plan s) i doc"
  obtain s' i' where y: "y = (s', i')" by (cases y)
  from deleted_key_row [OF assms(1) assms(4) [unfolded y] d] have "y = (s, i)" by (simp add: y)
  with assms(2,3) show False by simp
qed

context ingest_store
begin

lemma read_lookup_row_inv:
  assumes "read_parameter_lookup_row C M t (parameter_lookup_row_key s i) = Inr r"
    and "lookup_inv C plan R (view t)"
  shows "r = R (s, i)"
proof -
  have iff: "view t (parameter_lookup_row_key s i) = Some bs \<longleftrightarrow>
      (\<exists>doc. R (s, i) = Some doc \<and> bs = the (cr_lookup_row_to_vec C doc))" for bs
  proof -
    have "view t (parameter_lookup_row_key s i) = Some bs \<longleftrightarrow>
        (parameter_lookup_row_key s i, bs) \<in> space_entries Lookup_Row (view t)"
      by (simp add: space_entries_def)
    also have "\<dots> \<longleftrightarrow> (\<exists>y q. R y = Some q \<and> (parameter_lookup_row_key s i, bs) \<in> row_entry C y q)"
      using assms(2) by (simp only: lookup_inv_def UN_graph_iff)
    finally show ?thesis by auto
  qed
  have ok: "R (s, i) = Some doc \<Longrightarrow> cr_lookup_row_to_vec C doc \<noteq> None" for doc
    using assms(2) by (auto simp: lookup_inv_def)
  show ?thesis
  proof (cases "R (s, i)")
    case None
    with iff have "view t (parameter_lookup_row_key s i) = None" by (cases "view t (parameter_lookup_row_key s i)") auto
    with assms(1) None show ?thesis by (auto simp: read_parameter_lookup_row_def dest!: t_get_view elim!: rbindE)
  next
    case (Some doc)
    obtain bs where bs: "cr_lookup_row_to_vec C doc = Some bs" using ok [OF Some] by auto
    with iff Some have "view t (parameter_lookup_row_key s i) = Some bs" by simp
    with assms(1) Some lookup_row_codec [OF bs] show ?thesis
      by (auto simp: read_parameter_lookup_row_def dest!: t_get_view elim!: rbindE)
  qed
qed

text \<open>Taking the row's index entries out, whether or not it is present.\<close>

lemma unindex_step:
  assumes "(case R (s, i) of None \<Rightarrow> Inr t | Some doc \<Rightarrow> delete_parameter_lookup_indexes M t lt i doc) = Inr t'"
    and "lookup_inv C plan R (view t)" and "lookup_plan_ok plan" and "lt_lookups lt = lookups_of plan s"
  shows "space_entries Lookup_Index (view t')
           = (\<Union>(x, doc) \<in> Map.graph (R((s, i) := None)). row_index_entry C plan x doc)"
    and "\<And>k. key_space_of k \<noteq> Some Lookup_Index \<Longrightarrow> view t' k = view t k"
proof -
  have ix: "space_entries Lookup_Index (view t) = (\<Union>(x, doc) \<in> Map.graph R. row_index_entry C plan x doc)"
    using assms(2) by (simp add: lookup_inv_def)
  have "space_entries Lookup_Index (view t')
      = (\<Union>(x, doc) \<in> Map.graph (R((s, i) := None)). row_index_entry C plan x doc) \<and>
    (\<forall>k. key_space_of k \<noteq> Some Lookup_Index \<longrightarrow> view t' k = view t k)"
  proof (cases "R (s, i)")
    case None
    then have "R((s, i) := None) = R" by (metis fun_upd_triv)
    with None assms(1) ix show ?thesis by simp
  next
    case (Some doc)
    have v: "view t' = (\<lambda>k. if k \<in> deleted_keys (lookups_of plan s) i doc then None else view t k)"
      using delete_indexes_view assms(1,4) Some by (metis option.simps(5))
    show ?thesis
      unfolding v space_entries_delete ix row_index_remove [of plan R s i doc C, OF assms(3) Some]
      by (auto dest: deleted_keys_space)
  qed
  then show "space_entries Lookup_Index (view t')
      = (\<Union>(x, doc) \<in> Map.graph (R((s, i) := None)). row_index_entry C plan x doc)"
    and "\<And>k. key_space_of k \<noteq> Some Lookup_Index \<Longrightarrow> view t' k = view t k" by blast+
qed

lemma remove_lookup_row_inv:
  assumes "remove_parameter_lookup_row C M t lt row = Inr t'" and "row_id (lt_source_table lt) row = Inr i"
    and "lookup_inv C plan R (view t)" and "lookup_plan_ok plan" and "lookup_table_of plan s = Some lt" "lt_source_table lt = s"
  shows "lookup_inv C plan (R((s, i) := None)) (view t') \<and> same_outside_lookup (view t) (view t')"
proof -
  let ?key = "parameter_lookup_row_key s i" and ?R = "R((s, i) := None)"
  have ls: "lt_lookups lt = lookups_of plan s" using assms(5) by (simp add: lookups_of_def)
  obtain r where r: "read_parameter_lookup_row C M t ?key = Inr r"
    and rest: "(case r of None \<Rightarrow> Inr t | Some doc \<Rightarrow>
           rbind (delete_parameter_lookup_indexes M t lt i doc) (\<lambda>t. t_del M t ?key)) = Inr t'"
    using assms(1,2,6) by (auto simp: remove_parameter_lookup_row_def Let_def elim!: rbindE)
  note read_lookup_row_inv [OF r assms(3)]
  show ?thesis
  proof (cases "R (s, i)")
    case None
    then have "?R = R" by (metis fun_upd_triv)
    with None rest \<open>r = R (s, i)\<close> assms(3) show ?thesis by (simp add: same_outside_lookup_def)
  next
    case (Some doc)
    then obtain t1 where d: "delete_parameter_lookup_indexes M t lt i doc = Inr t1" and t': "t_del M t1 ?key = Inr t'"
      using rest \<open>r = R (s, i)\<close> by (auto elim: rbindE)
    have "(case R (s, i) of None \<Rightarrow> Inr t | Some doc \<Rightarrow> delete_parameter_lookup_indexes M t lt i doc) = Inr t1"
      using Some d by simp
    note u = unindex_step [OF this assms(3,4) ls]
    note v = t_del_view [OF t']
    have "space_entries Lookup_Index (view t') = space_entries Lookup_Index (view t1)"
      by (rule space_entries_cong) (auto simp: v)
    moreover have "space_entries Lookup_Row (view t') = (\<Union>(x, doc) \<in> Map.graph ?R. row_entry C x doc)"
    proof -
      have "space_entries Lookup_Row (view t1) = space_entries Lookup_Row (view t)"
        by (rule space_entries_cong) (simp add: u(2))
      also have "\<dots> = (\<Union>(x, doc) \<in> Map.graph R. row_entry C x doc)" using assms(3) by (simp add: lookup_inv_def)
      finally show ?thesis unfolding v space_entries_upd(2) row_remove by simp
    qed
    ultimately show ?thesis
      using assms(3) u by (auto simp: lookup_inv_def same_outside_lookup_def v)
  qed
qed

lemma put_lookup_row_inv:
  assumes "put_parameter_lookup_row C M t lt row = Inr t'" and "row_id (lt_source_table lt) row = Inr i"
    and "lookup_inv C plan R (view t)" and "lookup_plan_ok plan" and "lookup_table_of plan s = Some lt" "lt_source_table lt = s"
  shows "lookup_inv C plan (R((s, i) \<mapsto> parameter_lookup_row_document lt row (R (s, i)))) (view t')
         \<and> same_outside_lookup (view t) (view t')"
proof -
  let ?key = "parameter_lookup_row_key s i" and ?doc = "parameter_lookup_row_document lt row (R (s, i))"
  let ?R = "R((s, i) \<mapsto> ?doc)" and ?E = "\<Union>l \<in> set (lookups_of plan s). lookup_entry C i ?doc l"
  have ls: "lt_lookups lt = lookups_of plan s" using assms(5) by (simp add: lookups_of_def)
  obtain r where r: "read_parameter_lookup_row C M t ?key = Inr r"
    using assms(1,2,6) by (auto simp: put_parameter_lookup_row_def Let_def elim!: rbindE)
  note rR = read_lookup_row_inv [OF r assms(3)]
  obtain t1 enc t2 where u1: "(case R (s, i) of None \<Rightarrow> Inr t | Some doc \<Rightarrow> delete_parameter_lookup_indexes M t lt i doc) = Inr t1"
    and enc: "cr_lookup_row_to_vec C ?doc = Some enc" and t2: "t_put M t1 ?key enc = Inr t2"
    and t': "put_parameter_lookup_indexes C M t2 lt i ?doc = Inr t'"
    using assms(1,2,6) r unfolding rR by (auto simp: put_parameter_lookup_row_def Let_def elim!: rbindE)
  note u = unindex_step [OF u1 assms(3,4) ls] and v2 = t_put_view [OF t2]
  have dist: "distinct (map lookup_id (lt_lookups lt))"
    using assms(4,5) by (force simp: lookup_plan_ok_def lookup_table_of_def distinct_concat_iff dest: map_of_SomeD)
  note p = put_indexes_view [OF t' dist, unfolded ls]
  have ix2: "space_entries Lookup_Index (view t2) = space_entries Lookup_Index (view t1)"
    by (rule space_entries_cong) (auto simp: v2)
  have "fst e \<notin> fst ` ?E" if e: "e \<in> space_entries Lookup_Index (view t2)" for e
  proof -
    obtain y q where "(R((s, i) := None)) y = Some q" "e \<in> row_index_entry C plan y q"
      using e unfolding ix2 u(1) UN_graph_iff by blast
    from row_index_absent [of plan "R((s, i) := None)" s i y q e C, OF assms(4) _ this] have "fst e \<notin> deleted_keys (lookups_of plan s) i ?doc" by simp
    then show ?thesis using entry_keys_deleted by (auto simp: image_iff)
  qed
  then have "space_entries Lookup_Index (view t') = ?E \<union> space_entries Lookup_Index (view t1)"
    unfolding p(1) ix2 by blast
  also have "\<dots> = (\<Union>(x, doc) \<in> Map.graph ?R. row_index_entry C plan x doc)"
    unfolding u(1) by (simp add: graph_map_upd)
  finally have ix: "space_entries Lookup_Index (view t') = \<dots>" .
  have "space_entries Lookup_Row (view t') = space_entries Lookup_Row (view t2)"
    by (rule space_entries_cong) (simp add: p(2))
  also have "\<dots> = insert (?key, enc) {e \<in> space_entries Lookup_Row (view t1). fst e \<notin> {?key}}"
    unfolding v2 by (rule space_entries_upd(1)) simp
  also have "space_entries Lookup_Row (view t1) = (\<Union>(x, doc) \<in> Map.graph R. row_entry C x doc)"
    using assms(3) space_entries_cong [of Lookup_Row "view t1" "view t"] u(2) by (simp add: lookup_inv_def)
  also have "insert (?key, enc) {e \<in> \<dots>. fst e \<notin> {?key}} = (\<Union>(x, doc) \<in> Map.graph ?R. row_entry C x doc)"
    unfolding row_remove [symmetric] by (simp add: graph_map_upd enc)
  finally have rows: "space_entries Lookup_Row (view t') = \<dots>" .
  have "cr_lookup_row_to_vec C doc \<noteq> None \<and>
        (\<forall>l \<in> set (lookups_of plan (fst x)). \<forall>ks p. indexed_as l doc = Some (ks, p) \<longrightarrow> cr_payload_to_vec C p \<noteq> None)"
    if "?R x = Some doc" for x doc
  proof (cases "x = (s, i)")
    case True
    with that have "doc = ?doc" "fst x = s" by simp_all
    with enc p(3) show ?thesis by (intro conjI ballI allI impI) simp_all
  next
    case False
    with that have "R x = Some doc" by simp
    with conjunct1 [OF assms(3) [unfolded lookup_inv_def]] show ?thesis by (elim allE impE)
  qed
  with ix rows have "lookup_inv C plan ?R (view t')" by (simp add: lookup_inv_def)
  moreover have "same_outside_lookup (view t) (view t')"
    using p(2) u(2) by (auto simp: same_outside_lookup_def v2)
  ultimately show ?thesis by blast
qed

end

section \<open>Operations\<close>

text \<open>What a lookup operation does to the abstract rows.\<close>

definition row_id_of :: "row_data \<Rightarrow> string option" where
  "row_id_of row = Option.bind (map_of row ''id'') column_value_to_string"

definition abs_put :: "CompiledLookupTablePlan \<Rightarrow> row_data \<Rightarrow> lookup_rows \<Rightarrow> lookup_rows" where
  "abs_put lt row R =
     (case row_id_of row of None \<Rightarrow> R
      | Some i \<Rightarrow> R((lt_source_table lt, i) \<mapsto> parameter_lookup_row_document lt row (R (lt_source_table lt, i))))"

definition abs_remove :: "CompiledLookupTablePlan \<Rightarrow> row_data \<Rightarrow> lookup_rows \<Rightarrow> lookup_rows" where
  "abs_remove lt row R =
     (case row_id_of row of None \<Rightarrow> R | Some i \<Rightarrow> R((lt_source_table lt, i) := None))"

fun abs_lookup :: "CompiledLookupTablePlan \<Rightarrow> ParameterLookupOperation \<Rightarrow> lookup_rows \<Rightarrow> lookup_rows" where
  "abs_lookup lt (LookupPut row) R = abs_put lt row R"
| "abs_lookup lt (LookupUpdate old new) R =
     abs_put lt new
       (case old of None \<Rightarrow> R
        | Some o_data \<Rightarrow> if row_id_of o_data = row_id_of new then R else abs_remove lt o_data R)"
| "abs_lookup lt (LookupRemove row) R = abs_remove lt row R"

definition abs_lookups ::
  "RustExecutionPlan \<Rightarrow> lookup_rows \<Rightarrow> DerivedParameterLookupOp list \<Rightarrow> lookup_rows" where
  "abs_lookups plan R ops =
     foldl (\<lambda>R x. case lookup_table_plan plan (dl_source_table x) of
        None \<Rightarrow> R | Some lt \<Rightarrow> abs_lookup lt (dl_operation x) R) R ops"

lemma row_id_Inr: "row_id s row = Inr i \<longleftrightarrow> row_id_of row = Some i"
  by (simp add: row_id_def row_id_of_def)

lemma lookup_table_plan_ok:
  assumes "lookup_table_plan plan s = Some lt" and "lookup_plan_ok plan"
  shows "lookup_table_of plan (lt_source_table lt) = Some lt"
  using assms by (auto simp: lookup_table_plan_def lookup_plan_ok_def lookup_table_of_def bind_eq_Some_conv
      simp del: map_of_eq_Some_iff dest!: map_of_SomeD split: option.splits intro!: map_of_is_SomeI)

context ingest_store
begin

lemma put_lookup_row_abs:
  assumes "put_parameter_lookup_row C M t lt row = Inr t'" and "lookup_inv C plan R (view t)"
    and "lookup_plan_ok plan" and "lookup_table_of plan (lt_source_table lt) = Some lt"
  shows "lookup_inv C plan (abs_put lt row R) (view t') \<and> same_outside_lookup (view t) (view t')"
proof -
  obtain i where i: "row_id (lt_source_table lt) row = Inr i"
    using assms(1) by (auto simp: put_parameter_lookup_row_def elim!: rbindE)
  from put_lookup_row_inv [OF assms(1) i assms(2-4) refl] i show ?thesis by (simp add: abs_put_def row_id_Inr)
qed

lemma remove_lookup_row_abs:
  assumes "remove_parameter_lookup_row C M t lt row = Inr t'" and "lookup_inv C plan R (view t)"
    and "lookup_plan_ok plan" and "lookup_table_of plan (lt_source_table lt) = Some lt"
  shows "lookup_inv C plan (abs_remove lt row R) (view t') \<and> same_outside_lookup (view t) (view t')"
proof -
  obtain i where i: "row_id (lt_source_table lt) row = Inr i"
    using assms(1) by (auto simp: remove_parameter_lookup_row_def elim!: rbindE)
  from remove_lookup_row_inv [OF assms(1) i assms(2-4) refl] i show ?thesis by (simp add: abs_remove_def row_id_Inr)
qed

lemma same_outside_lookup_trans:
  "same_outside_lookup a b \<Longrightarrow> same_outside_lookup b c \<Longrightarrow> same_outside_lookup a c"
  by (simp add: same_outside_lookup_def)

lemma apply_lookup_op_abs:
  assumes "apply_parameter_lookup_op C M t lt x = Inr t'" and "lookup_inv C plan R (view t)"
    and "lookup_plan_ok plan" and "lookup_table_of plan (lt_source_table lt) = Some lt"
  shows "lookup_inv C plan (abs_lookup lt x R) (view t') \<and> same_outside_lookup (view t) (view t')"
proof (cases x)
  case (LookupUpdate old new)
  let ?R = "case old of None \<Rightarrow> R | Some o_data \<Rightarrow> if row_id_of o_data = row_id_of new then R else abs_remove lt o_data R"
  obtain new_id t1 where n: "row_id_of new = Some new_id"
    and r: "(case old of None \<Rightarrow> Inr t
       | Some o_data \<Rightarrow> (case row_id_of o_data of None \<Rightarrow> Inr t
          | Some old_id \<Rightarrow> if old_id \<noteq> new_id then remove_parameter_lookup_row C M t lt o_data else Inr t)) = Inr t1"
    and p: "put_parameter_lookup_row C M t1 lt new = Inr t'"
    using assms(1) unfolding apply_parameter_lookup_op_def LookupUpdate row_id_of_def [symmetric]
    by (force simp: rbind_Inr_iff row_id_Inr)
  have 1: "lookup_inv C plan ?R (view t1) \<and> same_outside_lookup (view t) (view t1)"
  proof (cases "\<exists>o_data. old = Some o_data \<and> row_id_of o_data \<noteq> None \<and> row_id_of o_data \<noteq> row_id_of new")
    case True
    then obtain o_data where o: "old = Some o_data" "row_id_of o_data \<noteq> row_id_of new"
      and "remove_parameter_lookup_row C M t lt o_data = Inr t1"
      using r n by (auto split: if_splits)
    from remove_lookup_row_abs [OF this(3) assms(2-4)] o show ?thesis by simp
  next
    case False
    then have "t1 = t" "?R = R" using r n by (auto simp: abs_remove_def split: option.splits if_splits)
    with assms(2) show ?thesis by (simp add: same_outside_lookup_def)
  qed
  from put_lookup_row_abs [OF p conjunct1 [OF 1] assms(3,4)] 1 show ?thesis
    by (auto simp: LookupUpdate intro: same_outside_lookup_trans)
qed (use assms put_lookup_row_abs remove_lookup_row_abs in \<open>auto simp: apply_parameter_lookup_op_def\<close>)

lemma apply_lookup_ops_abs:
  "apply_parameter_lookup_ops C M t xs plan = Inr t' \<Longrightarrow> lookup_inv C plan R (view t) \<Longrightarrow> lookup_plan_ok plan \<Longrightarrow>
   lookup_inv C plan (abs_lookups plan R xs) (view t') \<and> same_outside_lookup (view t) (view t')"
proof (induction xs arbitrary: t R)
  case Nil
  then show ?case by (simp add: apply_parameter_lookup_ops_def abs_lookups_def same_outside_lookup_def)
next
  case (Cons x xs)
  then obtain lt t1 where lt: "lookup_table_plan plan (dl_source_table x) = Some lt"
    and a: "apply_parameter_lookup_op C M t lt (dl_operation x) = Inr t1"
    and r: "apply_parameter_lookup_ops C M t1 xs plan = Inr t'"
    by (auto simp: apply_parameter_lookup_ops_def elim!: rbindE)
  note s = apply_lookup_op_abs [OF a Cons.prems(2,3) lookup_table_plan_ok [OF lt Cons.prems(3)]]
  from Cons.IH [OF r conjunct1 [OF s] Cons.prems(3)] s show ?case
    by (auto simp: abs_lookups_def lt intro: same_outside_lookup_trans)
qed

end

section \<open>Scans\<close>

lemma collect_entries_spec:
  assumes "\<forall>(k, v) \<in> set items. starts_with prefix k \<and> cr_payload_from_slice C v \<noteq> None"
    and "case rest of [] \<Rightarrow> True | (k, v) # _ \<Rightarrow> \<not> starts_with prefix k"
    and "length entries + length items \<le> max_entries"
  shows "collect_entries C prefix max_entries entries (items @ rest) = Inr (entries @ map (\<lambda>(k, v). the (cr_payload_from_slice C v)) items)"
  using assms
proof (induction items arbitrary: entries)
  case Nil
  then show ?case by (cases rest) auto
qed auto

lemma collect_entries_limit:
  assumes "\<forall>(k, v) \<in> set items. starts_with prefix k \<and> cr_payload_from_slice C v \<noteq> None"
    and "length entries \<le> max_entries" and "length entries + length items > max_entries"
  shows "\<exists>m. collect_entries C prefix max_entries entries (items @ rest) = Inl (ResourceLimit m)"
  using assms
proof (induction items arbitrary: entries)
  case (Cons x items)
  obtain k v p where x: "x = (k, v)" "starts_with prefix k" "cr_payload_from_slice C v = Some p"
    using Cons.prems(1) by (cases x) auto
  with Cons.IH [of "entries @ [p]"] Cons.prems show ?case by (cases "length entries \<ge> max_entries") auto
qed simp

text \<open>The rows a scan of one lookup returns.\<close>

definition matching_rows :: "lookup_rows \<Rightarrow> string \<Rightarrow> ParameterLookupPlan \<Rightarrow> string list \<Rightarrow> string set" where
  "matching_rows R s l ks = {i. \<exists>doc p. R (s, i) = Some doc \<and> indexed_as l doc = Some (ks, p)}"

definition row_payload :: "lookup_rows \<Rightarrow> string \<Rightarrow> ParameterLookupPlan \<Rightarrow> string \<Rightarrow> routes" where
  "row_payload R s l i = snd (the (indexed_as l (the (R (s, i)))))"

lemma lookup_entries_under_prefix:
  assumes "lookup_inv C plan R kv" and "lookup_plan_ok plan" and "l \<in> set (lookups_of plan s)"
    and "length ks = length (key_bindings l)"
  shows "{(k, v). kv k = Some v \<and> starts_with (parameter_lookup_index_prefix (lookup_id l) ks) k}
     = (\<lambda>i. (parameter_lookup_index_key (lookup_id l) ks i, the (cr_payload_to_vec C (row_payload R s l i))))
         ` matching_rows R s l ks" (is "?L = ?R")
proof (intro set_eqI iffI)
  fix e assume e: "e \<in> ?L"
  then obtain k v where kv: "e = (k, v)" "kv k = Some v"
    "starts_with (parameter_lookup_index_prefix (lookup_id l) ks) k" by auto
  then have "e \<in> space_entries Lookup_Index kv" by (simp add: space_entries_def key_space_starts_with(5))
  then obtain x doc where x: "R x = Some doc" "e \<in> row_index_entry C plan x doc"
    using lookup_inv_index [OF assms(1)] by blast
  obtain s' i where si: "x = (s', i)" by (cases x)
  with x obtain l' where l': "l' \<in> set (lookups_of plan s')" "e \<in> lookup_entry C i doc l'" by auto
  then obtain ks' p where k': "indexed_as l' doc = Some (ks', p)"
    "e = (parameter_lookup_index_key (lookup_id l') ks' i, the (cr_payload_to_vec C p))"
    by (auto simp: lookup_entry_def split: option.splits)
  have "lookup_id l' = lookup_id l" using kv(1,3) k'(2) by (auto simp: starts_with_iff key_fun_defs)
  with lookup_ids_unique [OF assms(2) l'(1) assms(3)] have eq: "s' = s" "l' = l" by auto
  then have "length ks = length ks'"
    using index_key_values_length indexed_as_keys [OF k'(1)] assms(4) by metis
  from parameter_lookup_index_key_prefix [OF this, of "lookup_id l" "lookup_id l" i] kv(1,3) k'(2) eq
  have "ks' = ks" by simp
  with k' eq x(1) si have "i \<in> matching_rows R s l ks" "row_payload R s l i = p"
    by (simp_all add: matching_rows_def row_payload_def)
  with k'(2) eq \<open>ks' = ks\<close> show "e \<in> ?R" by (intro image_eqI [of _ _ i]) simp_all
next
  fix e assume "e \<in> ?R"
  then obtain i doc p where i: "R (s, i) = Some doc" "indexed_as l doc = Some (ks, p)"
    "e = (parameter_lookup_index_key (lookup_id l) ks i, the (cr_payload_to_vec C p))"
    by (auto simp: matching_rows_def row_payload_def)
  then have "e \<in> row_index_entry C plan (s, i) doc" using assms(3) by (force simp: lookup_entry_def)
  with i(1) have "e \<in> space_entries Lookup_Index kv"
    using lookup_inv_index [OF assms(1)] by blast
  with i(3) show "e \<in> ?L" by (auto simp: space_entries_def parameter_lookup_index_key_def)
qed

context ingest_store
begin

lemma scan_lookup_spec:
  assumes "scan_parameter_lookup_entries C M t (lookup_id l) ks max_entries = r"
    and "lookup_inv C plan R (view t)" and "lookup_plan_ok plan" and "l \<in> set (lookups_of plan s)"
    and "length ks = length (key_bindings l)" and "\<not> (\<exists>e. r = Inl (Mdbx e))"
  shows "\<exists>ids. distinct ids \<and> set ids = matching_rows R s l ks \<and>
           (if length ids \<le> max_entries then r = Inr (map (row_payload R s l) ids)
            else \<exists>m. r = Inl (ResourceLimit m))"
proof -
  let ?p = "parameter_lookup_index_prefix (lookup_id l) ks"
  let ?e = "\<lambda>i. (parameter_lookup_index_key (lookup_id l) ks i, the (cr_payload_to_vec C (row_payload R s l i)))"
  obtain items where it: "t_iter_from M t ?p = Inr items" and col: "collect_entries C ?p max_entries [] items = r"
    using assms(1,6) by (cases "t_iter_from M t ?p")
      (auto simp: scan_parameter_lookup_entries_def Let_def t_iter_from_def elim: map_err.elims)
  note sc = t_iter_from_scan [OF it, unfolded is_scan_from_def]
  define pre rest where "pre = takeWhile (\<lambda>(k, v). starts_with ?p k) items"
    and "rest = dropWhile (\<lambda>(k, v). starts_with ?p k) items"
  have pre: "pre = filter (\<lambda>(k, v). starts_with ?p k) items"
    using sc takeWhile_prefix_filter [of items ?p] by (auto simp: pre_def)
  have "set pre = {(k, v). view t k = Some v \<and> starts_with ?p k}"
    using sc starts_with_ge [of ?p] by (auto simp: pre)
  then have set_pre: "set pre = ?e ` matching_rows R s l ks"
    using lookup_entries_under_prefix [OF assms(2-5)] by simp
  then obtain ids where ids: "pre = map ?e ids" "set ids \<subseteq> matching_rows R s l ks"
    using subset_image_map [of pre ?e "matching_rows R s l ks"] by auto
  have inj: "inj_on ?e (matching_rows R s l ks)" by (auto simp: inj_on_def parameter_lookup_index_key_inj)
  have set_ids: "set ids = matching_rows R s l ks"
    by (rule inj_on_image_eq_iff [THEN iffD1, OF inj ids(2) order_refl]) (simp add: set_pre [symmetric] ids(1))
  have "distinct (map fst pre)" using sc by (simp add: pre strict_sorted_iff distinct_map_filter)
  then have dist: "distinct ids" by (auto simp: ids(1) distinct_map)
  have dec: "cr_payload_from_slice C (snd (?e i)) = Some (row_payload R s l i)" if "i \<in> set ids" for i
  proof -
    obtain doc p where d: "R (s, i) = Some doc" "indexed_as l doc = Some (ks, p)"
      using \<open>i \<in> set ids\<close> set_ids by (auto simp: matching_rows_def)
    obtain bs where "cr_payload_to_vec C p = Some bs"
      using lookup_inv_payload [OF assms(2) d(1) assms(4) d(2)] by blast
    with d payload_codec [OF this] show ?thesis by (simp add: row_payload_def)
  qed
  have rest: "case rest of [] \<Rightarrow> True | (k, v) # _ \<Rightarrow> \<not> starts_with ?p k"
    by (auto simp: rest_def dropWhile_eq_Cons_conv split: list.splits)
  have its: "items = map ?e ids @ rest" unfolding ids(1) [symmetric] by (simp add: pre_def rest_def)
  have sw: "starts_with ?p (fst (?e i))" for i by (simp add: parameter_lookup_index_key_def)
  show ?thesis
  proof (intro exI [of _ ids] conjI dist set_ids)
    show "if length ids \<le> max_entries then r = Inr (map (row_payload R s l) ids)
          else \<exists>m. r = Inl (ResourceLimit m)"
    proof (cases "length ids \<le> max_entries")
      case True
      have "collect_entries C ?p max_entries [] (map ?e ids @ rest)
          = Inr (map (\<lambda>(k, v). the (cr_payload_from_slice C v)) (map ?e ids))"
        using collect_entries_spec [of "map ?e ids" ?p C rest "[]" max_entries] True dec sw rest by auto
      also have "map (\<lambda>(k, v). the (cr_payload_from_slice C v)) (map ?e ids) = map (row_payload R s l) ids"
        using dec by simp
      finally show ?thesis using True col its by simp
    next
      case False
      have "\<exists>m. collect_entries C ?p max_entries [] (map ?e ids @ rest) = Inl (ResourceLimit m)"
        using False dec sw by (intro collect_entries_limit) auto
      with False col its show ?thesis by simp
    qed
  qed
qed

end

end
