(* ===== verification/Store.thy ===== *)
theory Store
  imports Lookup_Invariant
begin

text \<open>
  The ingest store (\<open>replication/ingest/store.rs\<close>): the transactions that persist batches, snapshot
  rows and markers, the layout check, and the reads of the serving path. A store value holds the
  committed table, the layout version this instance has verified, and the last value sent on the
  tail-advance channel. An operation returns the new store with its result: an error inside a
  transaction leaves the committed table as it was, an error after the commit does not. The clock is
  the parameter \<open>now\<close> (milliseconds since the epoch, or the clock error); timing metrics are left
  out. The cache of accumulator targets in \<open>persist_initial_snapshot_rows\<close> memoizes a pure function,
  so the model calls the function.
\<close>

section \<open>State and transactions\<close>

record 't store =
  st_table :: 't
  st_verified_layout_version :: "string option"
  st_task_tail_advance :: nat

type_synonym ('t, 'a) outcome = "'t store \<times> 'a result"

definition run_rw :: "'t mdbx \<Rightarrow> 't store \<Rightarrow> ('t \<Rightarrow> ('t option \<times> 'a) result) \<Rightarrow> ('t, 'a) outcome" where
  "run_rw M st body =
     (case rbind (t_begin M (st_table st)) (\<lambda>t. rbind (body t) (\<lambda>(t', a).
             case t' of None \<Rightarrow> Inr (st_table st, a)
             | Some t \<Rightarrow> rbind (t_commit M t) (\<lambda>t. Inr (t, a)))) of
        Inl e \<Rightarrow> (st, Inl e)
      | Inr (t, a) \<Rightarrow> (st\<lparr>st_table := t\<rparr>, Inr a))"

definition run_ro :: "'t mdbx \<Rightarrow> 't store \<Rightarrow> ('t \<Rightarrow> 'a result) \<Rightarrow> 'a result" where
  "run_ro M st body = rbind (t_begin M (st_table st)) body"

fun obind :: "('t, 'a) outcome \<Rightarrow> ('t store \<Rightarrow> 'a \<Rightarrow> ('t, 'b) outcome) \<Rightarrow> ('t, 'b) outcome" where
  "obind (st, Inl e) f = (st, Inl e)"
| "obind (st, Inr a) f = f st a"

record PersistBatchOptions =
  persist_raw_batch :: bool
  assume_new_inserts :: bool
  snapshot_without_tail :: bool

section \<open>Layout version and cursor generations\<close>

definition INGEST_LAYOUT_FORMAT_VERSION :: string where
  "INGEST_LAYOUT_FORMAT_VERSION = ''global-op-index-retention-v3''"

definition CURSOR_IDS_PER_MILLISECOND :: nat where
  "CURSOR_IDS_PER_MILLISECOND = 1048576"

definition i64_max :: nat where
  "i64_max = 9223372036854775807"

definition next_cursor_generation_base :: "'t mdbx \<Rightarrow> string + nat \<Rightarrow> 't \<Rightarrow> nat result" where
  "next_cursor_generation_base M now t =
     rbind (map_err Mdbx now) (\<lambda>millis.
     rbind (if millis < u64_limit \<and> millis * CURSOR_IDS_PER_MILLISECOND < u64_limit
               \<and> millis * CURSOR_IDS_PER_MILLISECOND \<le> i64_max
            then Inr (millis * CURSOR_IDS_PER_MILLISECOND)
            else Inl (Mdbx ''system time cannot be represented in the signed 64-bit sync cursor space'')) (\<lambda>time_base.
     rbind (read_u64_or M t META_SYNC_TAIL_LAST_OP_ID_KEY ''previous sync tail last op id'' 0) (\<lambda>previous.
     if previous + 1 < u64_limit then Inr (max time_base (previous + 1))
     else Inl (Mdbx ''sync cursor space is exhausted''))))"

definition seed_cursor_generation :: "'t mdbx \<Rightarrow> 't \<Rightarrow> nat \<Rightarrow> 't result" where
  "seed_cursor_generation M t cursor_generation_base =
     rfold (\<lambda>t key. t_put M t key (decimal cursor_generation_base)) t
       [META_SYNC_TAIL_LAST_OP_ID_KEY, META_SYNC_TAIL_INDEXED_THROUGH_OP_ID_KEY,
        META_SYNC_TAIL_RETAINED_FLOOR_KEY]"

definition layout_version :: "string \<Rightarrow> string" where
  "layout_version expected = INGEST_LAYOUT_FORMAT_VERSION @ '':'' @ expected"

definition read_utf8 :: "'t mdbx \<Rightarrow> 't \<Rightarrow> bytes \<Rightarrow> string \<Rightarrow> string option result" where
  "read_utf8 M t key msg =
     rbind (t_get M t key) (\<lambda>bs.
       case bs of None \<Rightarrow> Inr None
       | Some bytes \<Rightarrow> if utf8_valid bytes then Inr (Some bytes) else Inl (CorruptBatch msg))"

definition ensure_layout_version_for ::
  "'t mdbx \<Rightarrow> string + nat \<Rightarrow> 't store \<Rightarrow> string \<Rightarrow> ('t, unit) outcome" where
  "ensure_layout_version_for M now st expected =
     (if st_verified_layout_version st = Some expected then (st, Inr ())
      else
        obind (run_rw M st (\<lambda>t.
          rbind (read_utf8 M t META_LAYOUT_VERSION_KEY ''layout version metadata is not UTF-8'') (\<lambda>current.
          if current = Some (layout_version expected) then Inr (Some t, ())
          else
            rbind (if current = None then Inr None
                   else rbind (next_cursor_generation_base M now t) (\<lambda>n. Inr (Some n))) (\<lambda>cursor_generation_base.
            rbind (t_clear M t) (\<lambda>t.
            rbind (t_put M t META_LAYOUT_VERSION_KEY (layout_version expected)) (\<lambda>t.
            rbind (case cursor_generation_base of None \<Rightarrow> Inr t
                   | Some n \<Rightarrow> seed_cursor_generation M t n) (\<lambda>t.
              Inr (Some t, ()))))))))
          (\<lambda>st _. (st\<lparr>st_verified_layout_version := Some expected\<rparr>, Inr ())))"

definition reset_for_layout_version ::
  "'t mdbx \<Rightarrow> string + nat \<Rightarrow> 't store \<Rightarrow> string \<Rightarrow> ('t, unit) outcome" where
  "reset_for_layout_version M now st expected =
     obind (ensure_layout_version_for M now st expected)
       (\<lambda>st _. (st\<lparr>st_task_tail_advance := 0\<rparr>, Inr ()))"

section \<open>Persisting batches\<close>

definition read_last_persisted_end_lsn :: "'t mdbx \<Rightarrow> 't \<Rightarrow> lsn option result" where
  "read_last_persisted_end_lsn M t =
     rbind (read_utf8 M t META_LAST_COMMIT_END_LSN_KEY ''last commit LSN metadata is not UTF-8'') (\<lambda>value.
       case value of None \<Rightarrow> Inr None
       | Some text \<Rightarrow>
           (case lsn_from_str text of
              Inl _ \<Rightarrow> Inl (InvalidPersistedLsn text)
            | Inr l \<Rightarrow> Inr (Some l)))"

definition last_persisted_end_lsn :: "'t mdbx \<Rightarrow> 't store \<Rightarrow> lsn option result" where
  "last_persisted_end_lsn M st = run_ro M st (read_last_persisted_end_lsn M)"

definition task_tail_last_op_id :: "'t mdbx \<Rightarrow> 't store \<Rightarrow> nat option result" where
  "task_tail_last_op_id M st =
     run_ro M st (\<lambda>t. read_optional_u64 M t META_SYNC_TAIL_LAST_OP_ID_KEY ''sync tail last op id'')"

definition announce_tail :: "'t mdbx \<Rightarrow> 't store \<Rightarrow> ('t, unit) outcome" where
  "announce_tail M st =
     (case task_tail_last_op_id M st of
        Inl e \<Rightarrow> (st, Inl e)
      | Inr None \<Rightarrow> (st, Inr ())
      | Inr (Some last_op_id) \<Rightarrow> (st\<lparr>st_task_tail_advance := last_op_id\<rparr>, Inr ()))"

definition persist_batch_body ::
  "crates \<Rightarrow> 't mdbx \<Rightarrow> bytes option \<Rightarrow> lsn \<Rightarrow> DerivedSyncTailOp list \<Rightarrow> DerivedParameterLookupOp list \<Rightarrow>
   RustExecutionPlan \<Rightarrow> bool \<Rightarrow> nat \<Rightarrow> nat \<Rightarrow> 't \<Rightarrow> ('t option \<times> bool) result" where
  "persist_batch_body C M encoded batch_end_lsn derived_sync_ops derived_lookup_ops plan without_tail
     tail_retain_ops tail_delete_chunk_ops t =
     rbind (read_last_persisted_end_lsn M t) (\<lambda>persisted.
     if (case persisted of None \<Rightarrow> False | Some l \<Rightarrow> batch_end_lsn \<le> l) then Inr (None, False)
     else
       rbind (case encoded of None \<Rightarrow> Inr t | Some bytes \<Rightarrow> t_put M t (batch_key batch_end_lsn) bytes) (\<lambda>t.
       rbind (t_put M t META_LAST_COMMIT_END_LSN_KEY (lsn_to_string batch_end_lsn)) (\<lambda>t.
       rbind (apply_parameter_lookup_ops C M t derived_lookup_ops plan) (\<lambda>t.
       rbind (if without_tail then persist_snapshot_current_ops_without_tail C M t derived_sync_ops plan
              else rbind (persist_task_tail_ops C M t derived_sync_ops plan)
                     (\<lambda>t. prune_sync_tail C M t tail_retain_ops tail_delete_chunk_ops)) (\<lambda>t.
         Inr (Some t, True))))))"

definition persist_batch_with_plan_options_and_tail_retention ::
  "crates \<Rightarrow> (ChangeEvent \<Rightarrow> bytes) \<Rightarrow> 't mdbx \<Rightarrow> string + nat \<Rightarrow> 't store \<Rightarrow> batch \<Rightarrow> RustExecutionPlan \<Rightarrow>
   PersistBatchOptions \<Rightarrow> nat \<Rightarrow> nat \<Rightarrow> ('t, unit) outcome" where
  "persist_batch_with_plan_options_and_tail_retention C ce_encode M now st batch plan options
     tail_retain_ops tail_delete_chunk_ops =
     obind (ensure_layout_version_for M now st (storage_contract_id plan)) (\<lambda>st _.
     let encoded = (if persist_raw_batch options then Some (batch_encode ce_encode batch) else None) in
     case rbind (derive_sync_tail_ops_with_options C batch plan (assume_new_inserts options)) (\<lambda>sync_ops.
          rbind (derive_parameter_lookup_ops batch plan) (\<lambda>lookup_ops. Inr (sync_ops, lookup_ops))) of
       Inl e \<Rightarrow> (st, Inl e)
     | Inr (derived_sync_ops, derived_lookup_ops) \<Rightarrow>
         obind (run_rw M st (persist_batch_body C M encoded (end_lsn batch) derived_sync_ops derived_lookup_ops
                  plan (snapshot_without_tail options) tail_retain_ops tail_delete_chunk_ops))
           (\<lambda>st persisted. if persisted then announce_tail M st else (st, Inr ())))"

section \<open>Initial snapshot\<close>

datatype SnapshotRowOrder = AnyOrder | ColumnName

definition serialize_snapshot_row ::
  "json_lib \<Rightarrow> SnapshotRowOrder \<Rightarrow> JsonColumnTypes option \<Rightarrow> row_data \<Rightarrow> sync_error + string" where
  "serialize_snapshot_row J row_order column_types row =
     (case row_order of
        AnyOrder \<Rightarrow>
          (case column_types of None \<Rightarrow> serialize_full_row_json J row
           | Some types \<Rightarrow> serialize_full_row_json_with_column_types J row types)
      | ColumnName \<Rightarrow>
          (case column_types of None \<Rightarrow> serialize_full_row_json_presorted J row
           | Some types \<Rightarrow> serialize_full_row_json_presorted_with_column_types J row types))"

definition persist_snapshot_row ::
  "crates \<Rightarrow> 't mdbx \<Rightarrow> RustExecutionPlan \<Rightarrow> CompiledTablePlan \<Rightarrow> CompiledLookupTablePlan option \<Rightarrow>
   SnapshotRowOrder \<Rightarrow> JsonColumnTypes option \<Rightarrow> 't \<times> CurrentAccumulatorDelta btree \<Rightarrow> row_data \<Rightarrow>
   ('t \<times> CurrentAccumulatorDelta btree) result" where
  "persist_snapshot_row C M plan tp lookup_table row_order column_types s row =
     (case s of (t, deltas) \<Rightarrow>
        rbind (case lookup_table of None \<Rightarrow> Inr t | Some lt \<Rightarrow> put_parameter_lookup_row C M t lt row) (\<lambda>t.
        rbind (map_err sync_rule_error_to_ingest_error (object_id_for_row tp row)) (\<lambda>object_id.
        rbind (map_err sync_rule_error_to_ingest_error (route_fields_for_row tp row True)) (\<lambda>rf.
        rbind (map_err sync_rule_error_to_ingest_error
                 (serialize_snapshot_row (cr_json C) row_order column_types row)) (\<lambda>data_json.
        let object_type = tp_object_type tp;
            document = \<lparr> doc_object_type = object_type, doc_object_id = object_id,
                         doc_route_fields = rf, doc_data_json = data_json \<rparr> in
        rbind (put_new_current_document_with_route_indexes M t document
                 (required_route_indexes_for_row plan object_type rf)) (\<lambda>t.
        rbind (collect_current_document_accumulator_delta_for_snapshot_targets C deltas
                 \<lparr> si_row = row, si_column_types = column_types, si_document = document \<rparr>
                 (current_accumulator_targets_for_row (cr_json C) plan object_type rf) Add_Delta) (\<lambda>deltas.
          Inr (t, deltas))))))))"

definition persist_initial_snapshot_rows ::
  "crates \<Rightarrow> 't mdbx \<Rightarrow> string + nat \<Rightarrow> 't store \<Rightarrow> string \<Rightarrow> row_data list \<Rightarrow> lsn \<Rightarrow> RustExecutionPlan \<Rightarrow>
   SnapshotRowOrder \<Rightarrow> JsonColumnTypes option \<Rightarrow> ('t, unit) outcome" where
  "persist_initial_snapshot_rows C M now st source_table rows snapshot_end_lsn plan row_order column_types =
     obind (ensure_layout_version_for M now st (storage_contract_id plan)) (\<lambda>st _.
     case (case table_plan plan source_table of
             Some tp \<Rightarrow> Some tp
           | None \<Rightarrow> Option.bind (rsplit_once (CHR ''.'') source_table) (\<lambda>(_, table). table_plan plan table)) of
       None \<Rightarrow> (st, Inl (CorruptBatch (''initial snapshot source table '' @ source_table
                                    @ '' is not present in sync plan'')))
     | Some tp \<Rightarrow>
         obind (run_rw M st (\<lambda>t.
           rbind (t_put M t META_LAST_COMMIT_END_LSN_KEY (lsn_to_string snapshot_end_lsn)) (\<lambda>t.
           rbind (rfold (persist_snapshot_row C M plan tp (lookup_table_plan plan source_table) row_order
                           column_types) (t, []) rows) (\<lambda>(t, deltas).
           rbind (persist_current_accumulator_deltas M t deltas) (\<lambda>t.
           rbind (advance_sync_tail_snapshot_floor M t (length rows)) (\<lambda>t.
             Inr (Some t, ())))))))
           (\<lambda>st _. announce_tail M st))"

definition persist_initial_snapshot_lookup_rows ::
  "crates \<Rightarrow> 't mdbx \<Rightarrow> string + nat \<Rightarrow> 't store \<Rightarrow> string \<Rightarrow> row_data list \<Rightarrow> lsn \<Rightarrow> RustExecutionPlan \<Rightarrow>
   ('t, unit) outcome" where
  "persist_initial_snapshot_lookup_rows C M now st source_table rows snapshot_end_lsn plan =
     obind (ensure_layout_version_for M now st (storage_contract_id plan)) (\<lambda>st _.
     case lookup_table_plan plan source_table of
       None \<Rightarrow> (st, Inl (CorruptBatch (''initial snapshot lookup source table '' @ source_table
                                    @ '' is not present in sync plan'')))
     | Some lt \<Rightarrow>
         run_rw M st (\<lambda>t.
           rbind (t_put M t META_LAST_COMMIT_END_LSN_KEY (lsn_to_string snapshot_end_lsn)) (\<lambda>t.
           rbind (rfold (\<lambda>t row. put_parameter_lookup_row C M t lt row) t rows) (\<lambda>t.
             Inr (Some t, ())))))"

definition persist_initial_snapshot_marker_with_plan ::
  "'t mdbx \<Rightarrow> string + nat \<Rightarrow> 't store \<Rightarrow> lsn \<Rightarrow> RustExecutionPlan \<Rightarrow> string \<Rightarrow> ('t, unit) outcome" where
  "persist_initial_snapshot_marker_with_plan M now st snapshot_lsn plan source_identity =
     obind (ensure_layout_version_for M now st (storage_contract_id plan)) (\<lambda>st _.
     obind (run_rw M st (\<lambda>t.
       rbind (t_put M t META_LAST_COMMIT_END_LSN_KEY (lsn_to_string snapshot_lsn)) (\<lambda>t.
       rbind (t_put M t META_INITIAL_SNAPSHOT_COMPLETE_KEY (lsn_to_string snapshot_lsn)) (\<lambda>t.
       rbind (t_put M t META_INITIAL_SNAPSHOT_SOURCE_IDENTITY_KEY source_identity) (\<lambda>t.
       rbind (read_u64_or M t META_SYNC_TAIL_LAST_OP_ID_KEY ''sync tail last op id'' 0) (\<lambda>snapshot_floor.
       rbind (t_put M t META_INITIAL_SNAPSHOT_CURSOR_FLOOR_KEY (decimal snapshot_floor)) (\<lambda>t.
       rbind (t_del M t META_INITIAL_SNAPSHOT_BOOTSTRAP_INTENT_KEY) (\<lambda>t.
         Inr (Some t, ())))))))))
       (\<lambda>st _. announce_tail M st))"

definition is_initial_snapshot_complete :: "'t mdbx \<Rightarrow> 't store \<Rightarrow> bool result" where
  "is_initial_snapshot_complete M st =
     run_ro M st (\<lambda>t.
       rbind (t_get M t META_INITIAL_SNAPSHOT_COMPLETE_KEY) (\<lambda>completed.
       rbind (t_get M t META_INITIAL_SNAPSHOT_SOURCE_IDENTITY_KEY) (\<lambda>identity.
         Inr (completed \<noteq> None \<and> identity \<noteq> None))))"

definition initial_snapshot_source_identity :: "'t mdbx \<Rightarrow> 't store \<Rightarrow> string option result" where
  "initial_snapshot_source_identity M st =
     run_ro M st (\<lambda>t. read_utf8 M t META_INITIAL_SNAPSHOT_SOURCE_IDENTITY_KEY
       ''snapshot source identity is not UTF-8'')"

definition initial_snapshot_bootstrap_intent :: "'t mdbx \<Rightarrow> 't store \<Rightarrow> string option result" where
  "initial_snapshot_bootstrap_intent M st =
     run_ro M st (\<lambda>t. read_utf8 M t META_INITIAL_SNAPSHOT_BOOTSTRAP_INTENT_KEY
       ''snapshot bootstrap intent is not UTF-8'')"

definition reset_incomplete_initial_snapshot ::
  "'t mdbx \<Rightarrow> string + nat \<Rightarrow> 't store \<Rightarrow> string \<Rightarrow> RustExecutionPlan \<Rightarrow> ('t, unit) outcome" where
  "reset_incomplete_initial_snapshot M now st intent plan =
     (let expected_contract = storage_contract_id plan in
      obind (run_rw M st (\<lambda>t.
        rbind (next_cursor_generation_base M now t) (\<lambda>cursor_generation_base.
        rbind (t_clear M t) (\<lambda>t.
        rbind (t_put M t META_LAYOUT_VERSION_KEY (layout_version expected_contract)) (\<lambda>t.
        rbind (t_put M t META_INITIAL_SNAPSHOT_BOOTSTRAP_INTENT_KEY intent) (\<lambda>t.
        rbind (seed_cursor_generation M t cursor_generation_base) (\<lambda>t.
          Inr (Some t, cursor_generation_base))))))))
        (\<lambda>st cursor_generation_base.
           (st\<lparr>st_verified_layout_version := Some expected_contract,
               st_task_tail_advance := cursor_generation_base\<rparr>, Inr ())))"

section \<open>Reads of raw batches, lookups and the tail\<close>

definition load_batch ::
  "(bytes \<Rightarrow> string + ChangeEvent) \<Rightarrow> 't mdbx \<Rightarrow> 't store \<Rightarrow> lsn \<Rightarrow> batch option result" where
  "load_batch ce_decode M st batch_end_lsn =
     run_ro M st (\<lambda>t.
       rbind (t_get M t (batch_key batch_end_lsn)) (\<lambda>encoded.
         case encoded of None \<Rightarrow> Inr None
         | Some bytes \<Rightarrow> rbind (batch_decode ce_decode bytes) (\<lambda>b. Inr (Some b))))"

definition read_parameter_lookup_rows ::
  "crates \<Rightarrow> 't mdbx \<Rightarrow> 't store \<Rightarrow> string \<Rightarrow> string list \<Rightarrow> nat \<Rightarrow> routes list result" where
  "read_parameter_lookup_rows C M st ident key_values max_entries =
     run_ro M st (\<lambda>t. scan_parameter_lookup_entries C M t ident key_values max_entries)"

definition load_task_tail_ops_since ::
  "crates \<Rightarrow> 't mdbx \<Rightarrow> 't store \<Rightarrow> nat \<Rightarrow> PersistedSyncTailOp list result" where
  "load_task_tail_ops_since C M st after =
     rbind (task_tail_last_op_id M st) (\<lambda>last.
       case last of None \<Rightarrow> Inr []
       | Some last_op_id \<Rightarrow>
           if after \<ge> last_op_id then Inr []
           else run_ro M st (\<lambda>t.
             rfold (\<lambda>ops op_id.
               rbind (t_get M t (sync_tail_op_key op_id)) (\<lambda>bs.
                 case bs of None \<Rightarrow> Inr ops
                 | Some bytes \<Rightarrow>
                     rbind (ok_or (CorruptBatch ''sync tail op is not valid JSON'') (cr_op_from_slice C bytes))
                       (\<lambda>x. Inr (ops @ [x])))) [] [after + 1..<last_op_id + 1]))"

definition indexes_behind :: "'t mdbx \<Rightarrow> 't \<Rightarrow> (nat \<times> nat) option result" where
  "indexes_behind M t =
     rbind (read_u64_or M t META_SYNC_TAIL_LAST_OP_ID_KEY ''sync tail last op id'' 0) (\<lambda>last_op_id.
     rbind (read_u64_or M t META_SYNC_TAIL_INDEXED_THROUGH_OP_ID_KEY ''sync tail indexed-through op id'' 0)
       (\<lambda>indexed_through.
         Inr (if indexed_through \<ge> last_op_id then None else Some (indexed_through, last_op_id))))"

definition backfill_indexes ::
  "crates \<Rightarrow> 't mdbx \<Rightarrow> RustExecutionPlan \<Rightarrow> nat \<Rightarrow> nat \<Rightarrow> 't \<Rightarrow> 't result" where
  "backfill_indexes C M plan indexed_through last_op_id t =
     rbind (rfold (\<lambda>(t, deltas) op_id.
       rbind (read_sync_tail_op C M t op_id) (\<lambda>x.
       rbind (persist_sync_tail_index_entries_if_missing M t x plan) (\<lambda>t.
       rbind (collect_checkpoint_accumulator_deltas_for_op C deltas x plan) (\<lambda>deltas.
         Inr (t, deltas))))) (t, []) [indexed_through + 1..<last_op_id + 1]) (\<lambda>(t, deltas).
     rbind (persist_checkpoint_accumulator_deltas M t deltas) (\<lambda>t.
       t_put M t META_SYNC_TAIL_INDEXED_THROUGH_OP_ID_KEY (decimal last_op_id)))"

definition ensure_sync_tail_indexes_current ::
  "crates \<Rightarrow> 't mdbx \<Rightarrow> RustExecutionPlan \<Rightarrow> 't store \<Rightarrow> ('t, unit) outcome" where
  "ensure_sync_tail_indexes_current C M plan st =
     (case run_ro M st (indexes_behind M) of
        Inl e \<Rightarrow> (st, Inl e)
      | Inr None \<Rightarrow> (st, Inr ())
      | Inr (Some _) \<Rightarrow>
          run_rw M st (\<lambda>t.
            rbind (indexes_behind M t) (\<lambda>behind.
              case behind of
                None \<Rightarrow> Inr (None, ())
              | Some (indexed_through, last_op_id) \<Rightarrow>
                  rbind (backfill_indexes C M plan indexed_through last_op_id t) (\<lambda>t. Inr (Some t, ())))))"

definition indexed_task_tail_last_op_id ::
  "crates \<Rightarrow> 't mdbx \<Rightarrow> RustExecutionPlan \<Rightarrow> 't store \<Rightarrow> string list \<Rightarrow> ('t, nat) outcome" where
  "indexed_task_tail_last_op_id C M plan st index_keys =
     (if index_keys = [] then (st, Inr 0)
      else obind (ensure_sync_tail_indexes_current C M plan st) (\<lambda>st _.
        (st, run_ro M st (\<lambda>t. read_u64_or M t META_SYNC_TAIL_LAST_OP_ID_KEY ''sync tail last op id'' 0))))"

definition load_indexed_task_tail_ops_since ::
  "crates \<Rightarrow> 't mdbx \<Rightarrow> RustExecutionPlan \<Rightarrow> 't store \<Rightarrow> string list \<Rightarrow> nat \<Rightarrow> ('t, IndexedSyncTailOps) outcome" where
  "load_indexed_task_tail_ops_since C M plan st index_keys after =
     (if index_keys = [] then (st, Inr \<lparr> ix_latest_op_id = 0, ix_ops = [] \<rparr>)
      else obind (ensure_sync_tail_indexes_current C M plan st) (\<lambda>st _.
        (st, run_ro M st (\<lambda>t.
           rbind (read_u64_or M t META_SYNC_TAIL_LAST_OP_ID_KEY ''sync tail last op id'' 0) (\<lambda>latest_op_id.
           if after \<ge> latest_op_id then Inr \<lparr> ix_latest_op_id = latest_op_id, ix_ops = [] \<rparr>
           else
             rbind (rfold (\<lambda>ids index_key.
                      scan_sync_tail_index_entries M t index_key (after + 1) latest_op_id ids) [] index_keys) (\<lambda>ids.
             rbind (rmap (read_sync_tail_op C M t) (btset_of_list ids)) (\<lambda>ops.
               Inr \<lparr> ix_latest_op_id = latest_op_id, ix_ops = ops \<rparr>)))))))"

end
