(* ===== verification/Store_Invariant.thy ===== *)
theory Store_Invariant
  imports Store
begin

text \<open>
  The invariant of the whole store and its preservation by the batch transaction. The abstract state
  is the triple of the current documents, the retained tail operations and the lookup rows; the
  invariant joins the three component invariants and the place of the retained ids between the
  floors and the last id. Persisting a batch is refined by \<open>abs_persist\<close>: derived operations act on
  the documents and are appended to the log with consecutive ids, lookup operations act on the rows,
  and the log is cut at the retention floor.
\<close>

record abs_store =
  ab_docs :: docs
  ab_tail :: tail
  ab_rows :: lookup_rows

abbreviation "last_id kv \<equiv> counter_of kv META_SYNC_TAIL_LAST_OP_ID_KEY"
abbreviation "indexed_id kv \<equiv> counter_of kv META_SYNC_TAIL_INDEXED_THROUGH_OP_ID_KEY"
abbreviation "retained_id kv \<equiv> counter_of kv META_SYNC_TAIL_RETAINED_FLOOR_KEY"
abbreviation "snapshot_id kv \<equiv> counter_of kv META_INITIAL_SNAPSHOT_CURSOR_FLOOR_KEY"

definition store_inv :: "crates \<Rightarrow> RustExecutionPlan \<Rightarrow> abs_store \<Rightarrow> kv \<Rightarrow> bool" where
  "store_inv C plan A kv \<longleftrightarrow>
     current_inv C plan (ab_docs A) kv \<and> tail_inv C plan (ab_tail A) kv \<and> lookup_inv C plan (ab_rows A) kv \<and>
     (\<forall>n \<in> dom (ab_tail A). snapshot_id kv < n \<and> retained_id kv < n \<and> n \<le> last_id kv) \<and>
     snapshot_id kv \<le> last_id kv \<and> retained_id kv \<le> last_id kv \<and> last_id kv \<le> indexed_id kv"

text \<open>A log without holes: every id above both floors up to the last one is retained.\<close>

definition tail_dense :: "abs_store \<Rightarrow> kv \<Rightarrow> bool" where
  "tail_dense A kv \<longleftrightarrow>
     dom (ab_tail A) = {n. snapshot_id kv < n \<and> retained_id kv < n \<and> n \<le> last_id kv}"

section \<open>The empty store\<close>

lemma empty_invs:
  "current_inv C plan Map.empty Map.empty" "tail_inv C plan Map.empty Map.empty" "lookup_inv C plan Map.empty Map.empty"
  by (simp_all add: current_inv_def tail_inv_def lookup_inv_def docs_ok_def space_entries_def doc_entries_def
      route_entries_def accs_match_def acc_of_def total_contribution_def acc_default_def)

lemma meta_only_invs:
  assumes "\<And>k. key_space_of k \<noteq> Some Meta \<Longrightarrow> kv k = None"
  shows "current_inv C plan Map.empty kv" "tail_inv C plan Map.empty kv" "lookup_inv C plan Map.empty kv"
  by (rule current_inv_cong [OF _ empty_invs(1)] tail_inv_cong [OF _ empty_invs(2)] lookup_inv_cong [OF _ empty_invs(3)];
      use assms in auto)+

section \<open>Floors after an append and a prune\<close>

definition retention_floor :: "nat \<Rightarrow> kv \<Rightarrow> nat" where
  "retention_floor retain kv = max (retained_id kv) (last_id kv - retain)"

lemma dom_log_append: "dom (log_append L xs) = dom L \<union> so_op_id ` set xs"
  by (induction xs arbitrary: L) (auto simp: log_append_def)

lemma set_number_ops_ids: "so_op_id ` set (number_ops l ds) = {n. l < n \<and> n \<le> l + length ds}"
proof -
  have "so_op_id ` set (number_ops l ds) = set (map so_op_id (number_ops l ds))" by simp
  also have "\<dots> = {n. l < n \<and> n \<le> l + length ds}" unfolding number_ops_ids by auto
  finally show ?thesis .
qed

lemma mat_specs_length [simp]: "length (mat_specs D xs) = length xs"
  by (induction xs arbitrary: D) simp_all

definition abs_persist ::
  "RustExecutionPlan \<Rightarrow> DerivedSyncTailOp list \<Rightarrow> DerivedParameterLookupOp list \<Rightarrow> nat \<Rightarrow> nat \<Rightarrow> abs_store \<Rightarrow> abs_store" where
  "abs_persist plan ops lookup_ops lst flr A =
     \<lparr> ab_docs = foldl abs_apply (ab_docs A) ops,
       ab_tail = log_append (ab_tail A) (number_ops lst (mat_specs (ab_docs A) ops)) |` {n. flr < n},
       ab_rows = abs_lookups plan (ab_rows A) lookup_ops \<rparr>"

context ingest_store
begin

lemma read_lsn_view:
  assumes "read_last_persisted_end_lsn M t = Inr r"
  shows "case r of None \<Rightarrow> view t META_LAST_COMMIT_END_LSN_KEY = None
         | Some l \<Rightarrow> \<exists>s. view t META_LAST_COMMIT_END_LSN_KEY = Some s \<and> lsn_from_str s = Inr l"
  using assms
  by (auto simp: read_last_persisted_end_lsn_def read_utf8_def dest!: t_get_view elim!: rbindE
      split: option.splits if_splits sum.splits)

lemma tail_branch_spec:
  assumes p: "persist_task_tail_ops C M t ops plan = Inr t1" and q: "prune_sync_tail C M t1 retain chunk = Inr t'"
    and inv: "store_inv C plan A (view t)" and ok: "ops_ok (ab_docs A) ops"
    and lim: "last_id (view t) + length ops < u64_limit"
  defines "lst \<equiv> last_id (view t) + length ops"
  defines "flr \<equiv> max (retained_id (view t)) (lst - retain)"
  shows "store_inv C plan (abs_persist plan ops [] (last_id (view t)) flr A) (view t') \<and>
     last_id (view t') = lst \<and> retained_id (view t') = flr \<and>
     (\<forall>k. key_space_of k \<in> {Some Meta, Some Batch, Some Lookup_Row, Some Lookup_Index} \<longrightarrow>
        k \<notin> {META_SYNC_TAIL_LAST_OP_ID_KEY, META_SYNC_TAIL_INDEXED_THROUGH_OP_ID_KEY,
             META_SYNC_TAIL_RETAINED_FLOOR_KEY} \<longrightarrow> view t' k = view t k)"
proof -
  let ?D = "ab_docs A" and ?L = "ab_tail A" and ?l = "last_id (view t)"
  let ?log = "number_ops ?l (mat_specs ?D ops)"
  note i = inv [unfolded store_inv_def]
  have dl: "\<forall>n \<in> dom ?L. n \<le> ?l" using i by blast
  note s = persist_task_tail_ops_spec [OF p _ _ ok dl lim]
  have cur: "current_inv C plan (foldl abs_apply ?D ops) (view t1)" using s(1) i by blast
  have tl: "tail_inv C plan (log_append ?L ?log) (view t1)" using s(2) i by blast
  have cnt: "last_id (view t1) = lst" "indexed_id (view t1) = (if ops = [] then indexed_id (view t) else lst)"
    using s(3,5) i by (auto simp: lst_def)
  have fr1: "view t1 k = view t k"
    if "key_space_of k \<in> {Some Meta, Some Batch, Some Lookup_Row, Some Lookup_Index}"
      "k \<notin> {META_SYNC_TAIL_LAST_OP_ID_KEY, META_SYNC_TAIL_INDEXED_THROUGH_OP_ID_KEY}" for k
    using s(6) [OF _ _ that] i by blast
  have floors: "retained_id (view t1) = retained_id (view t)" "snapshot_id (view t1) = snapshot_id (view t)"
    by (rule counter_of_cong, rule fr1; simp)+
  have dom1: "snapshot_id (view t1) < n \<and> retained_id (view t1) < n" if "n \<in> dom (log_append ?L ?log)" for n
  proof (cases "n \<in> dom ?L")
    case True
    then show ?thesis using i floors by simp
  next
    case False
    with that have "?l < n" unfolding dom_log_append set_number_ops_ids by simp
    moreover have "snapshot_id (view t) \<le> ?l" "retained_id (view t) \<le> ?l" using i by blast+
    ultimately show ?thesis using floors by simp
  qed
  note q' = prune_sync_tail_spec [OF q tl dom1, unfolded cnt(1) floors(1)]
  have fr2: "view t' k = view t1 k"
    if "key_space_of k \<notin> {Some Tail_Op, Some Tail_Refs, Some Tail_Index}" "k \<noteq> META_SYNC_TAIL_RETAINED_FLOOR_KEY" for k
    using q'(3) that by blast
  have c2: "last_id (view t') = lst" "indexed_id (view t') = indexed_id (view t1)"
    "snapshot_id (view t') = snapshot_id (view t)" "retained_id (view t') = flr"
    using cnt(1) floors(2) q'(2) fr2 by (simp_all add: flr_def counter_of_def)
  have cur': "current_inv C plan (foldl abs_apply ?D ops) (view t')"
  proof (rule current_inv_cong [OF _ cur])
    fix k assume "key_space_of k \<in> {Some Current_Doc, Some Current_Route, Some Current_Checkpoint}"
    then show "view t' k = view t1 k" by (intro fr2) auto
  qed
  have tl': "tail_inv C plan (log_append ?L ?log |` {n. flr < n}) (view t')"
    using q'(1) by (simp add: flr_def)
  have lk': "lookup_inv C plan (ab_rows A) (view t')"
  proof (rule lookup_inv_cong)
    show "lookup_inv C plan (ab_rows A) (view t)" using i by (elim conjE)
    fix k assume k: "key_space_of k \<in> {Some Lookup_Row, Some Lookup_Index}"
    then have "k \<notin> {META_SYNC_TAIL_LAST_OP_ID_KEY, META_SYNC_TAIL_INDEXED_THROUGH_OP_ID_KEY,
        META_SYNC_TAIL_RETAINED_FLOOR_KEY}" by auto
    with k show "view t' k = view t k" using fr1 [of k] fr2 [of k] by auto
  qed
  have dom': "snapshot_id (view t) < n \<and> flr < n \<and> n \<le> lst"
    if n: "n \<in> dom (log_append ?L ?log |` {n. flr < n})" for n
  proof -
    have m: "n \<in> dom (log_append ?L ?log)" and f: "flr < n"
      using n by (auto simp: restrict_map_def dom_def split: if_splits)
    have "n \<le> lst"
    proof (cases "n \<in> dom ?L")
      case True
      then show ?thesis using bspec [OF dl True] by (simp add: lst_def)
    next
      case False
      then show ?thesis using m unfolding dom_log_append set_number_ops_ids by (simp add: lst_def)
    qed
    with f dom1 [OF m] show ?thesis unfolding floors by blast
  qed
  have "snapshot_id (view t) \<le> ?l" "retained_id (view t) \<le> ?l" "?l \<le> indexed_id (view t)" using i by blast+
  then have "snapshot_id (view t) \<le> lst" "flr \<le> lst" "lst \<le> indexed_id (view t1)"
    unfolding cnt(2) by (auto simp: lst_def flr_def)
  with cur' tl' lk' dom' have "store_inv C plan (abs_persist plan ops [] ?l flr A) (view t')"
    unfolding store_inv_def abs_persist_def abs_lookups_def c2 abs_store.select_convs foldl.simps
    by (intro conjI ballI) blast+
  moreover have "view t' k = view t k"
    if "key_space_of k \<in> {Some Meta, Some Batch, Some Lookup_Row, Some Lookup_Index}"
      "k \<notin> {META_SYNC_TAIL_LAST_OP_ID_KEY, META_SYNC_TAIL_INDEXED_THROUGH_OP_ID_KEY, META_SYNC_TAIL_RETAINED_FLOOR_KEY}" for k
    using that fr1 [of k] fr2 [of k] by auto
  ultimately show ?thesis using c2 by simp
qed

section \<open>Persisting a batch\<close>

lemma lookup_frame:
  assumes "same_outside_lookup kv kv'" and "key_space_of k \<notin> {Some Lookup_Row, Some Lookup_Index}"
  shows "kv' k = kv k"
  using assms by (simp add: same_outside_lookup_def)

lemma store_inv_frame:
  assumes "store_inv C plan A kv" and "lookup_inv C plan R kv'"
    and "\<And>k. key_space_of k \<notin> {Some Lookup_Row, Some Lookup_Index} \<Longrightarrow> key_space_of k \<noteq> Some Batch \<Longrightarrow>
           k \<noteq> META_LAST_COMMIT_END_LSN_KEY \<Longrightarrow> kv' k = kv k"
  shows "store_inv C plan (A\<lparr>ab_rows := R\<rparr>) kv'"
proof -
  have c: "last_id kv' = last_id kv" "indexed_id kv' = indexed_id kv" "retained_id kv' = retained_id kv"
    "snapshot_id kv' = snapshot_id kv"
    by (rule counter_of_cong, rule assms(3); simp)+
  have ne: "k \<noteq> META_LAST_COMMIT_END_LSN_KEY" if "key_space_of k \<noteq> Some Meta" for k using that by auto
  have "current_inv C plan (ab_docs A) kv'"
    using assms(1) by (intro current_inv_cong [of kv' kv]) (auto simp: store_inv_def intro!: assms(3) ne)
  moreover have "tail_inv C plan (ab_tail A) kv'"
    using assms(1) by (intro tail_inv_cong [of kv' kv]) (auto simp: store_inv_def intro!: assms(3) ne)
  ultimately show ?thesis using assms(1,2) by (simp add: store_inv_def c)
qed

lemma persist_batch_body_redelivery:
  assumes "persist_batch_body C M encoded el ops lops plan wt retain chunk t = Inr (t', False)"
  shows "t' = None" and "\<exists>s l. view t META_LAST_COMMIT_END_LSN_KEY = Some s \<and> lsn_from_str s = Inr l \<and> el \<le> l"
proof -
  obtain l where r: "read_last_persisted_end_lsn M t = Inr (Some l)" and "el \<le> l" and t': "t' = None"
    using assms by (auto simp: persist_batch_body_def elim!: rbindE split: if_splits option.splits)
  show "t' = None" by (rule t')
  show "\<exists>s l. view t META_LAST_COMMIT_END_LSN_KEY = Some s \<and> lsn_from_str s = Inr l \<and> el \<le> l"
    using read_lsn_view [OF r] \<open>el \<le> l\<close> by auto
qed

lemma persist_batch_body_spec:
  assumes "persist_batch_body C M encoded el ops lops plan False retain chunk t = Inr (Some t', True)"
    and "store_inv C plan A (view t)" and "lookup_plan_ok plan" and "ops_ok (ab_docs A) ops"
    and "last_id (view t) + length ops < u64_limit"
  defines "lst \<equiv> last_id (view t) + length ops"
  defines "flr \<equiv> max (retained_id (view t)) (lst - retain)"
  shows "store_inv C plan (abs_persist plan ops lops (last_id (view t)) flr A) (view t')"
    and "last_id (view t') = lst" and "retained_id (view t') = flr" and "snapshot_id (view t') = snapshot_id (view t)"
    and "view t' META_LAST_COMMIT_END_LSN_KEY = Some (lsn_to_string el)"
    and "\<And>bs. encoded = Some bs \<Longrightarrow> view t' (batch_key el) = Some bs"
    and "view t' META_LAYOUT_VERSION_KEY = view t META_LAYOUT_VERSION_KEY"
    and "\<And>s l. view t META_LAST_COMMIT_END_LSN_KEY = Some s \<Longrightarrow> lsn_from_str s = Inr l \<Longrightarrow> l < el"
proof -
  obtain t1 t2 t3 t4 where
    e: "(case encoded of None \<Rightarrow> Inr t | Some bytes \<Rightarrow> t_put M t (batch_key el) bytes) = Inr t1"
    and w: "t_put M t1 META_LAST_COMMIT_END_LSN_KEY (lsn_to_string el) = Inr t2"
    and lk: "apply_parameter_lookup_ops C M t2 lops plan = Inr t3"
    and p: "persist_task_tail_ops C M t3 ops plan = Inr t4" and q: "prune_sync_tail C M t4 retain chunk = Inr t'"
    using assms(1) by (auto simp: persist_batch_body_def elim!: rbindE split: if_splits)
  have v1: "view t1 = (case encoded of None \<Rightarrow> view t | Some bs \<Rightarrow> (view t)(batch_key el \<mapsto> bs))"
    using e by (auto dest: t_put_view split: option.splits)
  have v2: "view t2 = (view t1)(META_LAST_COMMIT_END_LSN_KEY \<mapsto> lsn_to_string el)" by (rule t_put_view [OF w])
  have li: "lookup_inv C plan (ab_rows A) (view t)" using assms(2) by (simp add: store_inv_def)
  have "lookup_inv C plan (ab_rows A) (view t2)"
    by (rule lookup_inv_cong [OF _ li]) (auto simp: v2 v1 split: option.splits)
  note lk' = apply_lookup_ops_abs [OF lk this assms(3)]
  let ?A = "A\<lparr>ab_rows := abs_lookups plan (ab_rows A) lops\<rparr>"
  have fr3: "view t3 k = view t2 k" if "key_space_of k \<notin> {Some Lookup_Row, Some Lookup_Index}" for k
    using lookup_frame [OF conjunct2 [OF lk'] that] .
  have s3: "store_inv C plan ?A (view t3)"
    by (rule store_inv_frame [OF assms(2) conjunct1 [OF lk']])
      (subst fr3, auto simp: v2 v1 split: option.splits)
  have c3: "last_id (view t3) = last_id (view t)" "retained_id (view t3) = retained_id (view t)"
    "snapshot_id (view t3) = snapshot_id (view t)"
    using fr3 by (simp_all add: counter_of_def v2 v1 split: option.splits)
  have ok: "ops_ok (ab_docs ?A) ops" "last_id (view t3) + length ops < u64_limit" using assms(4,5) c3 by simp_all
  note tb = tail_branch_spec [OF p q s3 ok]
  have "abs_persist plan ops [] (last_id (view t3)) flr ?A = abs_persist plan ops lops (last_id (view t)) flr A"
    by (simp add: abs_persist_def abs_lookups_def c3)
  then show "store_inv C plan (abs_persist plan ops lops (last_id (view t)) flr A) (view t')"
    using tb by (simp add: c3 lst_def flr_def)
  show "last_id (view t') = lst" "retained_id (view t') = flr"
    using tb by (simp_all add: c3 lst_def flr_def)
  have fr4: "view t' k = view t3 k"
    if "key_space_of k \<in> {Some Meta, Some Batch}"
      "k \<notin> {META_SYNC_TAIL_LAST_OP_ID_KEY, META_SYNC_TAIL_INDEXED_THROUGH_OP_ID_KEY, META_SYNC_TAIL_RETAINED_FLOOR_KEY}" for k
    using tb that by auto
  have "snapshot_id (view t') = snapshot_id (view t3)" by (rule counter_of_cong, rule fr4) simp_all
  then show "snapshot_id (view t') = snapshot_id (view t)" using c3 by simp
  show "view t' META_LAST_COMMIT_END_LSN_KEY = Some (lsn_to_string el)"
    by (subst fr4, simp, simp, subst fr3) (simp_all add: v2)
  show "view t' (batch_key el) = Some bs" if "encoded = Some bs" for bs
    using that by (subst fr4, simp, simp, subst fr3) (simp_all add: v2 v1)
  show "view t' META_LAYOUT_VERSION_KEY = view t META_LAYOUT_VERSION_KEY"
    by (subst fr4, simp, simp, subst fr3) (simp_all add: v2 v1 split: option.splits)
  show "l < el" if "view t META_LAST_COMMIT_END_LSN_KEY = Some s" "lsn_from_str s = Inr l" for s l
    using assms(1) that by (auto simp: persist_batch_body_def dest!: read_lsn_view elim!: rbindE split: if_splits option.splits)
qed

end

end
