(* ===== verification/Store_Ops.thy ===== *)
theory Store_Ops
  imports Store_Invariant
begin

text \<open>
  The store operations as transactions: what a committed, an abandoned and a failed transaction leave
  of the table, the layout check, and the batch operation as a whole. The last lemma is the
  refinement of \<open>persist_batch_with_plan_options_and_tail_retention\<close> by \<open>abs_persist\<close>.
\<close>

section \<open>Transactions\<close>

lemma run_rw_error: "run_rw M st body = (st', Inl e) \<Longrightarrow> st' = st"
  by (auto simp: run_rw_def split: sum.splits)

lemma obind_Inr_iff: "obind m f = (st', Inr b) \<longleftrightarrow> (\<exists>st a. m = (st, Inr a) \<and> f st a = (st', Inr b))"
  by (cases m; cases "snd m") auto

lemma obind_error:
  "obind m f = (st', Inl e) \<Longrightarrow> (\<And>st a. f st a = (st', Inl e) \<Longrightarrow> False) \<Longrightarrow> m = (st', Inl e)"
  by (cases m; cases "snd m") auto

context mdbx_table
begin

lemma run_rw_cases:
  assumes "run_rw M st body = (st', Inr a)"
  obtains t where "view t = view (st_table st)" and "body t = Inr (None, a)" and "st' = st"
    | t t1 t2 where "view t = view (st_table st)" and "body t = Inr (Some t1, a)" and "view t2 = view t1"
        and "st' = st\<lparr>st_table := t2\<rparr>"
proof -
  obtain t r t2 where t: "t_begin M (st_table st) = Inr t" and b: "body t = Inr (r, a)"
    and c: "(case r of None \<Rightarrow> Inr (st_table st) | Some t1 \<Rightarrow> t_commit M t1) = Inr t2"
    and st': "st' = st\<lparr>st_table := t2\<rparr>"
  proof (cases "t_begin M (st_table st)")
    case (Inr t)
    then show thesis using that [OF Inr] assms
      by (cases "body t")
        (auto simp: run_rw_def rbind_Inr_iff split: sum.splits option.splits prod.splits elim!: rbindE)
  qed (use assms in \<open>simp add: run_rw_def\<close>)
  note v = t_begin_view [OF t]
  show thesis
  proof (cases r)
    case None
    then show thesis using that(1) [OF v] b c st' by simp
  next
    case (Some t1)
    then show thesis using that(2) [OF v _ _ st'] b c t_commit_view [of t1 t2] by simp
  qed
qed

lemma run_ro_cases:
  assumes "run_ro M st body = Inr a"
  obtains t where "view t = view (st_table st)" and "body t = Inr a"
  using assms by (auto simp: run_ro_def rbind_Inr_iff dest: t_begin_view)

lemma announce_tail_table: "announce_tail M st = (st', r) \<Longrightarrow> st_table st' = st_table st"
  by (auto simp: announce_tail_def split: sum.splits option.splits)

lemma read_optional_u64_view:
  "read_optional_u64 M t key label = Inr r \<Longrightarrow>
   (r = None \<longleftrightarrow> view t key = None) \<and> (\<forall>n. r = Some n \<longrightarrow> n = counter_of (view t) key)"
proof (cases "t_get M t key")
  case (Inr v)
  moreover assume "read_optional_u64 M t key label = Inr r"
  ultimately show ?thesis
    by (cases v; cases "parse_u64 (the v)")
      (auto simp: read_optional_u64_def parse_decimal_u64_def counter_of_def t_get_view [OF Inr, symmetric]
        dest!: sym [of "Some _"] split: if_splits)
qed (simp add: read_optional_u64_def)

lemma announce_tail_value:
  assumes "announce_tail M st = (st', Inr ())" and "view (st_table st) META_SYNC_TAIL_LAST_OP_ID_KEY \<noteq> None"
  shows "st_task_tail_advance st' = counter_of (view (st_table st)) META_SYNC_TAIL_LAST_OP_ID_KEY"
proof -
  obtain r where r: "task_tail_last_op_id M st = Inr r"
    using assms(1) by (cases "task_tail_last_op_id M st") (simp_all add: announce_tail_def)
  then obtain t where v: "view t = view (st_table st)"
    and t: "read_optional_u64 M t META_SYNC_TAIL_LAST_OP_ID_KEY ''sync tail last op id'' = Inr r"
    unfolding task_tail_last_op_id_def by (rule run_ro_cases)
  from read_optional_u64_view [OF t] assms(2) v obtain n where
    "r = Some n" "n = counter_of (view (st_table st)) META_SYNC_TAIL_LAST_OP_ID_KEY" by (cases r) auto
  then show ?thesis using assms(1) r by (auto simp: announce_tail_def)
qed

section \<open>Layout check\<close>

lemma ensure_layout_same:
  assumes "ensure_layout_version_for M now st c = (st', Inr ())"
    and "view (st_table st) META_LAYOUT_VERSION_KEY = Some (layout_version c)"
  shows "view (st_table st') = view (st_table st)" and "st_task_tail_advance st' = st_task_tail_advance st"
    and "st_verified_layout_version st' = Some c"
proof -
  have "view (st_table st') = view (st_table st) \<and> st_task_tail_advance st' = st_task_tail_advance st \<and>
    st_verified_layout_version st' = Some c"
  proof (cases "st_verified_layout_version st = Some c")
    case True
    then show ?thesis using assms(1) by (simp add: ensure_layout_version_for_def)
  next
    case False
    then show ?thesis using assms
      by (auto simp: ensure_layout_version_for_def obind_Inr_iff rbind_Inr_iff read_utf8_def
          dest!: t_get_view elim!: run_rw_cases split: if_splits)
  qed
  then show "view (st_table st') = view (st_table st)" "st_task_tail_advance st' = st_task_tail_advance st"
    "st_verified_layout_version st' = Some c" by simp_all
qed

lemma ensure_layout_any:
  assumes "ensure_layout_version_for M now st c = (st', r)"
    and "view (st_table st) META_LAYOUT_VERSION_KEY = Some (layout_version c)"
  shows "view (st_table st') = view (st_table st)"
proof (cases r)
  case (Inl x)
  then have "st' = st"
    using assms(1) unfolding ensure_layout_version_for_def
    by (cases "st_verified_layout_version st = Some c") (auto split: prod.splits dest!: obind_error run_rw_error)
  then show ?thesis by simp
qed (use assms ensure_layout_same(1) in auto)

end

section \<open>The batch operation\<close>

text \<open>
  What a batch leaves of the table: it was persisted before and the table is as it was, or the whole
  transaction is there, the layout kept and the end positions in order.
\<close>

definition batch_effect ::
  "crates \<Rightarrow> (ChangeEvent \<Rightarrow> bytes) \<Rightarrow> batch \<Rightarrow> RustExecutionPlan \<Rightarrow> PersistBatchOptions \<Rightarrow> nat \<Rightarrow> DerivedSyncTailOp list \<Rightarrow>
   abs_store \<Rightarrow> kv \<Rightarrow> kv \<Rightarrow> bool" where
  "batch_effect C enc b plan opts retain ops A kv kv' \<longleftrightarrow>
     (\<exists>s l. kv META_LAST_COMMIT_END_LSN_KEY = Some s \<and> lsn_from_str s = Inr l \<and> end_lsn b \<le> l) \<and> kv' = kv
    \<or> (\<exists>lops flr. derive_parameter_lookup_ops b plan = Inr lops \<and>
        flr = max (retained_id kv) (last_id kv + length ops - retain) \<and>
        store_inv C plan (abs_persist plan ops lops (last_id kv) flr A) kv' \<and>
        last_id kv' = last_id kv + length ops \<and> retained_id kv' = flr \<and> snapshot_id kv' = snapshot_id kv \<and>
        kv' META_LAST_COMMIT_END_LSN_KEY = Some (lsn_to_string (end_lsn b)) \<and>
        (persist_raw_batch opts \<longrightarrow> kv' (batch_key (end_lsn b)) = Some (batch_encode enc b)) \<and>
        kv' META_LAYOUT_VERSION_KEY = kv META_LAYOUT_VERSION_KEY \<and>
        (\<forall>s l. kv META_LAST_COMMIT_END_LSN_KEY = Some s \<longrightarrow> lsn_from_str s = Inr l \<longrightarrow> l < end_lsn b))"

context ingest_store
begin

lemma persist_batch_committed:
  assumes rw: "run_rw M st1 (persist_batch_body C M (if persist_raw_batch opts then Some (batch_encode enc b) else None)
      (end_lsn b) ops lops plan False retain chunk) = (st2, Inr p)"
    and lops: "derive_parameter_lookup_ops b plan = Inr lops"
    and inv: "store_inv C plan A (view (st_table st1))"
    and plan: "plan_types_ok plan" "lookup_plan_ok plan"
    and ops: "derive_sync_tail_ops_with_options C b plan False = Inr ops" "\<forall>x \<in> set ops. put_fits x"
    and lim: "last_id (view (st_table st1)) + length ops < u64_limit"
  shows "batch_effect C enc b plan opts retain ops A (view (st_table st1)) (view (st_table st2))"
  using rw
proof (cases rule: run_rw_cases)
  case (1 t)
  then have p: "p = False" by (auto simp: persist_batch_body_def elim!: rbindE split: if_splits)
  from persist_batch_body_redelivery(2) [OF 1(2) [unfolded p]] 1 show ?thesis by (simp add: batch_effect_def)
next
  case (2 t t1 t2)
  let ?kv = "view (st_table st1)"
  have p: "p = True" using 2 by (auto simp: persist_batch_body_def elim!: rbindE split: if_splits)
  have k: "view t = ?kv" "view (st_table st2) = view t1" using 2 by simp_all
  note spec = persist_batch_body_spec [OF 2(2) [unfolded p] inv [folded k(1)] plan(2)
      derived_ops_ok [OF ops(1) plan(1) ops(2)] lim [folded k(1)], unfolded k(1), folded k(2)]
  show ?thesis unfolding batch_effect_def
    by (intro disjI2 exI [of _ lops] exI [of _ "max (retained_id ?kv) (last_id ?kv + length ops - retain)"] conjI allI impI)
      (simp_all add: lops spec)
qed

text \<open>
  Every outcome of the operation: a failure before the commit leaves the table as it was; success, and a
  failure to announce the new tail after the commit, leave the effect of the batch.
\<close>

lemma persist_batch_any:
  assumes run: "persist_batch_with_plan_options_and_tail_retention C enc M now st b plan opts retain chunk = (st', r)"
    and lay: "view (st_table st) META_LAYOUT_VERSION_KEY = Some (layout_version (storage_contract_id plan))"
    and inv: "store_inv C plan A (view (st_table st))"
    and plan: "plan_types_ok plan" "lookup_plan_ok plan"
    and opts: "\<not> assume_new_inserts opts" "\<not> snapshot_without_tail opts"
    and ops: "\<And>ops. derive_sync_tail_ops_with_options C b plan False = Inr ops \<Longrightarrow>
      (\<forall>x \<in> set ops. put_fits x) \<and> last_id (view (st_table st)) + length ops < u64_limit"
  shows "r \<noteq> Inr () \<and> view (st_table st') = view (st_table st) \<or>
    (\<exists>ops. derive_sync_tail_ops_with_options C b plan False = Inr ops \<and>
      batch_effect C enc b plan opts retain ops A (view (st_table st)) (view (st_table st')))"
proof -
  obtain st1 r1 where e: "ensure_layout_version_for M now st (storage_contract_id plan) = (st1, r1)" by (meson surj_pair)
  have v1: "view (st_table st1) = view (st_table st)" by (rule ensure_layout_any [OF e lay])
  show ?thesis
  proof (cases r1)
    case (Inl x)
    with run e v1 show ?thesis by (auto simp: persist_batch_with_plan_options_and_tail_retention_def)
  next
    case (Inr u)
    let ?body = "\<lambda>sops lops. persist_batch_body C M (if persist_raw_batch opts then Some (batch_encode enc b) else None)
      (end_lsn b) sops lops plan False retain chunk"
    have eqFalse: "assume_new_inserts opts = False" "snapshot_without_tail opts = False" using opts by simp_all
    have run1: "(case rbind (derive_sync_tail_ops_with_options C b plan False) (\<lambda>sync_ops.
          rbind (derive_parameter_lookup_ops b plan) (\<lambda>lookup_ops. Inr (sync_ops, lookup_ops))) of
        Inl e \<Rightarrow> (st1, Inl e)
      | Inr (sops, lops) \<Rightarrow> obind (run_rw M st1 (?body sops lops)) (\<lambda>st persisted. if persisted then announce_tail M st else (st, Inr ())))
      = (st', r)"
      using run unfolding persist_batch_with_plan_options_and_tail_retention_def Let_def e Inr obind.simps
        eqFalse .
    show ?thesis
    proof (cases "\<exists>sops lops. derive_sync_tail_ops_with_options C b plan False = Inr sops \<and> derive_parameter_lookup_ops b plan = Inr lops")
      case False
      with run1 v1 show ?thesis
        by (cases "derive_sync_tail_ops_with_options C b plan False"; cases "derive_parameter_lookup_ops b plan") auto
    next
      case True
      then obtain sops lops where d: "derive_sync_tail_ops_with_options C b plan False = Inr sops" "derive_parameter_lookup_ops b plan = Inr lops"
        by blast
      obtain st2 r2 where rw: "run_rw M st1 (?body sops lops) = (st2, r2)" by (meson surj_pair)
      show ?thesis
      proof (cases r2)
        case (Inl x)
        with run1 d rw v1 show ?thesis by (auto dest: run_rw_error)
      next
        case (Inr p)
        have "st_table st' = st_table st2" using run1 d rw Inr by (auto dest: announce_tail_table split: if_splits)
        with persist_batch_committed [OF rw [unfolded Inr] d(2) inv [folded v1] plan d(1)] ops [OF d(1)] d(1) v1
        show ?thesis by auto
      qed
    qed
  qed
qed

lemma persist_batch_full:
  assumes run: "persist_batch_with_plan_options_and_tail_retention C enc M now st b plan opts retain chunk = (st', Inr ())"
    and lay: "view (st_table st) META_LAYOUT_VERSION_KEY = Some (layout_version (storage_contract_id plan))"
    and inv: "store_inv C plan A (view (st_table st))"
    and plan: "plan_types_ok plan" "lookup_plan_ok plan"
    and opts: "\<not> assume_new_inserts opts" "\<not> snapshot_without_tail opts"
    and ops: "derive_sync_tail_ops_with_options C b plan False = Inr ops" "\<forall>x \<in> set ops. put_fits x"
    and lim: "last_id (view (st_table st)) + length ops < u64_limit"
  shows "batch_effect C enc b plan opts retain ops A (view (st_table st)) (view (st_table st'))"
  using persist_batch_any [OF run lay inv plan opts] ops lim by auto

lemma persist_batch_spec:
  assumes run: "persist_batch_with_plan_options_and_tail_retention C enc M now st b plan opts retain chunk = (st', Inr ())"
    and lay: "view (st_table st) META_LAYOUT_VERSION_KEY = Some (layout_version (storage_contract_id plan))"
    and inv: "store_inv C plan A (view (st_table st))"
    and plan: "plan_types_ok plan" "lookup_plan_ok plan"
    and opts: "\<not> assume_new_inserts opts" "\<not> snapshot_without_tail opts"
    and ops: "derive_sync_tail_ops_with_options C b plan False = Inr ops" "\<forall>x \<in> set ops. put_fits x"
    and lim: "last_id (view (st_table st)) + length ops < u64_limit"
  defines "kv \<equiv> view (st_table st)" and "kv' \<equiv> view (st_table st')"
  shows "(\<exists>s l. kv META_LAST_COMMIT_END_LSN_KEY = Some s \<and> lsn_from_str s = Inr l \<and> end_lsn b \<le> l) \<and> kv' = kv
    \<or> (\<exists>lops flr. derive_parameter_lookup_ops b plan = Inr lops \<and>
        flr = max (retained_id kv) (last_id kv + length ops - retain) \<and>
        store_inv C plan (abs_persist plan ops lops (last_id kv) flr A) kv' \<and>
        last_id kv' = last_id kv + length ops \<and> retained_id kv' = flr \<and> snapshot_id kv' = snapshot_id kv \<and>
        kv' META_LAST_COMMIT_END_LSN_KEY = Some (lsn_to_string (end_lsn b)) \<and>
        (persist_raw_batch opts \<longrightarrow> kv' (batch_key (end_lsn b)) = Some (batch_encode enc b)))"
  using persist_batch_full [OF assms(1-10)] unfolding batch_effect_def kv_def kv'_def by blast

end

end
