(* ===== verification/Bucket_Read.thy ===== *)
theory Bucket_Read
  imports Store
begin

text \<open>
  Reading a bucket inside one read transaction (\<open>replication/ingest/store.rs\<close>): the cursor checks
  that force a clearing snapshot, the bounded index scans of a delta, the bounded collection of the
  current documents, and the accumulators of the bucket.
\<close>

record BucketReadSnapshot =
  rs_latest_op_id :: nat
  rs_tail_ops :: "PersistedSyncTailOp list"
  rs_current_accumulator :: PersistedCheckpointAccumulator
  rs_tail_accumulator :: PersistedCheckpointAccumulator
  rs_current_documents :: "PersistedBucketedDocument list"
  rs_reset_required :: bool

record BucketReadRequest =
  rr_bucket :: ResolvedSyncBucket
  rr_index_keys :: "string list"
  rr_current_accumulator_keys :: "string list"
  rr_tail_accumulator_keys :: "string list"
  rr_after :: nat

record SyncReadBudget =
  remaining_entries :: nat
  remaining_index_scan_entries :: nat
  remaining_bytes :: nat

section \<open>Accumulators of a bucket\<close>

definition sum_accumulators ::
  "('t mdbx \<Rightarrow> 't \<Rightarrow> string \<Rightarrow> PersistedCheckpointAccumulator result) \<Rightarrow> 't mdbx \<Rightarrow> 't \<Rightarrow> string list \<Rightarrow>
   PersistedCheckpointAccumulator result" where
  "sum_accumulators read M t ks = rfold (\<lambda>a key. rbind (read M t key) (acc_add a)) acc_default ks"

definition checkpoint_accumulator_for_bucket ::
  "crates \<Rightarrow> 't mdbx \<Rightarrow> RustExecutionPlan \<Rightarrow> 't store \<Rightarrow> string list \<Rightarrow> ('t, PersistedCheckpointAccumulator) outcome" where
  "checkpoint_accumulator_for_bucket C M plan st accumulator_keys =
     (if accumulator_keys = [] then (st, Inr acc_default)
      else obind (ensure_sync_tail_indexes_current C M plan st) (\<lambda>st _.
        (st, run_ro M st (\<lambda>t. sum_accumulators read_checkpoint_accumulator M t accumulator_keys))))"

definition current_checkpoint_accumulator_for_bucket ::
  "'t mdbx \<Rightarrow> 't store \<Rightarrow> string list \<Rightarrow> PersistedCheckpointAccumulator result" where
  "current_checkpoint_accumulator_for_bucket M st accumulator_keys =
     (if accumulator_keys = [] then Inr acc_default
      else run_ro M st (\<lambda>t. sum_accumulators read_current_checkpoint_accumulator M t accumulator_keys))"

section \<open>One bucket\<close>

fun scan_delta ::
  "'t mdbx \<Rightarrow> 't \<Rightarrow> nat \<Rightarrow> nat \<Rightarrow> string list \<Rightarrow> nat list \<times> nat \<Rightarrow> ((nat list \<times> nat) \<times> bool) result" where
  "scan_delta M t after latest [] s = Inr (s, True)"
| "scan_delta M t after latest (index_key # index_keys) s =
     rbind (scan_sync_tail_index_entries_bounded M t index_key (after + 1) latest s) (\<lambda>(s, complete).
       if complete then scan_delta M t after latest index_keys s else Inr (s, False))"

definition reset_needed :: "nat \<Rightarrow> nat \<Rightarrow> nat \<Rightarrow> nat \<Rightarrow> bool" where
  "reset_needed after latest snapshot_floor retained_floor \<longleftrightarrow>
     after > latest \<or> (after > 0 \<and> (after < snapshot_floor \<or> after < retained_floor))"

definition collect_bucket_documents ::
  "crates \<Rightarrow> 't mdbx \<Rightarrow> 't \<Rightarrow> ResolvedSyncQuery list \<Rightarrow> nat \<Rightarrow> collect_state result" where
  "collect_bucket_documents C M t queries remaining =
     rfold (\<lambda>s query.
       if rq_route_constraints query = [] then
         collect_current_documents_for_prefix_bounded C M t (current_doc_prefix (rq_object_type query)) s
       else
         collect_current_route_documents_bounded C M t
           (current_route_index_prefix (rq_object_type query) (rq_route_constraints query))
           (rq_object_type query) s) ([], [], remaining) queries"

definition read_tail_ops_bounded ::
  "crates \<Rightarrow> 't mdbx \<Rightarrow> 't \<Rightarrow> nat list \<Rightarrow> nat \<Rightarrow> (PersistedSyncTailOp list \<times> nat) result" where
  "read_tail_ops_bounded C M t ids remaining =
     rfold (\<lambda>(ops, remaining) op_id.
       rbind (read_sync_tail_op_bounded C M t op_id remaining) (\<lambda>(x, remaining). Inr (ops @ [x], remaining)))
       ([], remaining) ids"

definition read_bucket_snapshot_in_transaction ::
  "crates \<Rightarrow> 't mdbx \<Rightarrow> 't \<Rightarrow> BucketReadRequest \<Rightarrow> SyncReadBudget \<Rightarrow> (BucketReadSnapshot \<times> SyncReadBudget) result" where
  "read_bucket_snapshot_in_transaction C M t request budget =
     rbind (read_u64_or M t META_SYNC_TAIL_LAST_OP_ID_KEY ''sync tail last op id'' 0) (\<lambda>latest_op_id.
     rbind (read_u64_or M t META_INITIAL_SNAPSHOT_CURSOR_FLOOR_KEY ''initial snapshot cursor floor'' 0) (\<lambda>snapshot_floor.
     rbind (read_u64_or M t META_SYNC_TAIL_RETAINED_FLOOR_KEY ''sync tail retained floor'' 0) (\<lambda>retained_floor.
     let reset_required = reset_needed (rr_after request) latest_op_id snapshot_floor retained_floor;
         effective_after = (if reset_required then 0 else rr_after request) in
     rbind (sum_accumulators read_current_checkpoint_accumulator M t (rr_current_accumulator_keys request)) (\<lambda>current_accumulator.
     rbind (sum_accumulators read_checkpoint_accumulator M t (rr_tail_accumulator_keys request)) (\<lambda>tail_accumulator.
     rbind (if effective_after > 0 \<and> effective_after < latest_op_id
            then scan_delta M t effective_after latest_op_id (rr_index_keys request)
                   ([], remaining_index_scan_entries budget)
            else Inr (([], remaining_index_scan_entries budget), True)) (\<lambda>((ids, remaining_scan), complete).
     let reset_required = (reset_required \<or> \<not> complete);
         effective_after = (if complete then effective_after else 0);
         global_op_ids = (if complete then ids else []);
         entry_upper_bound = (if effective_after = 0 then sat_add (acc_count current_accumulator) 1
                              else length global_op_ids) in
     if entry_upper_bound > remaining_entries budget
     then Inl (ResourceLimit ''bucket needs more entries than remain in the per-request budget'')
     else
       rbind (read_tail_ops_bounded C M t global_op_ids (remaining_bytes budget)) (\<lambda>(tail_ops, remaining).
       rbind (if effective_after = 0
              then collect_bucket_documents C M t (rb_queries (rr_bucket request)) remaining
              else Inr ([], [], remaining)) (\<lambda>(seen, documents_by_key, remaining).
         Inr (\<lparr> rs_latest_op_id = latest_op_id, rs_tail_ops = tail_ops,
                rs_current_accumulator = current_accumulator, rs_tail_accumulator = tail_accumulator,
                rs_current_documents = map snd documents_by_key, rs_reset_required = reset_required \<rparr>,
              \<lparr> remaining_entries = remaining_entries budget - entry_upper_bound,
                remaining_index_scan_entries = remaining_scan, remaining_bytes = remaining \<rparr>)))))))))"

section \<open>Several buckets\<close>

definition read_bucket_snapshots_with_limits ::
  "crates \<Rightarrow> 't mdbx \<Rightarrow> RustExecutionPlan \<Rightarrow> 't store \<Rightarrow> BucketReadRequest list \<Rightarrow> nat \<Rightarrow> nat \<Rightarrow> nat \<Rightarrow>
   ('t, BucketReadSnapshot list) outcome" where
  "read_bucket_snapshots_with_limits C M plan st requests max_entries max_index_scan_entries max_bytes =
     obind (ensure_sync_tail_indexes_current C M plan st) (\<lambda>st _.
       (st, run_ro M st (\<lambda>t.
          rbind (rfold (\<lambda>(snapshots, budget) request.
                   rbind (read_bucket_snapshot_in_transaction C M t request budget)
                     (\<lambda>(snapshot, budget). Inr (snapshots @ [snapshot], budget)))
                   ([], \<lparr> remaining_entries = max_entries,
                          remaining_index_scan_entries = max_index_scan_entries,
                          remaining_bytes = max_bytes \<rparr>) requests)
            (\<lambda>(snapshots, _). Inr snapshots))))"

section \<open>Unbounded reads of a bucket\<close>

definition bt_or_insert :: "'k :: linorder \<Rightarrow> 'v \<Rightarrow> ('k \<times> 'v) list \<Rightarrow> ('k \<times> 'v) list" where
  "bt_or_insert k v m = (case map_of m k of None \<Rightarrow> bt_insert k v m | Some _ \<Rightarrow> m)"

definition load_current_documents_for_bucket ::
  "crates \<Rightarrow> 't mdbx \<Rightarrow> 't store \<Rightarrow> ResolvedSyncBucket \<Rightarrow> PersistedBucketedDocument list result" where
  "load_current_documents_for_bucket C M st bucket =
     run_ro M st (\<lambda>t.
       rbind (rfold (\<lambda>documents_by_key query.
         rbind (if rq_route_constraints query = []
                then scan_current_documents_for_prefix C M t (current_doc_prefix (rq_object_type query))
                else scan_current_route_documents C M t
                       (current_route_index_prefix (rq_object_type query) (rq_route_constraints query))
                       (rq_object_type query)) (\<lambda>ds.
           Inr (foldl (\<lambda>m d. bt_or_insert (doc_object_type d, doc_object_id d) d m) documents_by_key ds)))
         [] (rb_queries bucket)) (\<lambda>documents_by_key. Inr (map snd documents_by_key)))"

definition current_document_count_for_bucket ::
  "crates \<Rightarrow> 't mdbx \<Rightarrow> 't store \<Rightarrow> ResolvedSyncBucket \<Rightarrow> nat result" where
  "current_document_count_for_bucket C M st bucket =
     run_ro M st (\<lambda>t.
       rbind (rfold (\<lambda>document_keys query.
         if rq_route_constraints query = []
         then scan_current_document_keys_for_prefix M t (current_doc_prefix (rq_object_type query)) document_keys
         else scan_current_route_index_keys C M t
                (current_route_index_prefix (rq_object_type query) (rq_route_constraints query))
                (rq_object_type query) document_keys) [] (rb_queries bucket)) (\<lambda>document_keys.
         Inr (length document_keys)))"

end
