(* ===== verification/Messages.thy ===== *)
theory Messages
  imports Crates
begin

text \<open>
  The sync stream (\<open>protocol/messages.rs\<close>): oplog entries, bucket views, the checkpoint line, and the
  chunk iterator that emits the checkpoint, the data pages of every bucket and the completion line.
  The iterator is a state machine \<open>next_line\<close>; \<open>run_lines\<close> drives it to exhaustion. Lines are the
  structures the code serializes; their NDJSON and BSON encodings are third-party code.
  The debug assertion that a snapshot has ids enough for its entries is left out, as in a release build.
\<close>

section \<open>Data\<close>

datatype OplogOperation = ClearOp | PutOp | RemoveOp

record OplogEntry =
  oe_op_id :: string
  oe_op :: OplogOperation
  oe_object_type :: "string option"
  oe_object_id :: "string option"
  oe_data :: "string option"
  oe_checksum :: u32
  oe_subkey :: "string option"

record BucketSyncView =
  bv_bucket_name :: string
  bv_stream_name :: string
  bv_is_default :: bool
  bv_current_entries :: "OplogEntry list"
  bv_tail_entries :: "OplogEntry list"
  bv_last_op_id :: nat
  bv_snapshot_floor_op_id :: nat
  bv_snapshot_clear_checksum :: "u32 option"
  bv_force_snapshot_clear :: bool
  bv_checkpoint_checksum :: "int option"
  bv_checkpoint_count :: "nat option"
  bv_after :: "nat option"

datatype BucketSubscriptionReason = Default nat | Explicit nat

record CheckpointBucket =
  cb_bucket :: string
  cb_priority :: nat
  cb_subscriptions :: "BucketSubscriptionReason list"
  cb_checksum :: int
  cb_count :: nat

record StreamDescription =
  sd_name :: string
  sd_is_default :: bool
  sd_errors :: "(string \<times> string) list"

record Checkpoint =
  cp_last_op_id :: string
  cp_write_checkpoint :: "string option"
  cp_buckets :: "CheckpointBucket list"
  cp_streams :: "StreamDescription list"

record SyncBucketData =
  bd_bucket :: string
  bd_data :: "OplogEntry list"
  bd_has_more :: bool
  bd_after :: string
  bd_next_after :: string

datatype StreamingSyncLine =
    CheckpointLine Checkpoint
  | DataLine SyncBucketData
  | CheckpointCompleteLine string

datatype SyncChunkKind = Checkpoint_Chunk | Data_Chunk | CheckpointComplete_Chunk

fun chunk_kind :: "StreamingSyncLine \<Rightarrow> SyncChunkKind" where
  "chunk_kind (CheckpointLine _) = Checkpoint_Chunk"
| "chunk_kind (DataLine _) = Data_Chunk"
| "chunk_kind (CheckpointCompleteLine _) = CheckpointComplete_Chunk"

record StreamPageSizes =
  ps_snapshot :: nat
  ps_delta :: nat

section \<open>Lines\<close>

definition checksum_sum :: "OplogEntry list \<Rightarrow> u32" where
  "checksum_sum entries = fold (\<lambda>entry checksum. checksum + oe_checksum entry) entries 0"

definition bucket_checksum_from_entries :: "OplogEntry list \<Rightarrow> int" where
  "bucket_checksum_from_entries entries = protocol_checksum_i32 (checksum_sum entries)"

definition oplog_entry_id :: "OplogEntry \<Rightarrow> nat result" where
  "oplog_entry_id e = ok_or Panicked (parse_u64 (oe_op_id e))"

definition data_line_from_entries ::
  "string \<Rightarrow> OplogEntry list \<Rightarrow> nat \<Rightarrow> nat \<Rightarrow> bool \<Rightarrow> StreamingSyncLine" where
  "data_line_from_entries bucket_name entries after next_after has_more =
     DataLine \<lparr> bd_bucket = bucket_name, bd_data = entries, bd_has_more = has_more,
                bd_after = decimal after, bd_next_after = decimal next_after \<rparr>"

fun dedup_streams :: "StreamDescription list \<Rightarrow> BucketSyncView list \<Rightarrow> StreamDescription list" where
  "dedup_streams streams [] = streams"
| "dedup_streams streams (view # views) =
     (if list_ex (\<lambda>s. sd_name s = bv_stream_name view) streams then dedup_streams streams views
      else dedup_streams (streams @ [\<lparr> sd_name = bv_stream_name view, sd_is_default = bv_is_default view,
                                       sd_errors = [] \<rparr>]) views)"

definition dedup_stream_descriptions :: "BucketSyncView list \<Rightarrow> StreamDescription list" where
  "dedup_stream_descriptions views = dedup_streams [] views"

definition checkpoint_line :: "BucketSyncView list \<Rightarrow> nat \<Rightarrow> StreamingSyncLine" where
  "checkpoint_line views last_op_id =
     CheckpointLine \<lparr> cp_last_op_id = decimal last_op_id, cp_write_checkpoint = None,
       cp_buckets = map (\<lambda>view.
         \<lparr> cb_bucket = bv_bucket_name view, cb_priority = 3, cb_subscriptions = [Default 0],
           cb_checksum = (case bv_checkpoint_checksum view of Some c \<Rightarrow> c
                          | None \<Rightarrow> bucket_checksum_from_entries (bv_current_entries view)),
           cb_count = (case bv_checkpoint_count view of Some n \<Rightarrow> n
                       | None \<Rightarrow> length (bv_current_entries view)) \<rparr>) views,
       cp_streams = dedup_stream_descriptions views \<rparr>"

definition checkpoint_complete_line :: "nat \<Rightarrow> StreamingSyncLine" where
  "checkpoint_complete_line last_op_id = CheckpointCompleteLine (decimal last_op_id)"

definition snapshot_clear_entry :: "nat \<Rightarrow> u32 \<Rightarrow> OplogEntry" where
  "snapshot_clear_entry n checksum =
     \<lparr> oe_op_id = decimal n, oe_op = ClearOp, oe_object_type = None, oe_object_id = None,
       oe_data = None, oe_checksum = checksum, oe_subkey = None \<rparr>"

definition snapshot_current_entry :: "OplogEntry \<Rightarrow> nat \<Rightarrow> OplogEntry" where
  "snapshot_current_entry entry n = entry\<lparr>oe_op_id := decimal n\<rparr>"

section \<open>The chunk iterator\<close>

text \<open>
  A lazy entry iterator: the entries still to come and, for a delta, the cursor below which entries
  are skipped when they are reached.
\<close>

record EntryIter =
  ei_after :: "nat option"
  ei_items :: "OplogEntry list"

fun iter_next :: "nat option \<Rightarrow> OplogEntry list \<Rightarrow> (OplogEntry \<times> OplogEntry list) option result" where
  "iter_next flt [] = Inr None"
| "iter_next flt (e # es) =
     (case flt of
        None \<Rightarrow> Inr (Some (e, es))
      | Some a \<Rightarrow> rbind (oplog_entry_id e) (\<lambda>i. if i > a then Inr (Some (e, es)) else iter_next flt es))"

fun iter_take :: "nat \<Rightarrow> nat option \<Rightarrow> OplogEntry list \<Rightarrow> (OplogEntry list \<times> OplogEntry list) result" where
  "iter_take 0 flt es = Inr ([], es)"
| "iter_take (Suc n) flt es =
     rbind (iter_next flt es) (\<lambda>r.
       case r of
         None \<Rightarrow> Inr ([], [])
       | Some (e, es) \<Rightarrow> rbind (iter_take n flt es) (\<lambda>(taken, rest). Inr (e # taken, rest)))"

record BucketPageIterator =
  pi_bucket_name :: string
  pi_entries :: EntryIter
  pi_current_after :: nat
  pi_page_size :: nat

record BucketSyncChunkIterator =
  it_last_op_id :: nat
  it_checkpoint :: "StreamingSyncLine option"
  it_views :: "BucketPageIterator list"
  it_page :: "BucketPageIterator option"
  it_complete_pending :: bool

definition snapshot_entries :: "bool \<Rightarrow> BucketSyncView \<Rightarrow> nat \<Rightarrow> OplogEntry list" where
  "snapshot_entries include_clear view view_last_op_id =
     (let c = (if include_clear then 1 else 0 :: nat);
          entry_count = length (bv_current_entries view) + c;
          snapshot_start_op_id = view_last_op_id - (entry_count - 1);
          row_start_op_id = snapshot_start_op_id + c in
      (if include_clear
       then [snapshot_clear_entry snapshot_start_op_id
               (case bv_snapshot_clear_checksum view of Some x \<Rightarrow> x | None \<Rightarrow> 0)]
       else [])
      @ map (\<lambda>(index, entry). snapshot_current_entry entry (row_start_op_id + index))
          (enumerate 0 (bv_current_entries view)))"

definition includes_clear :: "bool \<Rightarrow> BucketSyncView \<Rightarrow> bool" where
  "includes_clear env_clear view \<longleftrightarrow>
     env_clear \<or> bv_force_snapshot_clear view \<or>
     (case bv_snapshot_clear_checksum view of None \<Rightarrow> False | Some c \<Rightarrow> c \<noteq> 0)"

definition page_iterator :: "bool \<Rightarrow> StreamPageSizes \<Rightarrow> nat \<Rightarrow> BucketSyncView \<Rightarrow> BucketPageIterator" where
  "page_iterator env_clear page_sizes last_op_id view =
     (let view_last_op_id = min (bv_last_op_id view) last_op_id;
          bounded_after = min (case bv_after view of Some a \<Rightarrow> a | None \<Rightarrow> 0) view_last_op_id;
          snapshot_floor_op_id = min (bv_snapshot_floor_op_id view) view_last_op_id;
          full_snapshot = bounded_after < snapshot_floor_op_id;
          page_size = max (if full_snapshot then ps_snapshot page_sizes else ps_delta page_sizes) 1;
          entries =
            (if full_snapshot then
               \<lparr> ei_after = None, ei_items = snapshot_entries (includes_clear env_clear view) view view_last_op_id \<rparr>
             else if bounded_after \<ge> view_last_op_id then \<lparr> ei_after = None, ei_items = [] \<rparr>
             else \<lparr> ei_after = Some bounded_after, ei_items = bv_tail_entries view \<rparr>) in
      \<lparr> pi_bucket_name = bv_bucket_name view, pi_entries = entries,
        pi_current_after = (if full_snapshot then 0 else bounded_after), pi_page_size = page_size \<rparr>)"

definition chunk_iterator_new ::
  "bool \<Rightarrow> StreamPageSizes \<Rightarrow> BucketSyncView list \<Rightarrow> nat \<Rightarrow> BucketSyncChunkIterator" where
  "chunk_iterator_new env_clear page_sizes views last_op_id =
     \<lparr> it_last_op_id = last_op_id, it_checkpoint = Some (checkpoint_line views last_op_id),
       it_views = map (page_iterator env_clear page_sizes last_op_id) views, it_page = None,
       it_complete_pending = True \<rparr>"

text \<open>Taking one page: \<open>None\<close> when the bucket is exhausted.\<close>

definition take_page :: "BucketPageIterator \<Rightarrow> (StreamingSyncLine \<times> BucketPageIterator) option result" where
  "take_page page =
     (let it = pi_entries page in
      rbind (iter_take (pi_page_size page) (ei_after it) (ei_items it)) (\<lambda>(entries, rest).
      if entries = [] then Inr None
      else
        rbind (oplog_entry_id (last entries)) (\<lambda>next_after.
        rbind (iter_next (ei_after it) rest) (\<lambda>peeked.
          Inr (Some (data_line_from_entries (pi_bucket_name page) entries (pi_current_after page)
                       next_after (peeked \<noteq> None),
                     page\<lparr>pi_entries := it\<lparr>ei_items := rest\<rparr>, pi_current_after := next_after\<rparr>))))))"

function page_loop ::
  "nat \<Rightarrow> bool \<Rightarrow> BucketPageIterator option \<Rightarrow> BucketPageIterator list \<Rightarrow>
   (StreamingSyncLine option \<times> BucketPageIterator option \<times> BucketPageIterator list \<times> bool) result" where
  "page_loop last_op_id pending page views =
     rbind (case page of None \<Rightarrow> Inr None | Some p \<Rightarrow> take_page p) (\<lambda>r.
       case r of
         Some (line, p) \<Rightarrow> Inr (Some line, Some p, views, pending)
       | None \<Rightarrow>
           (case views of
              v # vs \<Rightarrow> page_loop last_op_id pending (Some v) vs
            | [] \<Rightarrow>
                if pending then Inr (Some (checkpoint_complete_line last_op_id), None, [], False)
                else Inr (None, None, [], False)))"
  by pat_completeness auto

termination page_loop
  by (relation "measure (\<lambda>(l, c, p, vs). length vs)") auto

declare page_loop.simps [simp del]

definition next_line ::
  "BucketSyncChunkIterator \<Rightarrow> (StreamingSyncLine option \<times> BucketSyncChunkIterator) result" where
  "next_line it =
     (case it_checkpoint it of
        Some checkpoint \<Rightarrow> Inr (Some checkpoint, it\<lparr>it_checkpoint := None\<rparr>)
      | None \<Rightarrow>
          rbind (page_loop (it_last_op_id it) (it_complete_pending it) (it_page it) (it_views it))
            (\<lambda>(line, page, views, pending).
              Inr (line, it\<lparr>it_page := page, it_views := views, it_complete_pending := pending\<rparr>)))"

text \<open>Draining the iterator; the fuel bounds the number of lines, and \<open>None\<close> means it ran out.\<close>

fun run_lines :: "nat \<Rightarrow> BucketSyncChunkIterator \<Rightarrow> StreamingSyncLine list result option" where
  "run_lines 0 it = None"
| "run_lines (Suc n) it =
     (case next_line it of
        Inl e \<Rightarrow> Some (Inl e)
      | Inr (None, _) \<Rightarrow> Some (Inr [])
      | Inr (Some line, it) \<Rightarrow> map_option (\<lambda>r. rbind r (\<lambda>lines. Inr (line # lines))) (run_lines n it))"

section \<open>What the iterator emits\<close>

definition entry_id :: "OplogEntry \<Rightarrow> nat" where
  "entry_id e = the (parse_u64 (oe_op_id e))"

definition entries_ok :: "OplogEntry list \<Rightarrow> bool" where
  "entries_ok es \<longleftrightarrow> (\<forall>e \<in> set es. parse_u64 (oe_op_id e) \<noteq> None)"

fun selected_entries :: "nat option \<Rightarrow> OplogEntry list \<Rightarrow> OplogEntry list" where
  "selected_entries None es = es"
| "selected_entries (Some a) es = filter (\<lambda>e. a < entry_id e) es"

text \<open>The pages of one bucket, as a function of the entries left.\<close>

function pages :: "string \<Rightarrow> nat \<Rightarrow> nat \<Rightarrow> OplogEntry list \<Rightarrow> StreamingSyncLine list" where
  "pages bucket page_size after es =
     (if es = [] then []
      else (let chunk = take (max page_size 1) es; rest = drop (max page_size 1) es; next_after = entry_id (last chunk) in
            data_line_from_entries bucket chunk after next_after (rest \<noteq> [])
            # pages bucket page_size next_after rest))"
  by pat_completeness auto

termination pages
  by (relation "measure (\<lambda>(b, n, a, es). length es)") (auto simp: max_def)

declare pages.simps [simp del]

lemma oplog_entry_id_ok: "parse_u64 (oe_op_id e) \<noteq> None \<Longrightarrow> oplog_entry_id e = Inr (entry_id e)"
  by (auto simp: oplog_entry_id_def entry_id_def)

lemma iter_next_spec:
  assumes "entries_ok es"
  shows "(selected_entries flt es = [] \<and> iter_next flt es = Inr None) \<or>
         (\<exists>e rest. iter_next flt es = Inr (Some (e, rest)) \<and> selected_entries flt es = e # selected_entries flt rest
            \<and> entries_ok rest \<and> e \<in> set es)"
  using assms
proof (induction es)
  case (Cons e es)
  then show ?case
    by (cases flt) (auto simp: oplog_entry_id_ok entries_ok_def)
qed (cases flt; simp)

lemma iter_take_spec:
  "entries_ok es \<Longrightarrow>
   \<exists>rest. iter_take n flt es = Inr (take n (selected_entries flt es), rest) \<and> entries_ok rest
     \<and> selected_entries flt rest = drop n (selected_entries flt es)"
proof (induction n arbitrary: es)
  case (Suc n)
  from iter_next_spec [OF Suc.prems, of flt] show ?case
  proof (elim disjE exE conjE)
    fix e rest
    assume r: "iter_next flt es = Inr (Some (e, rest))" "selected_entries flt es = e # selected_entries flt rest"
      "entries_ok rest"
    from Suc.IH [OF r(3)] r show ?thesis by auto
  qed (cases flt; simp add: entries_ok_def)
qed simp

definition page_ok :: "BucketPageIterator \<Rightarrow> bool" where
  "page_ok p \<longleftrightarrow> entries_ok (ei_items (pi_entries p)) \<and> 0 < pi_page_size p"

definition page_entries :: "BucketPageIterator \<Rightarrow> OplogEntry list" where
  "page_entries p = selected_entries (ei_after (pi_entries p)) (ei_items (pi_entries p))"

definition page_lines :: "BucketPageIterator \<Rightarrow> StreamingSyncLine list" where
  "page_lines p = pages (pi_bucket_name p) (pi_page_size p) (pi_current_after p) (page_entries p)"

lemma take_page_spec:
  assumes "page_ok p"
  shows "(page_lines p = [] \<and> take_page p = Inr None) \<or>
         (\<exists>line p'. take_page p = Inr (Some (line, p')) \<and> page_lines p = line # page_lines p' \<and> page_ok p')"
proof -
  let ?flt = "ei_after (pi_entries p)" and ?n = "pi_page_size p"
  have n: "max ?n 1 = ?n" "0 < ?n" using assms by (simp_all add: page_ok_def)
  obtain rest where r: "iter_take ?n ?flt (ei_items (pi_entries p)) = Inr (take ?n (page_entries p), rest)"
    "entries_ok rest" "selected_entries ?flt rest = drop ?n (page_entries p)"
    using iter_take_spec assms unfolding page_ok_def page_entries_def by blast
  show ?thesis
  proof (cases "page_entries p = []")
    case True
    with r show ?thesis by (simp add: page_lines_def pages.simps take_page_def)
  next
    case False
    then have ne: "take ?n (page_entries p) \<noteq> []" using n by simp
    have "last (take ?n (page_entries p)) \<in> set (page_entries p)"
      using ne by (meson in_set_takeD last_in_set)
    then have "parse_u64 (oe_op_id (last (take ?n (page_entries p)))) \<noteq> None"
      using assms by (cases ?flt) (auto simp: page_ok_def entries_ok_def page_entries_def)
    note id = oplog_entry_id_ok [OF this]
    obtain pk where pk: "iter_next ?flt rest = Inr pk" "pk \<noteq> None \<longleftrightarrow> drop ?n (page_entries p) \<noteq> []"
      using iter_next_spec [OF r(2), of ?flt] r(3) by fastforce
    let ?na = "entry_id (last (take ?n (page_entries p)))"
    let ?line = "data_line_from_entries (pi_bucket_name p) (take ?n (page_entries p)) (pi_current_after p) ?na
        (drop ?n (page_entries p) \<noteq> [])"
    let ?p' = "p\<lparr>pi_entries := (pi_entries p)\<lparr>ei_items := rest\<rparr>, pi_current_after := ?na\<rparr>"
    have "take_page p = Inr (Some (?line, ?p'))"
      unfolding take_page_def Let_def using r(1) ne id pk by (simp only: rbind.simps split if_False)
    moreover have "page_lines p = ?line # page_lines ?p'"
      using False n r(3) unfolding page_lines_def pages.simps [of _ _ _ "page_entries p"]
      by (simp add: Let_def page_entries_def)
    moreover have "page_ok ?p'" using r(2) n by (simp add: page_ok_def)
    ultimately show ?thesis by blast
  qed
qed

definition lines_left :: "nat \<Rightarrow> bool \<Rightarrow> BucketPageIterator option \<Rightarrow> BucketPageIterator list \<Rightarrow> StreamingSyncLine list" where
  "lines_left last_op_id pending page views =
     (case page of None \<Rightarrow> [] | Some p \<Rightarrow> page_lines p) @ concat (map page_lines views)
     @ (if pending then [checkpoint_complete_line last_op_id] else [])"

lemma page_loop_spec:
  assumes "case page of None \<Rightarrow> True | Some p \<Rightarrow> page_ok p" and "\<forall>v \<in> set views. page_ok v"
  shows "(lines_left l pending page views = [] \<and> page_loop l pending page views = Inr (None, None, [], False)) \<or>
         (\<exists>line page' views' pending'. page_loop l pending page views = Inr (Some line, page', views', pending')
            \<and> lines_left l pending page views = line # lines_left l pending' page' views'
            \<and> (case page' of None \<Rightarrow> True | Some p \<Rightarrow> page_ok p) \<and> (\<forall>v \<in> set views'. page_ok v))"
  using assms
proof (induction views arbitrary: page)
  case Nil
  have none: "(lines_left l pending None [] = [] \<and> page_loop l pending None [] = Inr (None, None, [], False)) \<or>
         (\<exists>line page' views' pending'. page_loop l pending None [] = Inr (Some line, page', views', pending')
            \<and> lines_left l pending None [] = line # lines_left l pending' page' views'
            \<and> (case page' of None \<Rightarrow> True | Some p \<Rightarrow> page_ok p) \<and> (\<forall>v \<in> set views'. page_ok v))"
    by (auto simp: page_loop.simps lines_left_def intro: exI [of _ False])
  show ?case
  proof (cases page)
    case None
    with none show ?thesis by simp
  next
    case (Some p)
    with Nil have "page_ok p" by simp
    from take_page_spec [OF this] show ?thesis
    proof (elim disjE exE conjE)
      assume e: "page_lines p = []" "take_page p = Inr None"
      have "page_loop l pending page [] = page_loop l pending None []"
        "lines_left l pending page [] = lines_left l pending None []"
        using Some e by (simp_all add: page_loop.simps lines_left_def)
      with none show ?thesis by metis
    next
      fix line p'
      assume "take_page p = Inr (Some (line, p'))" "page_lines p = line # page_lines p'" "page_ok p'"
      with Some show ?thesis by (intro disjI2) (auto simp: page_loop.simps lines_left_def)
    qed
  qed
next
  case (Cons v vs)
  have IH: "(lines_left l pending (Some v) vs = [] \<and> page_loop l pending (Some v) vs = Inr (None, None, [], False)) \<or>
         (\<exists>line page' views' pending'. page_loop l pending (Some v) vs = Inr (Some line, page', views', pending')
            \<and> lines_left l pending (Some v) vs = line # lines_left l pending' page' views'
            \<and> (case page' of None \<Rightarrow> True | Some p \<Rightarrow> page_ok p) \<and> (\<forall>v \<in> set views'. page_ok v))"
    using Cons.prems by (intro Cons.IH) simp_all
  have skip: "page_loop l pending page (v # vs) = page_loop l pending (Some v) vs"
    "lines_left l pending page (v # vs) = lines_left l pending (Some v) vs"
    if "page = None \<or> (\<exists>p. page = Some p \<and> page_lines p = [] \<and> take_page p = Inr None)"
    using that by (auto simp: page_loop.simps [of _ _ page] lines_left_def)
  show ?case
  proof (cases page)
    case None
    with IH skip show ?thesis by metis
  next
    case (Some p)
    with Cons.prems have "page_ok p" by simp
    from take_page_spec [OF this] show ?thesis
    proof (elim disjE exE conjE)
      assume "page_lines p = []" "take_page p = Inr None"
      with Some IH skip show ?thesis by metis
    next
      fix line p'
      assume "take_page p = Inr (Some (line, p'))" "page_lines p = line # page_lines p'" "page_ok p'"
      with Some Cons.prems show ?thesis by (auto simp: page_loop.simps lines_left_def)
    qed
  qed
qed

lemma run_lines_spec:
  assumes "it_checkpoint it = None" and "case it_page it of None \<Rightarrow> True | Some p \<Rightarrow> page_ok p"
    and "\<forall>v \<in> set (it_views it). page_ok v"
    and "length (lines_left (it_last_op_id it) (it_complete_pending it) (it_page it) (it_views it)) < fuel"
  shows "run_lines fuel it
         = Some (Inr (lines_left (it_last_op_id it) (it_complete_pending it) (it_page it) (it_views it)))"
  using assms
proof (induction fuel arbitrary: it)
  case (Suc fuel)
  from page_loop_spec [OF Suc.prems(2,3), of "it_last_op_id it" "it_complete_pending it"] show ?case
  proof (elim disjE exE conjE)
    fix line page' views' pending'
    assume r: "page_loop (it_last_op_id it) (it_complete_pending it) (it_page it) (it_views it)
        = Inr (Some line, page', views', pending')"
      "lines_left (it_last_op_id it) (it_complete_pending it) (it_page it) (it_views it)
        = line # lines_left (it_last_op_id it) pending' page' views'"
      "case page' of None \<Rightarrow> True | Some p \<Rightarrow> page_ok p" "\<forall>v \<in> set views'. page_ok v"
    let ?it = "it\<lparr>it_page := page', it_views := views', it_complete_pending := pending'\<rparr>"
    have "next_line it = Inr (Some line, ?it)" using r Suc.prems(1) by (simp add: next_line_def)
    moreover have "run_lines fuel ?it = Some (Inr (lines_left (it_last_op_id it) pending' page' views'))"
      using Suc.IH [of ?it] r Suc.prems by simp
    ultimately show ?thesis using r by simp
  qed (simp add: next_line_def Suc.prems(1))
qed simp

lemma page_iterator_size: "0 < pi_page_size (page_iterator c ps l v)"
  by (simp add: page_iterator_def Let_def)

text \<open>The stream of a request: the checkpoint, the pages of every bucket in order, the completion.\<close>

lemma chunk_iterator_lines:
  assumes "\<forall>v \<in> set views. entries_ok (ei_items (pi_entries (page_iterator c ps l v)))"
    and "length (concat (map (page_lines \<circ> page_iterator c ps l) views)) + 2 < fuel"
  shows "run_lines fuel (chunk_iterator_new c ps views l) =
    Some (Inr (checkpoint_line views l # concat (map (page_lines \<circ> page_iterator c ps l) views)
      @ [checkpoint_complete_line l]))"
proof -
  obtain n where n: "fuel = Suc n" using assms(2) by (cases fuel) auto
  let ?it = "(chunk_iterator_new c ps views l)\<lparr>it_checkpoint := None\<rparr>"
  have "next_line (chunk_iterator_new c ps views l) = Inr (Some (checkpoint_line views l), ?it)"
    by (simp add: next_line_def chunk_iterator_new_def)
  moreover have "run_lines n ?it = Some (Inr (lines_left l True None (map (page_iterator c ps l) views)))"
    using run_lines_spec [of ?it n] assms n page_iterator_size
    by (auto simp: chunk_iterator_new_def page_ok_def lines_left_def)
  ultimately show ?thesis by (simp add: n lines_left_def)
qed

end
