(* ===== verification/Wire.thy ===== *)
theory Wire
  imports Bucket_Read Messages
begin

text \<open>
  The serving path (\<open>storage/wire_mdbx.rs\<close> and the cursors of \<open>storage/mod.rs\<close>): resolving the
  requested buckets, reading them, turning documents and tail operations into oplog entries, and the
  checkpoint a bucket is served with. The global plan of the process (\<open>execution_plan()\<close>) is the
  argument \<open>global_plan\<close>.
\<close>

section \<open>Cursors\<close>

record SyncBucketCursor =
  sc_name :: string
  sc_after :: nat

record SyncBucketCursors =
  sc_buckets :: "SyncBucketCursor list"
  sc_default_when_empty :: bool

datatype storage_error = StorageError string

definition cursors_from_pairs :: "(string \<times> nat) list \<Rightarrow> SyncBucketCursors" where
  "cursors_from_pairs pairs =
     \<lparr> sc_buckets = map (\<lambda>(name, after). \<lparr> sc_name = name, sc_after = after \<rparr>) pairs,
       sc_default_when_empty = False \<rparr>"

definition after_for :: "SyncBucketCursors \<Rightarrow> string \<Rightarrow> nat option" where
  "after_for cursors name = map_option sc_after (find (\<lambda>b. sc_name b = name) (sc_buckets cursors))"

definition max_after :: "SyncBucketCursors \<Rightarrow> nat option" where
  "max_after cursors =
     (case map sc_after (sc_buckets cursors) of [] \<Rightarrow> None | x # xs \<Rightarrow> Some (fold max xs x))"

fun update_after :: "string \<Rightarrow> nat \<Rightarrow> SyncBucketCursor list \<Rightarrow> SyncBucketCursor list" where
  "update_after name after [] = [\<lparr> sc_name = name, sc_after = after \<rparr>]"
| "update_after name after (b # bs) =
     (if sc_name b = name then b\<lparr>sc_after := after\<rparr> # bs else b # update_after name after bs)"

definition with_updated_after :: "SyncBucketCursors \<Rightarrow> string \<Rightarrow> nat \<Rightarrow> SyncBucketCursors" where
  "with_updated_after cursors name after =
     cursors\<lparr>sc_buckets := update_after name after (sc_buckets cursors)\<rparr>"

definition with_global_after ::
  "json_lib \<Rightarrow> RustExecutionPlan \<Rightarrow> SyncBucketCursors \<Rightarrow> nat \<Rightarrow> SyncBucketCursors" where
  "with_global_after J global_plan cursors after =
     (if sc_buckets cursors = [] then
        (if \<not> sc_default_when_empty cursors then cursors
         else cursors_from_pairs (map (\<lambda>b. (rb_bucket_name b, after)) (default_bucket_requests J global_plan)))
      else cursors\<lparr>sc_buckets := map (\<lambda>b. b\<lparr>sc_after := after\<rparr>) (sc_buckets cursors)\<rparr>)"

section \<open>Resolving buckets\<close>

record ResolvedBucketCursor =
  rc_resolved :: ResolvedSyncBucket
  rc_after :: nat

definition resolve_bucket_request_for_plan ::
  "json_lib \<Rightarrow> RustExecutionPlan \<Rightarrow> RustExecutionPlan \<Rightarrow> string \<Rightarrow> ResolvedSyncBucket option" where
  "resolve_bucket_request_for_plan J global_plan plan name =
     (case resolve_bucket_request J plan name of Some b \<Rightarrow> Some b
      | None \<Rightarrow> resolve_bucket_request J global_plan name)"

definition resolved_sync_buckets ::
  "json_lib \<Rightarrow> RustExecutionPlan \<Rightarrow> SyncBucketCursors \<Rightarrow> RustExecutionPlan \<Rightarrow> ResolvedBucketCursor list" where
  "resolved_sync_buckets J global_plan buckets plan =
     List.map_filter (\<lambda>bucket.
       map_option (\<lambda>resolved. \<lparr> rc_resolved = resolved, rc_after = sc_after bucket \<rparr>)
         (resolve_bucket_request_for_plan J global_plan plan (sc_name bucket))) (sc_buckets buckets)
     @ (if sc_buckets buckets = [] \<and> sc_default_when_empty buckets
        then map (\<lambda>resolved. \<lparr> rc_resolved = resolved, rc_after = 0 \<rparr>) (default_bucket_requests J plan)
        else [])"

definition bucket_tail_index_keys :: "ResolvedSyncBucket \<Rightarrow> string list" where
  "bucket_tail_index_keys bucket =
     btset_of_list (concat (map (\<lambda>q. sync_tail_index_keys_for_bucket (rq_object_type q) (rq_route_constraints q))
       (rb_queries bucket)))"

section \<open>Entries\<close>

definition document_matches_bucket ::
  "json_lib \<Rightarrow> PersistedBucketedDocument \<Rightarrow> ResolvedSyncBucket \<Rightarrow> bool" where
  "document_matches_bucket J d bucket \<longleftrightarrow>
     matches_object_routes_and_data J bucket (doc_object_type d) (doc_route_fields d) (doc_data_json d)"

definition document_put_entry ::
  "crates \<Rightarrow> PersistedBucketedDocument \<Rightarrow> ResolvedSyncBucket \<Rightarrow> storage_error + OplogEntry" where
  "document_put_entry C d bucket =
     rbind (map_err (\<lambda>_. StorageError ''failed to project persisted document'')
              (project_document_json (cr_json C) bucket (doc_object_type d) (doc_data_json d))) (\<lambda>data.
       Inr \<lparr> oe_op_id = ''0'', oe_op = PutOp, oe_object_type = Some (doc_object_type d),
             oe_object_id = Some (doc_object_id d), oe_data = Some data,
             oe_checksum = put_checksum C (doc_object_type d) (doc_object_id d) data,
             oe_subkey = Some (source_subkey_for_object (doc_object_type d) (doc_object_id d)) \<rparr>)"

definition current_entries_for_bucket ::
  "crates \<Rightarrow> PersistedBucketedDocument list \<Rightarrow> ResolvedSyncBucket \<Rightarrow> storage_error + OplogEntry list" where
  "current_entries_for_bucket C documents bucket =
     rmap (\<lambda>d. document_put_entry C d bucket)
       (filter (\<lambda>d. document_matches_bucket (cr_json C) d bucket) documents)"

definition checkpoint_accumulator_for_entries :: "OplogEntry list \<Rightarrow> PersistedCheckpointAccumulator" where
  "checkpoint_accumulator_for_entries entries =
     \<lparr> acc_checksum = fold (\<lambda>entry checksum. checksum + oe_checksum entry) entries 0,
       acc_count = length entries \<rparr>"

definition tail_op_effect_for_bucket ::
  "json_lib \<Rightarrow> PersistedSyncTailOp \<Rightarrow> ResolvedSyncBucket \<Rightarrow> PersistedSyncTailOperation option" where
  "tail_op_effect_for_bucket J x bucket =
     (case so_operation x of
        Clear \<Rightarrow> Some Clear
      | Put \<Rightarrow>
          (case so_object_type x of
             None \<Rightarrow> None
           | Some ty \<Rightarrow>
               (let matches_after = (case so_data_json x of None \<Rightarrow> False
                      | Some data \<Rightarrow> matches_object_routes_and_data J bucket ty (so_route_fields x) data);
                    matches_before = (case so_previous_data_json x of None \<Rightarrow> False
                      | Some data \<Rightarrow> matches_object_routes_and_data J bucket ty
                          (case so_previous_route_fields x of None \<Rightarrow> so_route_fields x | Some rf \<Rightarrow> rf) data) in
                if matches_after then Some Put
                else if matches_before then Some Remove
                else None))
      | Remove \<Rightarrow>
          (case so_object_type x of
             None \<Rightarrow> None
           | Some ty \<Rightarrow>
               if (case so_data_json x of
                     None \<Rightarrow> matches_object_and_routes J bucket ty (so_route_fields x)
                   | Some data \<Rightarrow> matches_object_routes_and_data J bucket ty (so_route_fields x) data)
               then Some Remove else None))"

definition task_tail_oplog_entry_with_op_id ::
  "crates \<Rightarrow> PersistedSyncTailOp \<Rightarrow> PersistedSyncTailOperation \<Rightarrow> ResolvedSyncBucket \<Rightarrow> nat \<Rightarrow>
   storage_error + OplogEntry" where
  "task_tail_oplog_entry_with_op_id C x operation bucket op_id =
     (let ty = (case so_object_type x of Some ty \<Rightarrow> ty | None \<Rightarrow> rb_object_type bucket);
          subkey = map_option (source_subkey_for_object ty) (so_object_id x) in
      case operation of
        Clear \<Rightarrow>
          Inr \<lparr> oe_op_id = decimal op_id, oe_op = ClearOp, oe_object_type = None, oe_object_id = None,
                oe_data = None, oe_checksum = 0, oe_subkey = None \<rparr>
      | Put \<Rightarrow>
          rbind (case so_data_json x of
                   None \<Rightarrow> Inr None
                 | Some data_json \<Rightarrow>
                     rbind (map_err (\<lambda>_. StorageError ''failed to project persisted sync tail op'')
                              (project_document_json (cr_json C) bucket ty data_json)) (\<lambda>d. Inr (Some d))) (\<lambda>data.
            Inr \<lparr> oe_op_id = decimal op_id, oe_op = PutOp, oe_object_type = so_object_type x,
                  oe_object_id = so_object_id x, oe_data = data,
                  oe_checksum = (case (so_object_id x, data) of
                                   (Some i, Some d) \<Rightarrow> put_checksum C ty i d | _ \<Rightarrow> 0),
                  oe_subkey = subkey \<rparr>)
      | Remove \<Rightarrow>
          Inr \<lparr> oe_op_id = decimal op_id, oe_op = RemoveOp, oe_object_type = so_object_type x,
                oe_object_id = so_object_id x, oe_data = None,
                oe_checksum = (case subkey of None \<Rightarrow> 0 | Some k \<Rightarrow> remove_checksum C k),
                oe_subkey = subkey \<rparr>)"

section \<open>Payload of a bucket\<close>

record BucketPayload =
  pl_current_entries :: "OplogEntry list"
  pl_tail_entries :: "OplogEntry list"
  pl_checkpoint_count :: nat
  pl_checkpoint_checksum :: int
  pl_snapshot_clear_checksum :: u32
  pl_force_snapshot_clear :: bool
  pl_bounded_after :: nat
  pl_global_last_op_id :: nat
  pl_snapshot_floor_op_id :: nat

definition tail_entries_for_bucket ::
  "crates \<Rightarrow> PersistedSyncTailOp list \<Rightarrow> ResolvedSyncBucket \<Rightarrow> storage_error + OplogEntry list" where
  "tail_entries_for_bucket C ops bucket =
     rmap (\<lambda>(x, operation). task_tail_oplog_entry_with_op_id C x operation bucket (so_op_id x))
       (List.map_filter (\<lambda>x. map_option (\<lambda>operation. (x, operation))
          (tail_op_effect_for_bucket (cr_json C) x bucket)) ops)"

definition build_bucket_payload ::
  "crates \<Rightarrow> ResolvedBucketCursor \<Rightarrow> BucketReadSnapshot \<Rightarrow> storage_error + BucketPayload" where
  "build_bucket_payload C bucket snapshot =
     (let effective_after = (if rs_reset_required snapshot then 0 else rc_after bucket) in
      rbind (if effective_after = 0
             then current_entries_for_bucket C (rs_current_documents snapshot) (rc_resolved bucket)
             else Inr []) (\<lambda>checkpoint_entries.
      let current_checkpoint = (if effective_after = 0 then checkpoint_accumulator_for_entries checkpoint_entries
                                else rs_current_accumulator snapshot);
          superseded_remainder = rs_tail_accumulator snapshot;
          checkpoint_sum = acc_checksum current_checkpoint + acc_checksum superseded_remainder;
          checkpoint_count = (acc_count current_checkpoint + acc_count superseded_remainder) mod u64_limit;
          global_last_op_id = max (rs_latest_op_id snapshot) (acc_count current_checkpoint);
          bounded_after = min effective_after global_last_op_id;
          snapshot_floor_op_id = (if effective_after = 0 then global_last_op_id else 0);
          current_entries = (if bounded_after < snapshot_floor_op_id then checkpoint_entries else []) in
      rbind (tail_entries_for_bucket C (rs_tail_ops snapshot) (rc_resolved bucket)) (\<lambda>tail_entries.
        Inr \<lparr> pl_current_entries = current_entries, pl_tail_entries = tail_entries,
              pl_checkpoint_count = checkpoint_count,
              pl_checkpoint_checksum = protocol_checksum_i32 checkpoint_sum,
              pl_snapshot_clear_checksum = acc_checksum superseded_remainder,
              pl_force_snapshot_clear = rs_reset_required snapshot, pl_bounded_after = bounded_after,
              pl_global_last_op_id = global_last_op_id, pl_snapshot_floor_op_id = snapshot_floor_op_id \<rparr>)))"

definition bucket_view :: "ResolvedSyncBucket \<Rightarrow> BucketPayload \<Rightarrow> BucketSyncView" where
  "bucket_view bucket payload =
     \<lparr> bv_bucket_name = rb_bucket_name bucket, bv_stream_name = rb_stream_name bucket,
       bv_is_default = rb_is_default bucket, bv_current_entries = pl_current_entries payload,
       bv_tail_entries = pl_tail_entries payload, bv_last_op_id = pl_global_last_op_id payload,
       bv_snapshot_floor_op_id = pl_snapshot_floor_op_id payload,
       bv_snapshot_clear_checksum = Some (pl_snapshot_clear_checksum payload),
       bv_force_snapshot_clear = pl_force_snapshot_clear payload,
       bv_checkpoint_checksum = Some (pl_checkpoint_checksum payload),
       bv_checkpoint_count = Some (pl_checkpoint_count payload),
       bv_after = Some (pl_bounded_after payload) \<rparr>"

definition bucket_read_request :: "ResolvedBucketCursor \<Rightarrow> BucketReadRequest" where
  "bucket_read_request bucket =
     \<lparr> rr_bucket = rc_resolved bucket, rr_index_keys = bucket_tail_index_keys (rc_resolved bucket),
       rr_current_accumulator_keys = sync_current_checkpoint_accumulator_keys_for_bucket (rc_resolved bucket),
       rr_tail_accumulator_keys = sync_tail_checkpoint_accumulator_keys_for_bucket (rc_resolved bucket),
       rr_after = rc_after bucket \<rparr>"

definition bucket_views ::
  "crates \<Rightarrow> ResolvedBucketCursor list \<Rightarrow> BucketReadSnapshot list \<Rightarrow>
   storage_error + (BucketSyncView list \<times> (string \<times> nat) list)" where
  "bucket_views C resolved snapshots =
     rbind (rmap (\<lambda>(bucket, snapshot).
              rbind (build_bucket_payload C bucket snapshot) (\<lambda>payload.
                Inr (bucket_view (rc_resolved bucket) payload,
                     (rb_bucket_name (rc_resolved bucket), pl_global_last_op_id payload)))) (zip resolved snapshots))
       (\<lambda>pairs. Inr (map fst pairs, map snd pairs))"

text \<open>
  The chunk source: the lines are those of the chunk iterator over the views, together with the
  cursors the stream ends at.
\<close>

definition dynamic_task_tail_source_for_buckets ::
  "crates \<Rightarrow> 't mdbx \<Rightarrow> RustExecutionPlan \<Rightarrow> nat \<Rightarrow> nat \<Rightarrow> 't store \<Rightarrow> SyncBucketCursors \<Rightarrow> RustExecutionPlan \<Rightarrow>
   't store \<times> (storage_error + (BucketSyncView list \<times> nat \<times> SyncBucketCursors))" where
  "dynamic_task_tail_source_for_buckets C M global_plan max_entries max_bytes st buckets plan =
     (let resolved = resolved_sync_buckets (cr_json C) global_plan buckets plan in
      case read_bucket_snapshots_with_limits C M global_plan st (map bucket_read_request resolved)
             max_entries max_entries max_bytes of
        (st, Inl _) \<Rightarrow> (st, Inl (StorageError ''failed to read bucket snapshots''))
      | (st, Inr snapshots) \<Rightarrow>
          (st, rbind (bucket_views C resolved snapshots) (\<lambda>(views, pairs).
             Inr (views, fold max (map bv_last_op_id views) 0, cursors_from_pairs pairs))))"

section \<open>Latest cursors\<close>

definition latest_cursor ::
  "crates \<Rightarrow> 't mdbx \<Rightarrow> RustExecutionPlan \<Rightarrow> 't store \<Rightarrow> ResolvedBucketCursor \<Rightarrow> ('t, string \<times> nat) outcome" where
  "latest_cursor C M global_plan st bucket =
     obind (indexed_task_tail_last_op_id C M global_plan st (bucket_tail_index_keys (rc_resolved bucket)))
       (\<lambda>st indexed_latest.
         (st, rbind (current_checkpoint_accumulator_for_bucket M st
                (sync_current_checkpoint_accumulator_keys_for_bucket (rc_resolved bucket))) (\<lambda>a.
            Inr (rb_bucket_name (rc_resolved bucket),
                 max (rc_after bucket) (max indexed_latest (acc_count a))))))"

fun latest_cursors ::
  "crates \<Rightarrow> 't mdbx \<Rightarrow> RustExecutionPlan \<Rightarrow> 't store \<Rightarrow> ResolvedBucketCursor list \<Rightarrow> ('t, (string \<times> nat) list) outcome" where
  "latest_cursors C M global_plan st [] = (st, Inr [])"
| "latest_cursors C M global_plan st (bucket # buckets) =
     obind (latest_cursor C M global_plan st bucket) (\<lambda>st pair.
     obind (latest_cursors C M global_plan st buckets) (\<lambda>st pairs. (st, Inr (pair # pairs))))"

definition latest_sync_bucket_cursors_for_plan ::
  "crates \<Rightarrow> 't mdbx \<Rightarrow> RustExecutionPlan \<Rightarrow> 't store \<Rightarrow> SyncBucketCursors \<Rightarrow> RustExecutionPlan \<Rightarrow>
   't store \<times> (storage_error + SyncBucketCursors)" where
  "latest_sync_bucket_cursors_for_plan C M global_plan st buckets plan =
     (case latest_cursors C M global_plan st (resolved_sync_buckets (cr_json C) global_plan buckets plan) of
        (st, Inl _) \<Rightarrow> (st, Inl (StorageError ''failed to read indexed sync tail cursor''))
      | (st, Inr pairs) \<Rightarrow> (st, Inr (cursors_from_pairs pairs)))"

end
