(* ===== verification/Evaluation.thy ===== *)
theory Evaluation
  imports Store_Ops Wire Messages
begin

text \<open>
  Evaluation of the model by rewriting. The collection \<open>exec\<close> holds the defining equations of the
  operations and the equations that keep counters as numerals and bytes as character literals; the
  congruences \<open>exec_cong\<close> make a bind evaluate its first argument before its continuation. With
  \<open>simp add: exec cong: exec_cong del: exec_del\<close> a whole transaction runs on the reference table.
\<close>

named_theorems exec "equations for the evaluation of the model"

section \<open>Definitions\<close>

lemmas exec_Encoding [exec] =
  be_bytes_def from_be_def char_digit_def show_radix_def pad20_def parse_radix_def utf8_cont_def byte_in_def
  bt_of_list_def btset_of_list_def

lemmas exec_Mdbx_Table [exec] =
  t_get_def t_put_def t_del_def t_iter_from_def t_clear_def t_begin_def t_commit_def starts_with_def
  alist_put_def alist_del_def alist_iter_from_def

lemmas exec_Keys [exec] =
  META_LAYOUT_VERSION_KEY_def META_LAST_COMMIT_END_LSN_KEY_def META_INITIAL_SNAPSHOT_COMPLETE_KEY_def
  META_INITIAL_SNAPSHOT_CURSOR_FLOOR_KEY_def META_INITIAL_SNAPSHOT_BOOTSTRAP_INTENT_KEY_def
  META_INITIAL_SNAPSHOT_SOURCE_IDENTITY_KEY_def META_SYNC_TAIL_LAST_OP_ID_KEY_def
  META_SYNC_TAIL_RETAINED_FLOOR_KEY_def META_SYNC_TAIL_INDEXED_THROUGH_OP_ID_KEY_def BATCH_KEY_PREFIX_def
  CURRENT_DOC_KEY_PREFIX_def CURRENT_ROUTE_KEY_PREFIX_def CURRENT_CHECKPOINT_ACCUMULATOR_KEY_PREFIX_def
  CURRENT_DOC_BINARY_MAGIC_def SYNC_TAIL_OP_KEY_PREFIX_def SYNC_TAIL_REFS_KEY_PREFIX_def
  SYNC_TAIL_INDEX_ENTRY_KEY_PREFIX_def SYNC_TAIL_CHECKPOINT_ACCUMULATOR_KEY_PREFIX_def
  PARAMETER_LOOKUP_ROW_KEY_PREFIX_def PARAMETER_LOOKUP_INDEX_KEY_PREFIX_def push_len_prefixed_def
  sync_tail_index_name_def sync_tail_object_index_name_def sync_tail_clear_index_name_def
  sync_tail_route_index_name_def current_doc_prefix_def current_doc_key_from_object_id_bytes_def
  current_doc_key_def current_route_index_prefix_def current_route_index_key_def sync_tail_op_key_def
  sync_tail_refs_key_def sync_tail_index_entry_prefix_def sync_tail_index_entry_key_def
  sync_tail_global_op_id_from_key_def batch_key_def parameter_lookup_row_key_def
  parameter_lookup_index_prefix_def parameter_lookup_index_key_def checkpoint_accumulator_key_def
  tail_checkpoint_accumulator_key_def current_checkpoint_accumulator_key_def

lemmas exec_Postgres_Lsn [exec] =
  lsn_to_string_def parse_lsn_half_def split_once_def lsn_from_str_def

lemmas exec_Batch_Codec [exec] =
  slice_get_def read_u32_def read_u64_def read_i64_def push_u32_def push_len_prefixed_bytes_def
  read_len_prefixed_string_def encode_change_def batch_encode_def batch_decode_def batch_in_range_def

lemmas exec_Json_Value [exec] =
  is_null_def json_of_int_def int_to_string_def f64_eq_def f64_is_finite_def to_ascii_lower_def
  eq_ignore_ascii_case_def strip_prefix_def is_ascii_digit_def parse_i64_def

lemmas exec_Sync_Model [exec] =
  referenced_columns_def data_queries_def

lemmas exec_Sync_Eval [exec] =
  js_obj_def tagged_def option_json_def routes_json_def checkpoint_accumulator_name_def
  accumulator_fingerprint_def projection_key_def json_values_equal_def route_json_array_contains_def
  route_constraints_match_def in_eval_def eq_eval_def row_filter_matches_def binding_equals_literal_def
  request_filter_matches_def

lemmas exec_Row_Json [exec] =
  white_space_def trim_def looks_like_timestamp_def split_timestamp_timezone_def rsplit_once_def
  normalize_fraction_def canonical_timestamp_string_def serialize_json_number_def serialize_json_bool_def
  serialize_json_text_def json_column_value_def column_type_of_def serialize_row_json_fields_def
  serialize_full_row_json_def serialize_full_row_json_with_column_types_def
  serialize_full_row_json_presorted_def serialize_full_row_json_presorted_with_column_types_def
  serialize_projected_row_json_fields_def column_value_to_route_string_def row_route_value_def
  route_fields_for_row_def evaluate_computed_expression_for_row_def object_id_for_row_def scalar_text_def
  evaluate_computed_expression_def decode_persisted_object_def insert_computed_columns_def project_with_def
  project_row_json_from_serialized_def

lemmas exec_Bucket_Plan [exec] =
  merge_bucket_parameter_def merged_bucket_parameters_from_queries_def push_query_def stream_bucket_groups_def
  bucket_parameter_groups_def bucket_groups_def STREAM_BUCKET_PREFIX_def bucket_name_for_stream_group_def
  parse_bucket_values_def find_char_def resolve_query_def resolve_group_def resolve_bucket_request_def
  default_bucket_requests_matching_def default_bucket_requests_def table_plan_def lookup_table_plan_def
  stream_lookup_def query_for_object_and_routes_def matches_object_and_routes_def
  matches_object_routes_and_data_def project_document_json_def required_route_indexes_for_row_def
  route_constraints_from_template_def accumulator_bucket_def accumulator_step_def
  accumulator_buckets_for_row_def

lemmas exec_Crates [exec] =
  checksum_from_digest_def put_checksum_def remove_checksum_def source_subkey_for_object_def
  protocol_checksum_i32_def esc_def unesc_def ref_enc_def ref_dec_def ref_opt_dec_def ref_pairs_def ref_pairs_dec_def
  ref_lookup_row_def ref_lookup_row_dec_def ref_operation_dec_def ref_op_def ref_op_dec_def ref_json_parse_def
  ref_json_def

lemmas exec_Accumulators [exec] =
  acc_default_def acc_add_def encode_checkpoint_accumulator_def decode_checkpoint_accumulator_def
  read_checkpoint_accumulator_with_key_def read_checkpoint_accumulator_def
  read_current_checkpoint_accumulator_def write_checkpoint_accumulator_with_key_def
  write_checkpoint_accumulator_def write_current_checkpoint_accumulator_def
  sync_checkpoint_accumulator_keys_for_bucket_def sync_tail_checkpoint_accumulator_keys_for_bucket_def
  sync_current_checkpoint_accumulator_keys_for_bucket_def persist_checkpoint_accumulator_deltas_def
  or_default_def add_checkpoint_accumulator_delta_def previous_put_data_def
  add_previous_put_accumulator_deltas_def add_remove_accumulator_deltas_def
  collect_checkpoint_accumulator_deltas_for_op_def cd_default_def current_accumulator_targets_for_row_def
  bump_def add_current_accumulator_checksum_delta_def checksum_for_target_def target_matches_def
  collect_current_accumulator_deltas_def collect_current_document_accumulator_delta_for_targets_def
  collect_current_document_accumulator_delta_for_snapshot_targets_def apply_current_delta_def
  persist_current_accumulator_deltas_def persist_current_document_accumulator_delta_def
  add_current_document_accumulator_def remove_current_document_accumulator_def

lemmas exec_Current_State [exec] =
  encode_current_document_def decode_binary_current_document_def decode_current_document_def
  read_current_document_by_key_def read_current_document_def materialize_sync_state_op_def
  materialized_previous_document_def materialized_current_document_def
  put_new_current_document_with_route_indexes_def delete_current_route_indexes_def retire_document_def
  put_current_document_def delete_current_document_def current_route_keys_for_document_def
  remove_documents_def clear_current_documents_for_prefix_def clear_current_documents_for_object_def
  apply_materialized_sync_state_op_def consume_serialized_read_bytes_def scan_current_documents_for_prefix_def
  collect_document_def collect_current_documents_for_prefix_bounded_def strip_prefix_or_empty_def
  current_document_key_from_route_entry_def current_document_key_from_route_entry_without_decoding_def
  current_document_key_from_route_entry_value_def current_document_from_route_entry_def
  scan_current_route_documents_def collect_current_route_documents_bounded_def
  scan_current_document_keys_for_prefix_def scan_current_route_index_keys_def lp_def

lemmas exec_Tail_Log [exec] =
  parse_decimal_u64_def parse_be_u64_def read_optional_u64_def read_u64_or_def
  sync_tail_index_keys_for_bucket_def sync_tail_index_keys_for_op_def put_sync_tail_index_entry_def
  persist_sync_tail_index_entries_def persist_sync_tail_index_entries_if_missing_def persisted_op_def
  append_tail_op_def persist_task_tail_ops_def advance_sync_tail_snapshot_floor_def
  persist_snapshot_current_ops_without_tail_def prune_tail_op_def sat_add_def prune_sync_tail_def
  scan_sync_tail_index_entries_def scan_sync_tail_index_entries_bounded_def
  read_sync_tail_op_def read_sync_tail_op_bounded_def

lemmas exec_Derive [exec] =
  derive_row_put_def derive_row_remove_def serialize_row_for_tail_def put_of_row_def remove_of_row_def
  reject_truncate_def derive_sync_tail_ops_with_options_def derive_parameter_lookup_ops_def

lemmas exec_Lookup_State [exec] =
  doc_column_def row_predicate_matches_def column_value_to_string_def row_id_def
  parameter_lookup_row_document_def read_parameter_lookup_row_def index_key_values_def index_payload_def
  put_parameter_lookup_indexes_def delete_parameter_lookup_indexes_def put_parameter_lookup_row_def
  remove_parameter_lookup_row_def apply_parameter_lookup_op_def apply_parameter_lookup_ops_def
  scan_parameter_lookup_entries_def

lemmas exec_Store [exec] =
  run_rw_def run_ro_def INGEST_LAYOUT_FORMAT_VERSION_def CURSOR_IDS_PER_MILLISECOND_def i64_max_def
  next_cursor_generation_base_def seed_cursor_generation_def layout_version_def read_utf8_def
  ensure_layout_version_for_def reset_for_layout_version_def read_last_persisted_end_lsn_def
  last_persisted_end_lsn_def task_tail_last_op_id_def announce_tail_def persist_batch_body_def
  persist_batch_with_plan_options_and_tail_retention_def serialize_snapshot_row_def persist_snapshot_row_def
  persist_initial_snapshot_rows_def persist_initial_snapshot_lookup_rows_def
  persist_initial_snapshot_marker_with_plan_def is_initial_snapshot_complete_def
  initial_snapshot_source_identity_def initial_snapshot_bootstrap_intent_def
  reset_incomplete_initial_snapshot_def load_batch_def read_parameter_lookup_rows_def
  load_task_tail_ops_since_def indexes_behind_def backfill_indexes_def ensure_sync_tail_indexes_current_def
  indexed_task_tail_last_op_id_def load_indexed_task_tail_ops_since_def

lemmas exec_Bucket_Read [exec] =
  sum_accumulators_def checkpoint_accumulator_for_bucket_def current_checkpoint_accumulator_for_bucket_def
  reset_needed_def collect_bucket_documents_def read_tail_ops_bounded_def
  read_bucket_snapshot_in_transaction_def read_bucket_snapshots_with_limits_def bt_or_insert_def
  load_current_documents_for_bucket_def current_document_count_for_bucket_def

lemmas exec_Wire [exec] =
  cursors_from_pairs_def after_for_def max_after_def with_updated_after_def with_global_after_def
  resolve_bucket_request_for_plan_def resolved_sync_buckets_def bucket_tail_index_keys_def
  document_matches_bucket_def document_put_entry_def current_entries_for_bucket_def
  checkpoint_accumulator_for_entries_def tail_op_effect_for_bucket_def task_tail_oplog_entry_with_op_id_def
  tail_entries_for_bucket_def build_bucket_payload_def bucket_view_def bucket_read_request_def
  bucket_views_def dynamic_task_tail_source_for_buckets_def latest_cursor_def
  latest_sync_bucket_cursors_for_plan_def

lemmas exec_Messages [exec] =
  checksum_sum_def bucket_checksum_from_entries_def oplog_entry_id_def data_line_from_entries_def
  dedup_stream_descriptions_def checkpoint_line_def checkpoint_complete_line_def snapshot_clear_entry_def
  snapshot_current_entry_def snapshot_entries_def includes_clear_def page_iterator_def chunk_iterator_new_def
  take_page_def next_line_def entry_id_def entries_ok_def page_ok_def page_entries_def page_lines_def
  lines_left_def

declare Let_def [exec] List.map_filter_simps [exec] unfix_def [exec] insort_insert_key_def [exec]

section \<open>The reference table and codecs\<close>

lemma ref_crates_sel [exec]:
  "cr_json ref_crates = ref_json" "cr_sha256 ref_crates = rev" "cr_doc_from_slice ref_crates = (\<lambda>_. None)"
  "cr_op_to_vec ref_crates = ref_op" "cr_op_from_slice ref_crates = ref_op_dec"
  "cr_names_to_vec ref_crates ns = Some (ref_enc ns)" "cr_names_from_slice ref_crates = ref_dec"
  "cr_lookup_row_to_vec ref_crates d = Some (ref_lookup_row d)"
  "cr_lookup_row_from_slice ref_crates = ref_lookup_row_dec"
  "cr_payload_to_vec ref_crates p = Some (ref_pairs p)" "cr_payload_from_slice ref_crates = ref_pairs_dec"
  by (simp_all add: ref_crates_def)

lemma alist_mdbx_sel [exec]:
  "mdbx_get alist_mdbx t k = Inr (map_of t k)" "mdbx_put alist_mdbx t k v = Inr (alist_put t k v)"
  "mdbx_del alist_mdbx t k = Inr (map_of t k \<noteq> None, alist_del t k)"
  "mdbx_iter_from alist_mdbx t k = Inr (alist_iter_from t k)" "mdbx_clear alist_mdbx t = Inr []"
  "mdbx_begin alist_mdbx t = Inr t" "mdbx_commit alist_mdbx t = Inr t"
  by (simp_all add: alist_mdbx_def)

text \<open>Range reads of the reference table, restricted to the prefix before the keys are sorted.\<close>

lemma alist_scan_prefix [exec]:
  "t_scan_prefix alist_mdbx t p
   = Inr (map (\<lambda>k. (k, the (map_of t k))) (sort (remdups (filter (starts_with p) (map fst t)))))"
proof -
  have "takeWhile (\<lambda>(k, v). starts_with p k) (alist_iter_from t p) = filter (\<lambda>(k, v). starts_with p k) (alist_iter_from t p)"
    using alist_iter_from_scan [of t p] by (intro takeWhile_prefix_filter) (auto simp: is_scan_from_def)
  also have "\<dots> = map (\<lambda>k. (k, the (map_of t k))) (filter (starts_with p) (sort (remdups (filter (\<lambda>k. p \<le> k) (map fst t)))))"
    by (simp add: alist_iter_from_def filter_map o_def)
  also have "filter (starts_with p) (sort (remdups (filter (\<lambda>k. p \<le> k) (map fst t)))) = sort (remdups (filter (starts_with p) (map fst t)))"
    by (auto simp: filter_sort [symmetric] remdups_filter intro!: arg_cong [of _ _ sort] arg_cong [of _ _ remdups] filter_cong
        dest: starts_with_ge)
  finally show ?thesis by (simp add: t_scan_prefix_def t_iter_from_def alist_mdbx_sel)
qed

lemma visit_items_takeWhile:
  "visit_items visit prefix l (takeWhile (\<lambda>(k, v). starts_with prefix k) items) s = visit_items visit prefix l items s"
proof (induction items arbitrary: s)
  case (Cons it items)
  obtain k v where it: "it = (k, v)" by (cases it)
  show ?case
  proof (cases "starts_with prefix k")
    case True
    then have "takeWhile (\<lambda>(k, v). starts_with prefix k) (it # items)
        = (k, v) # takeWhile (\<lambda>(k, v). starts_with prefix k) items" by (simp add: it)
    then show ?thesis unfolding it by (simp only: visit_items.simps Cons.IH cong: option.case_cong if_cong)
  qed (simp add: it)
qed simp

lemma alist_visit_index [exec]:
  "visit_sync_tail_index_entries alist_mdbx t name first_id final_id visit s =
     (if first_id > final_id then Inr (s, True)
      else visit_items visit (sync_tail_index_entry_prefix name) final_id
        (map (\<lambda>k. (k, the (map_of t k)))
          (sort (remdups (filter (\<lambda>k. sync_tail_index_entry_key name first_id \<le> k)
            (filter (starts_with (sync_tail_index_entry_prefix name)) (map fst t)))))) s)"
proof -
  let ?p = "sync_tail_index_entry_prefix name" and ?k = "sync_tail_index_entry_key name first_id"
  have "?p \<le> ?k" by (rule starts_with_ge) (simp add: sync_tail_index_entry_key_prefix_split)
  then have "takeWhile (\<lambda>(k, v). starts_with ?p k) (alist_iter_from t ?k) = filter (\<lambda>(k, v). starts_with ?p k) (alist_iter_from t ?k)"
    using alist_iter_from_scan [of t ?k] by (intro takeWhile_prefix_filter) (auto simp: is_scan_from_def dest: order_trans)
  also have "\<dots> = map (\<lambda>k. (k, the (map_of t k))) (filter (starts_with ?p) (sort (remdups (filter (\<lambda>k. ?k \<le> k) (map fst t)))))"
    by (simp add: alist_iter_from_def filter_map o_def)
  also have "filter (starts_with ?p) (sort (remdups (filter (\<lambda>k. ?k \<le> k) (map fst t))))
    = sort (remdups (filter (\<lambda>k. ?k \<le> k) (filter (starts_with ?p) (map fst t))))"
    by (auto simp: filter_sort [symmetric] remdups_filter conj_commute intro!: arg_cong [of _ _ sort] arg_cong [of _ _ remdups] filter_cong)
  finally show ?thesis
    using visit_items_takeWhile [of visit ?p final_id "alist_iter_from t ?k" s]
    by (simp add: visit_sync_tail_index_entries_def t_iter_from_def alist_mdbx_sel)
qed

section \<open>Evaluation order\<close>

lemma exec_cong:
  "m = m' \<Longrightarrow> rbind m f = rbind m' f"
  "s = s' \<Longrightarrow> xs = xs' \<Longrightarrow> rfold g s xs = rfold g s' xs'"
  "ys = ys' \<Longrightarrow> rmap h ys = rmap h ys'"
  "zs = zs' \<Longrightarrow> omap i zs = omap i zs'"
  "n = n' \<Longrightarrow> obind n j = obind n' j"
  "P = P' \<Longrightarrow> (P \<and> Q) = (P' \<and> Q)"
  "P = P' \<Longrightarrow> (P \<or> Q) = (P' \<or> Q)"
  by simp_all

lemmas exec_del = list.size(4) One_nat_def

section \<open>Numerals and characters\<close>

lemma length_numeral [exec]: "length (x # xs) = length xs + 1" "Suc (Suc 0) = 2"
  by simp_all

lemma fixw_numeral [exec]:
  "fixw b (numeral v) n = fixw b (pred_numeral v) (n div b) @ [n mod b]" "fixw b 1 n = [n mod b]"
  by (simp_all add: numeral_eq_Suc)

lemma replicate_numeral [exec]:
  "replicate (numeral v) x = x # replicate (pred_numeral v) x" "replicate 1 x = [x]"
  by (simp_all add: numeral_eq_Suc)

lemmas digits_numeral [exec] =
  digits.simps [of 10 "numeral k" for k] digits.simps [of 10 0] digits.simps [of 10 1]
  digits.simps [of 16 "numeral k" for k] digits.simps [of 16 0] digits.simps [of 16 1]

lemma char_of_bits:
  "char_of (n :: nat) = Char (odd n) (odd (n div 2)) (odd (n div 4)) (odd (n div 8)) (odd (n div 16))
     (odd (n div 32)) (odd (n div 64)) (odd (n div 128))"
  by (simp add: char_of_def bit_iff_odd)

lemmas char_of_numeral [exec] = char_of_bits [of "numeral k" for k] char_of_bits [of 0] char_of_bits [of 1]

lemma digit_chars [exec]:
  "digit_char 0 = CHR ''0''" "digit_char 1 = CHR ''1''" "digit_char 2 = CHR ''2''" "digit_char 3 = CHR ''3''"
  "digit_char 4 = CHR ''4''" "digit_char 5 = CHR ''5''" "digit_char 6 = CHR ''6''" "digit_char 7 = CHR ''7''"
  "digit_char 8 = CHR ''8''" "digit_char 9 = CHR ''9''" "digit_char 10 = CHR ''A''" "digit_char 11 = CHR ''B''"
  "digit_char 12 = CHR ''C''" "digit_char 13 = CHR ''D''" "digit_char 14 = CHR ''E''" "digit_char 15 = CHR ''F''"
  by (simp_all add: digit_char_def char_of_bits)

text \<open>The recursions on a count, at a numeral.\<close>

lemmas numeral_recursions [exec] =
  unesc_list.simps(2) [where n = "pred_numeral k" for k, folded numeral_eq_Suc]
  unesc_list.simps(2) [where n = 0, folded One_nat_def]
  decode_route_fields.simps(2) [where n = "pred_numeral k" for k, folded numeral_eq_Suc]
  decode_route_fields.simps(2) [where n = 0, folded One_nat_def]
  strip_leading.simps(2) [where n = "pred_numeral k" for k, folded numeral_eq_Suc]
  strip_leading.simps(2) [where n = 0, folded One_nat_def]
  decode_changes.simps(2) [where n = "pred_numeral k" for k, folded numeral_eq_Suc]
  decode_changes.simps(2) [where n = 0, folded One_nat_def]
  iter_take.simps(2) [where n = "pred_numeral k" for k, folded numeral_eq_Suc]
  iter_take.simps(2) [where n = 0, folded One_nat_def]
  run_lines.simps(2) [where n = "pred_numeral k" for k, folded numeral_eq_Suc]
  run_lines.simps(2) [where n = 0, folded One_nat_def]

declare prune_chunks.simps [exec] json_eq.simps [exec] ref_opt.simps [exec] page_loop.simps [exec]

end
