(* ===== verification/Decoder.thy ===== *)
theory Decoder
  imports Derive
begin

text \<open>
  The pgoutput batch decoder (\<open>replication/ingest/decoder.rs\<close>): a state machine over stream events
  that assembles the changes between a begin and its commit into one batch. The message parser, the
  tuple decoder, the accessors of relation metadata and the order in which the crate's relation map is
  iterated belong to the third-party crate \<open>pg_walstream\<close>; the record \<open>pgoutput\<close> holds what the program
  calls. \<open>'m\<close> is the crate's tuple type, \<open>'p\<close> the state of its parser, which every payload may change.
  An event returns the new decoder state with its result, since an event that fails may still have
  changed the state.
\<close>

section \<open>Messages and relations\<close>

record ColumnInfo =
  col_name :: string
  col_type_id :: nat

record RelationInfo =
  rel_relation_id :: nat
  rel_namespace :: string
  rel_relation_name :: string
  rel_replica_identity :: nat
  rel_columns :: "ColumnInfo list"

datatype 'm LogicalReplicationMessage =
    RelationMsg nat string string nat "ColumnInfo list"
  | InsertMsg nat 'm
  | UpdateMsg nat "'m option" 'm
  | DeleteMsg nat 'm
  | TruncateMsg "nat list"
  | TypeMsg | OriginMsg | MessageMsg
  | BeginMsg | CommitMsg | StreamStartMsg | StreamStopMsg | StreamCommitMsg | StreamAbortMsg
  | BeginPrepareMsg | PrepareMsg | CommitPreparedMsg | RollbackPreparedMsg | StreamPrepareMsg

record ('p, 'm) pgoutput =
  pg_new_parser :: 'p
  pg_parse_wal_message :: "'p \<Rightarrow> bytes \<Rightarrow> 'p \<times> (string + 'm LogicalReplicationMessage)"
  pg_to_row_data :: "'m \<Rightarrow> RelationInfo \<Rightarrow> row_data"
  pg_replica_identity_from_byte :: "nat \<Rightarrow> char option"
  pg_get_key_columns :: "RelationInfo \<Rightarrow> string list"
  pg_full_name :: "RelationInfo \<Rightarrow> string"
  pg_update_received_lsn :: "nat \<Rightarrow> nat \<Rightarrow> nat"
  pg_relation_values :: "(nat \<times> RelationInfo) list \<Rightarrow> RelationInfo list"

datatype ReplicationStreamEvent =
    KeepAlive lsn
  | Begin lsn nat "64 word"
  | XLogData lsn bytes
  | Commit lsn lsn "64 word"
  | MessageEvent
  | StoppedAt lsn

section \<open>State\<close>

record OpenTransaction =
  tx_transaction_id :: nat
  tx_begin_final_lsn :: lsn
  tx_begin_commit_time_micros :: "64 word"
  tx_changes :: "ChangeEvent list"

record 'p PgOutputBatchDecoder =
  de_parser :: 'p
  de_received_lsn :: nat
  de_relations :: "(nat \<times> RelationInfo) list"
  de_transaction :: "OpenTransaction option"

definition decoder_new :: "('p, 'm) pgoutput \<Rightarrow> 'p PgOutputBatchDecoder" where
  "decoder_new P = \<lparr> de_parser = pg_new_parser P, de_received_lsn = 0, de_relations = [], de_transaction = None \<rparr>"

definition add_relation :: "RelationInfo \<Rightarrow> 'p PgOutputBatchDecoder \<Rightarrow> 'p PgOutputBatchDecoder" where
  "add_relation r d =
     d\<lparr>de_relations := (rel_relation_id r, r) # filter (\<lambda>(i, _). i \<noteq> rel_relation_id r) (de_relations d)\<rparr>"

definition relation :: "'p PgOutputBatchDecoder \<Rightarrow> nat \<Rightarrow> RelationInfo result" where
  "relation d relation_id = ok_or (MissingRelation relation_id) (map_of (de_relations d) relation_id)"

definition replica_identity :: "('p, 'm) pgoutput \<Rightarrow> RelationInfo \<Rightarrow> char result" where
  "replica_identity P r =
     ok_or (InvalidReplicaIdentity (rel_relation_id r) (rel_replica_identity r))
       (pg_replica_identity_from_byte P (rel_replica_identity r))"

definition key_columns :: "('p, 'm) pgoutput \<Rightarrow> RelationInfo \<Rightarrow> string list" where
  "key_columns P r = pg_get_key_columns P r"

definition push_change ::
  "'p PgOutputBatchDecoder \<Rightarrow> string \<Rightarrow> ChangeEvent \<Rightarrow> 'p PgOutputBatchDecoder result" where
  "push_change d change_kind change =
     (case de_transaction d of
        None \<Rightarrow> Inl (ChangeOutsideTransaction change_kind)
      | Some tx \<Rightarrow> Inr (d\<lparr>de_transaction := Some (tx\<lparr>tx_changes := tx_changes tx @ [change]\<rparr>)\<rparr>))"

definition json_column_type_from_type_oid :: "nat \<Rightarrow> JsonColumnType" where
  "json_column_type_from_type_oid type_id =
     (if type_id = 16 then Boolean_Type
      else if type_id \<in> {20, 21, 23, 700, 701, 1700} then Number_Type
      else if type_id \<in> {1082, 1114, 1184} then Timestamp_Type
      else if type_id \<in> {114, 3802} then Json_Type
      else String_Type)"

definition current_relation_column_types ::
  "('p, 'm) pgoutput \<Rightarrow> 'p PgOutputBatchDecoder \<Rightarrow> JsonColumnTypes btree" where
  "current_relation_column_types P d =
     bt_of_list (map (\<lambda>r. (rel_relation_name r,
       bt_of_list (map (\<lambda>c. (col_name c, json_column_type_from_type_oid (col_type_id c))) (rel_columns r))))
       (pg_relation_values P (de_relations d)))"

fun logical_message_kind :: "'m LogicalReplicationMessage \<Rightarrow> string" where
  "logical_message_kind BeginMsg = ''begin''"
| "logical_message_kind CommitMsg = ''commit''"
| "logical_message_kind (RelationMsg _ _ _ _ _) = ''relation''"
| "logical_message_kind (InsertMsg _ _) = ''insert''"
| "logical_message_kind (UpdateMsg _ _ _) = ''update''"
| "logical_message_kind (DeleteMsg _ _) = ''delete''"
| "logical_message_kind (TruncateMsg _) = ''truncate''"
| "logical_message_kind TypeMsg = ''type''"
| "logical_message_kind OriginMsg = ''origin''"
| "logical_message_kind MessageMsg = ''message''"
| "logical_message_kind StreamStartMsg = ''stream-start''"
| "logical_message_kind StreamStopMsg = ''stream-stop''"
| "logical_message_kind StreamCommitMsg = ''stream-commit''"
| "logical_message_kind StreamAbortMsg = ''stream-abort''"
| "logical_message_kind BeginPrepareMsg = ''begin-prepare''"
| "logical_message_kind PrepareMsg = ''prepare''"
| "logical_message_kind CommitPreparedMsg = ''commit-prepared''"
| "logical_message_kind RollbackPreparedMsg = ''rollback-prepared''"
| "logical_message_kind StreamPrepareMsg = ''stream-prepare''"

section \<open>Events\<close>

definition decode_message ::
  "('p, 'm) pgoutput \<Rightarrow> 'p PgOutputBatchDecoder \<Rightarrow> lsn \<Rightarrow> 'm LogicalReplicationMessage \<Rightarrow> 'p PgOutputBatchDecoder result" where
  "decode_message P d wal_end message =
     (case message of
        RelationMsg relation_id namespace relation_name identity columns \<Rightarrow>
          Inr (add_relation \<lparr> rel_relation_id = relation_id, rel_namespace = namespace,
                 rel_relation_name = relation_name, rel_replica_identity = identity, rel_columns = columns \<rparr> d)
      | InsertMsg relation_id tuple \<Rightarrow>
          rbind (relation d relation_id) (\<lambda>r.
            push_change d ''insert''
              \<lparr> ev_event_type = Insert (rel_namespace r) (rel_relation_name r) relation_id (pg_to_row_data P tuple r),
                ev_lsn = wal_end \<rparr>)
      | UpdateMsg relation_id old_tuple new_tuple \<Rightarrow>
          rbind (relation d relation_id) (\<lambda>r.
          rbind (replica_identity P r) (\<lambda>identity.
            push_change d ''update''
              \<lparr> ev_event_type = Update (rel_namespace r) (rel_relation_name r) relation_id
                  (map_option (\<lambda>tuple. pg_to_row_data P tuple r) old_tuple) (pg_to_row_data P new_tuple r)
                  identity (key_columns P r), ev_lsn = wal_end \<rparr>))
      | DeleteMsg relation_id old_tuple \<Rightarrow>
          rbind (relation d relation_id) (\<lambda>r.
          rbind (replica_identity P r) (\<lambda>identity.
            push_change d ''delete''
              \<lparr> ev_event_type = Delete (rel_namespace r) (rel_relation_name r) relation_id
                  (pg_to_row_data P old_tuple r) identity (key_columns P r), ev_lsn = wal_end \<rparr>))
      | TruncateMsg relation_ids \<Rightarrow>
          rbind (rmap (relation d) relation_ids) (\<lambda>relations.
            push_change d ''truncate''
              \<lparr> ev_event_type = Truncate (map (pg_full_name P) relations), ev_lsn = wal_end \<rparr>)
      | TypeMsg \<Rightarrow> Inr d
      | OriginMsg \<Rightarrow> Inr d
      | MessageMsg \<Rightarrow> Inr d
      | other \<Rightarrow> Inl (UnsupportedPgoutputMessage (logical_message_kind other)))"

definition decode_wal_payload ::
  "('p, 'm) pgoutput \<Rightarrow> 'p PgOutputBatchDecoder \<Rightarrow> lsn \<Rightarrow> bytes \<Rightarrow> 'p PgOutputBatchDecoder \<times> unit result" where
  "decode_wal_payload P d wal_end data =
     (case pg_parse_wal_message P (de_parser d) data of (parser, decoded) \<Rightarrow>
        let d = d\<lparr>de_parser := parser\<rparr> in
        case rbind (map_err PgWalstream decoded) (decode_message P d wal_end) of
          Inl e \<Rightarrow> (d, Inl e)
        | Inr d' \<Rightarrow> (d', Inr ()))"

definition received :: "('p, 'm) pgoutput \<Rightarrow> lsn \<Rightarrow> 'p PgOutputBatchDecoder \<Rightarrow> 'p PgOutputBatchDecoder" where
  "received P l d = d\<lparr>de_received_lsn := pg_update_received_lsn P (de_received_lsn d) l\<rparr>"

definition push_stream_event ::
  "('p, 'm) pgoutput \<Rightarrow> 'p PgOutputBatchDecoder \<Rightarrow> ReplicationStreamEvent \<Rightarrow>
   'p PgOutputBatchDecoder \<times> batch option result" where
  "push_stream_event P d event =
     (case event of
        KeepAlive wal_end \<Rightarrow> (received P wal_end d, Inr None)
      | Begin final_lsn xid commit_time \<Rightarrow>
          (case de_transaction d of
             Some current \<Rightarrow> (d, Inl (BeginWhileTransactionOpen (tx_transaction_id current) xid))
           | None \<Rightarrow>
               (d\<lparr>de_transaction := Some \<lparr> tx_transaction_id = xid, tx_begin_final_lsn = final_lsn,
                    tx_begin_commit_time_micros = commit_time, tx_changes = [] \<rparr>\<rparr>, Inr None))
      | XLogData wal_end data \<Rightarrow>
          (let d = received P wal_end d in
           case decode_wal_payload P d wal_end data of
             (d', Inl e) \<Rightarrow> (d', Inl e)
           | (d', Inr _) \<Rightarrow> (d', Inr None))
      | Commit commit_lsn_value end_lsn_value commit_time \<Rightarrow>
          (let d = received P end_lsn_value d in
           case de_transaction d of
             None \<Rightarrow> (d, Inl (CommitWithoutBegin end_lsn_value))
           | Some tx \<Rightarrow>
               (d\<lparr>de_transaction := None\<rparr>,
                Inr (Some \<lparr> transaction_id = tx_transaction_id tx, begin_final_lsn = tx_begin_final_lsn tx,
                            begin_commit_time_micros = tx_begin_commit_time_micros tx,
                            commit_lsn = commit_lsn_value, end_lsn = end_lsn_value,
                            commit_time_micros = commit_time,
                            column_types_by_table = current_relation_column_types P d,
                            changes = tx_changes tx \<rparr>)))
      | MessageEvent \<Rightarrow> (d, Inr None)
      | StoppedAt _ \<Rightarrow> (d, Inr None))"

section \<open>Runs\<close>

fun run_events ::
  "('p, 'm) pgoutput \<Rightarrow> 'p PgOutputBatchDecoder \<Rightarrow> ReplicationStreamEvent list \<Rightarrow> ('p PgOutputBatchDecoder \<times> batch list) result" where
  "run_events P d [] = Inr (d, [])"
| "run_events P d (e # es) =
     (case push_stream_event P d e of
        (d', Inl err) \<Rightarrow> Inl err
      | (d', Inr b) \<Rightarrow>
          rbind (run_events P d' es) (\<lambda>(d'', bs). Inr (d'', (case b of None \<Rightarrow> bs | Some b \<Rightarrow> b # bs))))"

section \<open>What the messages describe\<close>

text \<open>
  The reference for the decoder's result, stated on the parsed messages alone: the relations a
  message declares, the changes it describes under the relations declared so far, and whether it can
  be understood. No transaction and no decoder state takes part.
\<close>

fun declared :: "(nat \<rightharpoonup> RelationInfo) \<Rightarrow> 'm LogicalReplicationMessage \<Rightarrow> nat \<rightharpoonup> RelationInfo" where
  "declared rels (RelationMsg i ns name identity cols) =
     rels(i \<mapsto> \<lparr> rel_relation_id = i, rel_namespace = ns, rel_relation_name = name,
                 rel_replica_identity = identity, rel_columns = cols \<rparr>)"
| "declared rels _ = rels"

fun mentioned :: "'m LogicalReplicationMessage \<Rightarrow> nat list" where
  "mentioned (InsertMsg i _) = [i]"
| "mentioned (UpdateMsg i _ _) = [i]"
| "mentioned (DeleteMsg i _) = [i]"
| "mentioned (TruncateMsg ids) = ids"
| "mentioned _ = []"

definition identity_of :: "('p, 'm) pgoutput \<Rightarrow> RelationInfo \<Rightarrow> char option" where
  "identity_of P r = pg_replica_identity_from_byte P (rel_replica_identity r)"

definition is_keyed :: "'m LogicalReplicationMessage \<Rightarrow> bool" where
  "is_keyed m \<longleftrightarrow> (case m of UpdateMsg _ _ _ \<Rightarrow> True | DeleteMsg _ _ \<Rightarrow> True | _ \<Rightarrow> False)"

definition is_change :: "'m LogicalReplicationMessage \<Rightarrow> bool" where
  "is_change m \<longleftrightarrow>
     (case m of InsertMsg _ _ \<Rightarrow> True | UpdateMsg _ _ _ \<Rightarrow> True | DeleteMsg _ _ \<Rightarrow> True | TruncateMsg _ \<Rightarrow> True | _ \<Rightarrow> False)"

definition is_silent :: "'m LogicalReplicationMessage \<Rightarrow> bool" where
  "is_silent m \<longleftrightarrow>
     (case m of RelationMsg _ _ _ _ _ \<Rightarrow> True | TypeMsg \<Rightarrow> True | OriginMsg \<Rightarrow> True | MessageMsg \<Rightarrow> True | _ \<Rightarrow> False)"

definition understood :: "('p, 'm) pgoutput \<Rightarrow> (nat \<rightharpoonup> RelationInfo) \<Rightarrow> 'm LogicalReplicationMessage \<Rightarrow> bool" where
  "understood P rels m \<longleftrightarrow> is_silent m \<or>
     is_change m \<and> set (mentioned m) \<subseteq> dom rels \<and>
     (is_keyed m \<longrightarrow> (\<forall>i \<in> set (mentioned m). identity_of P (the (rels i)) \<noteq> None))"

fun event_kind_of :: "('p, 'm) pgoutput \<Rightarrow> (nat \<Rightarrow> RelationInfo) \<Rightarrow> 'm LogicalReplicationMessage \<Rightarrow> EventType list" where
  "event_kind_of P rel (InsertMsg i new) =
     [Insert (rel_namespace (rel i)) (rel_relation_name (rel i)) i (pg_to_row_data P new (rel i))]"
| "event_kind_of P rel (UpdateMsg i old new) =
     [Update (rel_namespace (rel i)) (rel_relation_name (rel i)) i
        (map_option (\<lambda>t. pg_to_row_data P t (rel i)) old) (pg_to_row_data P new (rel i))
        (the (identity_of P (rel i))) (pg_get_key_columns P (rel i))]"
| "event_kind_of P rel (DeleteMsg i old) =
     [Delete (rel_namespace (rel i)) (rel_relation_name (rel i)) i (pg_to_row_data P old (rel i))
        (the (identity_of P (rel i))) (pg_get_key_columns P (rel i))]"
| "event_kind_of P rel (TruncateMsg ids) = [Truncate (map (\<lambda>i. pg_full_name P (rel i)) ids)]"
| "event_kind_of P rel _ = []"

definition described ::
  "('p, 'm) pgoutput \<Rightarrow> (nat \<rightharpoonup> RelationInfo) \<Rightarrow> lsn \<Rightarrow> 'm LogicalReplicationMessage \<Rightarrow> ChangeEvent list" where
  "described P rels l m =
     map (\<lambda>k. \<lparr> ev_event_type = k, ev_lsn = l \<rparr>) (event_kind_of P (\<lambda>i. the (rels i)) m)"

text \<open>The same over a stream of events: only the crate's parser and the declared relations are threaded.\<close>

fun stream_changes ::
  "('p, 'm) pgoutput \<Rightarrow> 'p \<Rightarrow> (nat \<rightharpoonup> RelationInfo) \<Rightarrow> ReplicationStreamEvent list \<Rightarrow> ChangeEvent list" where
  "stream_changes P p rels [] = []"
| "stream_changes P p rels (XLogData l data # es) =
     (case pg_parse_wal_message P p data of
        (p', Inl _) \<Rightarrow> []
      | (p', Inr m) \<Rightarrow> described P rels l m @ stream_changes P p' (declared rels m) es)"
| "stream_changes P p rels (_ # es) = stream_changes P p rels es"

fun stream_relations ::
  "('p, 'm) pgoutput \<Rightarrow> 'p \<Rightarrow> (nat \<rightharpoonup> RelationInfo) \<Rightarrow> ReplicationStreamEvent list \<Rightarrow> nat \<rightharpoonup> RelationInfo" where
  "stream_relations P p rels [] = rels"
| "stream_relations P p rels (XLogData l data # es) =
     (case pg_parse_wal_message P p data of
        (p', Inl _) \<Rightarrow> rels
      | (p', Inr m) \<Rightarrow> stream_relations P p' (declared rels m) es)"
| "stream_relations P p rels (_ # es) = stream_relations P p rels es"

fun stream_understood ::
  "('p, 'm) pgoutput \<Rightarrow> 'p \<Rightarrow> (nat \<rightharpoonup> RelationInfo) \<Rightarrow> ReplicationStreamEvent list \<Rightarrow> bool" where
  "stream_understood P p rels [] \<longleftrightarrow> True"
| "stream_understood P p rels (XLogData l data # es) \<longleftrightarrow>
     (case pg_parse_wal_message P p data of
        (p', Inl _) \<Rightarrow> False
      | (p', Inr m) \<Rightarrow> understood P rels m \<and> stream_understood P p' (declared rels m) es)"
| "stream_understood P p rels (_ # es) \<longleftrightarrow> stream_understood P p rels es"

fun commit_lsns :: "ReplicationStreamEvent list \<Rightarrow> lsn list" where
  "commit_lsns [] = []"
| "commit_lsns (Commit _ el _ # es) = el # commit_lsns es"
| "commit_lsns (_ # es) = commit_lsns es"

definition is_boundary :: "ReplicationStreamEvent \<Rightarrow> bool" where
  "is_boundary e \<longleftrightarrow> (case e of Begin _ _ _ \<Rightarrow> True | Commit _ _ _ \<Rightarrow> True | _ \<Rightarrow> False)"

definition pending :: "'p PgOutputBatchDecoder \<Rightarrow> ChangeEvent list" where
  "pending d = (case de_transaction d of None \<Rightarrow> [] | Some tx \<Rightarrow> tx_changes tx)"

abbreviation relations_of :: "'p PgOutputBatchDecoder \<Rightarrow> nat \<rightharpoonup> RelationInfo" where
  "relations_of d \<equiv> map_of (de_relations d)"

text \<open>
  The events that are refused and why: the first unknown relation a change mentions, then its replica
  identity, then the missing transaction, in the order in which the decoder looks.
\<close>

inductive rejected ::
  "('p, 'm) pgoutput \<Rightarrow> 'p PgOutputBatchDecoder \<Rightarrow> ReplicationStreamEvent \<Rightarrow> ingest_error \<Rightarrow> bool"
  for P d where
  nested_begin: "de_transaction d = Some tx \<Longrightarrow>
     rejected P d (Begin l xid tm) (BeginWhileTransactionOpen (tx_transaction_id tx) xid)"
| lone_commit: "de_transaction d = None \<Longrightarrow> rejected P d (Commit cl el tm) (CommitWithoutBegin el)"
| garbled: "pg_parse_wal_message P (de_parser d) data = (p, Inl reason) \<Longrightarrow>
     rejected P d (XLogData l data) (PgWalstream reason)"
| unknown_relation: "pg_parse_wal_message P (de_parser d) data = (p, Inr m) \<Longrightarrow>
     find (\<lambda>i. relations_of d i = None) (mentioned m) = Some i \<Longrightarrow>
     rejected P d (XLogData l data) (MissingRelation i)"
| bad_identity: "pg_parse_wal_message P (de_parser d) data = (p, Inr m) \<Longrightarrow> is_keyed m \<Longrightarrow>
     mentioned m = [i] \<Longrightarrow> relations_of d i = Some r \<Longrightarrow> identity_of P r = None \<Longrightarrow>
     rejected P d (XLogData l data) (InvalidReplicaIdentity (rel_relation_id r) (rel_replica_identity r))"
| stray_change: "pg_parse_wal_message P (de_parser d) data = (p, Inr m) \<Longrightarrow> is_change m \<Longrightarrow>
     understood P (relations_of d) m \<Longrightarrow> de_transaction d = None \<Longrightarrow>
     rejected P d (XLogData l data) (ChangeOutsideTransaction (logical_message_kind m))"
| unsupported: "pg_parse_wal_message P (de_parser d) data = (p, Inr m) \<Longrightarrow>
     \<not> is_silent m \<Longrightarrow> \<not> is_change m \<Longrightarrow>
     rejected P d (XLogData l data) (UnsupportedPgoutputMessage (logical_message_kind m))"

inductive_simps rejected_begin: "rejected P d (Begin l xid tm) x"
inductive_simps rejected_commit: "rejected P d (Commit cl el tm) x"
inductive_simps rejected_payload: "rejected P d (XLogData l data) x"
inductive_simps rejected_other: "rejected P d (KeepAlive l) x" "rejected P d MessageEvent x" "rejected P d (StoppedAt l) x"

section \<open>One message\<close>

lemma received_fields [simp]:
  "de_transaction (received P l d) = de_transaction d" "de_relations (received P l d) = de_relations d"
  "de_parser (received P l d) = de_parser d"
  by (simp_all add: received_def)

lemma pending_simps [simp]:
  "pending (received P l d) = pending d" "pending (d\<lparr>de_parser := p\<rparr>) = pending d" "pending (add_relation r d) = pending d"
  "pending (d\<lparr>de_transaction := None\<rparr>) = []" "pending (d\<lparr>de_transaction := Some tx\<rparr>) = tx_changes tx"
  by (simp_all add: pending_def add_relation_def)

lemma relation_eq: "relation d i = (case relations_of d i of None \<Rightarrow> Inl (MissingRelation i) | Some r \<Rightarrow> Inr r)"
  by (simp add: relation_def split: option.splits)

lemma relation_parser [simp]: "relation (d\<lparr>de_parser := p\<rparr>) = relation d"
  by (simp add: relation_def fun_eq_iff)

lemma relations_ok:
  "rmap (relation d) ids = Inr rs \<longleftrightarrow> set ids \<subseteq> dom (relations_of d) \<and> rs = map (\<lambda>i. the (relations_of d i)) ids"
  by (induction ids arbitrary: rs) (auto simp: relation_eq rbind_Inr_iff split: option.splits)

lemma relations_unknown:
  "rmap (relation d) ids = Inl x \<longleftrightarrow> (\<exists>i. find (\<lambda>i. relations_of d i = None) ids = Some i \<and> x = MissingRelation i)"
proof (induction ids)
  case (Cons j ids)
  then show ?case
    using relation_eq [of d j] by (cases "relations_of d j"; cases "rmap (relation d) ids") auto
qed simp

lemma replica_identity_eq:
  "replica_identity P r =
     (case identity_of P r of None \<Rightarrow> Inl (InvalidReplicaIdentity (rel_relation_id r) (rel_replica_identity r)) | Some c \<Rightarrow> Inr c)"
  by (simp add: replica_identity_def identity_of_def split: option.splits)

lemma map_of_add_relation: "relations_of (add_relation r d) = (relations_of d)(rel_relation_id r \<mapsto> r)"
proof
  fix i
  have "map_of (filter (\<lambda>(i, _). i \<noteq> k) xs) i = (if i = k then None else map_of xs i)" for k and xs :: "(nat \<times> RelationInfo) list"
    by (induction xs) auto
  then show "relations_of (add_relation r d) i = ((relations_of d)(rel_relation_id r \<mapsto> r)) i" by (simp add: add_relation_def)
qed

lemmas message_defs = decode_message_def understood_def is_silent_def is_change_def is_keyed_def described_def

text \<open>A message that is understood, inside a transaction when it is a change, does what it describes.\<close>

definition appended :: "ChangeEvent list \<Rightarrow> OpenTransaction option \<Rightarrow> OpenTransaction option" where
  "appended cs = map_option (\<lambda>tx. tx\<lparr>tx_changes := tx_changes tx @ cs\<rparr>)"

lemma appended_Nil [simp]: "appended [] tx = tx" "appended cs None = None"
  by (cases tx; simp add: appended_def)+

lemma decode_message_Inr:
  "(\<exists>d'. decode_message P d l m = Inr d') \<longleftrightarrow> understood P (relations_of d) m \<and> (is_change m \<longrightarrow> de_transaction d \<noteq> None)"
  by (cases m) (auto simp: message_defs relation_eq replica_identity_eq push_change_def rbind_Inr_iff relations_ok
      split: option.splits)

lemma push_change_Inr:
  "push_change d kind c = Inr d' \<longleftrightarrow> de_transaction d \<noteq> None \<and> d' = d\<lparr>de_transaction := appended [c] (de_transaction d)\<rparr>"
  by (auto simp: push_change_def appended_def split: option.splits)

lemma push_change_Inl: "push_change d kind c = Inl x \<longleftrightarrow> de_transaction d = None \<and> x = ChangeOutsideTransaction kind"
  by (auto simp: push_change_def split: option.splits)

lemma relation_iffs:
  "relation d i = Inr r \<longleftrightarrow> relations_of d i = Some r" "relation d i = Inl x \<longleftrightarrow> relations_of d i = None \<and> x = MissingRelation i"
  "replica_identity P r = Inr c \<longleftrightarrow> identity_of P r = Some c"
  "replica_identity P r = Inl x \<longleftrightarrow> identity_of P r = None \<and> x = InvalidReplicaIdentity (rel_relation_id r) (rel_replica_identity r)"
  by (auto simp: relation_eq replica_identity_eq split: option.splits)

lemma rbind_Inl_iff: "rbind m f = Inl x \<longleftrightarrow> m = Inl x \<or> (\<exists>a. m = Inr a \<and> f a = Inl x)"
  by (cases m) simp_all

lemmas decode_iffs = rbind_Inr_iff rbind_Inl_iff relation_iffs push_change_Inr push_change_Inl relations_ok relations_unknown

lemma decode_message_does:
  assumes "decode_message P d l m = Inr d'"
  shows "de_transaction d' = appended (described P (relations_of d) l m) (de_transaction d) \<and>
    relations_of d' = declared (relations_of d) m \<and> de_parser d' = de_parser d"
proof (cases m)
  case (RelationMsg i ns name identity cols)
  with assms show ?thesis by (auto simp: message_defs map_of_add_relation) (simp_all add: add_relation_def)
qed (use assms in \<open>auto simp: message_defs decode_iffs key_columns_def o_def\<close>)

lemma decode_message_Inl:
  "decode_message P d l m = Inl x \<longleftrightarrow>
     (\<exists>i. find (\<lambda>i. relations_of d i = None) (mentioned m) = Some i \<and> x = MissingRelation i)
   \<or> (\<exists>i r. is_keyed m \<and> mentioned m = [i] \<and> relations_of d i = Some r \<and> identity_of P r = None \<and>
        x = InvalidReplicaIdentity (rel_relation_id r) (rel_replica_identity r))
   \<or> (is_change m \<and> understood P (relations_of d) m \<and> de_transaction d = None \<and> x = ChangeOutsideTransaction (logical_message_kind m))
   \<or> (\<not> is_silent m \<and> \<not> is_change m \<and> x = UnsupportedPgoutputMessage (logical_message_kind m))"
proof (cases m)
  case (TruncateMsg ids)
  then show ?thesis by (auto simp: message_defs decode_iffs)
qed (auto simp: message_defs decode_iffs)

section \<open>One event\<close>

lemma payload_Inr:
  "push_stream_event P d (XLogData l data) = (d', Inr b) \<longleftrightarrow> b = None \<and>
   (\<exists>p m. pg_parse_wal_message P (de_parser d) data = (p, Inr m) \<and> decode_message P ((received P l d)\<lparr>de_parser := p\<rparr>) l m = Inr d')"
  by (auto simp: push_stream_event_def decode_wal_payload_def Let_def rbind_Inr_iff split: prod.splits sum.splits)

lemma payload_Inl:
  "push_stream_event P d (XLogData l data) = (d', Inl x) \<longleftrightarrow>
   (\<exists>p r. pg_parse_wal_message P (de_parser d) data = (p, r) \<and> d' = (received P l d)\<lparr>de_parser := p\<rparr> \<and>
      (case r of Inl reason \<Rightarrow> x = PgWalstream reason | Inr m \<Rightarrow> decode_message P d' l m = Inl x))"
  by (auto simp: push_stream_event_def decode_wal_payload_def Let_def split: prod.splits sum.splits)

lemma push_stream_event_rejects: "(\<exists>d'. push_stream_event P d e = (d', Inl x)) \<longleftrightarrow> rejected P d e x"
proof (cases e)
  case (XLogData l data)
  obtain p r where p: "pg_parse_wal_message P (de_parser d) data = (p, r)" by fastforce
  show ?thesis
  proof (cases r)
    case (Inl reason)
    then show ?thesis by (simp add: XLogData payload_Inl rejected_payload p)
  next
    case (Inr m)
    then show ?thesis by (simp add: XLogData payload_Inl rejected_payload p decode_message_Inl) blast
  qed
qed (auto simp: push_stream_event_def Let_def rejected_begin rejected_commit rejected_other split: option.splits)

lemma push_stream_event_error_keeps:
  "push_stream_event P d e = (d', Inl x) \<Longrightarrow> de_transaction d' = de_transaction d \<and> de_relations d' = de_relations d"
  by (cases e) (auto simp: payload_Inl, auto simp: push_stream_event_def Let_def split: option.splits)

section \<open>Runs of events\<close>

lemma appended_pending: "de_transaction d' = appended cs (de_transaction d) \<Longrightarrow> de_transaction d \<noteq> None \<or> cs = [] \<Longrightarrow> pending d' = pending d @ cs"
  by (auto simp: pending_def appended_def split: option.splits)

lemma described_change: "\<not> is_change m \<Longrightarrow> described P rels l m = []"
  by (cases m) (simp_all add: message_defs)

lemma stream_changes_other: "\<nexists>l data. e = XLogData l data \<Longrightarrow>
   stream_changes P p rels (e # es) = stream_changes P p rels es \<and> stream_relations P p rels (e # es) = stream_relations P p rels es \<and>
   stream_understood P p rels (e # es) = stream_understood P p rels es"
  by (cases e) simp_all

text \<open>An accepted event, whatever it is: the changes it describes, then the rest of the stream from the state it leaves.\<close>

lemma event_does:
  assumes "push_stream_event P d e = (d', Inr b)"
  shows "\<exists>cs. pending d @ cs = (case b of None \<Rightarrow> [] | Some b \<Rightarrow> changes b) @ pending d' \<and>
      (\<forall>es. stream_changes P (de_parser d) (relations_of d) (e # es) = cs @ stream_changes P (de_parser d') (relations_of d') es) \<and>
      (\<forall>es. stream_relations P (de_parser d) (relations_of d) (e # es) = stream_relations P (de_parser d') (relations_of d') es) \<and>
      (\<forall>es. stream_understood P (de_parser d) (relations_of d) (e # es) = stream_understood P (de_parser d') (relations_of d') es) \<and>
      map end_lsn (case b of None \<Rightarrow> [] | Some b \<Rightarrow> [b]) = commit_lsns [e]"
proof (cases e)
  case (XLogData l data)
  obtain p m where m: "pg_parse_wal_message P (de_parser d) data = (p, Inr m)" and b: "b = None"
    and dm: "decode_message P ((received P l d)\<lparr>de_parser := p\<rparr>) l m = Inr d'"
    using assms unfolding XLogData payload_Inr by blast
  have "understood P (relations_of d) m \<and> (de_transaction d \<noteq> None \<or> described P (relations_of d) l m = [])"
    using dm decode_message_Inr [of P "(received P l d)\<lparr>de_parser := p\<rparr>" l m] described_change [of m P _ l] by auto
  with decode_message_does [OF dm] appended_pending [of d' _ d] show ?thesis
    by (auto simp: XLogData m b intro!: exI [of _ "described P (relations_of d) l m"])
next
  case (Commit cl el tm)
  with assms show ?thesis
    by (auto simp: push_stream_event_def Let_def pending_def split: option.splits)
qed (use assms in \<open>auto simp: push_stream_event_def pending_def split: option.splits\<close>)

lemma commit_lsns_append: "commit_lsns (xs @ ys) = commit_lsns xs @ commit_lsns ys"
  by (induction xs rule: commit_lsns.induct) simp_all

lemma run_events_Cons:
  "run_events P d (e # es) = Inr (d', bs) \<longleftrightarrow>
   (\<exists>d1 b bs1. push_stream_event P d e = (d1, Inr b) \<and> run_events P d1 es = Inr (d', bs1) \<and>
      bs = (case b of None \<Rightarrow> bs1 | Some b \<Rightarrow> b # bs1))"
  by (auto simp: rbind_Inr_iff split: prod.splits sum.splits)

lemma run_events_conserve:
  "run_events P d es = Inr (d', bs) \<Longrightarrow>
   pending d @ stream_changes P (de_parser d) (relations_of d) es = concat (map changes bs) @ pending d' \<and>
   relations_of d' = stream_relations P (de_parser d) (relations_of d) es \<and> map end_lsn bs = commit_lsns es"
proof (induction es arbitrary: d bs)
  case (Cons e es)
  obtain d1 b bs1 where s: "push_stream_event P d e = (d1, Inr b)" "run_events P d1 es = Inr (d', bs1)"
    and bs: "bs = (case b of None \<Rightarrow> bs1 | Some b \<Rightarrow> b # bs1)"
    using Cons.prems unfolding run_events_Cons by blast
  obtain cs where cs: "pending d @ cs = (case b of None \<Rightarrow> [] | Some b \<Rightarrow> changes b) @ pending d1"
    "stream_changes P (de_parser d) (relations_of d) (e # es) = cs @ stream_changes P (de_parser d1) (relations_of d1) es"
    "stream_relations P (de_parser d) (relations_of d) (e # es) = stream_relations P (de_parser d1) (relations_of d1) es"
    "map end_lsn (case b of None \<Rightarrow> [] | Some b \<Rightarrow> [b]) = commit_lsns [e]"
    using event_does [OF s(1)] by blast
  have "commit_lsns (e # es) = commit_lsns [e] @ commit_lsns es" using commit_lsns_append [of "[e]" es] by simp
  moreover have "pending d @ stream_changes P (de_parser d) (relations_of d) (e # es) =
    (pending d @ cs) @ stream_changes P (de_parser d1) (relations_of d1) es" by (simp add: cs(2))
  ultimately show ?case unfolding cs(1,3) cs(4) [symmetric] using Cons.IH [OF s(2)] bs by (cases b) simp_all
qed simp

text \<open>Inside a transaction every event but a begin and a commit is accepted exactly when its payload is understood.\<close>

lemma inner_event:
  assumes "de_transaction d = Some tx" "\<not> is_boundary e"
  shows "(\<exists>d' b. push_stream_event P d e = (d', Inr b)) \<longleftrightarrow>
      (case e of XLogData l data \<Rightarrow> (\<exists>p m. pg_parse_wal_message P (de_parser d) data = (p, Inr m) \<and> understood P (relations_of d) m) | _ \<Rightarrow> True)"
    and "push_stream_event P d e = (d', Inr b) \<Longrightarrow> b = None \<and> (\<exists>cs. de_transaction d' = Some (tx\<lparr>tx_changes := cs\<rparr>))"
proof -
  show "(\<exists>d' b. push_stream_event P d e = (d', Inr b)) \<longleftrightarrow>
      (case e of XLogData l data \<Rightarrow> (\<exists>p m. pg_parse_wal_message P (de_parser d) data = (p, Inr m) \<and> understood P (relations_of d) m) | _ \<Rightarrow> True)"
  proof (cases e)
    case (XLogData l data)
    with assms(1) show ?thesis
      using decode_message_Inr [of P "(received P l d)\<lparr>de_parser := p\<rparr>" l m for p m] by (auto simp: payload_Inr) blast
  qed (use assms in \<open>auto simp: push_stream_event_def is_boundary_def\<close>)
  show "b = None \<and> (\<exists>cs. de_transaction d' = Some (tx\<lparr>tx_changes := cs\<rparr>))" if "push_stream_event P d e = (d', Inr b)"
  proof (cases e)
    case (XLogData l data)
    with that assms(1) show ?thesis
      by (auto simp: payload_Inr appended_def dest!: decode_message_does)
  qed (use assms that in \<open>auto simp: push_stream_event_def is_boundary_def intro: exI [of _ "tx_changes tx"]\<close>)
qed

lemma inner_run:
  "de_transaction d = Some tx \<Longrightarrow> \<forall>e \<in> set es. \<not> is_boundary e \<Longrightarrow>
   ((\<exists>d' bs. run_events P d es = Inr (d', bs)) \<longleftrightarrow> stream_understood P (de_parser d) (relations_of d) es) \<and>
   (\<forall>d' bs. run_events P d es = Inr (d', bs) \<longrightarrow> bs = [] \<and> (\<exists>cs. de_transaction d' = Some (tx\<lparr>tx_changes := cs\<rparr>)))"
proof (induction es arbitrary: d tx)
  case Nil
  then show ?case by (auto intro: exI [of _ "tx_changes tx"])
next
  case (Cons e es)
  have inner: "\<not> is_boundary e" "\<forall>e \<in> set es. \<not> is_boundary e" using Cons.prems(2) by simp_all
  show ?case
  proof (cases "\<exists>d1 b. push_stream_event P d e = (d1, Inr b)")
    case True
    then obtain d1 b where s: "push_stream_event P d e = (d1, Inr b)" by blast
    from inner_event(2) [OF Cons.prems(1) inner(1) s] obtain cs where [simp]: "b = None"
      and tx: "de_transaction d1 = Some (tx\<lparr>tx_changes := cs\<rparr>)" by blast
    have "stream_understood P (de_parser d) (relations_of d) (e # es) = stream_understood P (de_parser d1) (relations_of d1) es"
      using event_does [OF s] by blast
    with Cons.IH [OF tx inner(2)] show ?thesis unfolding run_events_Cons s by simp
  next
    case False
    with inner_event(1) [OF Cons.prems(1) inner(1), of P] have "\<not> stream_understood P (de_parser d) (relations_of d) (e # es)"
      by (cases e) (auto split: prod.splits sum.splits)
    with False show ?thesis unfolding run_events_Cons by blast
  qed
qed

lemma run_events_append:
  "run_events P d (xs @ ys) = Inr (d', bs) \<longleftrightarrow>
   (\<exists>d1 bs1 bs2. run_events P d xs = Inr (d1, bs1) \<and> run_events P d1 ys = Inr (d', bs2) \<and> bs = bs1 @ bs2)"
proof (induction xs arbitrary: d bs)
  case (Cons e xs)
  show ?case unfolding append_Cons run_events_Cons Cons.IH by (fastforce split: option.splits)
qed simp

lemma column_types_cong: "de_relations d' = de_relations d \<Longrightarrow> current_relation_column_types P d' = current_relation_column_types P d"
  by (simp add: current_relation_column_types_def)

text \<open>A whole transaction, from its begin to its commit.\<close>

lemma transaction_run:
  assumes "de_transaction d = None" "\<forall>e \<in> set mid. \<not> is_boundary e"
  shows "((\<exists>d' bs. run_events P d (Begin l xid tm # mid @ [Commit cl el ctm]) = Inr (d', bs)) \<longleftrightarrow>
      stream_understood P (de_parser d) (relations_of d) mid) \<and>
    (\<forall>d' bs. run_events P d (Begin l xid tm # mid @ [Commit cl el ctm]) = Inr (d', bs) \<longrightarrow>
      de_transaction d' = None \<and> relations_of d' = stream_relations P (de_parser d) (relations_of d) mid \<and>
      bs = [\<lparr> transaction_id = xid, begin_final_lsn = l, begin_commit_time_micros = tm, commit_lsn = cl, end_lsn = el,
              commit_time_micros = ctm, column_types_by_table = current_relation_column_types P d',
              changes = stream_changes P (de_parser d) (relations_of d) mid \<rparr>])"
proof -
  define tx where "tx = \<lparr> tx_transaction_id = xid, tx_begin_final_lsn = l, tx_begin_commit_time_micros = tm, tx_changes = [] \<rparr>"
  let ?d = "d\<lparr>de_transaction := Some tx\<rparr>"
  have b: "push_stream_event P d (Begin l xid tm) = (?d, Inr None)"
    using assms(1) by (simp add: push_stream_event_def tx_def)
  note inner = inner_run [of ?d tx mid P, simplified, OF assms(2)]
  let ?commit = "\<lambda>d1 cs. ((received P el d1)\<lparr>de_transaction := None\<rparr>,
    [\<lparr> transaction_id = xid, begin_final_lsn = l, begin_commit_time_micros = tm, commit_lsn = cl, end_lsn = el,
       commit_time_micros = ctm, column_types_by_table = current_relation_column_types P d1, changes = cs \<rparr>])"
  have c: "run_events P d1 [Commit cl el ctm] = Inr (?commit d1 cs)" if "de_transaction d1 = Some (tx\<lparr>tx_changes := cs\<rparr>)" for d1 cs
    using that column_types_cong [of "received P el d1" d1 P] by (simp add: push_stream_event_def Let_def tx_def)
  have whole: "run_events P d (Begin l xid tm # mid @ [Commit cl el ctm]) = Inr (d', bs) \<longleftrightarrow>
    (\<exists>d1 cs. run_events P ?d mid = Inr (d1, []) \<and> de_transaction d1 = Some (tx\<lparr>tx_changes := cs\<rparr>) \<and> (d', bs) = ?commit d1 cs)" for d' bs
  proof -
    have "run_events P d (Begin l xid tm # mid @ [Commit cl el ctm]) = Inr (d', bs) \<longleftrightarrow> run_events P ?d (mid @ [Commit cl el ctm]) = Inr (d', bs)"
      using run_events_Cons [of P d "Begin l xid tm"] b by simp
    also have "\<dots> \<longleftrightarrow> (\<exists>d1 bs1 bs2. run_events P ?d mid = Inr (d1, bs1) \<and> run_events P d1 [Commit cl el ctm] = Inr (d', bs2) \<and> bs = bs1 @ bs2)"
      by (rule run_events_append)
    also have "\<dots> \<longleftrightarrow> (\<exists>d1 cs. run_events P ?d mid = Inr (d1, []) \<and> de_transaction d1 = Some (tx\<lparr>tx_changes := cs\<rparr>) \<and> (d', bs) = ?commit d1 cs)"
    proof (intro ex_cong1 iffI)
      fix d1 assume "\<exists>bs1 bs2. run_events P ?d mid = Inr (d1, bs1) \<and> run_events P d1 [Commit cl el ctm] = Inr (d', bs2) \<and> bs = bs1 @ bs2"
      then obtain bs1 bs2 where r: "run_events P ?d mid = Inr (d1, bs1)" "run_events P d1 [Commit cl el ctm] = Inr (d', bs2)" "bs = bs1 @ bs2"
        by blast
      from inner r(1) obtain cs where "bs1 = []" "de_transaction d1 = Some (tx\<lparr>tx_changes := cs\<rparr>)" by blast
      with r c [of d1 cs] show "\<exists>cs. run_events P ?d mid = Inr (d1, []) \<and> de_transaction d1 = Some (tx\<lparr>tx_changes := cs\<rparr>) \<and> (d', bs) = ?commit d1 cs"
        by (intro exI [of _ cs]) (simp del: run_events.simps)
    next
      fix d1 assume "\<exists>cs. run_events P ?d mid = Inr (d1, []) \<and> de_transaction d1 = Some (tx\<lparr>tx_changes := cs\<rparr>) \<and> (d', bs) = ?commit d1 cs"
      with c [of d1] show "\<exists>bs1 bs2. run_events P ?d mid = Inr (d1, bs1) \<and> run_events P d1 [Commit cl el ctm] = Inr (d', bs2) \<and> bs = bs1 @ bs2"
        by (auto simp del: run_events.simps)
    qed
    finally show ?thesis .
  qed
  have rel: "relations_of d1 = stream_relations P (de_parser d) (relations_of d) mid \<and> cs = stream_changes P (de_parser d) (relations_of d) mid"
    if "run_events P ?d mid = Inr (d1, [])" "de_transaction d1 = Some (tx\<lparr>tx_changes := cs\<rparr>)" for d1 cs
    using run_events_conserve [OF that(1)] that(2) by (simp add: pending_def tx_def)
  show ?thesis
  proof (intro conjI allI impI)
    show "(\<exists>d' bs. run_events P d (Begin l xid tm # mid @ [Commit cl el ctm]) = Inr (d', bs)) \<longleftrightarrow>
      stream_understood P (de_parser d) (relations_of d) mid"
      unfolding whole using inner by blast
  next
    fix d' bs assume "run_events P d (Begin l xid tm # mid @ [Commit cl el ctm]) = Inr (d', bs)"
    then obtain d1 cs where r: "run_events P ?d mid = Inr (d1, [])" "de_transaction d1 = Some (tx\<lparr>tx_changes := cs\<rparr>)"
      and e: "(d', bs) = ?commit d1 cs" unfolding whole by blast
    show "de_transaction d' = None" "relations_of d' = stream_relations P (de_parser d) (relations_of d) mid"
      "bs = [\<lparr> transaction_id = xid, begin_final_lsn = l, begin_commit_time_micros = tm, commit_lsn = cl, end_lsn = el,
              commit_time_micros = ctm, column_types_by_table = current_relation_column_types P d',
              changes = stream_changes P (de_parser d) (relations_of d) mid \<rparr>]"
      using e rel [OF r] column_types_cong [of d' d1 P] by simp_all
  qed
qed

end
