(* ===== verification/Checkpoint_Law.thy ===== *)
theory Checkpoint_Law
  imports Store_Ops
begin

text \<open>
  The law of the checkpoint checksum. A bucket is served with the sum of the put checksums of its
  current documents and of the tail accumulator, which holds the checksums of superseded puts and of
  removals. The lemmas show that persisting operations raises this total, per accumulator and modulo
  2 to the power 32, by exactly the checksums of the puts that match and of the removals: the
  superseded put that leaves the documents is the one that enters the tail accumulator.
\<close>

section \<open>Accumulator buckets of a row\<close>

definition templates_for :: "RustExecutionPlan \<Rightarrow> string \<Rightarrow> AccumulatorQueryTemplate list" where
  "templates_for plan ty = (case map_of (accumulator_queries_by_object plan) ty of None \<Rightarrow> [] | Some qs \<Rightarrow> qs)"

text \<open>Queries with one projection key have one projection: the compiler prints the key from it.\<close>

definition projection_keys_ok :: "RustExecutionPlan \<Rightarrow> bool" where
  "projection_keys_ok plan \<longleftrightarrow>
     (\<forall>(ty, qs) \<in> set (accumulator_queries_by_object plan). \<forall>q \<in> set qs. \<forall>q' \<in> set qs.
        aq_projection_key q = aq_projection_key q' \<longrightarrow> aq_projection q = aq_projection q')"

lemma accumulator_fold_shape:
  assumes "b \<in> set (fst (foldl (accumulator_step J rf) acc qs))"
  shows "b \<in> set (fst acc) \<or> (\<exists>q rc fp. q \<in> set qs \<and> b = accumulator_bucket J q rc fp)"
  using assms
proof (induction qs arbitrary: acc)
  case (Cons q qs)
  then have "b \<in> set (fst (accumulator_step J rf acc q)) \<or> (\<exists>q rc fp. q \<in> set qs \<and> b = accumulator_bucket J q rc fp)"
    by simp
  moreover have "b \<in> set (fst acc) \<or> (\<exists>rc fp. b = accumulator_bucket J q rc fp)"
    if "b \<in> set (fst (accumulator_step J rf acc q))"
    using that by (auto simp: accumulator_step_def Let_def split: option.splits if_splits prod.splits)
  ultimately show ?case by (metis list.set_intros)
qed simp

lemma accumulator_buckets_shape:
  assumes "b \<in> set (accumulator_buckets_for_row J plan ty rf)"
  obtains q rc fp where "q \<in> set (templates_for plan ty)" and "b = accumulator_bucket J q rc fp"
  using assms accumulator_fold_shape [of b J rf "([], [])" "templates_for plan ty"]
  by (auto simp: accumulator_buckets_for_row_def templates_for_def)

lemma accumulator_bucket_project:
  assumes "matches_object_routes_and_data J (accumulator_bucket J q rc fp) ty rf data"
  shows "project_document_json J (accumulator_bucket J q rc fp) ty data = project_with J (aq_projection q) data"
  using assms
  by (auto simp: matches_object_routes_and_data_def query_for_object_and_routes_def project_document_json_def
      accumulator_bucket_def split: if_splits)

lemma projection_by_key:
  assumes "projection_keys_ok plan"
    and "b \<in> set (accumulator_buckets_for_row J plan ty rf)" "b' \<in> set (accumulator_buckets_for_row J plan ty rf)"
    and "matches_object_routes_and_data J b ty rf data" "matches_object_routes_and_data J b' ty rf data"
    and "rb_projection_key b = rb_projection_key b'"
  shows "project_document_json J b ty data = project_document_json J b' ty data"
proof -
  obtain q rc fp where b: "q \<in> set (templates_for plan ty)" "b = accumulator_bucket J q rc fp"
    using assms(2) by (rule accumulator_buckets_shape)
  obtain q' rc' fp' where b': "q' \<in> set (templates_for plan ty)" "b' = accumulator_bucket J q' rc' fp'"
    using assms(3) by (rule accumulator_buckets_shape)
  obtain qs where "map_of (accumulator_queries_by_object plan) ty = Some qs" "q \<in> set qs" "q' \<in> set qs"
    using b(1) b'(1)
    by (cases "map_of (accumulator_queries_by_object plan) ty") (auto simp: templates_for_def)
  moreover from this have "(ty, qs) \<in> set (accumulator_queries_by_object plan)" by (simp add: map_of_SomeD)
  moreover have "aq_projection_key q = aq_projection_key q'" using assms(6) b(2) b'(2) by (simp add: accumulator_bucket_def)
  ultimately have "aq_projection q = aq_projection q'" using assms(1) unfolding projection_keys_ok_def by blast
  then show ?thesis
    using accumulator_bucket_project [OF assms(4) [unfolded b(2)]] accumulator_bucket_project [OF assms(5) [unfolded b'(2)]]
    by (simp add: b(2) b'(2))
qed

section \<open>Events without the checksum cache\<close>

definition put_events ::
  "crates \<Rightarrow> RustExecutionPlan \<Rightarrow> string \<Rightarrow> string \<Rightarrow> routes \<Rightarrow> string \<Rightarrow> (string \<times> u32) list" where
  "put_events C plan ty i rf data =
     concat (map (\<lambda>bucket.
       if matches_object_routes_and_data (cr_json C) bucket ty rf data
       then (case project_document_json (cr_json C) bucket ty data of
               Inl _ \<Rightarrow> []
             | Inr projected \<Rightarrow> bucket_events bucket (put_checksum C ty i projected))
       else []) (accumulator_buckets_for_row (cr_json C) plan ty rf))"

text \<open>The cache of checksums by projection key does not change the contributions.\<close>

lemma collect_events_cached:
  assumes "collect_events C d (\<lambda>tg. map_err sync_rule_error_to_ingest_error
       (project_document_json (cr_json C) (ct_bucket tg) (doc_object_type d) (doc_data_json d))) cache
       (map (\<lambda>b. \<lparr> ct_bucket = b, ct_keys = sync_current_checkpoint_accumulator_keys_for_bucket b,
                     ct_projection_key = rb_projection_key b \<rparr>) bs) = Inr es"
    and "\<And>b b'. b \<in> set bs \<union> B \<Longrightarrow> b' \<in> set bs \<union> B \<Longrightarrow>
       matches_object_routes_and_data (cr_json C) b (doc_object_type d) (doc_route_fields d) (doc_data_json d) \<Longrightarrow>
       matches_object_routes_and_data (cr_json C) b' (doc_object_type d) (doc_route_fields d) (doc_data_json d) \<Longrightarrow>
       rb_projection_key b = rb_projection_key b' \<Longrightarrow>
       project_document_json (cr_json C) b (doc_object_type d) (doc_data_json d)
       = project_document_json (cr_json C) b' (doc_object_type d) (doc_data_json d)"
    and "\<And>k c. map_of cache k = Some c \<Longrightarrow> \<exists>b \<in> B. \<exists>p. rb_projection_key b = k \<and>
       matches_object_routes_and_data (cr_json C) b (doc_object_type d) (doc_route_fields d) (doc_data_json d) \<and>
       project_document_json (cr_json C) b (doc_object_type d) (doc_data_json d) = Inr p \<and>
       c = put_checksum C (doc_object_type d) (doc_object_id d) p"
  shows "es = concat (map (\<lambda>bucket.
       if matches_object_routes_and_data (cr_json C) bucket (doc_object_type d) (doc_route_fields d) (doc_data_json d)
       then (case project_document_json (cr_json C) bucket (doc_object_type d) (doc_data_json d) of
               Inl _ \<Rightarrow> []
             | Inr projected \<Rightarrow> bucket_events bucket (put_checksum C (doc_object_type d) (doc_object_id d) projected))
       else []) bs)"
  using assms
proof (induction bs arbitrary: cache es B)
  case (Cons b bs)
  let ?m = "\<lambda>b. matches_object_routes_and_data (cr_json C) b (doc_object_type d) (doc_route_fields d) (doc_data_json d)"
  let ?p = "\<lambda>b. project_document_json (cr_json C) b (doc_object_type d) (doc_data_json d)"
  let ?c = "put_checksum C (doc_object_type d) (doc_object_id d)"
  show ?case
  proof (cases "?m b")
    case False
    then show ?thesis using Cons.IH [of cache es B] Cons.prems by (auto simp: target_matches_def)
  next
    case True
    obtain c cache' fs where
      c: "checksum_for_target C d (\<lambda>tg. map_err sync_rule_error_to_ingest_error (?p (ct_bucket tg))) cache
            \<lparr> ct_bucket = b, ct_keys = sync_current_checkpoint_accumulator_keys_for_bucket b, ct_projection_key = rb_projection_key b \<rparr>
          = Inr (c, cache')"
      and fs: "collect_events C d (\<lambda>tg. map_err sync_rule_error_to_ingest_error (?p (ct_bucket tg))) cache'
        (map (\<lambda>b. \<lparr> ct_bucket = b, ct_keys = sync_current_checkpoint_accumulator_keys_for_bucket b,
                     ct_projection_key = rb_projection_key b \<rparr>) bs) = Inr fs"
      and es: "es = map (\<lambda>k. (k, c)) (sync_current_checkpoint_accumulator_keys_for_bucket b) @ fs"
      using Cons.prems(1) True by (auto simp: target_matches_def elim!: rbindE)
    have pc: "\<exists>p. ?p b = Inr p \<and> c = ?c p \<and> (map_of cache' = map_of cache \<or> map_of cache' = (map_of cache)(rb_projection_key b \<mapsto> c))"
    proof (cases "map_of cache (rb_projection_key b)")
      case (Some x)
      then obtain b' p where b': "b' \<in> B" "rb_projection_key b' = rb_projection_key b" "?m b'" "?p b' = Inr p" "x = ?c p"
        using Cons.prems(3) by blast
      have "?p b = ?p b'" using b' True by (intro Cons.prems(2)) simp_all
      then show ?thesis using c Some b' by (auto simp: checksum_for_target_def)
    next
      case None
      then show ?thesis using c by (auto simp: checksum_for_target_def Let_def elim!: rbindE)
    qed
    then obtain p where p: "?p b = Inr p" "c = ?c p"
      "map_of cache' = map_of cache \<or> map_of cache' = (map_of cache)(rb_projection_key b \<mapsto> c)" by blast
    have "fs = concat (map (\<lambda>bucket. if ?m bucket then (case ?p bucket of Inl _ \<Rightarrow> []
             | Inr projected \<Rightarrow> bucket_events bucket (?c projected)) else []) bs)"
    proof (rule Cons.IH [OF fs, of "insert b B"])
      show "?p b1 = ?p b2" if "b1 \<in> set bs \<union> insert b B" "b2 \<in> set bs \<union> insert b B" "?m b1" "?m b2"
        "rb_projection_key b1 = rb_projection_key b2" for b1 b2
        using that by (intro Cons.prems(2)) auto
      show "\<exists>b1 \<in> insert b B. \<exists>p. rb_projection_key b1 = k \<and> ?m b1 \<and> ?p b1 = Inr p \<and> x = ?c p"
        if "map_of cache' k = Some x" for k x
        using p(3)
      proof
        assume "map_of cache' = map_of cache"
        then show ?thesis using Cons.prems(3) [of k x] that by auto
      next
        assume "map_of cache' = (map_of cache)(rb_projection_key b \<mapsto> c)"
        then show ?thesis using Cons.prems(3) [of k x] that p True by (auto split: if_splits)
      qed
    qed
    then show ?thesis
      using es True p by (simp add: bucket_events_def sync_tail_checkpoint_accumulator_keys_for_bucket_def
          sync_current_checkpoint_accumulator_keys_for_bucket_def)
  qed
qed simp

lemma doc_events_put_events:
  assumes "doc_events C plan (doc_of (ty, i) (rf, data)) = Inr es" and "projection_keys_ok plan"
  shows "es = put_events C plan ty i rf data"
proof -
  let ?d = "doc_of (ty, i) (rf, data)"
  note d = assms(1) [unfolded doc_events_def current_accumulator_targets_for_row_def]
  have "es = concat (map (\<lambda>bucket.
       if matches_object_routes_and_data (cr_json C) bucket (doc_object_type ?d) (doc_route_fields ?d) (doc_data_json ?d)
       then (case project_document_json (cr_json C) bucket (doc_object_type ?d) (doc_data_json ?d) of
               Inl _ \<Rightarrow> []
             | Inr projected \<Rightarrow> bucket_events bucket (put_checksum C (doc_object_type ?d) (doc_object_id ?d) projected))
       else []) (accumulator_buckets_for_row (cr_json C) plan (doc_object_type ?d) (doc_route_fields ?d)))"
  proof (rule collect_events_cached [OF d, where B = "{}"])
    fix b b'
    assume "b \<in> set (accumulator_buckets_for_row (cr_json C) plan (doc_object_type ?d) (doc_route_fields ?d)) \<union> {}"
      "b' \<in> set (accumulator_buckets_for_row (cr_json C) plan (doc_object_type ?d) (doc_route_fields ?d)) \<union> {}"
      "matches_object_routes_and_data (cr_json C) b (doc_object_type ?d) (doc_route_fields ?d) (doc_data_json ?d)"
      "matches_object_routes_and_data (cr_json C) b' (doc_object_type ?d) (doc_route_fields ?d) (doc_data_json ?d)"
      "rb_projection_key b = rb_projection_key b'"
    then show "project_document_json (cr_json C) b (doc_object_type ?d) (doc_data_json ?d)
      = project_document_json (cr_json C) b' (doc_object_type ?d) (doc_data_json ?d)"
      unfolding Un_empty_right by (rule projection_by_key [OF assms(2)])
  qed simp
  then show ?thesis unfolding doc_of.simps PersistedBucketedDocument.select_convs put_events_def .
qed

section \<open>What an operation adds to the total\<close>

definition served_events :: "crates \<Rightarrow> RustExecutionPlan \<Rightarrow> PersistedSyncTailOp \<Rightarrow> (string \<times> u32) list" where
  "served_events C plan x =
     (case (so_operation x, so_object_type x, so_object_id x, so_data_json x) of
        (Put, Some ty, Some i, Some data) \<Rightarrow> put_events C plan ty i (so_route_fields x) data
      | (Remove, _, _, _) \<Rightarrow> remove_events C plan x
      | _ \<Rightarrow> [])"

text \<open>The documents an operation replaces and writes have their projections.\<close>

definition step_projects :: "crates \<Rightarrow> RustExecutionPlan \<Rightarrow> docs \<Rightarrow> DerivedSyncTailOp \<Rightarrow> bool" where
  "step_projects C plan D x \<longleftrightarrow>
     (case (ds_object_type x, ds_object_id x) of
        (Some ty, Some i) \<Rightarrow>
          (\<forall>p. D (ty, i) = Some p \<longrightarrow> (\<exists>es. doc_events C plan (doc_of (ty, i) p) = Inr es)) \<and>
          (ds_operation x = Put \<longrightarrow>
             (\<exists>es. doc_events C plan (doc_of (ty, i) (ds_route_fields x, the (ds_data_json x))) = Inr es))
      | _ \<Rightarrow> True)"

fun steps_project :: "crates \<Rightarrow> RustExecutionPlan \<Rightarrow> docs \<Rightarrow> DerivedSyncTailOp list \<Rightarrow> bool" where
  "steps_project C plan D [] = True"
| "steps_project C plan D (x # xs) \<longleftrightarrow> step_projects C plan D x \<and> steps_project C plan (abs_apply D x) xs"

lemma acc_plus_commute: "acc_plus a b = acc_plus b a"
  by (simp add: acc_plus_def add.commute)

lemma acc_plus_left_commute: "acc_plus a (acc_plus b c) = acc_plus b (acc_plus a c)"
  by (simp add: acc_plus_def add.left_commute)

lemmas acc_plus_ac = acc_plus_assoc acc_plus_commute acc_plus_left_commute

lemma total_contribution_remove:
  assumes "finite (dom D)" and "D (ty, i) = Some (rf, data)" and "doc_events C plan (doc_of (ty, i) (rf, data)) = Inr es"
    and "projection_keys_ok plan"
  shows "total_contribution C plan D K
     = acc_plus (total_contribution C plan (D((ty, i) := None)) K) (contribution (put_events C plan ty i rf data) K)"
proof -
  have "D((ty, i) \<mapsto> (rf, data)) = D" using assms(2) by (simp add: fun_upd_idem)
  moreover have "events_of C plan (ty, i) (rf, data) = put_events C plan ty i rf data"
    using doc_events_put_events [OF assms(3,4)] assms(3) by (simp add: events_of_def)
  ultimately show ?thesis
    using total_contribution_insert [OF assms(1), of C plan "(ty, i)" "(rf, data)" K] by simp
qed

text \<open>A put or a removal as replication derives it, before the previous row is looked up.\<close>

definition row_op :: "DerivedSyncTailOp \<Rightarrow> bool" where
  "row_op x \<longleftrightarrow> ds_operation x \<noteq> Clear \<and> ds_previous_route_fields x = None \<and> ds_previous_data_json x = None"

lemma op_of_plan_row_op: "op_of_plan plan a x \<Longrightarrow> row_op x"
  by (auto simp: op_of_plan_def row_op_def derive_row_put_def derive_row_remove_def)

lemma step_law:
  assumes "derived_ok D x" and "step_projects C plan D x" and "row_op x"
    and "finite (dom D)" and "projection_keys_ok plan"
  shows "acc_plus (total_contribution C plan (abs_apply D x) K) (contribution (op_events C plan (persisted_op n (mat_spec D x))) K)
    = acc_plus (total_contribution C plan D K) (contribution (served_events C plan (persisted_op n (mat_spec D x))) K)"
  using assms(1)
proof (cases rule: derived_okE)
  case (put ty i data)
  let ?rf = "ds_route_fields x" and ?T = "total_contribution C plan"
  obtain es where es: "doc_events C plan (doc_of (ty, i) (?rf, data)) = Inr es"
    using assms(2) put by (auto simp: step_projects_def)
  have fin: "finite (dom (D((ty, i) \<mapsto> (?rf, data))))" using assms(4) by simp
  have new: "?T (abs_apply D x) K = acc_plus (?T (D((ty, i) := None)) K) (contribution (put_events C plan ty i ?rf data) K)"
    using total_contribution_remove [OF fin _ es assms(5), of K] put by (simp add: abs_apply_def)
  show ?thesis
  proof (cases "D (ty, i)")
    case None
    then have "D((ty, i) := None) = D" by (simp add: fun_upd_idem)
    with None put new show ?thesis
      by (simp add: mat_spec_def persisted_op_def op_events_def previous_put_events_def previous_put_data_def
          remove_events_def served_events_def)
  next
    case (Some p)
    obtain rf0 data0 where p: "p = (rf0, data0)" by (cases p)
    obtain es0 where "doc_events C plan (doc_of (ty, i) (rf0, data0)) = Inr es0"
      using assms(2) put Some p by (auto simp: step_projects_def)
    note old = total_contribution_remove [OF assms(4) Some [unfolded p] this assms(5), of K]
    have "\<not> ds_assume_new x" using put Some by auto
    with Some p put show ?thesis
      unfolding new old
      by (simp add: mat_spec_def persisted_op_def op_events_def previous_put_events_def previous_put_data_def
          remove_events_def served_events_def put_events_def acc_plus_ac)
  qed
next
  case (remove ty i)
  let ?T = "total_contribution C plan"
  show ?thesis
  proof (cases "D (ty, i)")
    case None
    then have "D((ty, i) := None) = D" by (simp add: fun_upd_idem)
    with None remove assms(3) show ?thesis
      by (simp add: row_op_def abs_apply_def mat_spec_def persisted_op_def op_events_def previous_put_events_def
          previous_put_data_def remove_events_def served_events_def)
  next
    case (Some p)
    obtain rf0 data0 where p: "p = (rf0, data0)" by (cases p)
    obtain es0 where "doc_events C plan (doc_of (ty, i) (rf0, data0)) = Inr es0"
      using assms(2) remove Some p by (auto simp: step_projects_def)
    note old = total_contribution_remove [OF assms(4) Some [unfolded p] this assms(5), of K]
    let ?m = "persisted_op n (mat_spec D x)"
    have "previous_put_events C plan ?m = put_events C plan ty i rf0 data0"
      using Some p remove assms(3)
      by (simp add: row_op_def mat_spec_def persisted_op_def previous_put_events_def previous_put_data_def put_events_def)
    then have "op_events C plan ?m = put_events C plan ty i rf0 data0 @ served_events C plan ?m"
      using Some p remove by (simp add: op_events_def served_events_def mat_spec_def persisted_op_def)
    then show ?thesis using remove unfolding old by (simp add: abs_apply_def contribution_append acc_plus_ac)
  qed
qed (use assms(3) in \<open>auto simp: row_op_def\<close>)

lemma steps_law:
  assumes "ops_ok D xs" and "steps_project C plan D xs" and "\<forall>x \<in> set xs. row_op x"
    and "finite (dom D)" and "projection_keys_ok plan"
  shows "acc_plus (total_contribution C plan (foldl abs_apply D xs) K)
      (contribution (concat (map (op_events C plan) (number_ops n (mat_specs D xs)))) K)
    = acc_plus (total_contribution C plan D K)
      (contribution (concat (map (served_events C plan) (number_ops n (mat_specs D xs)))) K)"
  using assms
proof (induction xs arbitrary: D n)
  case (Cons x xs)
  let ?D = "abs_apply D x" and ?m = "persisted_op (n + 1) (mat_spec D x)" and ?T = "total_contribution C plan"
  let ?rest = "number_ops (n + 1) (mat_specs ?D xs)"
  let ?ev = "contribution (concat (map (op_events C plan) ?rest)) K"
    and ?sv = "contribution (concat (map (served_events C plan) ?rest)) K"
  have fin: "finite (dom ?D)"
    using Cons.prems(1,4) by (auto simp: derived_ok_def abs_apply_def split: PersistedSyncTailOperation.splits option.splits)
  have IH: "acc_plus (?T (foldl abs_apply ?D xs) K) ?ev = acc_plus (?T ?D K) ?sv"
    using Cons.prems fin by (intro Cons.IH) simp_all
  have st: "acc_plus (?T ?D K) (contribution (op_events C plan ?m) K)
    = acc_plus (?T D K) (contribution (served_events C plan ?m) K)"
    using Cons.prems by (intro step_law) simp_all
  have "acc_plus (?T (foldl abs_apply ?D xs) K) (acc_plus (contribution (op_events C plan ?m) K) ?ev)
      = acc_plus (contribution (op_events C plan ?m) K) (acc_plus (?T (foldl abs_apply ?D xs) K) ?ev)"
    by (rule acc_plus_left_commute)
  also have "\<dots> = acc_plus (acc_plus (?T ?D K) (contribution (op_events C plan ?m) K)) ?sv"
    unfolding IH by (simp add: acc_plus_ac)
  also have "\<dots> = acc_plus (?T D K) (acc_plus (contribution (served_events C plan ?m) K) ?sv)"
    unfolding st by (simp add: acc_plus_assoc)
  finally show ?case by (simp add: contribution_append)
qed simp

section \<open>The law on the store\<close>

context mdbx_table
begin

lemma apply_step_projects:
  assumes "apply_materialized_sync_state_op C M t (mat_spec D x) plan = Inr t'"
    and "derived_ok D x" and "row_op x"
  shows "step_projects C plan D x"
  using assms(2)
proof (cases rule: derived_okE)
  case (put ty i data)
  then show ?thesis using assms(1,3)
    by (cases "D (ty, i)")
      (auto simp: apply_materialized_sync_state_op_def mat_spec_def put_current_document_def retire_document_def
        materialized_previous_document_def step_projects_def row_op_def
        elim!: rbindE add_current_document_accumulator_effect remove_current_document_accumulator_effect split: if_splits)
next
  case (remove ty i)
  then show ?thesis using assms(1,3)
    by (cases "D (ty, i)")
      (auto simp: apply_materialized_sync_state_op_def mat_spec_def delete_current_document_def retire_document_def
        materialized_current_document_def step_projects_def row_op_def
        elim!: rbindE remove_current_document_accumulator_effect split: if_splits)
qed (use assms(3) in \<open>auto simp: row_op_def\<close>)

lemma materialize_steps_project:
  "materialize_sync_state_ops C M t xs plan = Inr (t', ms) \<Longrightarrow> current_inv C plan D (view t) \<Longrightarrow> ops_ok D xs \<Longrightarrow>
   \<forall>x \<in> set xs. row_op x \<Longrightarrow> steps_project C plan D xs"
proof (induction xs arbitrary: t ms D)
  case (Cons x xs)
  obtain m t1 ms1 where m: "materialize_sync_state_op C M t x = Inr m"
    and a: "apply_materialized_sync_state_op C M t m plan = Inr t1"
    and r: "materialize_sync_state_ops C M t1 xs plan = Inr (t', ms1)"
    using Cons.prems(1) by (auto elim!: rbindE)
  have x: "derived_ok D x" "row_op x" using Cons.prems(3,4) by simp_all
  have ms: "m = mat_spec D x" by (rule materialize_sync_state_op_spec [OF m Cons.prems(2) x(1)])
  have "step_projects C plan D x" by (rule apply_step_projects [OF a [unfolded ms] x])
  moreover have "steps_project C plan (abs_apply D x) xs"
    using apply_materialized_spec [OF a [unfolded ms] Cons.prems(2) x(1)] Cons.prems(3,4)
    by (intro Cons.IH [OF r]) simp_all
  ultimately show ?case by simp
qed simp

end

context ingest_store
begin

lemma checkpoint_law:
  assumes "persist_task_tail_ops C M t xs plan = Inr t'"
    and "current_inv C plan D (view t)" and "tail_inv C plan L (view t)" and "ops_ok D xs"
    and "\<forall>n \<in> dom L. n \<le> last_id (view t)" and "last_id (view t) + length xs < u64_limit"
    and "\<forall>x \<in> set xs. row_op x" and "projection_keys_ok plan"
  defines "tot kv K \<equiv> acc_plus (acc_of kv (current_checkpoint_accumulator_key K)) (acc_of kv (tail_checkpoint_accumulator_key K))"
  shows "tot (view t') K = acc_plus (tot (view t) K)
    (contribution (concat (map (served_events C plan) (number_ops (last_id (view t)) (mat_specs D xs)))) K)"
proof -
  let ?log = "number_ops (last_id (view t)) (mat_specs D xs)" and ?D = "foldl abs_apply D xs"
  note s = persist_task_tail_ops_spec [OF assms(1-4) assms(5,6)]
  obtain t1 ms where "materialize_sync_state_ops C M t xs plan = Inr (t1, ms)"
    using assms(1) by (auto simp: persist_task_tail_ops_def elim!: rbindE)
  then have p: "steps_project C plan D xs" using assms(2,4,7) by (rule materialize_steps_project)
  have fin: "finite (dom D)" using assms(2) by (simp add: current_inv_def docs_ok_def)
  have cur: "acc_of (view t) (current_checkpoint_accumulator_key K) = total_contribution C plan D K"
    "acc_of (view t') (current_checkpoint_accumulator_key K) = total_contribution C plan ?D K"
    using assms(2) s(1) by (simp_all add: current_inv_def accs_match_def)
  show ?thesis
    using steps_law [OF assms(4) p assms(7) fin assms(8), of K "last_id (view t)"]
    unfolding tot_def cur s(4) by (metis acc_plus_assoc acc_plus_commute acc_plus_left_commute)
qed

end

end
