(* ===== verification/Delta_Read.thy ===== *)
theory Delta_Read
  imports Store_Ops Bucket_Read
begin

text \<open>
  What a delta read returns. On a store that satisfies the invariant, the bounded index scans of
  \<open>read_bucket_snapshot_in_transaction\<close> return exactly the retained operations above the cursor that one
  of the bucket's indexes covers, each once and in id order; a scan that runs out of budget turns
  into a clearing snapshot and never into a shortened delta.
\<close>

section \<open>Bounded scans of one index\<close>

definition bounded_visit :: "nat \<Rightarrow> nat list \<times> nat \<Rightarrow> ((nat list \<times> nat) \<times> bool) result" where
  "bounded_visit n s =
     (case s of (ids, remaining) \<Rightarrow>
        if remaining = 0 then Inr ((ids, remaining), False)
        else Inr ((insort_insert n ids, remaining - 1), True))"

lemma bounded_visit_simp [simp]:
  "bounded_visit n (ids, r) = (if r = 0 then Inr ((ids, r), False) else Inr ((insort_insert n ids, r - 1), True))"
  by (simp add: bounded_visit_def)

lemma bounded_scan_visit:
  "scan_sync_tail_index_entries_bounded M t name first_id final_id s =
   visit_sync_tail_index_entries M t name first_id final_id bounded_visit s"
  by (simp add: scan_sync_tail_index_entries_bounded_def bounded_visit_def [abs_def])

lemma strict_sorted_insort_insert: "sorted_wrt (<) xs \<Longrightarrow> sorted_wrt (<) (insort_insert x (xs :: nat list))"
  by (simp add: strict_sorted_iff sorted_insort_insert distinct_insort_insert)

lemma bounded_visit_complete:
  "visit_ids bounded_visit ns (ids, r) = Inr ((ids', r'), True) \<Longrightarrow>
   length ns \<le> r \<and> r' = r - length ns \<and> set ids' = set ids \<union> set ns \<and>
   (sorted_wrt (<) ids \<longrightarrow> sorted_wrt (<) ids')"
proof (induction ns arbitrary: ids r)
  case (Cons n ns)
  then have "r \<noteq> 0" and v: "visit_ids bounded_visit ns (insort_insert n ids, r - 1) = Inr ((ids', r'), True)"
    by (auto split: if_splits)
  from Cons.IH [OF v] \<open>r \<noteq> 0\<close> show ?case
    by (auto simp: set_insort_insert strict_sorted_insort_insert)
qed simp

lemma bounded_visit_stops:
  "visit_ids bounded_visit ns (ids, r) = Inr ((ids', r'), c) \<Longrightarrow> c \<longleftrightarrow> length ns \<le> r"
proof (induction ns arbitrary: ids r)
  case (Cons n ns)
  show ?case
  proof (cases "r = 0")
    case False
    then have "visit_ids bounded_visit ns (insort_insert n ids, r - 1) = Inr ((ids', r'), c)"
      using Cons.prems by simp
    from Cons.IH [OF this] False show ?thesis by auto
  qed (use Cons.prems in simp)
qed simp

section \<open>All indexes of a bucket\<close>

text \<open>The retained operations above a cursor that some index of the request covers.\<close>

definition delta_ids :: "RustExecutionPlan \<Rightarrow> tail \<Rightarrow> string list \<Rightarrow> nat \<Rightarrow> nat \<Rightarrow> nat set" where
  "delta_ids plan L names after latest =
     {n. after < n \<and> n \<le> latest \<and> (\<exists>name \<in> set names. n \<in> covered plan L name)}"

context ingest_store
begin

lemma scan_delta_spec:
  assumes "scan_delta M t after latest names (ids, r) = Inr ((ids', r'), True)"
    and "tail_inv C plan L (view t)" and "\<forall>name \<in> set names. is_index_name name" and "after + 1 < u64_limit"
    and "sorted_wrt (<) ids"
  shows "sorted_wrt (<) ids' \<and> set ids' = set ids \<union> delta_ids plan L names after latest \<and> r' \<le> r"
  using assms(1,3,5)
proof (induction names arbitrary: ids r)
  case Nil
  then show ?case by (simp add: delta_ids_def)
next
  case (Cons name names)
  obtain ids1 r1 c where one:
    "visit_sync_tail_index_entries M t name (after + 1) latest bounded_visit (ids, r) = Inr ((ids1, r1), c)"
    and rest: "(if c then scan_delta M t after latest names (ids1, r1) else Inr ((ids1, r1), False))
      = Inr ((ids', r'), True)"
    using Cons.prems(1) by (auto simp: bounded_scan_visit elim!: rbindE)
  then have c: "c = True" by (auto split: if_splits)
  obtain ns where ns: "set ns = {n \<in> covered plan L name. after + 1 \<le> n \<and> n \<le> latest}"
    "visit_ids bounded_visit ns (ids, r) = Inr ((ids1, r1), c)"
    using visit_index_spec [OF one assms(2) _ assms(4)] Cons.prems(2) by auto
  note b = bounded_visit_complete [OF ns(2) [unfolded c]]
  have "sorted_wrt (<) ids' \<and> set ids' = set ids1 \<union> delta_ids plan L names after latest \<and> r' \<le> r1"
    using rest c b Cons.prems by (intro Cons.IH) auto
  then show ?case using b ns(1) by (auto simp: delta_ids_def)
qed

section \<open>Reading the operations\<close>

lemma tail_inv_op:
  assumes "tail_inv C plan L kv" and "L n = Some x"
  shows "\<exists>bs. kv (sync_tail_op_key n) = Some bs \<and> cr_op_from_slice C bs = Some x"
proof -
  have "(sync_tail_op_key n, the (cr_op_to_vec C x)) \<in> space_entries Tail_Op kv"
    using assms unfolding tail_inv_def by (elim conjE) (force simp only: UN_graph_iff op_entry_def)
  then have "kv (sync_tail_op_key n) = Some (the (cr_op_to_vec C x))" by (simp add: space_entries_def)
  moreover have "tail_op_ok C plan n x" using assms by (simp add: tail_inv_def)
  then obtain bs where "cr_op_to_vec C x = Some bs" by (auto simp: tail_op_ok_def)
  ultimately show ?thesis using op_codec by simp
qed

lemma read_tail_ops_bounded_spec:
  assumes "read_tail_ops_bounded C M t ids r = Inr (ops, r')"
    and "tail_inv C plan L (view t)" and "set ids \<subseteq> dom L"
  shows "ops = map (the \<circ> L) ids \<and> r' \<le> r"
proof -
  have one: "x = the (L n) \<and> s' \<le> s"
    if "read_sync_tail_op_bounded C M t n s = Inr (x, s')" and "n \<in> dom L" for n s s' x
    using that tail_inv_op [OF assms(2), of n]
    by (auto simp: read_sync_tail_op_bounded_def dest!: t_get_view elim!: rbindE split: if_splits)
  have "fst (ops, r') = map (the \<circ> L) ids \<and> snd (ops, r') \<le> r"
  proof (rule rfold_track [OF assms(1) [unfolded read_tail_ops_bounded_def],
        where P = "\<lambda>ns s. fst s = map (the \<circ> L) ns \<and> snd s \<le> r"])
    fix ns s n s'
    assume "fst s = map (the \<circ> L) ns \<and> snd s \<le> r" and "n \<in> set ids"
      and "(\<lambda>(ops, remaining) op_id. rbind (read_sync_tail_op_bounded C M t op_id remaining)
          (\<lambda>(x, remaining). Inr (ops @ [x], remaining))) s n = Inr s'"
    then show "fst s' = map (the \<circ> L) (ns @ [n]) \<and> snd s' \<le> r"
      using one [of n] assms(3) by (cases s) (fastforce elim!: rbindE)
  qed simp
  then show ?thesis by simp
qed

section \<open>A bucket read\<close>

text \<open>What the branches of a bucket read have in common, with the cursor the read ends up with.\<close>

lemma bucket_read_cases:
  assumes "read_bucket_snapshot_in_transaction C M t req budget = Inr (s, budget')"
  defines "reset \<equiv> reset_needed (rr_after req) (last_id (view t)) (snapshot_id (view t)) (retained_id (view t))"
  obtains ids rem complete r seen documents where
    "(if 0 < (if reset then 0 else rr_after req) \<and> (if reset then 0 else rr_after req) < last_id (view t)
      then scan_delta M t (if reset then 0 else rr_after req) (last_id (view t)) (rr_index_keys req)
             ([], remaining_index_scan_entries budget)
      else Inr (([], remaining_index_scan_entries budget), True)) = Inr ((ids, rem), complete)"
    and "rs_latest_op_id s = last_id (view t)" and "rs_reset_required s \<longleftrightarrow> reset \<or> \<not> complete"
    and "read_tail_ops_bounded C M t (if complete then ids else []) (remaining_bytes budget) = Inr (rs_tail_ops s, r)"
    and "(if (if complete then if reset then 0 else rr_after req else 0) = 0
          then collect_bucket_documents C M t (rb_queries (rr_bucket req)) r else Inr ([], [], r))
         = Inr (seen, documents, remaining_bytes budget')"
    and "rs_current_documents s = map snd documents"
    and "sum_accumulators read_current_checkpoint_accumulator M t (rr_current_accumulator_keys req) = Inr (rs_current_accumulator s)"
    and "sum_accumulators read_checkpoint_accumulator M t (rr_tail_accumulator_keys req) = Inr (rs_tail_accumulator s)"
    and "remaining_index_scan_entries budget' = rem"
proof -
  obtain latest snap ret where c: "read_u64_or M t META_SYNC_TAIL_LAST_OP_ID_KEY ''sync tail last op id'' 0 = Inr latest"
    "read_u64_or M t META_INITIAL_SNAPSHOT_CURSOR_FLOOR_KEY ''initial snapshot cursor floor'' 0 = Inr snap"
    "read_u64_or M t META_SYNC_TAIL_RETAINED_FLOOR_KEY ''sync tail retained floor'' 0 = Inr ret"
    using assms by (auto simp: read_bucket_snapshot_in_transaction_def elim!: rbindE)
  note eqs = c [THEN read_u64_or_view]
  note rd = assms(1) [unfolded read_bucket_snapshot_in_transaction_def c rbind.simps Let_def eqs, folded reset_def]
  obtain ca where ca: "sum_accumulators read_current_checkpoint_accumulator M t (rr_current_accumulator_keys req) = Inr ca"
    using rd by (elim rbindE)
  note rd = rd [unfolded ca rbind.simps]
  obtain ta where ta: "sum_accumulators read_checkpoint_accumulator M t (rr_tail_accumulator_keys req) = Inr ta"
    using rd by (elim rbindE)
  note rd = rd [unfolded ta rbind.simps]
  obtain ids rem complete where sc:
    "(if 0 < (if reset then 0 else rr_after req) \<and> (if reset then 0 else rr_after req) < last_id (view t)
      then scan_delta M t (if reset then 0 else rr_after req) (last_id (view t)) (rr_index_keys req)
             ([], remaining_index_scan_entries budget)
      else Inr (([], remaining_index_scan_entries budget), True)) = Inr ((ids, rem), complete)"
    using rd by (elim rbindE) (simp only: split_paired_all)
  note rd = rd [unfolded sc rbind.simps prod.case]
  obtain ops r where op: "read_tail_ops_bounded C M t (if complete then ids else []) (remaining_bytes budget) = Inr (ops, r)"
    using rd by (auto elim!: rbindE split: if_splits)
  note rd = rd [unfolded op rbind.simps prod.case]
  obtain seen documents r' where ds: "(if (if complete then if reset then 0 else rr_after req else 0) = 0
          then collect_bucket_documents C M t (rb_queries (rr_bucket req)) r else Inr ([], [], r))
         = Inr (seen, documents, r')"
    using rd by (auto elim!: rbindE split: if_splits)
  note rd = rd [unfolded ds rbind.simps prod.case]
  have "s = \<lparr> rs_latest_op_id = last_id (view t), rs_tail_ops = ops, rs_current_accumulator = ca,
      rs_tail_accumulator = ta, rs_current_documents = map snd documents, rs_reset_required = (reset \<or> \<not> complete) \<rparr>
    \<and> remaining_index_scan_entries budget' = rem \<and> remaining_bytes budget' = r'"
    using rd by (auto split: if_splits)
  then show thesis using that sc op ds ca ta by auto
qed

text \<open>A delta: every covered operation above the cursor, once, in order.\<close>

lemma delta_read_spec:
  assumes "read_bucket_snapshot_in_transaction C M t req budget = Inr (s, budget')"
    and "store_inv C plan A (view t)" and "\<forall>name \<in> set (rr_index_keys req). is_index_name name"
    and "\<not> rs_reset_required s" and "0 < rr_after req"
  shows "rs_tail_ops s = map (the \<circ> ab_tail A)
           (sorted_list_of_set (delta_ids plan (ab_tail A) (rr_index_keys req) (rr_after req) (last_id (view t))))"
    and "rs_current_documents s = []" and "rs_latest_op_id s = last_id (view t)"
    and "snapshot_id (view t) \<le> rr_after req" "retained_id (view t) \<le> rr_after req" "rr_after req \<le> last_id (view t)"
proof -
  let ?a = "rr_after req" and ?l = "last_id (view t)" and ?ns = "rr_index_keys req"
  let ?D = "delta_ids plan (ab_tail A) ?ns ?a ?l"
  have ti: "tail_inv C plan (ab_tail A) (view t)" using assms(2) by (simp add: store_inv_def)
  from assms(1) obtain ids rem complete r seen documents where
    sc: "(if 0 < ?a \<and> ?a < ?l then scan_delta M t ?a ?l ?ns ([], remaining_index_scan_entries budget)
          else Inr (([], remaining_index_scan_entries budget), True)) = Inr ((ids, rem), complete)"
    and ok: "complete" "\<not> reset_needed ?a ?l (snapshot_id (view t)) (retained_id (view t))"
    and op: "read_tail_ops_bounded C M t ids (remaining_bytes budget) = Inr (rs_tail_ops s, r)"
    and doc: "rs_current_documents s = map snd documents" "documents = []" and lt: "rs_latest_op_id s = ?l"
    using assms(4,5) by (cases rule: bucket_read_cases) (auto split: if_splits)
  have ids: "sorted_wrt (<) ids \<and> set ids = ?D"
  proof (cases "?a < ?l")
    case True
    then have "?a + 1 < u64_limit" using counter_of_bound [of "view t" META_SYNC_TAIL_LAST_OP_ID_KEY] by linarith
    then show ?thesis using scan_delta_spec [OF _ ti assms(3), of ?a ?l "[]"] sc ok True assms(5) by auto
  next
    case False
    then show ?thesis using sc by (auto simp: delta_ids_def)
  qed
  moreover have "?D \<subseteq> dom (ab_tail A)" by (auto simp: delta_ids_def covered_def)
  moreover have "ids = sorted_list_of_set ?D"
    using ids by (metis sorted_list_of_set.idem_if_sorted_distinct strict_sorted_iff)
  ultimately show "rs_tail_ops s = map (the \<circ> ab_tail A) (sorted_list_of_set ?D)"
    using read_tail_ops_bounded_spec [OF op ti] by simp
  show "rs_current_documents s = []" "rs_latest_op_id s = ?l" using doc lt by simp_all
  show "snapshot_id (view t) \<le> ?a" "retained_id (view t) \<le> ?a" "?a \<le> ?l"
    using ok(2) assms(5) by (simp_all add: reset_needed_def)
qed

end

end
