(* ===== verification/Snapshot_Read.thy ===== *)
theory Snapshot_Read
  imports Delta_Read
begin

text \<open>
  What a clearing snapshot returns: the documents that some query of the bucket selects by object type
  and route constraints, each once, in the order of their type and id. The bounded collectors skip a
  document they have seen, so overlapping queries of one bucket charge the byte budget once.
\<close>

definition query_docs :: "RustExecutionPlan \<Rightarrow> docs \<Rightarrow> ResolvedSyncQuery \<Rightarrow> (string \<times> string) set" where
  "query_docs plan D q =
     {(ty, i). \<exists>rf data. D (ty, i) = Some (rf, data) \<and> ty = rq_object_type q \<and>
        (rq_route_constraints q = [] \<or> rq_route_constraints q \<in> set (required_route_indexes_for_row plan ty rf))}"

abbreviation the_doc :: "docs \<Rightarrow> string \<times> string \<Rightarrow> PersistedBucketedDocument" where
  "the_doc D x \<equiv> doc_of x (the (D x))"

section \<open>State of a collection\<close>

fun collected :: "docs \<Rightarrow> (string \<times> string) set \<Rightarrow> collect_state \<Rightarrow> bool" where
  "collected D X (seen, docs, remaining) \<longleftrightarrow>
     X \<subseteq> dom D \<and> set seen = (\<lambda>(ty, i). current_doc_key ty i) ` X \<and> bt_sorted docs \<and>
     map_of docs = (\<lambda>x. if x \<in> X then Some (the_doc D x) else None)"

lemma collected_seen:
  assumes "collected D X (seen, docs, r)" and "docs_ok D" and "D (ty, i) = Some p"
  shows "current_doc_key ty i \<in> set seen \<longleftrightarrow> (ty, i) \<in> X"
proof -
  have colon: "CHR '':'' \<notin> set ty'" if "(ty', i') \<in> dom D" for ty' i'
    using that assms(2) by (auto simp: docs_ok_def)
  have "ty' = ty \<and> i' = i" if "(ty', i') \<in> X" "current_doc_key ty i = current_doc_key ty' i'" for ty' i'
  proof -
    have "(ty, i) \<in> dom D" "(ty', i') \<in> dom D" using assms(1,3) that(1) by auto
    from this [THEN colon] show ?thesis using that(2) by (simp add: current_doc_key_inj)
  qed
  then show ?thesis using assms(1) by force
qed

lemma collected_insert:
  assumes "collected D X (seen, docs, r)" and "D (ty, i) = Some (rf, data)"
  shows "collected D (insert (ty, i) X)
           (collect_document (current_doc_key ty i) (doc_of (ty, i) (rf, data)) r' (seen, docs, r))"
  using assms by (auto simp: collect_document_def set_insort_insert fun_eq_iff)

lemma collected_documents:
  assumes "collected D X (seen, docs, r)"
  shows "\<exists>xs. sorted_wrt (<) xs \<and> set xs = X \<and> map snd docs = map (the_doc D) xs"
proof (intro exI conjI)
  show "sorted_wrt (<) (map fst docs)" using assms by (simp add: bt_sorted_def)
  have "set (map fst docs) = dom (map_of docs)" by (simp add: dom_map_of_conv_image_fst)
  also have "\<dots> = X" using assms by (auto simp: dom_def)
  finally show X: "set (map fst docs) = X" .
  have "snd e = the_doc D (fst e)" if "e \<in> set docs" for e
  proof -
    have "distinct (map fst docs)" using assms strict_sorted_iff by (auto simp: bt_sorted_def)
    then have "map_of docs (fst e) = Some (snd e)" using that by (simp add: map_of_is_SomeI)
    then show ?thesis using assms by (auto split: if_splits)
  qed
  then show "map snd docs = map (the_doc D) (map fst docs)" by simp
qed

section \<open>Scans\<close>

lemma docs_ok_decode:
  assumes "docs_ok D" and "D (ty, i) = Some (rf, data)"
  shows "decode_current_document C (document_bytes ty i rf data) = Inr (doc_of (ty, i) (rf, data))"
  using assms decode_document_bytes [of ty i rf data C] by (simp add: docs_ok_def)

lemma document_bytes_magic [simp]: "starts_with CURRENT_DOC_BINARY_MAGIC (document_bytes ty i rf data)"
  by (simp add: document_bytes_def)

context ingest_store
begin

lemma scan_routes:
  assumes "t_scan_prefix M t (current_route_index_prefix ty rc) = Inr items"
    and "current_inv C plan D (view t)" and "CHR '':'' \<notin> set ty"
  obtains xs where "items = map (\<lambda>(i, rf, data). (current_route_index_key ty rc i, document_bytes ty i rf data)) xs"
    and "\<forall>(i, p) \<in> set xs. D (ty, i) = Some p"
    and "fst ` set xs = {i. \<exists>rf data. D (ty, i) = Some (rf, data) \<and> rc \<in> set (required_route_indexes_for_row plan ty rf)}"
proof -
  let ?item = "\<lambda>(i, rf, data). (current_route_index_key ty rc i, document_bytes ty i rf data)"
  let ?S = "{(i, rf, data). D (ty, i) = Some (rf, data) \<and> rc \<in> set (required_route_indexes_for_row plan ty rf)}"
  have ok: "docs_ok D" and e: "space_entries Current_Route (view t) = route_entries plan D"
    using assms(2) by (simp_all add: current_inv_def)
  have colon: "CHR '':'' \<notin> set ty'" if "D (ty', i') = Some p" for ty' i' p
    using that ok by (cases p) (auto simp: docs_ok_def)
  note sc = t_scan_prefix_scan [OF assms(1)]
  have eq: "set items = ?item ` ?S"
  proof (intro equalityI subsetI)
    fix it assume it: "it \<in> set items"
    obtain k v where kv: "it = (k, v)" by (cases it)
    then have k: "view t k = Some v" "starts_with (current_route_index_prefix ty rc) k" using it sc(2) by auto
    then have "(k, v) \<in> route_entries plan D"
      unfolding e [symmetric] by (simp add: space_entries_def key_space_starts_with)
    then obtain ty' i rf data rc' where d: "D (ty', i) = Some (rf, data)"
      "rc' \<in> set (required_route_indexes_for_row plan ty' rf)"
      "k = current_route_index_key ty' rc' i" "v = document_bytes ty' i rf data"
      by (auto simp: route_entries_def in_graph_iff)
    moreover have "ty' = ty" "rc' = rc"
      using current_route_index_key_prefix [OF assms(3) colon [OF d(1)], of rc rc' i] k(2) d(3) by simp_all
    ultimately show "it \<in> ?item ` ?S" using kv by (intro image_eqI [of _ _ "(i, rf, data)"]) simp_all
  next
    fix it assume "it \<in> ?item ` ?S"
    then obtain i rf data where d: "D (ty, i) = Some (rf, data)" "rc \<in> set (required_route_indexes_for_row plan ty rf)"
      "it = (current_route_index_key ty rc i, document_bytes ty i rf data)" by auto
    then have "it \<in> space_entries Current_Route (view t)"
      unfolding e route_entries_def UN_graph_iff by (intro exI [of _ "(ty, i)"] exI [of _ "(rf, data)"]) auto
    then show "it \<in> set items"
      using d sc(2) by (auto simp: space_entries_def current_route_index_key_def)
  qed
  from subset_image_map [OF equalityD1 [OF eq]] obtain xs where xs: "items = map ?item xs" "set xs \<subseteq> ?S"
    by (elim exE conjE)
  moreover have "i \<in> fst ` set xs" if "(i, rf, data) \<in> ?S" for i rf data
  proof -
    have "?item (i, rf, data) \<in> set items" unfolding eq using that by (rule imageI)
    then obtain i' rf' data' where y: "(i', rf', data') \<in> set xs" "current_route_index_key ty rc i = current_route_index_key ty rc i'"
      using xs(1) by auto
    then have "i = i'" using current_route_index_key_inj [OF assms(3) assms(3)] by simp
    with y(1) show ?thesis by force
  qed
  moreover have "\<exists>rf data. D (ty, i) = Some (rf, data) \<and> rc \<in> set (required_route_indexes_for_row plan ty rf)"
    if "i \<in> fst ` set xs" for i using that xs(2) by auto
  ultimately show thesis by (intro that [of xs]) auto
qed

section \<open>Collecting the documents of the queries\<close>

lemma collect_items:
  assumes "rfold f s (map item xs) = Inr s'" and "docs_ok D" and "collected D X s"
    and "\<forall>(x, p) \<in> set xs. D x = Some p"
    and step: "\<And>ty i rf data seen docs r. D (ty, i) = Some (rf, data) \<Longrightarrow> ((ty, i), (rf, data)) \<in> set xs \<Longrightarrow>
      f (seen, docs, r) (item ((ty, i), (rf, data))) =
        (if current_doc_key ty i \<in> set seen then Inr (seen, docs, r)
         else rbind (consume_serialized_read_bytes r (length (document_bytes ty i rf data))) (\<lambda>r.
           Inr (collect_document (current_doc_key ty i) (doc_of (ty, i) (rf, data)) r (seen, docs, r))))"
  shows "collected D (X \<union> fst ` set xs) s'"
  using assms(1,3,4) step
proof (induction xs arbitrary: s X)
  case (Cons y xs)
  obtain ty i rf data where y: "y = ((ty, i), (rf, data))" by (cases y) auto
  obtain seen docs r where s: "s = (seen, docs, r)" by (cases s)
  have D: "D (ty, i) = Some (rf, data)" using Cons.prems(3) y by simp
  obtain s1 where s1: "f s (item y) = Inr s1" "rfold f s1 (map item xs) = Inr s'"
    using Cons.prems(1) by (auto elim: rbindE)
  have fs: "f s (item y) =
      (if current_doc_key ty i \<in> set seen then Inr (seen, docs, r)
         else rbind (consume_serialized_read_bytes r (length (document_bytes ty i rf data))) (\<lambda>r.
           Inr (collect_document (current_doc_key ty i) (doc_of (ty, i) (rf, data)) r (seen, docs, r))))"
    unfolding s y by (rule Cons.prems(4) [OF D]) (simp add: y)
  have "collected D (insert (ty, i) X) s1"
  proof (cases "(ty, i) \<in> X")
    case True
    then have "s1 = s" using s1(1) fs collected_seen [OF _ assms(2) D] Cons.prems(2) s by auto
    with True Cons.prems(2) show ?thesis by (simp add: insert_absorb)
  next
    case False
    then have "current_doc_key ty i \<notin> set seen" using collected_seen [OF _ assms(2) D] Cons.prems(2) s by blast
    then obtain r' where "s1 = collect_document (current_doc_key ty i) (doc_of (ty, i) (rf, data)) r' (seen, docs, r')"
      using s1(1) fs by (auto elim: rbindE)
    then show ?thesis using collected_insert [of D X seen docs r ty i rf data r'] D Cons.prems(2) s
      by (simp add: collect_document_def)
  qed
  moreover have "\<forall>(x, p) \<in> set xs. D x = Some p" using Cons.prems(3) by simp
  ultimately have "collected D (insert (ty, i) X \<union> fst ` set xs) s'"
    using s1(2) by (intro Cons.IH Cons.prems(4)) simp_all
  then show ?case by (simp add: y)
qed simp

lemma collect_prefix_spec:
  assumes "collect_current_documents_for_prefix_bounded C M t (current_doc_prefix ty) s = Inr s'"
    and "current_inv C plan D (view t)" and "CHR '':'' \<notin> set ty" and "collected D X s"
  shows "collected D (X \<union> {x \<in> dom D. fst x \<in> {ty}}) s'"
proof -
  have ok: "docs_ok D" using assms(2) by (simp add: current_inv_def)
  obtain items where items: "t_scan_prefix M t (current_doc_prefix ty) = Inr items"
    using assms(1) by (auto simp: collect_current_documents_for_prefix_bounded_def elim!: rbindE)
  note run = assms(1) [unfolded collect_current_documents_for_prefix_bounded_def items rbind.simps]
  have sw: "starts_with (current_doc_prefix ty) (current_doc_key ty' i) \<longleftrightarrow> ty' \<in> {ty}" if "(ty', i) \<in> dom D" for ty' i
    using current_doc_key_prefix [OF assms(3), of ty' i] that ok by (auto simp: docs_ok_def)
  obtain xs where xs: "items = map (\<lambda>((ty, i), (rf, data)). (current_doc_key ty i, document_bytes ty i rf data)) xs"
    "distinct (map fst xs)" "\<forall>(x, q) \<in> set xs. D x = Some q \<and> fst x \<in> {ty}"
    "fst ` set xs = {x \<in> dom D. fst x \<in> {ty}}"
    by (rule scan_documents [OF items assms(2) key_space_starts_with(1) sw])
  have "\<forall>(x, p) \<in> set xs. D x = Some p" using xs(3) by blast
  from collect_items [OF run [unfolded xs(1)] ok assms(4) this] show ?thesis
    unfolding xs(4) by (simp add: docs_ok_decode [OF ok] cong: if_cong)
qed

lemma collect_route_spec:
  assumes "collect_current_route_documents_bounded C M t (current_route_index_prefix ty rc) ty s = Inr s'"
    and "current_inv C plan D (view t)" and "CHR '':'' \<notin> set ty" and "collected D X s"
  shows "collected D (X \<union> Pair ty ` {i. \<exists>rf data. D (ty, i) = Some (rf, data) \<and>
           rc \<in> set (required_route_indexes_for_row plan ty rf)}) s'"
proof -
  have ok: "docs_ok D" using assms(2) by (simp add: current_inv_def)
  obtain items where items: "t_scan_prefix M t (current_route_index_prefix ty rc) = Inr items"
    using assms(1) by (auto simp: collect_current_route_documents_bounded_def elim!: rbindE)
  note run = assms(1) [unfolded collect_current_route_documents_bounded_def items rbind.simps]
  obtain xs where xs: "items = map (\<lambda>(i, rf, data). (current_route_index_key ty rc i, document_bytes ty i rf data)) xs"
    "\<forall>(i, p) \<in> set xs. D (ty, i) = Some p"
    "fst ` set xs = {i. \<exists>rf data. D (ty, i) = Some (rf, data) \<and> rc \<in> set (required_route_indexes_for_row plan ty rf)}"
    by (rule scan_routes [OF items assms(2,3)])
  let ?ys = "map (\<lambda>(i, p). ((ty, i), p)) xs"
  have it: "items = map (\<lambda>((_, i), (rf, data)). (current_route_index_key ty rc i, document_bytes ty i rf data)) ?ys"
    by (simp add: xs(1) case_prod_unfold)
  have ys: "\<forall>(x, p) \<in> set ?ys. D x = Some p" "fst ` set ?ys = Pair ty ` fst ` set xs"
    using xs(2) by (auto simp: image_image case_prod_unfold)
  have key: "strip_prefix_or_empty (current_route_index_prefix ty rc) (current_route_index_key ty rc i) = i" for i
    by (simp add: strip_prefix_or_empty_def current_route_index_key_def)
  have "collected D (X \<union> fst ` set ?ys) s'"
  proof (rule collect_items [OF run [unfolded it] ok assms(4) ys(1)])
    fix ty' i rf data seen docs r
    assume D: "D (ty', i) = Some (rf, data)" and "((ty', i), (rf, data)) \<in> set ?ys"
    then have ty: "ty' = ty" by auto
    show "(\<lambda>(seen, docs, remaining) (key, value).
         let document_key = current_document_key_from_route_entry_without_decoding ty (current_route_index_prefix ty rc) key value in
         if document_key \<in> set seen then Inr (seen, docs, remaining)
         else
           rbind (if starts_with CURRENT_DOC_BINARY_MAGIC value then Inr value
                  else rbind (t_get M t document_key)
                         (ok_or (CorruptBatch ''current route index points at missing document''))) (\<lambda>bytes.
           rbind (consume_serialized_read_bytes remaining (length bytes)) (\<lambda>remaining.
           rbind (decode_current_document C bytes) (\<lambda>d.
             Inr (collect_document document_key d remaining (seen, docs, remaining))))))
        (seen, docs, r) ((\<lambda>((_, i), (rf, data)). (current_route_index_key ty rc i, document_bytes ty i rf data)) ((ty', i), (rf, data)))
      = (if current_doc_key ty' i \<in> set seen then Inr (seen, docs, r)
         else rbind (consume_serialized_read_bytes r (length (document_bytes ty' i rf data))) (\<lambda>r.
           Inr (collect_document (current_doc_key ty' i) (doc_of (ty', i) (rf, data)) r (seen, docs, r))))"
      using docs_ok_decode [OF ok D, of C]
      by (simp add: ty current_document_key_from_route_entry_without_decoding_def key Let_def
          current_doc_key_def collect_document_def cong: if_cong)
  qed
  then show ?thesis unfolding ys(2) xs(3) .
qed

lemma collect_bucket_documents_spec:
  assumes "collect_bucket_documents C M t queries r = Inr s'"
    and "current_inv C plan D (view t)" and "\<forall>q \<in> set queries. CHR '':'' \<notin> set (rq_object_type q)"
  shows "collected D (\<Union>q \<in> set queries. query_docs plan D q) s'"
proof (rule rfold_track [OF assms(1) [unfolded collect_bucket_documents_def],
      where P = "\<lambda>qs s. collected D (\<Union>q \<in> set qs. query_docs plan D q) s"])
  show "collected D (\<Union>q \<in> set []. query_docs plan D q) ([], [], r)" by (simp add: bt_sorted_def)
next
  fix qs :: "ResolvedSyncQuery list" and s s1 and q :: ResolvedSyncQuery
  let ?ty = "rq_object_type q" and ?rc = "rq_route_constraints q" and ?X = "\<Union>q \<in> set qs. query_docs plan D q"
  assume c: "collected D ?X s" and "q \<in> set queries"
    and step: "(if ?rc = [] then collect_current_documents_for_prefix_bounded C M t (current_doc_prefix ?ty) s
      else collect_current_route_documents_bounded C M t (current_route_index_prefix ?ty ?rc) ?ty s) = Inr s1"
  then have ty: "CHR '':'' \<notin> set ?ty" using assms(3) by blast
  show "collected D (\<Union>q \<in> set (qs @ [q]). query_docs plan D q) s1"
  proof (cases "?rc = []")
    case True
    then have "query_docs plan D q = {x \<in> dom D. fst x \<in> {?ty}}" by (auto simp: query_docs_def)
    with collect_prefix_spec [OF _ assms(2) ty c, of s1] step True show ?thesis by (simp add: Un_commute)
  next
    case False
    then have "query_docs plan D q = Pair ?ty ` {i. \<exists>rf data. D (?ty, i) = Some (rf, data) \<and>
        ?rc \<in> set (required_route_indexes_for_row plan ?ty rf)}" by (auto simp: query_docs_def)
    with collect_route_spec [OF _ assms(2) ty c, of ?rc s1] step False show ?thesis by (simp add: Un_commute)
  qed
qed

text \<open>A clearing snapshot: every document of the bucket's queries, once, in key order, and no delta.\<close>

lemma snapshot_read_spec:
  assumes "read_bucket_snapshot_in_transaction C M t req budget = Inr (s, budget')"
    and "store_inv C plan A (view t)" and "\<forall>q \<in> set (rb_queries (rr_bucket req)). CHR '':'' \<notin> set (rq_object_type q)"
    and "rs_reset_required s \<or> rr_after req = 0"
  shows "\<exists>xs. sorted_wrt (<) xs \<and> set xs = (\<Union>q \<in> set (rb_queries (rr_bucket req)). query_docs plan (ab_docs A) q) \<and>
           rs_current_documents s = map (the_doc (ab_docs A)) xs"
    and "rs_tail_ops s = []" and "rs_latest_op_id s = last_id (view t)"
proof -
  have ci: "current_inv C plan (ab_docs A) (view t)" using assms(2) by (simp add: store_inv_def)
  from assms(1) obtain r seen documents r' where
    op: "read_tail_ops_bounded C M t [] (remaining_bytes budget) = Inr (rs_tail_ops s, r)"
    and docs: "collect_bucket_documents C M t (rb_queries (rr_bucket req)) r = Inr (seen, documents, r')"
    and rs: "rs_current_documents s = map snd documents" "rs_latest_op_id s = last_id (view t)"
    using assms(4) by (cases rule: bucket_read_cases) (auto split: if_splits)
  show "\<exists>xs. sorted_wrt (<) xs \<and> set xs = (\<Union>q \<in> set (rb_queries (rr_bucket req)). query_docs plan (ab_docs A) q) \<and>
           rs_current_documents s = map (the_doc (ab_docs A)) xs"
    unfolding rs(1) by (rule collected_documents [OF collect_bucket_documents_spec [OF docs ci assms(3)]])
  show "rs_tail_ops s = []" using op by (simp add: read_tail_ops_bounded_def)
  show "rs_latest_op_id s = last_id (view t)" by (rule rs(2))
qed

text \<open>A cursor from another generation, or below a floor, is always answered with a clearing snapshot.\<close>

lemma stale_cursor_reset:
  assumes "read_bucket_snapshot_in_transaction C M t req budget = Inr (s, budget')"
    and "last_id (view t) < rr_after req \<or>
         0 < rr_after req \<and> (rr_after req < snapshot_id (view t) \<or> rr_after req < retained_id (view t))"
  shows "rs_reset_required s"
  using assms by (cases rule: bucket_read_cases) (auto simp: reset_needed_def)

lemma reset_no_ops:
  assumes "read_bucket_snapshot_in_transaction C M t req budget = Inr (s, budget')" and "rs_reset_required s"
  shows "rs_tail_ops s = []"
  using assms by (cases rule: bucket_read_cases) (auto simp: read_tail_ops_bounded_def split: if_splits)

end

end
