(* ===== verification/Wire_Checksums.thy ===== *)
theory Wire_Checksums
  imports Wire Checkpoint_Law Snapshot_Read
begin

text \<open>
  What a client receives for one bucket: the entries of a clearing snapshot carry consecutive ids that
  end at the served cursor, and their checksums add up to the checkpoint's; the pages of a bucket are
  the entries in order with a chain of cursors.
\<close>

section \<open>Sums of checksums\<close>

lemma request_index_names:
  "\<forall>name \<in> set (rr_index_keys (bucket_read_request bucket)). is_index_name name"
  by (auto simp: bucket_read_request_def bucket_tail_index_keys_def sync_tail_index_keys_for_bucket_def is_index_name_def
      sync_tail_object_index_name_def sync_tail_clear_index_name_def sync_tail_route_index_name_def)

lemma bucket_read_request_simps [simp]:
  "rr_bucket (bucket_read_request bucket) = rc_resolved bucket" "rr_after (bucket_read_request bucket) = rc_after bucket"
  "rr_index_keys (bucket_read_request bucket) = bucket_tail_index_keys (rc_resolved bucket)"
  by (simp_all add: bucket_read_request_def)

lemma fold_checksum: "fold (\<lambda>e c. c + oe_checksum e) es a = a + sum_list (map oe_checksum es)"
  by (induction es arbitrary: a) (simp_all add: add.assoc)

lemma checksum_sum_eq: "checksum_sum es = sum_list (map oe_checksum es)"
  by (simp add: checksum_sum_def fold_checksum)

lemma accumulator_for_entries_eq:
  "checkpoint_accumulator_for_entries es = \<lparr> acc_checksum = sum_list (map oe_checksum es), acc_count = length es \<rparr>"
  by (simp add: checkpoint_accumulator_for_entries_def fold_checksum)

lemma snapshot_entries_checksum:
  "sum_list (map oe_checksum (snapshot_entries (includes_clear c v) v l))
   = (case bv_snapshot_clear_checksum v of None \<Rightarrow> 0 | Some x \<Rightarrow> x) + sum_list (map oe_checksum (bv_current_entries v))"
proof -
  have "map oe_checksum (map (\<lambda>(index, entry). snapshot_current_entry entry (n + index)) (enumerate m es))
      = map oe_checksum es" for n m es
    by (induction es arbitrary: m) (simp_all add: snapshot_current_entry_def)
  then show ?thesis
    by (auto simp: snapshot_entries_def Let_def snapshot_clear_entry_def includes_clear_def split: option.splits)
qed

section \<open>Ids of a snapshot\<close>

lemma entry_id_decimal [simp]:
  "n < u64_limit \<Longrightarrow> entry_id (snapshot_current_entry e n) = n"
  "n < u64_limit \<Longrightarrow> entry_id (snapshot_clear_entry n c) = n"
  by (simp_all add: entry_id_def snapshot_current_entry_def snapshot_clear_entry_def parse_decimal)

lemma enumerate_ids:
  "n + length es \<le> u64_limit \<Longrightarrow>
   map entry_id (map (\<lambda>(index, entry). snapshot_current_entry entry (s + index)) (enumerate m es)) = [s + m..<s + m + length es]"
  if "s + m = n" for n s m es
  using that
proof (induction es arbitrary: n m)
  case (Cons e es)
  then have "map entry_id (map (\<lambda>(index, entry). snapshot_current_entry entry (s + index)) (enumerate (Suc m) es))
      = [s + Suc m..<s + Suc m + length es]"
    by (intro Cons.IH [of "Suc n"]) simp_all
  with Cons.prems show ?case by (simp add: upt_rec)
qed simp

lemma snapshot_entry_ids:
  assumes "length (bv_current_entries v) + (if c then 1 else 0) \<le> l + 1" and "l < u64_limit"
  shows "map entry_id (snapshot_entries c v l)
     = [l + 1 - (length (bv_current_entries v) + (if c then 1 else 0))..<l + 1]"
proof -
  let ?n = "length (bv_current_entries v)"
  have ids: "map entry_id (map (\<lambda>(index, entry). snapshot_current_entry entry (s + index)) (enumerate 0 (bv_current_entries v)))
      = [s..<l + 1]" if "s + ?n = l + 1" for s
    using enumerate_ids [of s 0 s "bv_current_entries v"] that assms(2) by simp
  show ?thesis
  proof (cases c)
    case True
    have "l - ?n + 1 + ?n = l + 1" using assms(1) True by simp
    from ids [OF this] True assms show ?thesis
      by (auto simp: snapshot_entries_def Let_def upt_conv_Cons Suc_diff_le)
  next
    case False
    show ?thesis
    proof (cases "?n = 0")
      case True
      with False show ?thesis by (simp add: snapshot_entries_def Let_def)
    next
      case n: False
      have s: "l - (?n - 1) = l + 1 - ?n" using assms(1) False n by linarith
      have "l + 1 - ?n + ?n = l + 1" using assms(1) False by simp
      moreover have "l + 1 - ?n \<le> l" using n by linarith
      ultimately show ?thesis using ids [of "l + 1 - ?n"] False
        unfolding snapshot_entries_def Let_def s [symmetric] by simp
    qed
  qed
qed

section \<open>Pages\<close>

fun line_data :: "StreamingSyncLine \<Rightarrow> OplogEntry list" where
  "line_data (DataLine d) = bd_data d"
| "line_data _ = []"

fun line_cursors :: "StreamingSyncLine \<Rightarrow> (string \<times> string) option" where
  "line_cursors (DataLine d) = Some (bd_after d, bd_next_after d)"
| "line_cursors _ = None"

text \<open>Nothing is lost, repeated or reordered by paging.\<close>

lemma pages_data: "concat (map line_data (pages b n a es)) = es"
  by (induction b n a es rule: pages.induct)
     (subst pages.simps, simp add: Let_def data_line_from_entries_def)

lemma pages_size: "line \<in> set (pages b n a es) \<Longrightarrow> line_data line \<noteq> [] \<and> length (line_data line) \<le> max n 1"
  by (induction b n a es rule: pages.induct)
     (subst (asm) pages.simps, auto simp: Let_def data_line_from_entries_def split: if_splits)

text \<open>Each page starts at the cursor the page before ended at, the first at the client's cursor.\<close>

fun cursor_chain :: "string \<Rightarrow> StreamingSyncLine list \<Rightarrow> string \<Rightarrow> bool" where
  "cursor_chain a [] z \<longleftrightarrow> a = z"
| "cursor_chain a (l # ls) z \<longleftrightarrow> (\<exists>b. line_cursors l = Some (a, b) \<and> cursor_chain b ls z)"

lemma pages_chain:
  "cursor_chain (decimal a) (pages b n a es) (decimal (if es = [] then a else entry_id (last es)))"
proof (induction b n a es rule: pages.induct)
  case (1 b n a es)
  show ?case
  proof (cases "es = []")
    case True
    then show ?thesis by (simp add: pages.simps)
  next
    case False
    let ?rest = "drop (max n 1) es" and ?na = "entry_id (last (take (max n 1) es))"
    have "cursor_chain (decimal ?na) (pages b n ?na ?rest) (decimal (if ?rest = [] then ?na else entry_id (last ?rest)))"
      using 1 False by simp
    moreover have "(if ?rest = [] then ?na else entry_id (last ?rest)) = entry_id (last es)"
      by (cases "length es \<le> max n 1") (simp_all only: drop_eq_Nil take_all if_True if_False last_drop not_le_imp_less)
    ultimately show ?thesis
      using False by (subst pages.simps) (simp add: Let_def data_line_from_entries_def)
  qed
qed

section \<open>The stream of one bucket\<close>

lemma payload_snapshot:
  assumes "build_bucket_payload C bucket s = Inr p" and "rs_reset_required s \<or> rc_after bucket = 0"
  obtains es where "current_entries_for_bucket C (rs_current_documents s) (rc_resolved bucket) = Inr es"
    and "pl_global_last_op_id p = max (rs_latest_op_id s) (length es)"
    and "pl_current_entries p = (if pl_global_last_op_id p = 0 then [] else es)"
    and "pl_snapshot_floor_op_id p = pl_global_last_op_id p" and "pl_bounded_after p = 0"
    and "pl_snapshot_clear_checksum p = acc_checksum (rs_tail_accumulator s)"
    and "pl_force_snapshot_clear p = rs_reset_required s"
    and "pl_checkpoint_checksum p
      = protocol_checksum_i32 (sum_list (map oe_checksum es) + acc_checksum (rs_tail_accumulator s))"
  using assms
  by (auto simp: build_bucket_payload_def Let_def accumulator_for_entries_eq elim!: rbindE split: if_splits)

lemma snapshot_stream:
  assumes "build_bucket_payload C bucket s = Inr p" and "rs_reset_required s \<or> rc_after bucket = 0"
    and "0 < pl_global_last_op_id p" and "pl_global_last_op_id p \<le> l"
  defines "v \<equiv> bucket_view (rc_resolved bucket) p"
  shows "page_entries (page_iterator env sizes l v) = snapshot_entries (includes_clear env v) v (pl_global_last_op_id p)"
    and "pi_current_after (page_iterator env sizes l v) = 0"
    and "pl_checkpoint_checksum p = bucket_checksum_from_entries (page_entries (page_iterator env sizes l v))"
proof -
  obtain es where e: "pl_current_entries p = es" "pl_snapshot_floor_op_id p = pl_global_last_op_id p"
    "pl_bounded_after p = 0" "pl_snapshot_clear_checksum p = acc_checksum (rs_tail_accumulator s)"
    "pl_checkpoint_checksum p = protocol_checksum_i32 (sum_list (map oe_checksum es) + acc_checksum (rs_tail_accumulator s))"
    using assms(1,2) by (rule payload_snapshot) (use assms(3) in auto)
  show pe: "page_entries (page_iterator env sizes l v) = snapshot_entries (includes_clear env v) v (pl_global_last_op_id p)"
    and "pi_current_after (page_iterator env sizes l v) = 0"
    using assms(3,4) e by (simp_all add: page_iterator_def Let_def page_entries_def v_def bucket_view_def min_def)
  show "pl_checkpoint_checksum p = bucket_checksum_from_entries (page_entries (page_iterator env sizes l v))"
    unfolding pe bucket_checksum_from_entries_def checksum_sum_eq snapshot_entries_checksum
    by (simp add: v_def bucket_view_def e add.commute)
qed

section \<open>A row that leaves a bucket\<close>

text \<open>
  An update after which the row no longer matches is served as a removal with the removal's checksum;
  the accumulators add nothing for it.
\<close>

lemma leaving_row_entry:
  assumes "so_operation x = Put" "so_object_type x = Some ty" "so_object_id x = Some i" "so_data_json x = Some new_data"
    "so_previous_data_json x = Some old" "so_previous_route_fields x = Some rf0"
    and "matches_object_routes_and_data (cr_json C) b ty rf0 old"
    and "\<not> matches_object_routes_and_data (cr_json C) b ty (so_route_fields x) new_data"
  shows "\<exists>e. tail_entries_for_bucket C [x] b = Inr [e] \<and> oe_op e = RemoveOp \<and>
           oe_checksum e = remove_checksum C (source_subkey_for_object ty i)"
  using assms
  by (simp add: tail_entries_for_bucket_def tail_op_effect_for_bucket_def task_tail_oplog_entry_with_op_id_def
      List.map_filter_simps Let_def)

text \<open>No accumulator under a key of the bucket counts the put, when no bucket the new row is in uses that key.\<close>

lemma put_events_avoid:
  assumes "\<forall>b \<in> set (accumulator_buckets_for_row (cr_json C) plan ty rf).
      matches_object_routes_and_data (cr_json C) b ty rf data \<longrightarrow> K \<notin> set (sync_checkpoint_accumulator_keys_for_bucket b)"
  shows "contribution (put_events C plan ty i rf data) K = acc_default"
proof -
  have "K \<notin> fst ` set (put_events C plan ty i rf data)"
    using assms by (auto simp: put_events_def bucket_events_def sync_tail_checkpoint_accumulator_keys_for_bucket_def split: sum.splits if_splits)
  then have "filter (\<lambda>e. fst e = K) (put_events C plan ty i rf data) = []" by (auto simp: filter_empty_conv)
  then show ?thesis by (simp add: contribution_def acc_default_def sum_under_def count_under_def)
qed

context ingest_store
begin

lemma leaving_row:
  assumes "persist_task_tail_ops C M t [x] plan = Inr t'"
    and "current_inv C plan D (view t)" and "tail_inv C plan L (view t)" and "ops_ok D [x]"
    and "\<forall>n \<in> dom L. n \<le> last_id (view t)" and "last_id (view t) + 1 < u64_limit" and "projection_keys_ok plan"
    and "x = derive_row_put ty i rf new_data False" and "D (ty, i) = Some (rf0, old)"
    and "matches_object_routes_and_data (cr_json C) b ty rf0 old" "\<not> matches_object_routes_and_data (cr_json C) b ty rf new_data"
  shows "\<exists>bs op e. view t' (sync_tail_op_key (last_id (view t) + 1)) = Some bs \<and> cr_op_from_slice C bs = Some op \<and>
      tail_entries_for_bucket C [op] b = Inr [e] \<and> oe_op e = RemoveOp \<and> oe_checksum e = remove_checksum C (source_subkey_for_object ty i)"
    and "\<forall>b' \<in> set (accumulator_buckets_for_row (cr_json C) plan ty rf). matches_object_routes_and_data (cr_json C) b' ty rf new_data \<longrightarrow>
        K \<notin> set (sync_checkpoint_accumulator_keys_for_bucket b') \<Longrightarrow>
      acc_plus (acc_of (view t') (current_checkpoint_accumulator_key K)) (acc_of (view t') (tail_checkpoint_accumulator_key K)) =
      acc_plus (acc_of (view t) (current_checkpoint_accumulator_key K)) (acc_of (view t) (tail_checkpoint_accumulator_key K))"
proof -
  let ?n = "last_id (view t) + 1" and ?op = "persisted_op (last_id (view t) + 1) (mat_spec D x)"
  have log: "number_ops (last_id (view t)) (mat_specs D [x]) = [?op]" by simp
  have op: "so_operation ?op = Put" "so_object_type ?op = Some ty" "so_object_id ?op = Some i" "so_data_json ?op = Some new_data"
    "so_previous_data_json ?op = Some old" "so_previous_route_fields ?op = Some rf0" "so_route_fields ?op = rf"
    using assms(8,9) by (simp_all add: persisted_op_def mat_spec_def derive_row_put_def)
  have lim: "last_id (view t) + length [x] < u64_limit" using assms(6) by simp
  have inv: "tail_inv C plan (log_append L [?op]) (view t')"
    using persist_task_tail_ops_spec(2) [OF assms(1-4) assms(5) lim] by (simp only: log)
  have n: "so_op_id ?op = ?n" by (simp add: persisted_op_def)
  then have stored: "log_append L [?op] ?n = Some ?op" by (simp add: log_append_def)
  then have "(sync_tail_op_key ?n, the (cr_op_to_vec C ?op)) \<in> space_entries Tail_Op (view t')"
    using inv unfolding tail_inv_def op_entry_def by (force simp: Map.graph_def)
  moreover have "cr_op_to_vec C ?op \<noteq> None" using inv stored by (auto simp: tail_inv_def tail_op_ok_def)
  ultimately have "view t' (sync_tail_op_key ?n) = Some (the (cr_op_to_vec C ?op)) \<and> cr_op_from_slice C (the (cr_op_to_vec C ?op)) = Some ?op"
    using op_codec by (auto simp: space_entries_def)
  with leaving_row_entry [OF op(1-6) assms(10)] assms(11) op(7)
  show "\<exists>bs op e. view t' (sync_tail_op_key ?n) = Some bs \<and> cr_op_from_slice C bs = Some op \<and>
      tail_entries_for_bucket C [op] b = Inr [e] \<and> oe_op e = RemoveOp \<and> oe_checksum e = remove_checksum C (source_subkey_for_object ty i)"
    by auto
  assume "\<forall>b' \<in> set (accumulator_buckets_for_row (cr_json C) plan ty rf). matches_object_routes_and_data (cr_json C) b' ty rf new_data \<longrightarrow>
      K \<notin> set (sync_checkpoint_accumulator_keys_for_bucket b')"
  then have "contribution (served_events C plan ?op) K = acc_default"
    using put_events_avoid op by (simp add: served_events_def)
  moreover have "\<forall>x \<in> set [x]. row_op x" using assms(8) by (simp add: row_op_def derive_row_put_def)
  ultimately show "acc_plus (acc_of (view t') (current_checkpoint_accumulator_key K)) (acc_of (view t') (tail_checkpoint_accumulator_key K)) =
      acc_plus (acc_of (view t) (current_checkpoint_accumulator_key K)) (acc_of (view t) (tail_checkpoint_accumulator_key K))"
    using checkpoint_law [OF assms(1-4) assms(5) lim _ assms(7), of K] by (simp add: log acc_plus_def acc_default_def)
qed

end

end
