(* ===== verification/Store_Reset.thy ===== *)
theory Store_Reset
  imports Store_Ops Snapshot_Read
begin

text \<open>
  Resets of the store and what they do to cursors. A change of the storage contract clears the table
  and seeds a new cursor generation above every id handed out before, so that a cursor of the old
  generation is below the retained floor and is answered with a clearing snapshot. Redelivered
  batches, dense logs and index checks complete the operations.
\<close>

definition generation_kv :: "string \<Rightarrow> nat option \<Rightarrow> kv" where
  "generation_kv contract base =
     (case base of
        None \<Rightarrow> [META_LAYOUT_VERSION_KEY \<mapsto> layout_version contract]
      | Some n \<Rightarrow> [META_LAYOUT_VERSION_KEY \<mapsto> layout_version contract, META_SYNC_TAIL_LAST_OP_ID_KEY \<mapsto> decimal n,
                   META_SYNC_TAIL_INDEXED_THROUGH_OP_ID_KEY \<mapsto> decimal n, META_SYNC_TAIL_RETAINED_FLOOR_KEY \<mapsto> decimal n])"

definition no_rows :: abs_store where
  "no_rows = \<lparr> ab_docs = Map.empty, ab_tail = Map.empty, ab_rows = Map.empty \<rparr>"

lemma generation_counters:
  assumes "n < u64_limit"
  shows "last_id (generation_kv c (Some n)) = n" "indexed_id (generation_kv c (Some n)) = n"
    "retained_id (generation_kv c (Some n)) = n" "snapshot_id (generation_kv c (Some n)) = 0"
    "last_id (generation_kv c None) = 0" "indexed_id (generation_kv c None) = 0"
    "retained_id (generation_kv c None) = 0" "snapshot_id (generation_kv c None) = 0"
  using assms by (simp_all add: generation_kv_def counter_of_def parse_decimal)

lemma generation_inv:
  assumes "\<forall>n. base = Some n \<longrightarrow> n < u64_limit"
  shows "store_inv C plan no_rows (generation_kv c base)" and "tail_dense no_rows (generation_kv c base)"
proof -
  have meta: "generation_kv c base k = None" if "key_space_of k \<noteq> Some Meta" for k
  proof -
    have "k \<noteq> META_LAYOUT_VERSION_KEY" "k \<noteq> META_SYNC_TAIL_LAST_OP_ID_KEY"
      "k \<noteq> META_SYNC_TAIL_INDEXED_THROUGH_OP_ID_KEY" "k \<noteq> META_SYNC_TAIL_RETAINED_FLOOR_KEY" using that by auto
    then show ?thesis by (simp add: generation_kv_def split: option.splits)
  qed
  show "store_inv C plan no_rows (generation_kv c base)"
    using meta_only_invs [OF meta] assms by (cases base) (simp_all add: store_inv_def no_rows_def generation_counters [of 0] generation_counters)
  show "tail_dense no_rows (generation_kv c base)"
    using assms by (cases base) (auto simp: tail_dense_def no_rows_def generation_counters [of 0] generation_counters)
qed

context mdbx_table
begin

lemma next_generation_above:
  assumes "next_cursor_generation_base M now t = Inr n"
  shows "last_id (view t) < n" and "n < u64_limit"
  using assms
  by (auto simp: next_cursor_generation_base_def CURSOR_IDS_PER_MILLISECOND_def i64_max_def dest!: read_u64_or_view
      elim!: rbindE split: if_splits)

lemma seed_view:
  assumes "seed_cursor_generation M t n = Inr t'"
  shows "view t' = (view t)(META_SYNC_TAIL_LAST_OP_ID_KEY \<mapsto> decimal n,
      META_SYNC_TAIL_INDEXED_THROUGH_OP_ID_KEY \<mapsto> decimal n, META_SYNC_TAIL_RETAINED_FLOOR_KEY \<mapsto> decimal n)"
  using assms by (auto simp: seed_cursor_generation_def dest!: t_put_view elim!: rbindE)

lemma ensure_layout_changed:
  assumes "ensure_layout_version_for M now st c = (st', Inr ())"
    and "st_verified_layout_version st \<noteq> Some c"
    and "view (st_table st) META_LAYOUT_VERSION_KEY \<noteq> Some (layout_version c)"
  obtains base where "view (st_table st') = generation_kv c base"
    and "base = None \<longleftrightarrow> view (st_table st) META_LAYOUT_VERSION_KEY = None"
    and "\<And>n. base = Some n \<Longrightarrow> last_id (view (st_table st)) < n \<and> n < u64_limit"
proof -
  obtain st1 u where rw: "run_rw M st (\<lambda>t.
          rbind (read_utf8 M t META_LAYOUT_VERSION_KEY ''layout version metadata is not UTF-8'') (\<lambda>current.
          if current = Some (layout_version c) then Inr (Some t, ())
          else
            rbind (if current = None then Inr None
                   else rbind (next_cursor_generation_base M now t) (\<lambda>n. Inr (Some n))) (\<lambda>cursor_generation_base.
            rbind (t_clear M t) (\<lambda>t.
            rbind (t_put M t META_LAYOUT_VERSION_KEY (layout_version c)) (\<lambda>t.
            rbind (case cursor_generation_base of None \<Rightarrow> Inr t
                   | Some n \<Rightarrow> seed_cursor_generation M t n) (\<lambda>t.
              Inr (Some t, ()))))))) = (st1, Inr u)"
    and st': "st' = st1\<lparr>st_verified_layout_version := Some c\<rparr>"
    using assms(1,2) by (auto simp: ensure_layout_version_for_def obind_Inr_iff)
  from rw show thesis
  proof (cases rule: run_rw_cases)
    case (1 t)
    then show thesis by (auto elim!: rbindE split: if_splits)
  next
    case (2 t t1 t2)
    obtain current base t3 t4 where
      cur: "read_utf8 M t META_LAYOUT_VERSION_KEY ''layout version metadata is not UTF-8'' = Inr current"
      and ne: "current \<noteq> Some (layout_version c)"
      and base: "(if current = None then Inr None
                   else rbind (next_cursor_generation_base M now t) (\<lambda>n. Inr (Some n))) = Inr base"
      and w: "t_clear M t = Inr t3" "t_put M t3 META_LAYOUT_VERSION_KEY (layout_version c) = Inr t4"
        "(case base of None \<Rightarrow> Inr t4 | Some n \<Rightarrow> seed_cursor_generation M t4 n) = Inr t1"
    proof -
      obtain current where cur: "read_utf8 M t META_LAYOUT_VERSION_KEY ''layout version metadata is not UTF-8'' = Inr current"
        using 2(2) by (auto elim!: rbindE)
      then have "current = view t META_LAYOUT_VERSION_KEY"
        by (auto simp: read_utf8_def dest!: t_get_view elim!: rbindE split: option.splits if_splits)
      then have ne: "current \<noteq> Some (layout_version c)" using 2(1) assms(3) by simp
      show thesis using that [OF cur ne] 2(2) cur ne by (auto elim!: rbindE)
    qed
    have current: "current = view (st_table st) META_LAYOUT_VERSION_KEY"
      using cur 2(1) by (auto simp: read_utf8_def dest!: t_get_view elim!: rbindE split: option.splits if_splits)
    have v4: "view t4 = [META_LAYOUT_VERSION_KEY \<mapsto> layout_version c]"
      using t_put_view [OF w(2)] t_clear_view [OF w(1)] by simp
    have "view t1 = generation_kv c base"
      using w(3) v4 by (cases base) (auto simp: generation_kv_def dest!: seed_view)
    then have "view (st_table st') = generation_kv c base" using 2 st' by simp
    then show thesis
      using base current 2(1) next_generation_above [of now t]
      by (intro that [of base]) (auto elim!: rbindE split: if_splits)
  qed
qed

lemma read_lsn_total:
  assumes "view t META_LAST_COMMIT_END_LSN_KEY = Some (lsn_to_string l)" and "l < u64_limit"
    and "read_last_persisted_end_lsn M t = Inr r"
  shows "r = Some l"
proof (cases "t_get M t META_LAST_COMMIT_END_LSN_KEY")
  case (Inr v)
  then have "v = Some (lsn_to_string l)" using assms(1) t_get_view [OF Inr] by simp
  with Inr assms(3) lsn_roundtrip [OF assms(2)] show ?thesis
    by (auto simp: read_last_persisted_end_lsn_def read_utf8_def split: if_splits)
qed (use assms(3) in \<open>simp add: read_last_persisted_end_lsn_def read_utf8_def\<close>)

text \<open>A batch at or below the recorded LSN changes nothing.\<close>

lemma redelivery_noop:
  assumes "persist_batch_with_plan_options_and_tail_retention C enc M now st b plan opts retain chunk = (st', Inr ())"
    and "view (st_table st) META_LAYOUT_VERSION_KEY = Some (layout_version (storage_contract_id plan))"
    and "view (st_table st) META_LAST_COMMIT_END_LSN_KEY = Some (lsn_to_string l)" and "l < u64_limit" and "end_lsn b \<le> l"
  shows "view (st_table st') = view (st_table st)" and "st_task_tail_advance st' = st_task_tail_advance st"
proof -
  let ?encoded = "if persist_raw_batch opts then Some (batch_encode enc b) else None"
  obtain st1 ops lops st2 p where lay: "ensure_layout_version_for M now st (storage_contract_id plan) = (st1, Inr ())"
    and rw: "run_rw M st1 (persist_batch_body C M ?encoded (end_lsn b) ops lops plan (snapshot_without_tail opts) retain chunk) = (st2, Inr p)"
    and an: "(if p then announce_tail M st2 else (st2, Inr ())) = (st', Inr ())"
    using assms(1)
    by (cases "derive_sync_tail_ops_with_options C b plan (assume_new_inserts opts)"; cases "derive_parameter_lookup_ops b plan")
      (auto simp: persist_batch_with_plan_options_and_tail_retention_def Let_def obind_Inr_iff)
  note l = ensure_layout_same [OF lay assms(2)]
  have body: "r = (None, False)" if "persist_batch_body C M ?encoded (end_lsn b) ops lops plan wt retain chunk t = Inr r"
    "view t = view (st_table st1)" for t r wt
    using that assms(3-5) l(1) by (auto simp: persist_batch_body_def elim!: rbindE dest!: read_lsn_total [rotated 2] split: if_splits)
  from rw have "st2 = st1 \<and> \<not> p"
    by (cases rule: run_rw_cases) (auto dest!: body)
  then show "view (st_table st') = view (st_table st)" "st_task_tail_advance st' = st_task_tail_advance st"
    using an l by simp_all
qed

text \<open>On a store whose indexes are current, the check before a read writes nothing.\<close>

lemma indexes_current_noop:
  assumes "ensure_sync_tail_indexes_current C M plan st = (st', r)"
    and "last_id (view (st_table st)) \<le> indexed_id (view (st_table st))"
  shows "st' = st"
proof -
  have "r = None" if "run_ro M st (indexes_behind M) = Inr r" for r
    using that assms(2) by (auto simp: indexes_behind_def dest!: read_u64_or_view elim!: run_ro_cases rbindE)
  then show ?thesis
    using assms(1) by (cases "run_ro M st (indexes_behind M)") (auto simp: ensure_sync_tail_indexes_current_def)
qed

end

text \<open>Persisting keeps the log dense: no id between the floors and the last one is missing.\<close>

lemma abs_persist_dense:
  assumes "tail_dense A kv" and "last_id kv' = last_id kv + length ops"
    and "retained_id kv' = max (retained_id kv) (last_id kv + length ops - retain)" and "snapshot_id kv' = snapshot_id kv"
    and "snapshot_id kv \<le> last_id kv" and "retained_id kv \<le> last_id kv"
  shows "tail_dense (abs_persist plan ops lops (last_id kv) (retained_id kv') A) kv'"
proof -
  have "dom (log_append (ab_tail A) (number_ops (last_id kv) (mat_specs (ab_docs A) ops)))
    = {n. snapshot_id kv < n \<and> retained_id kv < n \<and> n \<le> last_id kv + length ops}"
    using assms(1,5,6) unfolding dom_log_append set_number_ops_ids tail_dense_def by auto
  then show ?thesis
    using assms(2-4) by (auto simp: tail_dense_def abs_persist_def dom_restrict)
qed

end
