(* ===== verification/Replica.thy ===== *)
theory Replica
  imports Wire_Checksums Store_Reset
begin

text \<open>
  A client's replica of a bucket. The contents of a bucket are the projected documents that match its
  queries; a replica applies the PUT, REMOVE and CLEAR entries it is sent. The lemmas show that the
  entries of a batch move the contents of the bucket before the batch to the contents after it, that
  the indexes of the log cover every operation with an effect on the bucket, and that the documents
  of a clearing snapshot rebuild the contents from nothing. Together they say that a replica which
  follows its cursor holds the bucket's contents.
\<close>

type_synonym replica = "string \<times> string \<rightharpoonup> string"

section \<open>Contents of a bucket and entries on a replica\<close>

definition bucket_contents :: "json_lib \<Rightarrow> ResolvedSyncBucket \<Rightarrow> docs \<Rightarrow> replica" where
  "bucket_contents J b D =
     (\<lambda>(ty, i). case D (ty, i) of
        None \<Rightarrow> None
      | Some (rf, data) \<Rightarrow>
          if matches_object_routes_and_data J b ty rf data
          then (case project_document_json J b ty data of Inl _ \<Rightarrow> None | Inr p \<Rightarrow> Some p)
          else None)"

definition apply_entry :: "replica \<Rightarrow> OplogEntry \<Rightarrow> replica" where
  "apply_entry R e =
     (case oe_op e of
        ClearOp \<Rightarrow> Map.empty
      | PutOp \<Rightarrow> (case (oe_object_type e, oe_object_id e, oe_data e) of
                    (Some ty, Some i, Some d) \<Rightarrow> R((ty, i) \<mapsto> d) | _ \<Rightarrow> R)
      | RemoveOp \<Rightarrow> (case (oe_object_type e, oe_object_id e) of
                    (Some ty, Some i) \<Rightarrow> R((ty, i) := None) | _ \<Rightarrow> R))"

abbreviation replay :: "replica \<Rightarrow> OplogEntry list \<Rightarrow> replica" where
  "replay \<equiv> foldl apply_entry"

lemma bucket_contents_upd:
  "bucket_contents J b (D((ty, i) := r)) = (bucket_contents J b D)((ty, i) := bucket_contents J b (D((ty, i) := r)) (ty, i))"
  by (auto simp: bucket_contents_def fun_eq_iff)

section \<open>The entries of one operation\<close>

lemma tail_entries_Nil [simp]: "tail_entries_for_bucket C [] b = Inr []"
  by (simp add: tail_entries_for_bucket_def)

lemma tail_entries_Cons:
  "tail_entries_for_bucket C (x # xs) b =
     (case tail_op_effect_for_bucket (cr_json C) x b of
        None \<Rightarrow> tail_entries_for_bucket C xs b
      | Some operation \<Rightarrow>
          rbind (task_tail_oplog_entry_with_op_id C x operation b (so_op_id x)) (\<lambda>e.
          rbind (tail_entries_for_bucket C xs b) (\<lambda>es. Inr (e # es))))"
  by (simp add: tail_entries_for_bucket_def split: option.splits)

lemma tail_entries_append:
  "tail_entries_for_bucket C (xs @ ys) b =
     rbind (tail_entries_for_bucket C xs b) (\<lambda>es. rbind (tail_entries_for_bucket C ys b) (\<lambda>fs. Inr (es @ fs)))"
proof (induction xs)
  case Nil
  show ?case by (cases "tail_entries_for_bucket C ys b") simp_all
next
  case (Cons x xs)
  then show ?case
    by (cases "tail_entries_for_bucket C ys b") (simp_all add: tail_entries_Cons rbind_assoc split: option.splits)
qed

lemma tail_entries_filter:
  assumes "\<And>x. x \<in> set xs \<Longrightarrow> \<not> P x \<Longrightarrow> tail_op_effect_for_bucket (cr_json C) x b = None"
  shows "tail_entries_for_bucket C (filter P xs) b = tail_entries_for_bucket C xs b"
  using assms by (induction xs) (auto simp: tail_entries_Cons split: option.splits)

text \<open>One logged operation moves the contents of the bucket as it moves the documents.\<close>

lemma replay_step:
  assumes "derived_ok D x" and "row_op x"
    and "tail_entries_for_bucket C [persisted_op n (mat_spec D x)] b = Inr es"
  shows "replay (bucket_contents (cr_json C) b D) es = bucket_contents (cr_json C) b (abs_apply D x)"
  using assms(1)
proof (cases rule: derived_okE)
  case (put ty i data)
  define v where "v = bucket_contents (cr_json C) b (abs_apply D x) (ty, i)"
  have "abs_apply D x = D((ty, i) \<mapsto> (ds_route_fields x, data))" using put by (simp add: abs_apply_def)
  then have *: "bucket_contents (cr_json C) b (abs_apply D x) = (bucket_contents (cr_json C) b D)((ty, i) := v)"
    and v: "v = (if matches_object_routes_and_data (cr_json C) b ty (ds_route_fields x) data
       then (case project_document_json (cr_json C) b ty data of Inl _ \<Rightarrow> None | Inr p \<Rightarrow> Some p) else None)"
    unfolding v_def using bucket_contents_upd [of "cr_json C" b D ty i]
    by (simp_all add: bucket_contents_def)
  show ?thesis
    unfolding * using assms(3) put v
    by (cases "D (ty, i)")
      (auto simp: tail_entries_Cons tail_op_effect_for_bucket_def mat_spec_def persisted_op_def apply_entry_def
        task_tail_oplog_entry_with_op_id_def bucket_contents_def fun_upd_idem_iff
        elim!: rbindE split: if_splits option.splits sum.splits)
next
  case (remove ty i)
  have "abs_apply D x = D((ty, i) := None)" using remove by (simp add: abs_apply_def)
  then have *: "bucket_contents (cr_json C) b (abs_apply D x) = (bucket_contents (cr_json C) b D)((ty, i) := None)"
    using bucket_contents_upd [of "cr_json C" b D ty i None] by (simp add: bucket_contents_def)
  show ?thesis
    unfolding * using assms(3) remove
    by (cases "D (ty, i)")
      (auto simp: tail_entries_Cons tail_op_effect_for_bucket_def mat_spec_def persisted_op_def apply_entry_def
        task_tail_oplog_entry_with_op_id_def bucket_contents_def fun_upd_idem_iff
        elim!: rbindE split: if_splits option.splits sum.splits)
qed (use assms(2) in \<open>simp_all add: row_op_def\<close>)

lemma replay_steps:
  "ops_ok D xs \<Longrightarrow> \<forall>x \<in> set xs. row_op x \<Longrightarrow>
   tail_entries_for_bucket C (number_ops l (mat_specs D xs)) b = Inr es \<Longrightarrow>
   replay (bucket_contents (cr_json C) b D) es = bucket_contents (cr_json C) b (foldl abs_apply D xs)"
proof (induction xs arbitrary: D l es)
  case (Cons x xs)
  let ?p = "persisted_op (l + 1) (mat_spec D x)" and ?D = "abs_apply D x"
  obtain es1 es2 where e: "es = es1 @ es2" "tail_entries_for_bucket C [?p] b = Inr es1"
    "tail_entries_for_bucket C (number_ops (l + 1) (mat_specs ?D xs)) b = Inr es2"
    using Cons.prems(3) tail_entries_append [of C "[?p]" "number_ops (l + 1) (mat_specs ?D xs)" b]
    by (cases "tail_entries_for_bucket C [?p] b"; cases "tail_entries_for_bucket C (number_ops (l + 1) (mat_specs ?D xs)) b") auto
  show ?case
    using Cons.IH [OF _ _ e(3)] replay_step [OF _ _ e(2)] Cons.prems(1,2) by (simp add: e(1))
qed simp

section \<open>The indexes cover what affects a bucket\<close>

text \<open>
  \<open>bucket_indexed\<close> is what the plan provides for a bucket it resolves: a route index over the columns of
  each routed query. \<open>scalar_routes\<close> restricts the rows to routing values that are not JSON arrays: an
  array is matched by its members but indexed under its text only.
\<close>

definition bucket_indexed :: "RustExecutionPlan \<Rightarrow> ResolvedSyncBucket \<Rightarrow> bool" where
  "bucket_indexed plan b \<longleftrightarrow>
     (\<forall>q \<in> set (rb_queries b). bt_sorted (rq_route_constraints q) \<and>
        (rq_route_constraints q = [] \<or>
         (\<exists>ixs columns. map_of (route_index_columns_by_object plan) (rq_object_type q) = Some ixs \<and> columns \<in> set ixs \<and>
            set columns = fst ` set (rq_route_constraints q))))"

definition scalar_routes :: "json_lib \<Rightarrow> routes \<Rightarrow> bool" where
  "scalar_routes J rf \<longleftrightarrow> (\<forall>(k, v) \<in> set rf. \<forall>e. \<not> route_json_array_contains J v e)"

definition scalar_op :: "json_lib \<Rightarrow> PersistedSyncTailOp \<Rightarrow> bool" where
  "scalar_op J x \<longleftrightarrow> scalar_routes J (so_route_fields x) \<and>
     (\<forall>rf. so_previous_route_fields x = Some rf \<longrightarrow> scalar_routes J rf)"

lemma bt_sorted_distinct: "bt_sorted m \<Longrightarrow> distinct (map fst m)"
  by (auto simp: bt_sorted_def strict_sorted_iff)

lemma route_index_constraints_total:
  "\<forall>c \<in> set columns. map_of rf c \<noteq> None \<Longrightarrow> bt_sorted acc \<Longrightarrow>
   \<exists>r. route_index_constraints rf columns acc = Some r \<and> bt_sorted r \<and> map_of r = map_of acc ++ (map_of rf |` set columns)"
proof (induction columns arbitrary: acc)
  case (Cons c columns)
  then obtain v where v: "map_of rf c = Some v" by auto
  have "bt_sorted (bt_insert c v acc)" using Cons.prems(2) by simp
  from Cons.IH [OF _ this] Cons.prems(1) obtain r where
    "route_index_constraints rf columns (bt_insert c v acc) = Some r" "bt_sorted r"
    "map_of r = (map_of acc)(c \<mapsto> v) ++ (map_of rf |` set columns)" by (simp only: map_of_bt_insert list.set) blast
  moreover have "(map_of acc)(c \<mapsto> v) ++ (map_of rf |` set columns) = map_of acc ++ (map_of rf |` set (c # columns))"
    using v by (auto simp: fun_eq_iff map_add_def restrict_map_def split: option.splits)
  ultimately show ?case using v by simp
qed simp

lemma match_exact:
  assumes "route_constraints_match J rc rf" and "scalar_routes J rf" and "bt_sorted rc" and "k \<in> fst ` set rc"
  shows "map_of rf k = map_of rc k" and "map_of rf k \<noteq> None"
proof -
  obtain v where v: "(k, v) \<in> set rc" using assms(4) by auto
  obtain u where u: "map_of rf k = Some u" "u = v \<or> route_json_array_contains J u v"
    using assms(1) v by (fastforce simp: route_constraints_match_def list_all_iff split: option.splits)
  then have "u = v" using assms(2) map_of_SomeD [OF u(1)] by (auto simp: scalar_routes_def)
  with u v bt_sorted_distinct [OF assms(3)] show "map_of rf k = map_of rc k" "map_of rf k \<noteq> None" by simp_all
qed

lemma matching_route_indexed:
  assumes "route_constraints_match J rc rf" and "scalar_routes J rf" and "bt_sorted rc"
    and "map_of (route_index_columns_by_object plan) ty = Some ixs" and "columns \<in> set ixs" and "set columns = fst ` set rc"
  shows "rc \<in> set (required_route_indexes_for_row plan ty rf)"
proof -
  note ex = match_exact [OF assms(1-3)]
  have "\<forall>c \<in> set columns. map_of rf c \<noteq> None" using ex(2) assms(6) by blast
  from route_index_constraints_total [OF this, of "[]"] obtain r where
    r: "route_index_constraints rf columns [] = Some r" "bt_sorted r" "map_of r = map_of rf |` set columns"
    by (auto simp: bt_sorted_def)
  have "map_of rf |` set columns = map_of rc"
    using ex assms(6) by (auto simp: fun_eq_iff restrict_map_def map_of_eq_None_iff [THEN iffD2])
  then have "r = rc" using bt_sorted_eqI [OF r(2) assms(3)] r(3) by simp
  then show ?thesis
    using r(1) assms(4,5) by (force simp: required_route_indexes_for_row_def List.map_filter_def)
qed

lemma matches_indexed:
  assumes "matches_object_and_routes J b ty rf" and "scalar_routes J rf" and "bucket_indexed plan b"
  obtains q where "q \<in> set (rb_queries b)" and "rq_object_type q = ty"
    and "rq_route_constraints q = [] \<or> rq_route_constraints q \<in> set (required_route_indexes_for_row plan ty rf)"
proof -
  from assms(1) obtain q where q: "q \<in> set (rb_queries b)" "rq_object_type q = ty"
    "route_constraints_match J (rq_route_constraints q) rf"
    by (auto simp: matches_object_and_routes_def query_for_object_and_routes_def find_Some_iff intro: nth_mem)
  have "rq_route_constraints q = [] \<or> rq_route_constraints q \<in> set (required_route_indexes_for_row plan ty rf)"
    using matching_route_indexed [OF q(3) assms(2)] assms(3) q(1,2) by (fastforce simp: bucket_indexed_def)
  with q that show thesis by blast
qed

lemma data_match_routes: "matches_object_routes_and_data J b ty rf data \<Longrightarrow> matches_object_and_routes J b ty rf"
  by (auto simp: matches_object_routes_and_data_def matches_object_and_routes_def split: option.splits)

lemma bucket_tail_index_keys_query:
  "q \<in> set (rb_queries b) \<Longrightarrow>
   set (sync_tail_index_keys_for_bucket (rq_object_type q) (rq_route_constraints q)) \<subseteq> set (bucket_tail_index_keys b)"
  by (auto simp: bucket_tail_index_keys_def)

lemma effect_covered:
  assumes "tail_op_effect_for_bucket J x b \<noteq> None" and "so_operation x \<noteq> Clear"
    and "scalar_op J x" and "bucket_indexed plan b"
  shows "\<exists>name \<in> set (bucket_tail_index_keys b). name \<in> set (sync_tail_index_keys_for_op x plan)"
proof -
  obtain ty rf where x: "so_object_type x = Some ty" "matches_object_and_routes J b ty rf"
    "rf = so_route_fields x \<or> so_previous_route_fields x = Some rf"
    using assms(1,2) by (auto simp: tail_op_effect_for_bucket_def Let_def
        split: PersistedSyncTailOperation.splits option.splits if_splits dest: data_match_routes)
  have "scalar_routes J rf" using x(3) assms(3) by (auto simp: scalar_op_def)
  from matches_indexed [OF x(2) this assms(4)] obtain q where q: "q \<in> set (rb_queries b)" "rq_object_type q = ty"
    "rq_route_constraints q = [] \<or> rq_route_constraints q \<in> set (required_route_indexes_for_row plan ty rf)" .
  define name where "name = (if rq_route_constraints q = [] then sync_tail_object_index_name ty
     else sync_tail_route_index_name ty (rq_route_constraints q))"
  have "name \<in> set (bucket_tail_index_keys b)"
    using bucket_tail_index_keys_query [OF q(1)] q(2)
    by (auto simp: name_def sync_tail_index_keys_for_bucket_def split: if_splits)
  moreover have "name \<in> set (sync_tail_index_keys_for_op x plan)"
    using x(1,3) q(3) assms(2)
    by (auto simp: name_def sync_tail_index_keys_for_op_def split: PersistedSyncTailOperation.splits option.splits)
  ultimately show ?thesis ..
qed

lemma route_index_constraints_sound:
  "route_index_constraints rf columns acc = Some r \<Longrightarrow> map_of acc \<subseteq>\<^sub>m map_of rf \<Longrightarrow> map_of r \<subseteq>\<^sub>m map_of rf"
proof (induction columns arbitrary: acc)
  case (Cons c columns)
  then obtain v where v: "map_of rf c = Some v" "route_index_constraints rf columns (bt_insert c v acc) = Some r"
    by (auto split: option.splits)
  have "map_of (bt_insert c v acc) \<subseteq>\<^sub>m map_of rf" using Cons.prems(2) v(1) by (auto simp: map_le_def)
  from Cons.IH [OF v(2) this] show ?case .
qed simp

text \<open>A row is indexed under its own routing values only.\<close>

lemma foreign_route_unindexed:
  assumes "map_of rf k = Some u" and "map_of rc k = Some v" and "u \<noteq> v"
  shows "rc \<notin> set (required_route_indexes_for_row plan ty rf)"
proof
  assume "rc \<in> set (required_route_indexes_for_row plan ty rf)"
  then obtain columns where "route_index_constraints rf columns [] = Some rc"
    by (auto simp: required_route_indexes_for_row_def List.map_filter_def split: option.splits)
  then have "map_of rc \<subseteq>\<^sub>m map_of rf" by (rule route_index_constraints_sound) simp
  with assms show False by (auto simp: map_le_def dom_def)
qed

section \<open>Snapshots\<close>

lemma document_entry_contents:
  assumes "document_put_entry C (the_doc D x) b = Inr e" and "x \<in> dom D" and "document_matches_bucket (cr_json C) (the_doc D x) b"
  shows "apply_entry R e = R(x := bucket_contents (cr_json C) b D x)"
proof -
  obtain ty i rf data where x: "x = (ty, i)" "D (ty, i) = Some (rf, data)" using assms(2) by (cases x) auto
  show ?thesis
    using assms(1,3) x by (auto simp: document_put_entry_def document_matches_bucket_def apply_entry_def bucket_contents_def
        elim!: rbindE split: sum.splits)
qed

lemma map_add_restrict_insert: "m x \<noteq> None \<Longrightarrow> R(x := m x) ++ (m |` S) = R ++ (m |` insert x S)"
  by (rule ext) (auto simp: map_add_def restrict_map_def split: option.splits)

lemma restrict_insert_None: "m x = None \<Longrightarrow> m |` insert x S = m |` S"
  by (rule ext) (auto simp: restrict_map_def)

lemma replay_documents:
  "current_entries_for_bucket C (map (the_doc D) xs) b = Inr es \<Longrightarrow> set xs \<subseteq> dom D \<Longrightarrow>
   replay R es = R ++ (bucket_contents (cr_json C) b D |` set xs)"
proof (induction xs arbitrary: R es)
  case Nil
  then show ?case by (simp add: current_entries_for_bucket_def)
next
  case (Cons x xs)
  let ?c = "bucket_contents (cr_json C) b D"
  show ?case
  proof (cases "document_matches_bucket (cr_json C) (the_doc D x) b")
    case True
    then obtain e fs where e: "es = e # fs" "document_put_entry C (the_doc D x) b = Inr e"
      "current_entries_for_bucket C (map (the_doc D) xs) b = Inr fs"
      using Cons.prems(1) by (auto simp: current_entries_for_bucket_def elim!: rbindE)
    have "?c x \<noteq> None"
      using e(2) True Cons.prems(2) by (cases x)
        (auto simp: document_put_entry_def bucket_contents_def document_matches_bucket_def elim!: rbindE)
    moreover have "apply_entry R e = R(x := ?c x)" using document_entry_contents [of C x D b e R] e(2) True Cons.prems(2) by simp
    moreover have "replay (R(x := ?c x)) fs = R(x := ?c x) ++ (?c |` set xs)"
      using Cons.prems(2) by (intro Cons.IH [OF e(3)]) simp
    ultimately show ?thesis
      using map_add_restrict_insert [of ?c x R "set xs"] by (simp only: e(1) foldl.simps list.set simp_thms)
  next
    case False
    then have "?c x = None"
      using Cons.prems(2) by (cases x) (auto simp: bucket_contents_def document_matches_bucket_def)
    moreover have "current_entries_for_bucket C (map (the_doc D) xs) b = Inr es"
      using Cons.prems(1) False by (simp add: current_entries_for_bucket_def)
    ultimately show ?thesis
      using Cons.IH [of es R] Cons.prems(2) by (simp add: restrict_insert_None)
  qed
qed

text \<open>Every row of the contents is among the documents of the bucket's queries.\<close>

lemma contents_in_queries:
  assumes "bucket_contents J b D x \<noteq> None" and "bucket_indexed plan b"
    and "\<And>x rf data. D x = Some (rf, data) \<Longrightarrow> scalar_routes J rf"
  shows "x \<in> (\<Union>q \<in> set (rb_queries b). query_docs plan D q)"
proof -
  obtain ty i rf data where x: "x = (ty, i)" "D (ty, i) = Some (rf, data)" "matches_object_routes_and_data J b ty rf data"
    using assms(1) by (cases x) (auto simp: bucket_contents_def split: option.splits if_splits)
  from matches_indexed [OF data_match_routes [OF x(3)] assms(3) [OF x(2)] assms(2)]
  obtain q where "q \<in> set (rb_queries b)" "rq_object_type q = ty"
    "rq_route_constraints q = [] \<or> rq_route_constraints q \<in> set (required_route_indexes_for_row plan ty rf)" .
  then show ?thesis using x(1,2) by (auto simp: query_docs_def)
qed

lemma snapshot_contents:
  assumes "current_entries_for_bucket C (map (the_doc D) xs) b = Inr es"
    and "set xs = (\<Union>q \<in> set (rb_queries b). query_docs plan D q)" and "bucket_indexed plan b"
    and "\<And>x rf data. D x = Some (rf, data) \<Longrightarrow> scalar_routes (cr_json C) rf"
  shows "replay Map.empty es = bucket_contents (cr_json C) b D"
proof -
  have "set xs \<subseteq> dom D" unfolding assms(2) by (auto simp: query_docs_def)
  from replay_documents [OF assms(1) this, of Map.empty]
  have "replay Map.empty es = bucket_contents (cr_json C) b D |` set xs" by simp
  also have "\<dots> = bucket_contents (cr_json C) b D"
  proof (rule restrict_dom_subset, rule subsetI)
    fix x
    assume "x \<in> dom (bucket_contents (cr_json C) b D)"
    then have "bucket_contents (cr_json C) b D x \<noteq> None" by blast
    from contents_in_queries [OF this assms(3,4)] show "x \<in> set xs" by (simp add: assms(2))
  qed
  finally show ?thesis .
qed

end
