(* ===== verification/Convergence.thy ===== *)
theory Convergence
  imports Replica
begin

text \<open>
  Convergence of a replica with the store. \<open>history\<close> is the relation between the store a client last saw and
  the store it reads now, one step per persisted batch. Along a history the retained log is the numbered
  record of the operations applied to the documents; so the delta entries streamed for a cursor carry the
  contents of the bucket from the one store to the other, and a clearing snapshot rebuilds them.
\<close>

section \<open>Histories\<close>

inductive history :: "RustExecutionPlan \<Rightarrow> abs_store \<Rightarrow> nat \<Rightarrow> abs_store \<Rightarrow> nat \<Rightarrow> bool" for plan A0 l0 where
  start: "history plan A0 l0 A0 l0"
| batch: "history plan A0 l0 (abs_persist plan ops lops l flr A) (l + length ops)"
    if "history plan A0 l0 A l" and "ops_ok (ab_docs A) ops" and "\<forall>x \<in> set ops. row_op x"

lemma number_ops_append: "number_ops l (xs @ ys) = number_ops l xs @ number_ops (l + length xs) ys"
  by (induction xs arbitrary: l) simp_all

lemma length_number_ops [simp]: "length (number_ops l xs) = length xs"
  by (induction xs arbitrary: l) simp_all

lemma mat_specs_append: "mat_specs D (xs @ ys) = mat_specs D xs @ mat_specs (foldl abs_apply D xs) ys"
  by (induction xs arbitrary: D) simp_all

lemma ops_ok_append: "ops_ok D (xs @ ys) \<longleftrightarrow> ops_ok D xs \<and> ops_ok (foldl abs_apply D xs) ys"
  by (induction xs arbitrary: D) simp_all

lemma log_append_append: "log_append L (xs @ ys) = log_append (log_append L xs) ys"
  by (simp add: log_append_def)

lemma log_append_mono: "L \<subseteq>\<^sub>m L' \<Longrightarrow> log_append L xs \<subseteq>\<^sub>m log_append L' xs"
proof (induction xs arbitrary: L L')
  case (Cons x xs)
  have "L(so_op_id x \<mapsto> x) \<subseteq>\<^sub>m L'(so_op_id x \<mapsto> x)" using Cons.prems by (auto simp: map_le_def)
  then have "log_append (L(so_op_id x \<mapsto> x)) xs \<subseteq>\<^sub>m log_append (L'(so_op_id x \<mapsto> x)) xs" by (rule Cons.IH)
  then show ?case by (simp add: log_append_def)
qed (simp add: log_append_def)

lemma log_append_number:
  "log_append L (number_ops l ds) n =
     (if l < n \<and> n \<le> l + length ds then Some (number_ops l ds ! (n - l - 1)) else L n)"
proof (induction ds arbitrary: l L)
  case (Cons d ds)
  let ?L = "L(l + 1 \<mapsto> persisted_op (l + 1) d)"
  have "log_append L (number_ops l (d # ds)) n = log_append ?L (number_ops (l + 1) ds) n"
    by (simp add: log_append_def persisted_op_def)
  also have "\<dots> = (if l + 1 < n \<and> n \<le> l + 1 + length ds then Some (number_ops (l + 1) ds ! (n - (l + 1) - 1)) else ?L n)"
    by (rule Cons.IH)
  finally show ?case by (auto simp: nth_Cons')
qed (auto simp: log_append_def)

lemma history_ops:
  "history plan A0 l0 A l \<Longrightarrow>
   \<exists>xs. ops_ok (ab_docs A0) xs \<and> (\<forall>x \<in> set xs. row_op x) \<and> ab_docs A = foldl abs_apply (ab_docs A0) xs \<and>
     l = l0 + length xs \<and> ab_tail A \<subseteq>\<^sub>m log_append (ab_tail A0) (number_ops l0 (mat_specs (ab_docs A0) xs))"
proof (induction rule: history.induct)
  case start
  show ?case by (rule exI [of _ "[]"]) (simp add: log_append_def)
next
  case (batch A l ops lops flr)
  then obtain xs where xs: "ops_ok (ab_docs A0) xs" "\<forall>x \<in> set xs. row_op x" "ab_docs A = foldl abs_apply (ab_docs A0) xs"
    "l = l0 + length xs" "ab_tail A \<subseteq>\<^sub>m log_append (ab_tail A0) (number_ops l0 (mat_specs (ab_docs A0) xs))" by blast
  let ?log = "number_ops l (mat_specs (ab_docs A) ops)"
  have "log_append (ab_tail A) ?log |` {n. flr < n} \<subseteq>\<^sub>m log_append (ab_tail A) ?log"
    by (auto simp: map_le_def restrict_map_def dom_def)
  also have "\<dots> \<subseteq>\<^sub>m log_append (log_append (ab_tail A0) (number_ops l0 (mat_specs (ab_docs A0) xs))) ?log"
    by (rule log_append_mono [OF xs(5)])
  also have "\<dots> = log_append (ab_tail A0) (number_ops l0 (mat_specs (ab_docs A0) (xs @ ops)))"
    by (simp add: mat_specs_append number_ops_append log_append_append xs(3,4))
  finally show ?case
    using xs(1-4) batch(2,3) by (intro exI [of _ "xs @ ops"]) (auto simp: ops_ok_append abs_persist_def)
qed

text \<open>Two batches in a row are one longer batch of the abstract store.\<close>

lemma log_append_add: "log_append L xs = L ++ log_append Map.empty xs"
proof (induction xs rule: rev_induct)
  case (snoc x xs)
  have "log_append L (xs @ [x]) = (log_append L xs)(so_op_id x \<mapsto> x)" for L by (simp add: log_append_def)
  then show ?case using snoc by (simp only: map_add_upd)
qed (simp add: log_append_def)

lemma log_append_restrict:
  assumes "flr' \<le> (flr :: nat)"
  shows "log_append (L |` {n. flr' < n}) xs |` {n. flr < n} = log_append L xs |` {n. flr < n}"
  using assms by (subst (1 2) log_append_add) (auto simp: restrict_map_def map_add_def fun_eq_iff)

lemma abs_persist_append:
  assumes "flr' \<le> flr"
  shows "abs_persist plan (xs @ ys) (us @ ws) l flr A
    = abs_persist plan ys ws (l + length xs) flr (abs_persist plan xs us l flr' A)"
  using log_append_restrict [OF assms, of "log_append (ab_tail A) (number_ops l (mat_specs (ab_docs A) xs))"]
  by (simp add: abs_persist_def mat_specs_append number_ops_append log_append_append abs_lookups_def)

section \<open>The operations of a delta\<close>

lemma delta_ids_sorted:
  assumes "{n. a < n \<and> n \<le> l} \<subseteq> dom L"
  shows "sorted_list_of_set (delta_ids plan L names a l)
    = filter (\<lambda>n. \<exists>name \<in> set names. name \<in> set (sync_tail_index_keys_for_op (the (L n)) plan)) [a + 1..<l + 1]"
    (is "_ = ?f")
proof -
  have "\<And>n. a < n \<Longrightarrow> n \<le> l \<Longrightarrow> \<exists>x. L n = Some x" using assms by blast
  then have "delta_ids plan L names a l = set ?f"
    by (auto simp: delta_ids_def covered_def) (metis Suc_le_lessD less_imp_le order_refl option.sel)+
  moreover have "sorted ?f" "distinct ?f" by (simp_all add: sorted_wrt_filter del: upt_Suc)
  ultimately show ?thesis by (simp only: sorted_list_of_set.idem_if_sorted_distinct)
qed

lemma mat_spec_operation [simp]: "ds_operation (mat_spec D x) = ds_operation x"
  by (simp add: mat_spec_def split: option.splits prod.splits PersistedSyncTailOperation.splits)

lemma log_row_ops:
  "ops_ok D xs \<Longrightarrow> \<forall>x \<in> set xs. row_op x \<Longrightarrow> y \<in> set (number_ops l (mat_specs D xs)) \<Longrightarrow> so_operation y \<noteq> Clear"
  by (induction xs arbitrary: D l) (auto simp: persisted_op_def row_op_def)

text \<open>Along a history with a dense log, the delta above the old last id has the entries of the whole log.\<close>

lemma delta_log:
  assumes "history plan A0 l0 A l" and "{n. l0 < n \<and> n \<le> l} \<subseteq> dom (ab_tail A)"
  obtains xs where "ops_ok (ab_docs A0) xs" and "\<forall>x \<in> set xs. row_op x" and "ab_docs A = foldl abs_apply (ab_docs A0) xs"
    and "map (the \<circ> ab_tail A) [l0 + 1..<l + 1] = number_ops l0 (mat_specs (ab_docs A0) xs)"
proof -
  obtain xs where xs: "ops_ok (ab_docs A0) xs" "\<forall>x \<in> set xs. row_op x" "ab_docs A = foldl abs_apply (ab_docs A0) xs"
    "l = l0 + length xs" "ab_tail A \<subseteq>\<^sub>m log_append (ab_tail A0) (number_ops l0 (mat_specs (ab_docs A0) xs))"
    using history_ops [OF assms(1)] by blast
  let ?log = "number_ops l0 (mat_specs (ab_docs A0) xs)"
  have "ab_tail A n = Some (?log ! (n - l0 - 1))" if "l0 < n" "n \<le> l" for n
  proof -
    have "n \<in> dom (ab_tail A)" using assms(2) that by blast
    then have "ab_tail A n = log_append (ab_tail A0) ?log n" using xs(5) unfolding map_le_def by blast
    then show ?thesis using that xs(4) by (simp add: log_append_number)
  qed
  then have "map (the \<circ> ab_tail A) [l0 + 1..<l + 1] = ?log" using xs(4) by (intro nth_equalityI) (simp_all del: upt_Suc)
  with that xs(1-3) show thesis by blast
qed

lemma delta_replay:
  assumes "history plan A0 l0 A l" and "{n. l0 < n \<and> n \<le> l} \<subseteq> dom (ab_tail A)" and "bucket_indexed plan b"
    and "\<forall>x \<in> ran (ab_tail A). scalar_op (cr_json C) x"
    and "tail_entries_for_bucket C (map (the \<circ> ab_tail A)
           (sorted_list_of_set (delta_ids plan (ab_tail A) (bucket_tail_index_keys b) l0 l))) b = Inr es"
  shows "replay (bucket_contents (cr_json C) b (ab_docs A0)) es = bucket_contents (cr_json C) b (ab_docs A)"
proof -
  obtain xs where xs: "ops_ok (ab_docs A0) xs" "\<forall>x \<in> set xs. row_op x" "ab_docs A = foldl abs_apply (ab_docs A0) xs"
    and log: "map (the \<circ> ab_tail A) [l0 + 1..<l + 1] = number_ops l0 (mat_specs (ab_docs A0) xs)"
    using delta_log [OF assms(1,2)] .
  let ?P = "\<lambda>x. \<exists>name \<in> set (bucket_tail_index_keys b). name \<in> set (sync_tail_index_keys_for_op x plan)"
  let ?log = "number_ops l0 (mat_specs (ab_docs A0) xs)"
  have "map (the \<circ> ab_tail A) (sorted_list_of_set (delta_ids plan (ab_tail A) (bucket_tail_index_keys b) l0 l)) = filter ?P ?log"
    unfolding delta_ids_sorted [OF assms(2)] log [symmetric] by (simp add: filter_map comp_def del: upt_Suc)
  moreover have "tail_op_effect_for_bucket (cr_json C) x b = None" if "x \<in> set ?log" "\<not> ?P x" for x
  proof -
    from that(1) have "x \<in> set (map (the \<circ> ab_tail A) [l0 + 1..<l + 1])" by (simp only: log)
    then obtain n where "x = the (ab_tail A n)" "l0 < n" "n \<le> l" unfolding set_map set_upt by auto
    moreover from this have "n \<in> dom (ab_tail A)" using assms(2) by blast
    ultimately have "x \<in> ran (ab_tail A)" by (auto simp: ran_def)
    moreover have "so_operation x \<noteq> Clear" by (rule log_row_ops [OF xs(1,2) that(1)])
    ultimately show ?thesis using effect_covered [of "cr_json C" x b plan] assms(3,4) that(2) by blast
  qed
  ultimately have "tail_entries_for_bucket C ?log b = Inr es"
    using assms(5) tail_entries_filter [of ?log ?P C b] by simp
  from replay_steps [OF xs(1,2) this] xs(3) show ?thesis by simp
qed

section \<open>Streams\<close>

lemma tail_entry_op_id:
  "task_tail_oplog_entry_with_op_id C x operation b n = Inr e \<Longrightarrow> oe_op_id e = decimal n"
  by (auto simp: task_tail_oplog_entry_with_op_id_def Let_def elim!: rbindE split: PersistedSyncTailOperation.splits)

lemma tail_entries_ids:
  "tail_entries_for_bucket C xs b = Inr es \<Longrightarrow> e \<in> set es \<Longrightarrow> \<exists>x \<in> set xs. oe_op_id e = decimal (so_op_id x)"
proof (induction xs arbitrary: es)
  case (Cons x xs)
  then show ?case
    by (cases "tail_op_effect_for_bucket (cr_json C) x b") (auto simp: tail_entries_Cons dest: tail_entry_op_id elim!: rbindE)
qed simp

lemma payload_delta:
  assumes "build_bucket_payload C bucket s = Inr p" and "\<not> rs_reset_required s" and "0 < rc_after bucket"
  shows "tail_entries_for_bucket C (rs_tail_ops s) (rc_resolved bucket) = Inr (pl_tail_entries p)"
    and "pl_snapshot_floor_op_id p = 0" and "pl_bounded_after p = min (rc_after bucket) (pl_global_last_op_id p)"
    and "rs_latest_op_id s \<le> pl_global_last_op_id p"
  using assms by (auto simp: build_bucket_payload_def Let_def elim!: rbindE)

text \<open>A delta stream carries the tail entries of the payload, whole.\<close>

lemma delta_stream_entries:
  assumes "build_bucket_payload C bucket s = Inr p" and "\<not> rs_reset_required s" and "0 < rc_after bucket"
    and "\<forall>x \<in> set (rs_tail_ops s). rc_after bucket < so_op_id x \<and> so_op_id x < u64_limit \<and> so_op_id x \<le> rs_latest_op_id s"
    and "pl_global_last_op_id p \<le> l"
  shows "page_entries (page_iterator env sizes l (bucket_view (rc_resolved bucket) p)) = pl_tail_entries p"
proof -
  note d = payload_delta [OF assms(1-3)]
  have ids: "rc_after bucket < entry_id e \<and> entry_id e \<le> pl_global_last_op_id p" if "e \<in> set (pl_tail_entries p)" for e
    using tail_entries_ids [OF d(1) that] assms(4) d(4) by (auto simp: entry_id_def parse_decimal)
  show ?thesis
  proof (cases "rc_after bucket < pl_global_last_op_id p")
    case True
    then show ?thesis
      using ids assms(5) d(2,3)
      by (auto simp: page_iterator_def Let_def page_entries_def bucket_view_def min_def intro!: filter_True)
  next
    case False
    then have "pl_tail_entries p = []" using ids by (cases "pl_tail_entries p") fastforce+
    then show ?thesis
      by (simp add: page_iterator_def Let_def page_entries_def bucket_view_def d(2))
  qed
qed

lemma apply_snapshot_current_entry [simp]: "apply_entry R (snapshot_current_entry e n) = apply_entry R e"
  by (simp add: apply_entry_def snapshot_current_entry_def split: OplogOperation.splits)

lemma replay_renumbered:
  "replay R (map (\<lambda>(index, entry). snapshot_current_entry entry (k + index)) (enumerate m es)) = replay R es"
  by (induction es arbitrary: R m) simp_all

lemma replay_snapshot_entries:
  "replay R (snapshot_entries c v l) = replay (if c then Map.empty else R) (bv_current_entries v)"
proof -
  have "apply_entry R (snapshot_clear_entry n x) = Map.empty" for n x
    by (simp add: apply_entry_def snapshot_clear_entry_def)
  then show ?thesis by (simp add: snapshot_entries_def Let_def replay_renumbered)
qed

context ingest_store
begin

lemma delta_stream_converges:
  assumes "read_bucket_snapshot_in_transaction C M t (bucket_read_request bucket) budget = Inr (s, budget')"
    and "store_inv C plan A (view t)" and "tail_dense A (view t)"
    and "\<not> rs_reset_required s" and "0 < rc_after bucket"
    and "history plan A0 (rc_after bucket) A (last_id (view t))"
    and "bucket_indexed plan (rc_resolved bucket)" and "\<forall>x \<in> ran (ab_tail A). scalar_op (cr_json C) x"
    and "build_bucket_payload C bucket s = Inr p" and "pl_global_last_op_id p \<le> l"
  shows "replay (bucket_contents (cr_json C) (rc_resolved bucket) (ab_docs A0))
      (page_entries (page_iterator env sizes l (bucket_view (rc_resolved bucket) p)))
    = bucket_contents (cr_json C) (rc_resolved bucket) (ab_docs A)"
proof -
  have after: "0 < rr_after (bucket_read_request bucket)" using assms(5) by simp
  note d = delta_read_spec [OF assms(1,2) request_index_names assms(4) after, simplified]
  let ?ids = "delta_ids plan (ab_tail A) (bucket_tail_index_keys (rc_resolved bucket)) (rc_after bucket) (last_id (view t))"
  have ti: "tail_inv C plan (ab_tail A) (view t)" using assms(2) by (simp add: store_inv_def)
  have dense: "{n. rc_after bucket < n \<and> n \<le> last_id (view t)} \<subseteq> dom (ab_tail A)"
    using assms(3) d(4,5) by (auto simp: tail_dense_def)
  have "finite ?ids" by (rule finite_subset [of _ "{..last_id (view t)}"]) (auto simp: delta_ids_def)
  then have ops: "\<forall>x \<in> set (rs_tail_ops s). rc_after bucket < so_op_id x \<and> so_op_id x < u64_limit \<and> so_op_id x \<le> rs_latest_op_id s"
    using ti d(3) unfolding d(1) by (auto simp: tail_inv_def tail_op_ok_def delta_ids_def covered_def)
  note st = delta_stream_entries [OF assms(9,4,5) ops assms(10)]
  show ?thesis
    unfolding st by (rule delta_replay [OF assms(6) dense assms(7,8)]) (use payload_delta(1) [OF assms(9,4,5)] d(1) in simp)
qed

lemma snapshot_stream_converges:
  assumes "read_bucket_snapshot_in_transaction C M t (bucket_read_request bucket) budget = Inr (s, budget')"
    and "store_inv C plan A (view t)" and "\<forall>q \<in> set (rb_queries (rc_resolved bucket)). CHR '':'' \<notin> set (rq_object_type q)"
    and "rs_reset_required s \<or> rc_after bucket = 0 \<and> R = Map.empty"
    and "bucket_indexed plan (rc_resolved bucket)"
    and "\<And>x rf data. ab_docs A x = Some (rf, data) \<Longrightarrow> scalar_routes (cr_json C) rf"
    and "build_bucket_payload C bucket s = Inr p" and "0 < pl_global_last_op_id p" and "pl_global_last_op_id p \<le> l"
  shows "replay R (page_entries (page_iterator env sizes l (bucket_view (rc_resolved bucket) p)))
    = bucket_contents (cr_json C) (rc_resolved bucket) (ab_docs A)"
proof -
  have reset: "rs_reset_required s \<or> rc_after bucket = 0" using assms(4) by auto
  then have "rs_reset_required s \<or> rr_after (bucket_read_request bucket) = 0" by simp
  note spec = snapshot_read_spec [OF assms(1,2) _ this, simplified, OF assms(3)]
  obtain xs where xs: "set xs = (\<Union>q \<in> set (rb_queries (rc_resolved bucket)). query_docs plan (ab_docs A) q)"
    "rs_current_documents s = map (the_doc (ab_docs A)) xs"
    using spec(1) by blast
  obtain es where es: "current_entries_for_bucket C (rs_current_documents s) (rc_resolved bucket) = Inr es"
    "pl_current_entries p = es" "pl_force_snapshot_clear p = rs_reset_required s"
    using assms(7) reset by (rule payload_snapshot) (use assms(8) in auto)
  have "(if includes_clear env (bucket_view (rc_resolved bucket) p) then Map.empty else R) = Map.empty"
    using assms(4) es(3) by (auto simp: includes_clear_def bucket_view_def)
  moreover have "replay Map.empty es = bucket_contents (cr_json C) (rc_resolved bucket) (ab_docs A)"
    by (rule snapshot_contents [OF es(1) [unfolded xs(2)] xs(1) assms(5)]) (rule assms(6))
  moreover have "bv_current_entries (bucket_view (rc_resolved bucket) p) = es" by (simp add: bucket_view_def es(2))
  ultimately show ?thesis
    by (simp only: snapshot_stream(1) [OF assms(7) reset assms(8,9)] replay_snapshot_entries)
qed

text \<open>Persisting a batch extends the history and keeps the log dense.\<close>

lemma batch_effect_history:
  assumes "batch_effect C enc b plan opts retain ops A kv kv'"
    and "store_inv C plan A kv" "plan_types_ok plan"
    and "derive_sync_tail_ops_with_options C b plan False = Inr ops" "\<forall>x \<in> set ops. put_fits x"
    and "tail_dense A kv" and "history plan A0 l0 A (last_id kv)"
  shows "\<exists>A'. store_inv C plan A' kv' \<and> tail_dense A' kv' \<and> history plan A0 l0 A' (last_id kv')"
  using assms(1) unfolding batch_effect_def
proof (elim disjE exE conjE)
  assume "kv' = kv"
  with assms show ?thesis by auto
next
  fix lops flr
  assume new: "flr = max (retained_id kv) (last_id kv + length ops - retain)"
    "store_inv C plan (abs_persist plan ops lops (last_id kv) flr A) kv'"
    "last_id kv' = last_id kv + length ops" "retained_id kv' = flr" "snapshot_id kv' = snapshot_id kv"
  have "\<forall>x \<in> set ops. row_op x"
    using derive_ops_of_plan [OF assms(4)] op_of_plan_row_op by blast
  then have "history plan A0 l0 (abs_persist plan ops lops (last_id kv) flr A) (last_id kv')"
    unfolding new(3) using history.batch [OF assms(7) derived_ops_ok [OF assms(4,3,5)]] by blast
  moreover have "tail_dense (abs_persist plan ops lops (last_id kv) flr A) kv'"
    using abs_persist_dense [OF assms(6) new(3), of retain plan lops] new(1,4,5) assms(2) by (simp add: store_inv_def)
  ultimately show ?thesis using new(2) by blast
qed

lemma persist_batch_history:
  assumes "persist_batch_with_plan_options_and_tail_retention C enc M now st b plan opts retain chunk = (st', Inr ())"
    and "view (st_table st) META_LAYOUT_VERSION_KEY = Some (layout_version (storage_contract_id plan))"
    and "store_inv C plan A (view (st_table st))"
    and "plan_types_ok plan" "lookup_plan_ok plan"
    and "\<not> assume_new_inserts opts" "\<not> snapshot_without_tail opts"
    and "derive_sync_tail_ops_with_options C b plan False = Inr ops" "\<forall>x \<in> set ops. put_fits x"
    and "last_id (view (st_table st)) + length ops < u64_limit"
    and "tail_dense A (view (st_table st))" and "history plan A0 l0 A (last_id (view (st_table st)))"
  shows "\<exists>A'. store_inv C plan A' (view (st_table st')) \<and> tail_dense A' (view (st_table st')) \<and>
     history plan A0 l0 A' (last_id (view (st_table st')))"
  by (rule batch_effect_history [OF persist_batch_full [OF assms(1-10)] assms(3,4,8,9,11,12)])

end

text \<open>When the store is empty and at id zero, a forced clear is not sent: the page iterator has nothing below the floor.\<close>

lemma empty_store_sends_nothing:
  assumes "build_bucket_payload C bucket s = Inr p" and "rs_reset_required s" and "pl_global_last_op_id p = 0"
  shows "page_entries (page_iterator env sizes l (bucket_view (rc_resolved bucket) p)) = []"
    and "pl_force_snapshot_clear p"
proof -
  have "pl_snapshot_floor_op_id p = 0 \<and> pl_force_snapshot_clear p"
    using assms(1) by (rule payload_snapshot) (use assms(2,3) in auto)
  then show "page_entries (page_iterator env sizes l (bucket_view (rc_resolved bucket) p)) = []" "pl_force_snapshot_clear p"
    using assms(3) by (simp_all add: page_iterator_def Let_def page_entries_def bucket_view_def)
qed

end
