(* ===== verification/Progress.thy ===== *)
theory Progress
  imports Store_Ops
begin

text \<open>
  Progress on an engine that does not fail. The locale \<open>reliable_store\<close> joins the reliable engine with
  the codecs; on a table that satisfies the invariants, reading a document and pruning the tail
  always return, whatever the chunk size and the retention.
\<close>

locale reliable_store = mdbx_reliable M view + serde_codecs C
  for M :: "'t mdbx" and view :: "'t \<Rightarrow> kv" and C :: crates

sublocale reliable_store \<subseteq> ingest_store
  by unfold_locales

interpretation ref_reliable: reliable_store alist_mdbx map_of ref_crates
  by unfold_locales

text \<open>The counters as the program writes them.\<close>

definition counters_ok :: "kv \<Rightarrow> bool" where
  "counters_ok kv \<longleftrightarrow>
     (\<forall>k \<in> {META_SYNC_TAIL_LAST_OP_ID_KEY, META_SYNC_TAIL_RETAINED_FLOOR_KEY, META_INITIAL_SNAPSHOT_CURSOR_FLOOR_KEY}.
        kv k = None \<or> (\<exists>n. n < u64_limit \<and> kv k = Some (decimal n)))"

lemma utf8_valid_decimal: "utf8_valid (decimal n)"
  by (rule ascii_utf8_valid) (auto dest: decimal_chars)

context reliable_store
begin

lemma read_u64_or_ok:
  assumes "view t k = None \<or> (\<exists>n. n < u64_limit \<and> view t k = Some (decimal n))"
  shows "read_u64_or M t k label 0 = Inr (counter_of (view t) k)"
  using assms
  by (auto simp: read_u64_or_def read_optional_u64_def t_get_ok parse_decimal_u64_def utf8_valid_decimal
      parse_decimal counter_of_def)

lemma read_current_document_ok:
  assumes "current_inv C plan D (view t)" and "CHR '':'' \<notin> set ty"
  shows "read_current_document C M t ty i = Inr (map_option (doc_of (ty, i)) (D (ty, i)))"
proof -
  have "\<exists>r. read_current_document C M t ty i = Inr r"
  proof (cases "view t (current_doc_key ty i)")
    case None
    then show ?thesis by (simp add: read_current_document_def read_current_document_by_key_def t_get_ok)
  next
    case (Some bs)
    then have "(current_doc_key ty i, bs) \<in> doc_entries D"
      using assms(1) by (auto simp: current_inv_def space_entries_def)
    then obtain ty' i' rf data where d: "D (ty', i') = Some (rf, data)" "bs = document_bytes ty' i' rf data"
      by (auto simp: doc_entries_def in_graph_iff)
    then have "decode_current_document C bs = Inr (doc_of (ty', i') (rf, data))"
      using assms(1) decode_document_bytes [of ty' i' rf data C] by (auto simp: current_inv_def docs_ok_def)
    with Some show ?thesis by (simp add: read_current_document_def read_current_document_by_key_def t_get_ok)
  qed
  then show ?thesis using read_current_document_inv [OF _ assms] by auto
qed

lemma del_all_ok: "\<exists>t'. rfold (\<lambda>t k. t_del M t (f k)) t ks = Inr t'"
  by (rule rfold_total) (use t_del_ok in blast)

lemma prune_tail_op_ok:
  assumes "tail_inv C plan L (view t)"
  shows "\<exists>t'. prune_tail_op C M t n = Inr t'"
proof -
  have rest: "\<exists>t'. rbind (t_del M t1 (sync_tail_refs_key n)) (\<lambda>t. t_del M t (sync_tail_op_key n)) = Inr t'" for t1
    using t_del_ok [of t1 "sync_tail_refs_key n"] t_del_ok [of _ "sync_tail_op_key n"] by fastforce
  show ?thesis
  proof (cases "view t (sync_tail_refs_key n)")
    case None
    then show ?thesis using rest by (simp add: prune_tail_op_def t_get_ok)
  next
    case (Some bs)
    then have "(sync_tail_refs_key n, bs) \<in> space_entries Tail_Refs (view t)" by (simp add: space_entries_def)
    then obtain m x where x: "L m = Some x" "bs = the (cr_names_to_vec C (sync_tail_index_keys_for_op x plan))"
      using assms unfolding tail_inv_def by (auto simp: UN_graph_iff [of _ "ref_entry C plan", simplified] ref_entry_def in_graph_iff)
    moreover have "tail_op_ok C plan m x" using assms x(1) by (simp add: tail_inv_def)
    then obtain bs' where "cr_names_to_vec C (sync_tail_index_keys_for_op x plan) = Some bs'" by (auto simp: tail_op_ok_def)
    ultimately have "cr_names_from_slice C bs = Some (sync_tail_index_keys_for_op x plan)"
      using names_codec by simp
    moreover obtain t1 where "rfold (\<lambda>t index_key. t_del M t (sync_tail_index_entry_key index_key n)) t
        (sync_tail_index_keys_for_op x plan) = Inr t1"
      using del_all_ok [of "\<lambda>index_key. sync_tail_index_entry_key index_key n"] by blast
    ultimately show ?thesis using rest [of t1] Some by (simp add: prune_tail_op_def t_get_ok)
  qed
qed

lemma prune_range_ok:
  "tail_inv C plan L (view t) \<Longrightarrow> \<forall>n \<in> set ns. n < u64_limit \<Longrightarrow> \<exists>t'. rfold (prune_tail_op C M) t ns = Inr t'"
proof (induction ns arbitrary: t L)
  case (Cons n ns)
  obtain t1 where t1: "prune_tail_op C M t n = Inr t1" using prune_tail_op_ok [OF Cons.prems(1)] by blast
  have "tail_inv C plan (L(n := None)) (view t1)"
    using prune_tail_op_step(1) [OF t1 Cons.prems(1)] Cons.prems(2) by simp
  from Cons.IH [OF this] Cons.prems(2) t1 show ?case by simp
qed simp

lemma prune_chunks_ok:
  "tail_inv C plan L (view t) \<Longrightarrow> desired < u64_limit \<Longrightarrow> \<exists>t'. prune_chunks C M chunk desired start t = Inr t'"
proof (induction "desired + 1 - start" arbitrary: start t L rule: less_induct)
  case less
  show ?case
  proof (cases "start \<le> desired")
    case False
    then show ?thesis by (simp add: prune_chunks.simps [of C M chunk])
  next
    case True
    let ?e = "min desired (start + (chunk - 1))"
    have r: "\<forall>n \<in> set [start..<?e + 1]. n < u64_limit" using less.prems(2) by auto
    then obtain t1 where t1: "rfold (prune_tail_op C M) t [start..<?e + 1] = Inr t1"
      using prune_range_ok [OF less.prems(1)] by blast
    have inv: "tail_inv C plan (L |` (- set [start..<?e + 1])) (view t1)"
      using prune_range_step [OF t1 less.prems(1) r] by blast
    have "\<exists>t'. (if ?e = desired then Inr t1 else prune_chunks C M chunk desired (?e + 1) t1) = Inr t'"
      using less.hyps [OF _ inv less.prems(2), of "?e + 1"] True by (cases "?e = desired") auto
    with True t1 show ?thesis
      unfolding prune_chunks.simps [of C M chunk desired start t] Let_def by (simp only: if_True rbind.simps)
  qed
qed

lemma prune_sync_tail_ok:
  assumes "tail_inv C plan L (view t)" and "counters_ok (view t)"
  shows "\<exists>t'. prune_sync_tail C M t retain chunk = Inr t'"
proof -
  have c: "read_u64_or M t META_SYNC_TAIL_LAST_OP_ID_KEY l 0 = Inr (last_id (view t))"
    "read_u64_or M t META_SYNC_TAIL_RETAINED_FLOOR_KEY l 0 = Inr (retained_id (view t))"
    "read_u64_or M t META_INITIAL_SNAPSHOT_CURSOR_FLOOR_KEY l 0 = Inr (snapshot_id (view t))" for l
    using assms(2) by (simp_all add: read_u64_or_ok counters_ok_def)
  have put: "\<exists>t'. t_put M t1 k v = Inr t'" for t1 k v using t_put_ok by blast
  have "last_id (view t) - retain < u64_limit"
    using counter_of_bound [of "view t" META_SYNC_TAIL_LAST_OP_ID_KEY] by simp
  from prune_chunks_ok [OF assms(1) this] show ?thesis
    using put by (simp add: prune_sync_tail_def c Let_def) (metis rbind.simps(2))
qed

end

end
