(* ===== verification/Example.thy ===== *)
theory Example
  imports Evaluation Decoder Convergence Progress
begin

text \<open>
  A small sync plan, rows and batches on which the theorems are instantiated: one table \<open>tasks\<close> routed
  by its organisation and filtered by its status, one lookup table \<open>members\<close>, over the reference table
  and codecs.
\<close>

definition ex_filter :: Predicate where
  "ex_filter = Eq (Column ''st'') (Literal (String_Lit ''open''))"

definition ex_template :: AccumulatorQueryTemplate where
  "ex_template = \<lparr> aq_stream_name = ''s'', aq_object_type = ''tasks'',
     aq_bucket_parameters = [\<lparr> bp_name = ''org'', bp_source_column = ''org'', bp_binding = AuthParameter ''org'' \<rparr>],
     aq_row_filter = Some ex_filter, aq_request_filter = None, aq_projection = Star,
     aq_projection_key = ''star'', aq_is_default = False \<rparr>"

definition ex_table_plan :: CompiledTablePlan where
  "ex_table_plan = \<lparr> tp_source_table = ''tasks'', tp_object_type = ''tasks'', tp_route_columns = [''org''],
     tp_object_id_expression = None \<rparr>"

definition ex_lookup :: ParameterLookupPlan where
  "ex_lookup = ParameterLookupPlan ''q'' ''members'' [\<lparr> sel_alias = ''org'', sel_column = ''org_id'' \<rparr>]
     [(''uid'', RequestUserId)] None ''L1''"

definition ex_lookup_table :: CompiledLookupTablePlan where
  "ex_lookup_table = \<lparr> lt_source_table = ''members'', lt_lookups = [ex_lookup] \<rparr>"

definition ex_plan :: RustExecutionPlan where
  "ex_plan = \<lparr> canonical = \<lparr> sp_version = 1, sp_edition = 3, sp_compatibility_version = 1,
       sp_storage_version = 1, sp_streams = [] \<rparr>,
     streams_by_name = [], tables_by_source = [(''tasks'', ex_table_plan)],
     lookup_tables_by_source = [(''members'', ex_lookup_table)],
     route_index_columns_by_object = [(''tasks'', [[''org'']])],
     stream_bucket_groups_by_name = [],
     accumulator_queries_by_object = [(''tasks'', [ex_template])],
     default_stream_names = [], storage_contract_id = ''c'',
     storage_contract_fingerprint = ''c'' \<rparr>"

definition ex_text :: "string \<Rightarrow> column_value" where
  "ex_text s = \<lparr> cv_as_str = Some s, cv_is_null = False, cv_display = s, cv_json = JString s \<rparr>"

definition ex_row :: "string \<Rightarrow> string \<Rightarrow> string \<Rightarrow> row_data" where
  "ex_row i org st = [(''id'', ex_text i), (''org'', ex_text org), (''st'', ex_text st)]"

definition ex_member :: "string \<Rightarrow> string \<Rightarrow> string \<Rightarrow> row_data" where
  "ex_member i uid org = [(''id'', ex_text i), (''org_id'', ex_text org), (''uid'', ex_text uid)]"

definition ex_change :: "EventType \<Rightarrow> ChangeEvent" where
  "ex_change e = \<lparr> ev_event_type = e, ev_lsn = 7 \<rparr>"

definition ex_batch :: "lsn \<Rightarrow> EventType list \<Rightarrow> batch" where
  "ex_batch l es = \<lparr> transaction_id = 1, begin_final_lsn = l, begin_commit_time_micros = 0, commit_lsn = l,
     end_lsn = l, commit_time_micros = 0, column_types_by_table = [], changes = map ex_change es \<rparr>"

definition ex_options :: PersistBatchOptions where
  "ex_options = \<lparr> persist_raw_batch = False, assume_new_inserts = False, snapshot_without_tail = False \<rparr>"

definition ex_store :: "(bytes \<times> bytes) list store" where
  "ex_store = \<lparr> st_table = [(META_LAYOUT_VERSION_KEY, layout_version ''c'')],
     st_verified_layout_version = None, st_task_tail_advance = 0 \<rparr>"

definition ex_events :: "EventType list" where
  "ex_events =
     [Insert ''public'' ''tasks'' 1 (ex_row ''t1'' ''o1'' ''open''),
      Insert ''public'' ''members'' 2 (ex_member ''m1'' ''u1'' ''o1''),
      Update ''public'' ''tasks'' 1 None (ex_row ''t1'' ''o1'' ''done'') CHR ''d'' [''id'']]"

definition is_ok :: "'e + 'a \<Rightarrow> bool" where
  "is_ok r = (case r of Inl _ \<Rightarrow> False | Inr _ \<Rightarrow> True)"

definition ex_persist :: "(bytes \<times> bytes) list store \<Rightarrow> lsn \<Rightarrow> EventType list \<Rightarrow> ((bytes \<times> bytes) list, unit) outcome" where
  "ex_persist st l es =
     persist_batch_with_plan_options_and_tail_retention ref_crates (\<lambda>_. []) alist_mdbx (Inr 1) st
       (ex_batch l es) ex_plan ex_options 10 2"

lemmas ex_defs [exec] =
  ex_filter_def ex_template_def ex_table_plan_def ex_lookup_def ex_lookup_table_def ex_plan_def ex_text_def
  ex_row_def ex_member_def ex_change_def ex_batch_def ex_options_def ex_store_def ex_events_def is_ok_def
  ex_persist_def

section \<open>The example under the hypotheses of the theorems\<close>

abbreviation "ex_run \<equiv> ex_persist ex_store 9 ex_events"

definition empty_abs :: abs_store where
  "empty_abs = \<lparr> ab_docs = Map.empty, ab_tail = Map.empty, ab_rows = Map.empty \<rparr>"

definition ex_json :: "string \<Rightarrow> string" where
  "ex_json st = ref_json_text (JObject [(''id'', JString ''t1''), (''org'', JString ''o1''), (''st'', JString st)])"

definition ex_ops :: "DerivedSyncTailOp list" where
  "ex_ops = [derive_row_put ''tasks'' ''t1'' [(''org'', ''o1'')] (ex_json ''open'') False,
             derive_row_put ''tasks'' ''t1'' [(''org'', ''o1'')] (ex_json ''done'') False]"

lemma ex_plan_ok [simp]: "plan_types_ok ex_plan" "lookup_plan_ok ex_plan"
  by (simp_all add: plan_types_ok_def lookup_plan_ok_def ex_plan_def ex_table_plan_def ex_lookup_table_def)

lemma ex_derive: "derive_sync_tail_ops_with_options ref_crates (ex_batch 9 ex_events) ex_plan False = Inr ex_ops"
  by (simp add: exec ex_ops_def ex_json_def cong: exec_cong del: exec_del)

lemma ex_ops_fit: "\<forall>x \<in> set ex_ops. put_fits x"
  by (simp add: ex_ops_def put_fits_def doc_ok_def document_bytes_def bt_sorted_def ex_json_def exec del: exec_del)

lemma ex_ops_length [simp]: "length ex_ops = 2"
  by (simp add: ex_ops_def)

lemma ex_store_meta: "map_of (st_table ex_store) k = None" if "k \<noteq> META_LAYOUT_VERSION_KEY"
  using that by (simp add: ex_store_def)

lemma ex_store_layout:
  "map_of (st_table ex_store) META_LAYOUT_VERSION_KEY = Some (layout_version (storage_contract_id ex_plan))"
  by (simp add: ex_store_def ex_plan_def)

lemma ex_store_counters [simp]:
  "last_id (map_of (st_table ex_store)) = 0" "retained_id (map_of (st_table ex_store)) = 0"
  "indexed_id (map_of (st_table ex_store)) = 0" "snapshot_id (map_of (st_table ex_store)) = 0"
  by (simp_all add: counter_of_def ex_store_meta)

lemma ex_store_inv: "store_inv ref_crates ex_plan empty_abs (map_of (st_table ex_store))"
proof -
  have "map_of (st_table ex_store) k = None" if "key_space_of k \<noteq> Some Meta" for k
    using that by (intro ex_store_meta) auto
  from meta_only_invs [OF this] show ?thesis by (simp add: store_inv_def empty_abs_def)
qed

section \<open>The table after the example batch\<close>

definition ex_key :: string where
  "ex_key = checkpoint_accumulator_name ref_json ''tasks'' [(''org'', ''o1'')] (Some ex_filter) None Star"

definition ex_tail_op :: "nat \<Rightarrow> PersistedSyncTailOp" where
  "ex_tail_op n =
     \<lparr> so_op_id = n, so_operation = Put, so_object_type = Some ''tasks'', so_object_id = Some ''t1'',
       so_route_fields = [(''org'', ''o1'')], so_data_json = Some (ex_json (if n = 1 then ''open'' else ''done'')),
       so_previous_route_fields = (if n = 1 then None else Some [(''org'', ''o1'')]),
       so_previous_data_json = (if n = 1 then None else Some (ex_json ''open'')) \<rparr>"

definition ex_names :: "string list" where
  "ex_names = [sync_tail_route_index_name ''tasks'' [(''org'', ''o1'')], sync_tail_object_index_name ''tasks'']"

definition ex_tail_rows :: "nat \<Rightarrow> (bytes \<times> bytes) list" where
  "ex_tail_rows n =
     [(sync_tail_refs_key n, ref_enc ex_names),
      (sync_tail_index_entry_key (sync_tail_object_index_name ''tasks'') n, be_bytes 8 n),
      (sync_tail_index_entry_key (sync_tail_route_index_name ''tasks'' [(''org'', ''o1'')]) n, be_bytes 8 n),
      (sync_tail_op_key n, the (ref_op (ex_tail_op n)))]"

definition ex_table :: "(bytes \<times> bytes) list" where
  "ex_table =
     [(tail_checkpoint_accumulator_key ex_key, encode_checkpoint_accumulator
         \<lparr> acc_checksum = put_checksum ref_crates ''tasks'' ''t1'' (ex_json ''open''), acc_count = 1 \<rparr>),
      (META_SYNC_TAIL_INDEXED_THROUGH_OP_ID_KEY, decimal 2), (META_SYNC_TAIL_LAST_OP_ID_KEY, decimal 2)]
     @ ex_tail_rows 2 @ ex_tail_rows 1 @
     [(current_route_index_key ''tasks'' [(''org'', ''o1'')] ''t1'', document_bytes ''tasks'' ''t1'' [(''org'', ''o1'')] (ex_json ''done'')),
      (current_doc_key ''tasks'' ''t1'', document_bytes ''tasks'' ''t1'' [(''org'', ''o1'')] (ex_json ''done'')),
      (current_checkpoint_accumulator_key ex_key, encode_checkpoint_accumulator acc_default),
      (parameter_lookup_index_key ''L1'' [''u1''] ''m1'', ref_pairs [(''org'', ''o1'')]),
      (parameter_lookup_row_key ''members'' ''m1'',
         ref_lookup_row [(''id'', Some ''m1''), (''org_id'', Some ''o1''), (''uid'', Some ''u1'')]),
      (META_LAST_COMMIT_END_LSN_KEY, lsn_to_string 9), (META_LAYOUT_VERSION_KEY, layout_version ''c'')]"

definition ex_final :: "(bytes \<times> bytes) list store" where
  "ex_final = \<lparr> st_table = ex_table, st_verified_layout_version = Some ''c'', st_task_tail_advance = 2 \<rparr>"

lemmas ex_table_defs [exec] =
  ex_key_def ex_tail_op_def ex_names_def ex_tail_rows_def ex_table_def ex_json_def document_bytes_def

lemma ex_run_result: "ex_run = (ex_final, Inr ())"
  by (simp add: exec ex_final_def cong: exec_cong del: exec_del)

section \<open>Reads and further runs on that table\<close>

definition ex_A :: abs_store where
  "ex_A = abs_persist ex_plan ex_ops [\<lparr> dl_source_table = ''members'', dl_operation = LookupPut (ex_member ''m1'' ''u1'' ''o1'') \<rparr>] 0 0 empty_abs"

lemma ex_lookup_derive:
  "derive_parameter_lookup_ops (ex_batch 9 ex_events) ex_plan
     = Inr [\<lparr> dl_source_table = ''members'', dl_operation = LookupPut (ex_member ''m1'' ''u1'' ''o1'') \<rparr>]"
  by (simp add: exec cong: exec_cong del: exec_del)

lemma ex_final_inv: "store_inv ref_crates ex_plan ex_A (map_of ex_table)"
  and ex_final_counters: "last_id (map_of ex_table) = 2" "retained_id (map_of ex_table) = 0" "snapshot_id (map_of ex_table) = 0"
proof -
  have "map_of (st_table ex_store) META_LAST_COMMIT_END_LSN_KEY = None" by (rule ex_store_meta) simp
  with ref_store.persist_batch_spec [OF ex_run_result [unfolded ex_persist_def] ex_store_layout ex_store_inv ex_plan_ok _ _ ex_derive ex_ops_fit]
    ex_lookup_derive
  show "store_inv ref_crates ex_plan ex_A (map_of ex_table)" "last_id (map_of ex_table) = 2"
    "retained_id (map_of ex_table) = 0" "snapshot_id (map_of ex_table) = 0"
    by (auto simp: ex_options_def ex_final_def ex_A_def)
qed

definition ex_bucket :: ResolvedSyncBucket where
  "ex_bucket = accumulator_bucket ref_json ex_template [(''org'', ''o1'')] ''fp''"

definition ex_request :: "nat \<Rightarrow> BucketReadRequest" where
  "ex_request n = bucket_read_request \<lparr> rc_resolved = ex_bucket, rc_after = n \<rparr>"

definition ex_budget :: SyncReadBudget where
  "ex_budget = \<lparr> remaining_entries = 9, remaining_index_scan_entries = 9, remaining_bytes = 9999 \<rparr>"

lemmas ex_request_defs [exec] = ex_bucket_def ex_request_def ex_budget_def

abbreviation "ex_read n \<equiv> read_bucket_snapshot_in_transaction ref_crates alist_mdbx ex_table (ex_request n) ex_budget"

lemma ex_read_1: "case ex_read 1 of Inl _ \<Rightarrow> False | Inr (s, _) \<Rightarrow> \<not> rs_reset_required s"
  by (simp add: exec cong: exec_cong del: exec_del)

lemma ex_read_0: "case ex_read 0 of Inl _ \<Rightarrow> False | Inr (s, _) \<Rightarrow> True"
  by (simp add: exec cong: exec_cong del: exec_del)

lemma ex_read_7: "is_ok (ex_read 7)"
  by (simp add: exec cong: exec_cong del: exec_del)

lemma ex_again: "ex_persist ex_final 9 ex_events = (ex_final, Inr ())"
  by (simp add: exec ex_final_def cong: exec_cong del: exec_del)

abbreviation "ex_redeploy \<equiv> ensure_layout_version_for alist_mdbx (Inr 1) (ex_final\<lparr>st_verified_layout_version := None\<rparr>) ''d''"

lemma ex_layout: "is_ok (snd ex_redeploy)"
  by (simp add: exec ex_final_def cong: exec_cong del: exec_del)

lemma ex_table_meta:
  "map_of ex_table META_LAYOUT_VERSION_KEY = Some (layout_version ''c'')"
  "map_of ex_table META_LAST_COMMIT_END_LSN_KEY = Some (lsn_to_string 9)" "storage_contract_id ex_plan = ''c''"
  by (simp_all add: exec cong: exec_cong del: exec_del)

lemma ex_bucket_types: "\<forall>q \<in> set (rb_queries ex_bucket). CHR '':'' \<notin> set (rq_object_type q)"
  by (simp add: ex_bucket_def accumulator_bucket_def ex_template_def)

section \<open>A replica of the example bucket\<close>

definition ex_A1 :: abs_store where
  "ex_A1 = abs_persist ex_plan [hd ex_ops] [\<lparr> dl_source_table = ''members'', dl_operation = LookupPut (ex_member ''m1'' ''u1'' ''o1'') \<rparr>] 0 0 empty_abs"

lemma ex_A_append: "ex_A = abs_persist ex_plan [ex_ops ! 1] [] 1 0 ex_A1"
  unfolding ex_A_def ex_A1_def using abs_persist_append [of 0 0 ex_plan "[hd ex_ops]" "[ex_ops ! 1]" _ "[]" 0 empty_abs]
  by (simp add: ex_ops_def)

lemma ex_history: "history ex_plan ex_A1 1 ex_A 2"
proof -
  have "ops_ok (ab_docs empty_abs) ex_ops" by (rule derived_ops_ok [OF ex_derive ex_plan_ok(1) ex_ops_fit])
  moreover have "ex_ops = [hd ex_ops] @ [ex_ops ! 1]" by (simp add: ex_ops_def)
  ultimately have "ops_ok (ab_docs ex_A1) [ex_ops ! 1]"
    using ops_ok_append [of "ab_docs empty_abs" "[hd ex_ops]" "[ex_ops ! 1]"] by (simp add: ex_A1_def abs_persist_def)
  then have "history ex_plan ex_A1 1 (abs_persist ex_plan [ex_ops ! 1] [] 1 0 ex_A1) (1 + length [ex_ops ! 1])"
    by (intro history.batch history.start) (simp_all add: ex_ops_def row_op_def derive_row_put_def)
  then show ?thesis by (simp add: ex_A_append numeral_2_eq_2)
qed

lemma ex_dense: "tail_dense ex_A (map_of ex_table)"
  unfolding ex_A_def
  using abs_persist_dense [of empty_abs "map_of (st_table ex_store)" "map_of ex_table" ex_ops 10]
  by (auto simp: ex_final_counters tail_dense_def empty_abs_def)

lemma ex_indexed: "bucket_indexed ex_plan ex_bucket"
  by (simp add: bucket_indexed_def ex_bucket_def accumulator_bucket_def ex_plan_def ex_template_def bt_sorted_def)

lemma ex_scalar_route: "scalar_routes (cr_json ref_crates) [(''org'', ''o1'')]"
  by (simp add: scalar_routes_def exec cong: exec_cong del: exec_del)

lemma ex_A_contents:
  "ab_docs ex_A = [(''tasks'', ''t1'') \<mapsto> ([(''org'', ''o1'')], ex_json ''done'')]"
  "ab_docs ex_A1 = [(''tasks'', ''t1'') \<mapsto> ([(''org'', ''o1'')], ex_json ''open'')]"
  "ab_tail ex_A = [1 \<mapsto> ex_tail_op 1, 2 \<mapsto> ex_tail_op 2]"
  by (simp_all add: ex_A_def ex_A1_def abs_persist_def empty_abs_def ex_ops_def derive_row_put_def abs_apply_def mat_spec_def
      log_append_def persisted_op_def ex_tail_op_def restrict_map_def fun_eq_iff)

lemma ex_payload:
  "case ex_read n of Inl _ \<Rightarrow> False | Inr (s, _) \<Rightarrow>
     (case build_bucket_payload ref_crates \<lparr> rc_resolved = ex_bucket, rc_after = n \<rparr> s of Inl _ \<Rightarrow> False
      | Inr p \<Rightarrow> pl_global_last_op_id p = 2)" if "n \<in> {0, 1, 7}"
  using that by (elim insertE emptyE) (simp_all add: exec cong: exec_cong del: exec_del)

lemma ex_tail_run: "is_ok (persist_task_tail_ops ref_crates alist_mdbx (st_table ex_store) ex_ops ex_plan)"
  by (simp add: exec ex_ops_def cong: exec_cong del: exec_del)

lemma ex_two_runs:
  "case persist_task_tail_ops ref_crates alist_mdbx (st_table ex_store) [hd ex_ops] ex_plan of Inl _ \<Rightarrow> False
   | Inr t \<Rightarrow> is_ok (persist_task_tail_ops ref_crates alist_mdbx t [ex_ops ! 1] ex_plan)"
  by (simp add: exec ex_ops_def cong: exec_cong del: exec_del)

lemma ex_first_docs: "abs_apply Map.empty (hd ex_ops) (''tasks'', ''t1'') = Some ([(''org'', ''o1'')], ex_json ''open'')"
  by (simp add: ex_ops_def abs_apply_def derive_row_put_def)

lemma ex_one_run:
  assumes "persist_task_tail_ops ref_crates alist_mdbx (st_table ex_store) [hd ex_ops] ex_plan = Inr t"
  shows "current_inv ref_crates ex_plan (abs_apply Map.empty (hd ex_ops)) (map_of t)"
    and "tail_inv ref_crates ex_plan (log_append Map.empty (number_ops 0 (mat_specs Map.empty [hd ex_ops]))) (map_of t)"
    and "ops_ok (abs_apply Map.empty (hd ex_ops)) [ex_ops ! 1]"
    and "last_id (map_of t) = 1"
    and "\<forall>n \<in> dom (log_append Map.empty (number_ops 0 (mat_specs Map.empty [hd ex_ops]))). n \<le> 1"
proof -
  have two: "ex_ops = [hd ex_ops, ex_ops ! 1]" by (simp add: ex_ops_def)
  have ok: "ops_ok Map.empty ex_ops" by (rule derived_ops_ok [OF ex_derive ex_plan_ok(1) ex_ops_fit])
  have inv: "current_inv ref_crates ex_plan Map.empty (map_of (st_table ex_store))"
    "tail_inv ref_crates ex_plan Map.empty (map_of (st_table ex_store))"
    using ex_store_inv by (simp_all add: store_inv_def empty_abs_def)
  have "ops_ok Map.empty [hd ex_ops]" and next_op: "ops_ok (abs_apply Map.empty (hd ex_ops)) [ex_ops ! 1]"
    using ok unfolding two [symmetric] by (subst (asm) two, simp)+
  then show "ops_ok (abs_apply Map.empty (hd ex_ops)) [ex_ops ! 1]" by blast
  have zero: "counter_of (map_of (st_table ex_store)) META_SYNC_TAIL_LAST_OP_ID_KEY = 0"
    using ex_store_meta by (simp add: counter_of_def)
  note s = ref_store.persist_task_tail_ops_spec [OF assms inv \<open>ops_ok Map.empty [hd ex_ops]\<close>, unfolded zero]
  show "current_inv ref_crates ex_plan (abs_apply Map.empty (hd ex_ops)) (map_of t)"
    "tail_inv ref_crates ex_plan (log_append Map.empty (number_ops 0 (mat_specs Map.empty [hd ex_ops]))) (map_of t)"
    "last_id (map_of t) = 1"
    using s(1-3) by simp_all
  show "\<forall>n \<in> dom (log_append Map.empty (number_ops 0 (mat_specs Map.empty [hd ex_ops]))). n \<le> 1"
    by (auto simp: log_append_def persisted_op_def split: if_splits)
qed

lemma ex_key_of_bucket: "ex_key \<in> set (sync_checkpoint_accumulator_keys_for_bucket ex_bucket)"
  by (simp add: exec sync_checkpoint_accumulator_keys_for_bucket_def cong: exec_cong del: exec_del)

lemma ex_row_ops: "\<forall>x \<in> set ex_ops. row_op x"
  by (simp add: ex_ops_def row_op_def derive_row_put_def)

lemma ex_keys_ok: "projection_keys_ok ex_plan"
  by (simp add: projection_keys_ok_def ex_plan_def)

lemma ex_leaves:
  "matches_object_routes_and_data ref_json ex_bucket ''tasks'' [(''org'', ''o1'')] (ex_json ''open'')"
  "\<not> matches_object_routes_and_data ref_json ex_bucket ''tasks'' [(''org'', ''o1'')] (ex_json ''done'')"
  "\<forall>b \<in> set (accumulator_buckets_for_row ref_json ex_plan ''tasks'' [(''org'', ''o1'')]).
     \<not> matches_object_routes_and_data ref_json b ''tasks'' [(''org'', ''o1'')] (ex_json ''done'')"
  by (simp_all add: exec cong: exec_cong del: exec_del)

lemma ex_array_route:
  "route_constraints_match ref_json [(''org'', ''o1'')] [(''org'', ref_json_text (JArray [JString ''o1'', JString ''o2'']))]"
  "ref_json_text (JArray [JString ''o1'', JString ''o2'']) \<noteq> ''o1''"
  by (simp_all add: exec cong: exec_cong del: exec_del)

lemma ex_empty_payload:
  "case read_bucket_snapshot_in_transaction ref_crates alist_mdbx [] (ex_request 7) ex_budget of Inl _ \<Rightarrow> False | Inr (s, _) \<Rightarrow>
     rs_reset_required s \<and>
     (case build_bucket_payload ref_crates \<lparr> rc_resolved = ex_bucket, rc_after = 7 \<rparr> s of Inl _ \<Rightarrow> False
      | Inr p \<Rightarrow> pl_global_last_op_id p = 0)"
  by (simp add: exec cong: exec_cong del: exec_del)

lemma ex_counters_ok: "counters_ok (map_of ex_table)"
proof -
  have "map_of ex_table META_SYNC_TAIL_LAST_OP_ID_KEY = Some (decimal 2)"
    "map_of ex_table META_SYNC_TAIL_RETAINED_FLOOR_KEY = None" "map_of ex_table META_INITIAL_SNAPSHOT_CURSOR_FLOOR_KEY = None"
    by (simp_all add: exec cong: exec_cong del: exec_del)
  then show ?thesis by (auto simp: counters_ok_def intro!: exI [of _ 2])
qed

lemma ex_scan: "is_ok (scan_sync_tail_index_entries alist_mdbx ex_table (sync_tail_index_name ''object'' ''tasks'' []) 1 2 [])"
  by (simp add: exec cong: exec_cong del: exec_del)

lemma ex_lookup_scan: "is_ok (scan_parameter_lookup_entries ref_crates alist_mdbx ex_table (lookup_id ex_lookup) [''u1''] 5)"
  by (simp add: exec cong: exec_cong del: exec_del)

section \<open>Replication and codecs\<close>

text \<open>A parser that counts the messages it has read; the payload selects the message.\<close>

definition ex_messages :: "bytes \<Rightarrow> string + unit LogicalReplicationMessage" where
  "ex_messages data =
     (if data = ''R'' then Inr (RelationMsg 7 ''public'' ''tasks'' 100 [\<lparr> col_name = ''id'', col_type_id = 25 \<rparr>])
      else if data = ''I'' then Inr (InsertMsg 7 ())
      else if data = ''U'' then Inr (UpdateMsg 7 (Some ()) ())
      else if data = ''D'' then Inr (DeleteMsg 7 ())
      else if data = ''?'' then Inl ''unknown message''
      else Inr (TruncateMsg []))"

definition ex_pgoutput :: "(nat, unit) pgoutput" where
  "ex_pgoutput = \<lparr> pg_new_parser = 0, pg_parse_wal_message = (\<lambda>n data. (n + 1, ex_messages data)),
     pg_to_row_data = (\<lambda>_ _. ex_row ''t0'' ''o1'' ''open''),
     pg_replica_identity_from_byte = (\<lambda>b. if b = 100 then Some CHR ''d'' else None), pg_get_key_columns = (\<lambda>_. [''id'']),
     pg_full_name = rel_relation_name, pg_update_received_lsn = max, pg_relation_values = map snd \<rparr>"

abbreviation "ex_middle \<equiv> [XLogData 6 ''R'', XLogData 7 ''I'', KeepAlive 7, XLogData 8 ''U'', XLogData 9 ''D'']"

lemma ex_decoder_understood: "stream_understood ex_pgoutput 0 Map.empty ex_middle"
  by (simp add: ex_pgoutput_def ex_messages_def understood_def is_silent_def is_change_def is_keyed_def identity_of_def)

lemma ex_decoder_changes: "length (stream_changes ex_pgoutput 0 Map.empty ex_middle) = 3"
  by (simp add: ex_pgoutput_def ex_messages_def described_def)

lemma ex_decoder_new [simp]:
  "de_parser (decoder_new ex_pgoutput) = 0" "de_transaction (decoder_new ex_pgoutput) = None" "de_relations (decoder_new ex_pgoutput) = []"
  by (simp_all add: decoder_new_def ex_pgoutput_def)

lemma ex_update:
  "is_ok (derive_change ref_crates ex_plan [] False (Update ''public'' ''tasks'' 1 (Some (ex_row ''t0'' ''o1'' ''open''))
      (ex_row ''t1'' ''o1'' ''open'') CHR ''d'' [''id'']))"
  by (simp add: exec cong: exec_cong del: exec_del)

lemma ex_encode: "is_ok (encode_current_document ''t'' ''i'' [(''a'', ''b'')] ''{}'')" "doc_ok ''t'' ''i'' [(''a'', ''b'')] ''{}''"
  by (simp_all add: doc_ok_def document_bytes_def bt_sorted_def exec cong: exec_cong del: exec_del)

end
