(* ===== verification/Guarantees.thy ===== *)
theory Guarantees
  imports Example
begin

text \<open>
  The guarantees of the single components: the stream iterator and its pages, pruning and index scans of the
  log, parameter lookups, the replication decoder, the derivation of operations, the codecs, the keys and the
  LSN text form. Each is stated over the model's definitions and rests on the lemmas of its component.
\<close>

section \<open>Streams\<close>

text \<open>
  Pages neither lose nor repeat: the data of a bucket's pages is the bucket's entries in order, no page is empty
  or larger than the page size, and each page starts at the cursor where the one before it ended.
\<close>

lemma pages_partition:
  "concat (map line_data (pages b n a es)) = es
   \<and> list_all (\<lambda>line. line_data line \<noteq> [] \<and> length (line_data line) \<le> max n 1) (pages b n a es)
   \<and> cursor_chain (decimal a) (pages b n a es) (decimal (if es = [] then a else entry_id (last es)))"
  using pages_data pages_size [of _ b n a es] pages_chain by (auto simp: list_all_iff)

text \<open>
  C21. The iterator of a sync request ends and yields exactly: the checkpoint, the pages of every bucket in the order
  of the request, and the completion line. Enough calls (the number of lines and one more) exhaust it, and the
  result does not depend on how many more are made. The pages of a bucket hold its entries in order, each once; none
  is empty or larger than the page size, and each starts at the cursor where the one before it ended.
\<close>

theorem stream_lines_complete:
  assumes "\<forall>v \<in> set views. entries_ok (ei_items (pi_entries (page_iterator c ps l v)))"
    and "length (concat (map (page_lines \<circ> page_iterator c ps l) views)) + 2 < fuel"
  shows "run_lines fuel (chunk_iterator_new c ps views l) =
    Some (Inr (checkpoint_line views l # concat (map (page_lines \<circ> page_iterator c ps l) views)
      @ [checkpoint_complete_line l])) \<and>
    (\<forall>v \<in> set views. let p = page_iterator c ps l v; lines = page_lines p; es = page_entries p in
      concat (map line_data lines) = es \<and>
      list_all (\<lambda>line. line_data line \<noteq> [] \<and> length (line_data line) \<le> max (pi_page_size p) 1) lines \<and>
      cursor_chain (decimal (pi_current_after p)) lines (decimal (if es = [] then pi_current_after p else entry_id (last es))))"
  using chunk_iterator_lines [OF assms] pages_partition unfolding page_lines_def Let_def by blast

definition ex_entry :: "nat \<Rightarrow> OplogEntry" where
  "ex_entry n = \<lparr> oe_op_id = decimal n, oe_op = PutOp, oe_object_type = Some ''tasks'', oe_object_id = Some (decimal n),
     oe_data = Some ''{}'', oe_checksum = 1, oe_subkey = None \<rparr>"

definition ex_stream_views :: "BucketSyncView list" where
  "ex_stream_views = map (\<lambda>(name, current, tail, floor).
     \<lparr> bv_bucket_name = name, bv_stream_name = ''s'', bv_is_default = True, bv_current_entries = current, bv_tail_entries = tail,
       bv_last_op_id = 7, bv_snapshot_floor_op_id = floor, bv_snapshot_clear_checksum = None, bv_force_snapshot_clear = True,
       bv_checkpoint_checksum = None, bv_checkpoint_count = None, bv_after = Some 3 \<rparr>)
     [(''delta'', [], map ex_entry [3, 4, 6, 7], 0), (''snapshot'', [ex_entry 1, ex_entry 2], [], 5)]"

lemmas ex_stream_defs = ex_stream_views_def ex_entry_def page_iterator_def page_entries_def entries_ok_def parse_decimal
  snapshot_entries_def snapshot_clear_entry_def snapshot_current_entry_def includes_clear_def entry_id_def enumerate_eq_zip

theorem stream_lines_complete_witness:
  "\<exists>checkpoint d1 d2 s1 s2. run_lines 10 (chunk_iterator_new False \<lparr> ps_snapshot = 2, ps_delta = 2 \<rparr> ex_stream_views 7)
     = Some (Inr [checkpoint, d1, d2, s1, s2, checkpoint_complete_line 7]) \<and>
   map (map entry_id \<circ> line_data) [d1, d2, s1, s2] = [[4, 6], [7], [5, 6], [7]]"
proof -
  let ?ps = "\<lparr> ps_snapshot = 2, ps_delta = 2 \<rparr>"
  have ok: "\<forall>v \<in> set ex_stream_views. entries_ok (ei_items (pi_entries (page_iterator False ?ps 7 v)))"
    by (simp add: ex_stream_defs)
  have pages: "\<exists>d1 d2 s1 s2. concat (map (page_lines \<circ> page_iterator False ?ps 7) ex_stream_views) = [d1, d2, s1, s2] \<and>
    map (map entry_id \<circ> line_data) [d1, d2, s1, s2] = [[4, 6], [7], [5, 6], [7]]"
    by (simp add: ex_stream_defs page_lines_def pages.simps data_line_from_entries_def)
  then have "length (concat (map (page_lines \<circ> page_iterator False ?ps 7) ex_stream_views)) + 2 < 10" by auto
  from stream_lines_complete [OF ok this] pages show ?thesis by auto
qed

text \<open>
  A clearing snapshot numbers its entries with consecutive ids that end at the id of the snapshot, so the cursor
  after the last page is that id.
\<close>

theorem snapshot_ids_consecutive:
  assumes "length (bv_current_entries v) + (if c then 1 else 0) \<le> l + 1" and "l < u64_limit"
  shows "map entry_id (snapshot_entries c v l)
     = [l + 1 - (length (bv_current_entries v) + (if c then 1 else 0))..<l + 1]"
  by (rule snapshot_entry_ids [OF assms])

theorem snapshot_ids_consecutive_witness:
  "map entry_id (snapshot_entries True (bucket_view ex_bucket \<lparr> pl_current_entries = [], pl_tail_entries = [],
      pl_checkpoint_count = 0, pl_checkpoint_checksum = 0, pl_snapshot_clear_checksum = 0, pl_force_snapshot_clear = True,
      pl_bounded_after = 0, pl_global_last_op_id = 5, pl_snapshot_floor_op_id = 5 \<rparr>) 5) = [5]"
  using snapshot_ids_consecutive [of "bucket_view ex_bucket \<lparr> pl_current_entries = [], pl_tail_entries = [],
      pl_checkpoint_count = 0, pl_checkpoint_checksum = 0, pl_snapshot_clear_checksum = 0, pl_force_snapshot_clear = True,
      pl_bounded_after = 0, pl_global_last_op_id = 5, pl_snapshot_floor_op_id = 5 \<rparr>" True 5]
  by (simp add: bucket_view_def)

section \<open>Log, documents and lookups\<close>

text \<open>
  C31. Pruning removes exactly the operations at or below the new floor, with their index entries and references,
  sets the floor to the larger of the old one and the last id less the retention, and leaves every other key alone.
\<close>

theorem prune_exact:
  assumes "ingest_store M view C" and "prune_sync_tail C M t retain chunk = Inr t'" and "tail_inv C plan L (view t)"
    and "\<forall>n \<in> dom L. snapshot_id (view t) < n \<and> retained_id (view t) < n"
  shows "tail_inv C plan (L |` {n. max (retained_id (view t)) (last_id (view t) - retain) < n}) (view t')
    \<and> retained_id (view t') = max (retained_id (view t)) (last_id (view t) - retain)
    \<and> (\<forall>k. key_space_of k \<notin> {Some Tail_Op, Some Tail_Refs, Some Tail_Index} \<longrightarrow>
           k \<noteq> META_SYNC_TAIL_RETAINED_FLOOR_KEY \<longrightarrow> view t' k = view t k)"
  using ingest_store.prune_sync_tail_spec [OF assms(1-3)] assms(4) by blast

theorem prune_exact_witness:
  "case prune_sync_tail ref_crates alist_mdbx ex_table 1 1 of Inl _ \<Rightarrow> False
   | Inr t' \<Rightarrow> tail_inv ref_crates ex_plan (ab_tail ex_A |` {n. 1 < n}) (map_of t') \<and> retained_id (map_of t') = 1"
proof -
  have inv: "tail_inv ref_crates ex_plan (ab_tail ex_A) (map_of ex_table)" using ex_final_inv by (simp add: store_inv_def)
  obtain t' where run: "prune_sync_tail ref_crates alist_mdbx ex_table 1 1 = Inr t'"
    using ref_reliable.prune_sync_tail_ok [OF inv ex_counters_ok] by blast
  from prune_exact [OF ref_store.ingest_store_axioms run inv] ex_final_inv
  show ?thesis unfolding run by (auto simp: store_inv_def ex_final_counters)
qed

text \<open>
  C32. Pruning always finishes on an engine that does not fail: for any retention and any chunk size, zero included,
  it returns a table.
\<close>

theorem prune_terminates:
  assumes "reliable_store M view C" and "tail_inv C plan L (view t)" and "counters_ok (view t)"
  shows "\<exists>t'. prune_sync_tail C M t retain chunk = Inr t'"
  by (rule reliable_store.prune_sync_tail_ok [OF assms])

theorem prune_terminates_witness: "\<exists>t'. prune_sync_tail ref_crates alist_mdbx ex_table 0 0 = Inr t'"
proof -
  have "tail_inv ref_crates ex_plan (ab_tail ex_A) (map_of ex_table)" using ex_final_inv by (simp add: store_inv_def)
  from prune_terminates [OF ref_reliable.reliable_store_axioms this ex_counters_ok] show ?thesis .
qed

text \<open>
  A scan of one tail index returns the ids of the log that the index covers in the asked range, in increasing
  order, each once.
\<close>

theorem index_scan_exact:
  assumes "ingest_store M view C" and "scan_sync_tail_index_entries M t (sync_tail_index_name kind ty rc) first_id final_id [] = Inr ids"
    and "tail_inv C plan L (view t)" and "first_id < u64_limit"
  shows "sorted_wrt (<) ids \<and> set ids = {n \<in> covered plan L (sync_tail_index_name kind ty rc). first_id \<le> n \<and> n \<le> final_id}"
proof -
  have "is_index_name (sync_tail_index_name kind ty rc)" by (auto simp: is_index_name_def)
  from ingest_store.scan_index_spec [OF assms(1-3) this assms(4)] show ?thesis by simp
qed

theorem index_scan_exact_witness:
  "case scan_sync_tail_index_entries alist_mdbx ex_table (sync_tail_index_name ''object'' ''tasks'' []) 1 2 [] of Inl _ \<Rightarrow> False
   | Inr ids \<Rightarrow> sorted_wrt (<) ids \<and>
       set ids = {n \<in> covered ex_plan (ab_tail ex_A) (sync_tail_index_name ''object'' ''tasks'' []). 1 \<le> n \<and> n \<le> 2}"
  using ex_scan index_scan_exact [OF ref_store.ingest_store_axioms, where kind = "''object''" and ty = "''tasks''" and rc = "[]"
      and t = ex_table and first_id = 1 and final_id = 2 and plan = ex_plan and L = "ab_tail ex_A"] ex_final_inv
  by (auto simp: is_ok_def store_inv_def split: sum.splits)

text \<open>
  Reading a document returns what the abstract store holds under its type and id, absence included, on an
  engine that does not fail.
\<close>

theorem document_lookup:
  assumes "reliable_store M view C" and "current_inv C plan D (view t)" and "CHR '':'' \<notin> set ty"
  shows "read_current_document C M t ty i = Inr (map_option (doc_of (ty, i)) (D (ty, i)))"
  by (rule reliable_store.read_current_document_ok [OF assms])

theorem document_lookup_witness:
  "read_current_document ref_crates alist_mdbx ex_table ''tasks'' ''t1''
     = Inr (Some (doc_of (''tasks'', ''t1'') ([(''org'', ''o1'')], ex_json ''done'')))"
  using document_lookup [OF ref_reliable.reliable_store_axioms, of ex_plan "ab_docs ex_A" ex_table "''tasks''" "''t1''"] ex_final_inv
  by (simp add: store_inv_def ex_A_contents)

text \<open>
  C30. A parameter lookup answers with the payload of exactly the rows indexed under the key, or, when there are more of
  them than the limit, with a resource-limit error and never with a shortened answer.
\<close>

theorem lookup_scan_exact:
  assumes "ingest_store M view C" and "scan_parameter_lookup_entries C M t (lookup_id l) ks max_entries = r"
    and "lookup_inv C plan R (view t)" and "lookup_plan_ok plan" and "l \<in> set (lookups_of plan s)"
    and "length ks = length (key_bindings l)" and "\<not> (\<exists>e. r = Inl (Mdbx e))"
  shows "\<exists>ids. distinct ids \<and> set ids = matching_rows R s l ks \<and>
           (if length ids \<le> max_entries then r = Inr (map (row_payload R s l) ids)
            else \<exists>m. r = Inl (ResourceLimit m))"
  by (rule ingest_store.scan_lookup_spec [OF assms])

theorem lookup_scan_exact_witness:
  "\<exists>ids. distinct ids \<and> set ids = matching_rows (ab_rows ex_A) ''members'' ex_lookup [''u1''] \<and> length ids \<le> 5 \<and>
     scan_parameter_lookup_entries ref_crates alist_mdbx ex_table ''L1'' [''u1''] 5 = Inr (map (row_payload (ab_rows ex_A) ''members'' ex_lookup) ids)"
proof -
  let ?r = "scan_parameter_lookup_entries ref_crates alist_mdbx ex_table (lookup_id ex_lookup) [''u1''] 5"
  have inv: "lookup_inv ref_crates ex_plan (ab_rows ex_A) (map_of ex_table)" using ex_final_inv by (simp add: store_inv_def)
  have l: "ex_lookup \<in> set (lookups_of ex_plan ''members'')"
    by (simp add: lookups_of_def lookup_table_of_def ex_plan_def ex_lookup_table_def)
  from lookup_scan_exact [OF ref_store.ingest_store_axioms refl inv ex_plan_ok(2) l, of "[''u1'']" 5] ex_lookup_scan
  show ?thesis by (auto simp: is_ok_def ex_lookup_def split: sum.splits if_splits)
qed

section \<open>Replication\<close>

text \<open>
  C27. The decoder conserves changes. Over a run of events that is accepted, the changes of the emitted batches followed
  by those still pending are those that were pending, then the changes the parsed messages describe under the relations
  declared before them, each once and in order; the relations known afterwards are those the messages declared; the
  batches carry the end LSNs of the commits, one each. What a message describes is read off the message and the relation
  alone (\<open>described\<close>, \<open>stream_changes\<close>), with no transaction or decoder state.
\<close>

theorem decoder_conserves_changes:
  assumes "run_events P d es = Inr (d', bs)"
  shows "pending d @ stream_changes P (de_parser d) (relations_of d) es = concat (map changes bs) @ pending d' \<and>
    relations_of d' = stream_relations P (de_parser d) (relations_of d) es \<and> map end_lsn bs = commit_lsns es"
  by (rule run_events_conserve [OF assms])

theorem decoder_conserves_changes_witness:
  "\<exists>d' bs. run_events ex_pgoutput (decoder_new ex_pgoutput) (Begin 5 1 0 # ex_middle @ [Commit 10 11 0]) = Inr (d', bs) \<and>
     length (concat (map changes bs) @ pending d') = 3 \<and> map end_lsn bs = [11]"
proof -
  let ?es = "Begin 5 1 0 # ex_middle @ [Commit 10 11 0]"
  obtain d' bs where run: "run_events ex_pgoutput (decoder_new ex_pgoutput) ?es = Inr (d', bs)"
    using transaction_run [of "decoder_new ex_pgoutput" ex_middle ex_pgoutput 5 1 0 10 11 0] ex_decoder_understood
    by (auto simp: is_boundary_def simp del: run_events.simps stream_understood.simps)
  have "stream_changes ex_pgoutput 0 Map.empty ?es = stream_changes ex_pgoutput 0 Map.empty ex_middle"
    by (simp split: prod.splits sum.splits)
  with decoder_conserves_changes [OF run] ex_decoder_changes have "length (concat (map changes bs) @ pending d') = 3"
    by (simp add: pending_def del: stream_changes.simps)
  with decoder_conserves_changes [OF run] run show ?thesis by (auto simp del: run_events.simps)
qed

text \<open>
  C28. A transaction becomes one batch. Outside a transaction, feeding the decoder a begin, events that are neither begins
  nor commits, and a commit succeeds exactly when every payload in between parses and is understood: it declares a
  relation, is ignored, or changes rows of relations declared before with a valid replica identity where one is needed.
  The result is one batch, with the fields of the begin and of the commit, the changes described in between and the
  column types of the relations known at the commit, and no transaction stays open.
\<close>

theorem transaction_is_one_batch:
  assumes "de_transaction d = None" "\<forall>e \<in> set mid. \<not> is_boundary e"
  shows "((\<exists>d' bs. run_events P d (Begin l xid tm # mid @ [Commit cl el ctm]) = Inr (d', bs)) \<longleftrightarrow>
      stream_understood P (de_parser d) (relations_of d) mid) \<and>
    (\<forall>d' bs. run_events P d (Begin l xid tm # mid @ [Commit cl el ctm]) = Inr (d', bs) \<longrightarrow>
      de_transaction d' = None \<and> relations_of d' = stream_relations P (de_parser d) (relations_of d) mid \<and>
      bs = [\<lparr> transaction_id = xid, begin_final_lsn = l, begin_commit_time_micros = tm, commit_lsn = cl, end_lsn = el,
              commit_time_micros = ctm, column_types_by_table = current_relation_column_types P d',
              changes = stream_changes P (de_parser d) (relations_of d) mid \<rparr>])"
  by (rule transaction_run [OF assms])

theorem transaction_is_one_batch_witness:
  "\<exists>d' b. run_events ex_pgoutput (decoder_new ex_pgoutput) (Begin 5 1 0 # ex_middle @ [Commit 10 11 0]) = Inr (d', [b]) \<and>
     transaction_id b = 1 \<and> end_lsn b = 11 \<and> length (changes b) = 3"
  using transaction_is_one_batch [of "decoder_new ex_pgoutput" ex_middle ex_pgoutput 5 1 0 10 11 0] ex_decoder_understood ex_decoder_changes
  by (auto simp: is_boundary_def simp del: run_events.simps stream_understood.simps stream_changes.simps)

text \<open>
  C29. The decoder reports exactly the protocol violations, each with the error that names it: a begin inside a
  transaction, a commit without one, a payload the parser refuses, an insert, update, delete or truncate that mentions a
  relation not declared (the first such one), an update or delete under an invalid replica identity, a change of any of
  the four kinds outside a transaction, and a message kind that is not supported. Every other event is accepted, and an
  error leaves the open transaction and the relations as they were.
\<close>

theorem decoder_rejects_violations:
  "((\<exists>d'. push_stream_event P d e = (d', Inl x)) \<longleftrightarrow> rejected P d e x) \<and>
   (\<forall>d'. push_stream_event P d e = (d', Inl x) \<longrightarrow> de_transaction d' = de_transaction d \<and> de_relations d' = de_relations d)"
  using push_stream_event_rejects push_stream_event_error_keeps by blast

theorem decoder_rejects_violations_witness:
  "(\<exists>d'. push_stream_event ex_pgoutput (decoder_new ex_pgoutput) (XLogData 6 ''D'') = (d', Inl (MissingRelation 7)) \<and>
      de_transaction d' = None)
   \<and> (\<exists>d'. push_stream_event ex_pgoutput (decoder_new ex_pgoutput) (XLogData 6 []) = (d', Inl (ChangeOutsideTransaction ''truncate'')))"
proof -
  let ?d = "decoder_new ex_pgoutput"
  have "rejected ex_pgoutput ?d (XLogData 6 ''D'') (MissingRelation 7)"
    by (rule rejected.unknown_relation [where m = "DeleteMsg 7 ()"]) (simp_all add: ex_pgoutput_def ex_messages_def decoder_new_def)
  moreover have "rejected ex_pgoutput ?d (XLogData 6 []) (ChangeOutsideTransaction (logical_message_kind (TruncateMsg [] :: unit LogicalReplicationMessage)))"
    by (rule rejected.stray_change [where m = "TruncateMsg []"]) (simp_all add: ex_pgoutput_def ex_messages_def decoder_new_def is_change_def understood_def is_keyed_def)
  ultimately show ?thesis
    using decoder_rejects_violations [of ex_pgoutput ?d "XLogData 6 ''D''" "MissingRelation 7"]
      decoder_rejects_violations [of ex_pgoutput ?d "XLogData 6 []" "ChangeOutsideTransaction ''truncate''"] by auto
qed

text \<open>
  C33. An update moves the row: the operations derived for it delete the object of the old key, when the old row is
  known, and store the new row under its own id, routes and serialization; nothing else changes.
\<close>

theorem update_moves_row:
  assumes "derive_change C plan types a (Update ''public'' table r old new ri kc) = Inr ops"
    and "table_plan plan table = Some tp"
  shows "\<exists>i rf json. object_id_for_row tp new = Inr i \<and> route_fields_for_row tp new True = Inr rf \<and>
           serialize_row_for_tail (cr_json C) new (map_of types table) = Inr json \<and>
           (case old of
              None \<Rightarrow> foldl abs_apply D ops = D((tp_object_type tp, i) \<mapsto> (rf, json))
            | Some o_data \<Rightarrow> \<exists>i0. object_id_for_row tp o_data = Inr i0 \<and>
                foldl abs_apply D ops
                = D((tp_object_type tp, i0) := None, (tp_object_type tp, i) \<mapsto> (rf, json)))"
  by (rule derive_update_effect [OF assms])

theorem update_moves_row_witness:
  "case derive_change ref_crates ex_plan [] False (Update ''public'' ''tasks'' 1 (Some (ex_row ''t0'' ''o1'' ''open''))
      (ex_row ''t1'' ''o1'' ''open'') CHR ''d'' [''id'']) of Inl _ \<Rightarrow> False
   | Inr ops \<Rightarrow> \<exists>i0 i p. foldl abs_apply Map.empty ops = Map.empty((''tasks'', i0) := None, (''tasks'', i) \<mapsto> p)"
proof -
  let ?u = "Update ''public'' ''tasks'' 1 (Some (ex_row ''t0'' ''o1'' ''open'')) (ex_row ''t1'' ''o1'' ''open'') CHR ''d'' [''id'']"
  have tp: "table_plan ex_plan ''tasks'' = Some ex_table_plan" by (simp add: table_plan_def ex_plan_def)
  obtain ops where run: "derive_change ref_crates ex_plan [] False ?u = Inr ops"
    using ex_update by (auto simp: is_ok_def split: sum.splits)
  have "tp_object_type ex_table_plan = ''tasks''" by (simp add: ex_table_plan_def)
  with update_moves_row [OF run tp, of Map.empty] show ?thesis unfolding run by (simp only: sum.case option.case) blast
qed

text \<open>
  A truncate of a table that the plan replicates, as data or as a lookup, is refused; a truncate of other tables
  derives nothing.
\<close>

theorem truncate_refused:
  "(derive_change C plan types a (Truncate tables) = Inr []) \<longleftrightarrow>
     (\<forall>name \<in> set tables. \<forall>t. strip_prefix ''public.'' name = Some t \<longrightarrow>
        table_plan plan t = None \<and> lookup_table_plan plan t = None)"
proof -
  let ?m = "\<lambda>s. table_plan plan s \<noteq> None \<or> lookup_table_plan plan s \<noteq> None"
  have "derive_change C plan types a (Truncate tables) = Inr [] \<longleftrightarrow> reject_truncate ?m tables = Inr ()"
    by (cases "reject_truncate ?m tables") simp_all
  then show ?thesis by (simp only: reject_truncate_Inr de_Morgan_disj not_not)
qed

theorem truncate_refused_witness:
  "derive_change ref_crates ex_plan [] False (Truncate [''public.other'']) = Inr []"
proof -
  have "strip_prefix ''public.'' ''public.other'' = Some ''other''" by (simp add: strip_prefix_def starts_with_def)
  with truncate_refused [of ref_crates ex_plan "[]" False "[''public.other'']"] show ?thesis
    by (simp add: table_plan_def lookup_table_plan_def ex_plan_def strip_prefix_def starts_with_def del: derive_change.simps)
qed

section \<open>Codecs, keys and LSNs\<close>

text \<open>
  C34. A commit batch reads back as written, up to the column types, which are not part of the format.
\<close>

theorem batch_roundtrip:
  assumes "change_codec ce_encode ce_decode" and "batch_in_range ce_encode b"
  shows "batch_decode ce_decode (batch_encode ce_encode b) = Inr (b\<lparr>column_types_by_table := []\<rparr>)"
  by (rule change_codec.batch_decode_encode [OF assms])

theorem batch_roundtrip_witness:
  "batch_decode Inr (batch_encode (\<lambda>c. c) \<lparr> transaction_id = 1, begin_final_lsn = 2, begin_commit_time_micros = 3, commit_lsn = 4,
      end_lsn = 5, commit_time_micros = 6, column_types_by_table = [], changes = [''ab'', []] \<rparr>)
   = Inr \<lparr> transaction_id = 1, begin_final_lsn = 2, begin_commit_time_micros = 3, commit_lsn = 4,
      end_lsn = 5, commit_time_micros = 6, column_types_by_table = [], changes = [''ab'', []] \<rparr>"
  using batch_roundtrip [OF bytes_codec.change_codec_axioms, of "\<lparr> transaction_id = 1, begin_final_lsn = 2, begin_commit_time_micros = 3,
      commit_lsn = 4, end_lsn = 5, commit_time_micros = 6, column_types_by_table = [], changes = [''ab'', []] \<rparr>"]
  by (simp add: batch_in_range_def batch_encode_def encode_change_def)

text \<open>An encoded document decodes to itself, with its sorted route fields, whatever the JSON fallback is.\<close>

theorem document_roundtrip:
  assumes "encode_current_document ty i rf data = Inr bs" and "doc_ok ty i rf data"
  shows "decode_current_document C bs
    = Inr \<lparr> doc_object_type = ty, doc_object_id = i, doc_route_fields = rf, doc_data_json = data \<rparr>"
  using assms decode_document_bytes by (auto simp: encode_current_document_Inr)

theorem document_roundtrip_witness:
  "case encode_current_document ''t'' ''i'' [(''a'', ''b'')] ''{}'' of Inl _ \<Rightarrow> False
   | Inr bs \<Rightarrow> decode_current_document ref_crates bs
      = Inr \<lparr> doc_object_type = ''t'', doc_object_id = ''i'', doc_route_fields = [(''a'', ''b'')], doc_data_json = ''{}'' \<rparr>"
  using ex_encode document_roundtrip [of "''t''" "''i''" "[(''a'', ''b'')]" "''{}''" _ ref_crates]
  by (auto simp: is_ok_def split: sum.splits)

text \<open>
  An LSN prints as two hexadecimal halves and parses back; whatever parses is a 64-bit value, so no input wraps
  or is truncated.
\<close>

theorem lsn_text_form:
  "(n < u64_limit \<longrightarrow> lsn_from_str (lsn_to_string n) = Inr n) \<and> (lsn_from_str s = Inr m \<longrightarrow> m < u64_limit)"
  using lsn_roundtrip lsn_from_str_bound by blast

theorem lsn_text_form_witness: "lsn_from_str (lsn_to_string 18446744073709551615) = Inr 18446744073709551615"
  using lsn_text_form [of 18446744073709551615] by simp

text \<open>
  C35. The keys of the log. The keys of operations, of their references and of the index entries are three disjoint
  families, each ordered as the ids are, so that two operations never share a key and iterating visits them in id
  order. The entry of one index is never that of another: the entries of two indexes coincide only when kind, object type
  and routes do and the ids do, the scan prefix of an index matches the entries of that index only, and the id is read
  back from the entry.
\<close>

theorem tail_keys_ordered:
  assumes "m < u64_limit" and "n < u64_limit"
  shows "(sync_tail_op_key m < sync_tail_op_key n \<longleftrightarrow> m < n) \<and> (sync_tail_op_key m = sync_tail_op_key n \<longleftrightarrow> m = n)
    \<and> (sync_tail_refs_key m < sync_tail_refs_key n \<longleftrightarrow> m < n) \<and> (sync_tail_refs_key m = sync_tail_refs_key n \<longleftrightarrow> m = n)
    \<and> (sync_tail_index_entry_key a m < sync_tail_index_entry_key a n \<longleftrightarrow> m < n)
    \<and> (sync_tail_index_entry_key (sync_tail_index_name kind ty rc) m = sync_tail_index_entry_key (sync_tail_index_name kind' ty' rc') n
        \<longleftrightarrow> kind = kind' \<and> ty = ty' \<and> rc = rc' \<and> m = n)
    \<and> (starts_with (sync_tail_index_entry_prefix (sync_tail_index_name kind ty rc))
          (sync_tail_index_entry_key (sync_tail_index_name kind' ty' rc') n) \<longleftrightarrow> kind = kind' \<and> ty = ty' \<and> rc = rc')
    \<and> sync_tail_global_op_id_from_key (sync_tail_index_entry_key a m) (sync_tail_index_entry_prefix a) = Some m
    \<and> sync_tail_op_key m \<noteq> sync_tail_refs_key n \<and> sync_tail_op_key m \<noteq> sync_tail_index_entry_key a n
    \<and> sync_tail_refs_key m \<noteq> sync_tail_index_entry_key a n"
proof -
  have "starts_with (sync_tail_index_entry_prefix (sync_tail_index_name kind ty rc))
      (sync_tail_index_entry_key (sync_tail_index_name kind' ty' rc') n) \<longleftrightarrow> kind = kind' \<and> ty = ty' \<and> rc = rc'"
    by (auto simp: starts_with_iff sync_tail_index_entry_prefix_def sync_tail_index_entry_key_def)
  moreover have "sync_tail_op_key m < sync_tail_op_key n \<longleftrightarrow> m < n" "sync_tail_refs_key m < sync_tail_refs_key n \<longleftrightarrow> m < n"
    using assms by (simp_all add: sync_tail_op_key_def sync_tail_refs_key_def pad20_less_iff)
  ultimately show ?thesis
    using sync_tail_index_entry_key_less [OF assms] sync_tail_op_key_inj [OF assms] sync_tail_refs_key_inj [OF assms]
      sync_tail_index_entry_key_inj [OF assms] sync_tail_global_op_id_from_key_inverse [OF assms(1)]
    by simp
qed

theorem tail_keys_ordered_witness:
  "sync_tail_index_entry_key ''x'' 9 < sync_tail_index_entry_key ''x'' 10 \<and> sync_tail_refs_key 9 \<noteq> sync_tail_refs_key 10 \<and>
   \<not> starts_with (sync_tail_index_entry_prefix (sync_tail_index_name ''route'' ''t'' [(''a'', ''1'')]))
       (sync_tail_index_entry_key (sync_tail_index_name ''route'' ''t'' [(''a'', ''1:'')]) 10)"
  using tail_keys_ordered [of 9 10 "''x''" "''route''" "''t''" "[(''a'', ''1'')]" "''route''" "''t''" "[(''a'', ''1:'')]"] by simp

text \<open>
  The batch payload is read completely or not at all: a decoded batch accounts for every byte of the payload,
  which holds at least the fixed fields.
\<close>

theorem batch_decode_strict:
  assumes "batch_decode d bs = Inr b"
  shows "48 \<le> length bs \<and> (\<exists>cs. decode_changes d bs (length (changes b)) 48 = Inr (cs, length bs))"
  using batch_decode_consumes_all [OF assms] by simp

theorem batch_decode_strict_witness:
  "48 \<le> length (batch_encode (\<lambda>c. c) \<lparr> transaction_id = 1, begin_final_lsn = 2, begin_commit_time_micros = 3, commit_lsn = 4,
      end_lsn = 5, commit_time_micros = 6, column_types_by_table = [], changes = [] \<rparr>)"
proof -
  let ?b = "\<lparr> transaction_id = 1, begin_final_lsn = 2, begin_commit_time_micros = 3, commit_lsn = 4,
      end_lsn = 5, commit_time_micros = 6, column_types_by_table = [], changes = [] \<rparr> :: bytes ReplicationCommitBatch"
  have "batch_decode Inr (batch_encode (\<lambda>c. c) ?b) = Inr ?b"
    using bytes_codec.batch_decode_encode [of ?b] by (simp add: batch_in_range_def batch_encode_def)
  from batch_decode_strict [OF this] show ?thesis by simp
qed

end
