(* ===== verification/Sql_Text.thy ===== *)
theory Sql_Text
  imports Bucket_Plan Mdbx_Table
begin

text \<open>
  The lexical helpers of the rule compiler (\<open>sync_rules/query.rs\<close>): splitting SQL text at top-level
  separators outside quotes and parentheses, identifiers, string literals, call arguments, and the
  string functions of the standard library they use (\<open>starts_with\<close> comes with the table operations). Every index the code slices at is the position
  of an ASCII byte, so it is a character boundary of the UTF-8 text. Parenthesis depths are \<open>int\<close>:
  the \<open>i32\<close> of the code leaves its range only after \<open>2 ^ 31\<close> parentheses.
\<close>

section \<open>Standard library strings\<close>

abbreviation squote :: char where "squote \<equiv> CHR 0x27"
abbreviation dquote :: char where "dquote \<equiv> CHR 0x22"

definition to_ascii_upper :: "char \<Rightarrow> char" where
  "to_ascii_upper c = (if 97 \<le> byte_val c \<and> byte_val c \<le> 122 then char_of (byte_val c - 32) else c)"

definition to_ascii_uppercase :: "string \<Rightarrow> string" where
  "to_ascii_uppercase s = map to_ascii_upper s"

definition to_ascii_lowercase :: "string \<Rightarrow> string" where
  "to_ascii_lowercase s = map to_ascii_lower s"

definition is_ascii_alphabetic :: "char \<Rightarrow> bool" where
  "is_ascii_alphabetic c \<longleftrightarrow>
     65 \<le> byte_val c \<and> byte_val c \<le> 90 \<or> 97 \<le> byte_val c \<and> byte_val c \<le> 122"

definition is_ascii_alphanumeric :: "char \<Rightarrow> bool" where
  "is_ascii_alphanumeric c \<longleftrightarrow> is_ascii_alphabetic c \<or> is_ascii_digit c"

definition is_ascii_whitespace :: "char \<Rightarrow> bool" where
  "is_ascii_whitespace c \<longleftrightarrow> byte_val c \<in> {9, 10, 12, 13, 32}"

definition ends_with :: "string \<Rightarrow> string \<Rightarrow> bool" where
  "ends_with p s \<longleftrightarrow> starts_with (rev p) (rev s)"

text \<open>\<open>str::find\<close> of a pattern, first match from the left, and \<open>str::contains\<close>.\<close>

fun find_sub :: "string \<Rightarrow> string \<Rightarrow> nat option" where
  "find_sub p [] = (if p = [] then Some 0 else None)"
| "find_sub p (c # s) = (if starts_with p (c # s) then Some 0 else map_option Suc (find_sub p s))"

definition contains_sub :: "string \<Rightarrow> string \<Rightarrow> bool" where
  "contains_sub p s \<longleftrightarrow> find_sub p s \<noteq> None"

text \<open>\<open>str::replace\<close> of a non-empty pattern: leftmost matches that do not overlap.\<close>

fun replace_sub :: "string \<Rightarrow> string \<Rightarrow> string \<Rightarrow> string" where
  "replace_sub p r [] = []"
| "replace_sub p r (c # s) =
     (if starts_with p (c # s) then r @ replace_sub p r (drop (length p - 1) s)
      else c # replace_sub p r s)"

fun split_char :: "char \<Rightarrow> string \<Rightarrow> string list" where
  "split_char c [] = [[]]"
| "split_char c (x # s) =
     (if x = c then [] # split_char c s
      else (case split_char c s of [] \<Rightarrow> [[x]] | p # ps \<Rightarrow> (x # p) # ps))"

fun join_with :: "string \<Rightarrow> string list \<Rightarrow> string" where
  "join_with sep [] = []"
| "join_with sep [x] = x"
| "join_with sep (x # y # xs) = x @ sep @ join_with sep (y # xs)"

definition trim_quotes :: "string \<Rightarrow> string" where
  "trim_quotes s =
     rev (dropWhile (\<lambda>c. c = dquote) (rev (dropWhile (\<lambda>c. c = dquote) s)))"

fun split_whitespace_at :: "string \<Rightarrow> string \<Rightarrow> string list" where
  "split_whitespace_at cur [] = (if cur = [] then [] else [rev cur])"
| "split_whitespace_at cur (c # s) =
     (case find (\<lambda>w. starts_with w (c # s)) white_space of
        None \<Rightarrow> split_whitespace_at (c # cur) s
      | Some w \<Rightarrow> (if cur = [] then [] else [rev cur])
                  @ split_whitespace_at [] (drop (length w - 1) s))"

definition split_whitespace :: "string \<Rightarrow> string list" where
  "split_whitespace s = split_whitespace_at [] s"

text \<open>Slicing \<open>&s[a..b]\<close> panics on a range that is not one.\<close>

definition str_slice :: "nat \<Rightarrow> nat \<Rightarrow> string \<Rightarrow> sync_error + string" where
  "str_slice a b s =
     (if a \<le> b \<and> b \<le> length s then Inr (take (b - a) (drop a s)) else Inl SyncPanic)"

fun first_some :: "'a option list \<Rightarrow> 'a option" where
  "first_some [] = None"
| "first_some (x # xs) = (case x of None \<Rightarrow> first_some xs | Some a \<Rightarrow> Some a)"

section \<open>Splitting at top-level separators\<close>

fun csv_split :: "char option \<Rightarrow> int \<Rightarrow> string \<Rightarrow> string \<Rightarrow> string list" where
  "csv_split q depth cur [] = [trim (rev cur)]"
| "csv_split q depth cur (ch # s) =
     (case q of
        Some active \<Rightarrow> csv_split (if ch = active then None else q) depth (ch # cur) s
      | None \<Rightarrow>
          if ch = squote \<or> ch = dquote then csv_split (Some ch) depth (ch # cur) s
          else if ch = CHR ''('' then csv_split None (depth + 1) (ch # cur) s
          else if ch = CHR '')'' then csv_split None (depth - 1) (ch # cur) s
          else if ch = CHR '','' \<and> depth = 0 then trim (rev cur) # csv_split None depth [] s
          else csv_split None depth (ch # cur) s)"

definition split_top_level_csv :: "string \<Rightarrow> string list" where
  "split_top_level_csv value = csv_split None 0 [] value"

definition push_part :: "string \<Rightarrow> string list \<Rightarrow> string list" where
  "push_part part parts = (if trim part = [] then parts else trim part # parts)"

fun operator_split :: "string \<Rightarrow> char option \<Rightarrow> int \<Rightarrow> string \<Rightarrow> string \<Rightarrow> string list" where
  "operator_split op q depth cur [] = push_part (rev cur) []"
| "operator_split op q depth cur (byte # s) =
     (if length (byte # s) < length op then push_part (rev cur @ byte # s) []
      else
        (case q of
           Some active \<Rightarrow> operator_split op (if byte = active then None else q) depth (byte # cur) s
         | None \<Rightarrow>
             if byte = squote then operator_split op (Some byte) depth (byte # cur) s
             else if byte = CHR ''('' then operator_split op None (depth + 1) (byte # cur) s
             else if byte = CHR '')'' then operator_split op None (depth - 1) (byte # cur) s
             else if depth = 0 \<and> starts_with op (byte # s) then
               push_part (rev cur) (operator_split op None depth [] (drop (length op - 1) s))
             else operator_split op None depth (byte # cur) s))"

definition split_top_level_operator :: "string \<Rightarrow> string \<Rightarrow> string list" where
  "split_top_level_operator value op = operator_split op None 0 [] value"

definition is_and_boundary :: "char option \<Rightarrow> bool" where
  "is_and_boundary byte =
     (case byte of None \<Rightarrow> True
      | Some value \<Rightarrow> \<not> is_ascii_alphanumeric value \<and> value \<noteq> CHR ''_'')"

definition byte_get :: "nat \<Rightarrow> string \<Rightarrow> char option" where
  "byte_get i s = (if i < length s then Some (s ! i) else None)"

text \<open>\<open>prev\<close> is the byte before the scanned one, \<open>None\<close> at the start of the text.\<close>

fun keyword_split ::
  "string \<Rightarrow> char option \<Rightarrow> char option \<Rightarrow> int \<Rightarrow> string \<Rightarrow> string \<Rightarrow> string list" where
  "keyword_split kw prev q depth cur [] = push_part (rev cur) []"
| "keyword_split kw prev q depth cur (byte # s) =
     (if length (byte # s) < length kw then push_part (rev cur @ byte # s) []
      else
        (case q of
           Some active \<Rightarrow>
             keyword_split kw (Some byte) (if byte = active then None else q) depth (byte # cur) s
         | None \<Rightarrow>
             if byte = squote \<or> byte = dquote then
               keyword_split kw (Some byte) (Some byte) depth (byte # cur) s
             else if byte = CHR ''('' then keyword_split kw (Some byte) None (depth + 1) (byte # cur) s
             else if byte = CHR '')'' then keyword_split kw (Some byte) None (depth - 1) (byte # cur) s
             else if depth = 0 \<and> eq_ignore_ascii_case (take (length kw) (byte # s)) kw
                  \<and> is_and_boundary prev \<and> is_and_boundary (byte_get (length kw) (byte # s)) then
               push_part (rev cur)
                 (keyword_split kw (byte_get (length kw - 1) (byte # s)) None depth []
                   (drop (length kw - 1) s))
             else keyword_split kw (Some byte) None depth (byte # cur) s))"

definition split_top_level_keyword :: "string \<Rightarrow> string \<Rightarrow> string list" where
  "split_top_level_keyword value keyword = keyword_split keyword None None 0 [] value"

definition split_and_predicates :: "string \<Rightarrow> string list" where
  "split_and_predicates value = split_top_level_keyword value ''AND''"

definition split_or_predicates :: "string \<Rightarrow> string list" where
  "split_or_predicates value = split_top_level_keyword value ''OR''"

section \<open>Identifiers\<close>

definition last_dotted_identifier :: "string \<Rightarrow> string" where
  "last_dotted_identifier value = trim (last (split_char (CHR ''.'') (trim value)))"

definition normalize_identifier :: "string \<Rightarrow> string" where
  "normalize_identifier identifier =
     join_with ''.'' (map (\<lambda>part. replace_sub [dquote, dquote] [dquote] (trim_quotes (trim part)))
       (split_char (CHR ''.'') (trim identifier)))"

fun alias_token :: "string list \<Rightarrow> string option" where
  "alias_token (a # b # ts) =
     (if eq_ignore_ascii_case a ''AS'' then Some (normalize_identifier b) else alias_token (b # ts))"
| "alias_token _ = None"

definition json_each_alias :: "string \<Rightarrow> string option" where
  "json_each_alias part =
     (case alias_token (split_whitespace part) of
        None \<Rightarrow> None | Some alias \<Rightarrow> if alias \<noteq> [] then Some alias else None)"

definition is_plain_column_reference :: "string \<Rightarrow> bool" where
  "is_plain_column_reference operand =
     (case operand of [] \<Rightarrow> False
      | first # _ \<Rightarrow>
          (is_ascii_alphabetic first \<or> first = CHR ''_'' \<or> first = dquote)
          \<and> list_all (\<lambda>c. is_ascii_alphanumeric c \<or> c \<in> {CHR ''_'', CHR ''.'', dquote}) operand)"

section \<open>Parentheses\<close>

fun balanced :: "char option \<Rightarrow> int \<Rightarrow> string \<Rightarrow> bool" where
  "balanced q depth [] \<longleftrightarrow> depth = 0"
| "balanced q depth (byte # s) =
     (case q of
        Some active \<Rightarrow> balanced (if byte = active then None else q) depth s
      | None \<Rightarrow>
          if byte = squote \<or> byte = dquote then balanced (Some byte) depth s
          else if byte = CHR ''('' then balanced None (depth + 1) s
          else if byte = CHR '')'' then (if depth - 1 < 0 then False else balanced None (depth - 1) s)
          else balanced None depth s)"

definition has_balanced_parens :: "string \<Rightarrow> bool" where
  "has_balanced_parens value = balanced None 0 value"

lemma length_strip_leading: "length (strip_leading ws n s) \<le> length s"
proof (induction n arbitrary: s)
  case (Suc n)
  have "length (strip_leading ws n (drop k s)) \<le> length s" for k
    using Suc.IH [of "drop k s"] by simp
  then show ?case by (auto split: option.splits)
qed simp

lemma length_trim: "length (trim s) \<le> length s"
  using length_strip_leading [of white_space "length s" s]
    length_strip_leading [of "map rev white_space" "length (strip_leading white_space (length s) s)"
      "rev (strip_leading white_space (length s) s)"]
  by (simp add: trim_def Let_def)

function trim_parens :: "string \<Rightarrow> string" where
  "trim_parens trimmed =
     (if starts_with '')'' trimmed \<or> \<not> starts_with ''('' trimmed \<or> \<not> ends_with '')'' trimmed then trimmed
      else
        (let inner = butlast (tl trimmed) in
         if has_balanced_parens inner then trim_parens (trim inner) else trimmed))"
  by pat_completeness auto

termination trim_parens
proof (relation "measure length")
  fix t inner :: string
  assume t: "\<not> (starts_with '')'' t \<or> \<not> starts_with ''('' t \<or> \<not> ends_with '')'' t)"
    and inner: "inner = butlast (tl t)"
  then have "t \<noteq> []" by (auto simp: starts_with_def)
  with inner have "length inner < length t" by (cases t) auto
  with length_trim [of inner] show "(trim inner, t) \<in> measure length" by simp
qed simp

declare trim_parens.simps [simp del]

definition trim_wrapping_parens :: "string \<Rightarrow> string" where
  "trim_wrapping_parens value = trim_parens (trim value)"

section \<open>Literals and calls\<close>

definition split_ascii_case_insensitive_once :: "string \<Rightarrow> string \<Rightarrow> (string \<times> string) option" where
  "split_ascii_case_insensitive_once value needle =
     map_option (\<lambda>index. (take index value, drop (index + length needle) value))
       (find_sub (to_ascii_uppercase needle) (to_ascii_uppercase value))"

definition split_is_null :: "string \<Rightarrow> (string \<times> bool) option" where
  "split_is_null predicate =
     (case split_ascii_case_insensitive_once predicate '' IS NOT NULL'' of
        Some (left, _) \<Rightarrow> Some (left, True)
      | None \<Rightarrow> map_option (\<lambda>(left, _). (left, False))
                 (split_ascii_case_insensitive_once predicate '' IS NULL''))"

definition parse_string_literal :: "string \<Rightarrow> string option" where
  "parse_string_literal raw =
     (let value = trim raw in
      if length value < 2 then None
      else if hd value \<notin> {squote, dquote} \<or> last value \<noteq> hd value then None
      else Some (replace_sub [hd value, hd value] [hd value] (butlast (tl value))))"

definition parse_sql_string_literal :: "string \<Rightarrow> string option" where
  "parse_sql_string_literal raw =
     (let value = trim raw in
      if length value < 2 \<or> hd value \<noteq> squote \<or> last value \<noteq> squote then None
      else Some (butlast (tl value)))"

definition sql_literal_to_json :: "string \<Rightarrow> json option" where
  "sql_literal_to_json value =
     (let trimmed = trim_wrapping_parens (trim value) in
      case parse_sql_string_literal trimmed of
        Some text \<Rightarrow> Some (JString (replace_sub [squote, squote] [squote] text))
      | None \<Rightarrow>
          if eq_ignore_ascii_case trimmed ''true'' then Some (JBool True)
          else if eq_ignore_ascii_case trimmed ''false'' then Some (JBool False)
          else if eq_ignore_ascii_case trimmed ''null'' then Some JNull
          else map_option json_of_int (parse_i64 trimmed))"

text \<open>The prefix ends in an opening and the suffix is a closing parenthesis, so they cannot overlap.\<close>

definition strip_call_inner :: "string \<Rightarrow> string \<Rightarrow> string \<Rightarrow> string option" where
  "strip_call_inner value prefix suffix =
     (if \<not> starts_with prefix (to_ascii_lowercase value) \<or> \<not> ends_with suffix value then None
      else Some (take (length value - length suffix - length prefix) (drop (length prefix) value)))"

definition strip_call_argument :: "string \<Rightarrow> string \<Rightarrow> string \<Rightarrow> string option" where
  "strip_call_argument value prefix suffix =
     Option.bind (strip_call_inner value prefix suffix) (\<lambda>inner. parse_string_literal (trim inner))"

definition strip_arrow_string_argument :: "string \<Rightarrow> string \<Rightarrow> string \<Rightarrow> string option" where
  "strip_arrow_string_argument value left arrow =
     Option.bind (split_ascii_case_insensitive_once value arrow) (\<lambda>(left_expr, right_expr).
       if \<not> eq_ignore_ascii_case (trim left_expr) left then None
       else parse_string_literal (trim right_expr))"

definition contains_binding_reference_lower :: "string \<Rightarrow> bool" where
  "contains_binding_reference_lower lower \<longleftrightarrow>
     contains_sub ''connection.parameter'' lower \<or> contains_sub ''connection.parameters'' lower
     \<or> contains_sub ''auth.'' lower \<or> contains_sub ''request.'' lower
     \<or> contains_sub ''subscription.'' lower"

definition contains_binding_reference :: "string \<Rightarrow> bool" where
  "contains_binding_reference predicate =
     contains_binding_reference_lower (to_ascii_lowercase predicate)"

text \<open>The other direction: quoting a name inside a generated SQL fragment.\<close>

definition escape_sql_string_literal :: "string \<Rightarrow> string" where
  "escape_sql_string_literal value = replace_sub [squote] [squote, squote] value"

section \<open>Lengths\<close>

text \<open>The parts of a split text are shorter than the text, so recursion on them ends.\<close>

lemma rmap_cong [fundef_cong]:
  "xs = ys \<Longrightarrow> (\<And>x. x \<in> set ys \<Longrightarrow> f x = g x) \<Longrightarrow> rmap f xs = rmap g ys"
  by (induction xs arbitrary: ys) (auto cong: sum.case_cong)

lemma length_trim_parens: "length (trim_parens s) \<le> length s"
proof (induction s rule: trim_parens.induct)
  case (1 s)
  have "length (trim (butlast (tl s))) \<le> length s"
    using length_trim [of "butlast (tl s)"] by simp
  with 1 show ?case by (subst trim_parens.simps) (auto simp: Let_def)
qed

lemma length_trim_wrapping_parens: "length (trim_wrapping_parens s) \<le> length s"
  using length_trim_parens [of "trim s"] length_trim [of s] by (simp add: trim_wrapping_parens_def)

lemma push_part_length: "sum_list (map length (push_part p ps)) \<le> length p + sum_list (map length ps)"
  using length_trim [of p] by (simp add: push_part_def)

text \<open>What a scan may return is closed under its branches, so it is proved branch by branch.\<close>

lemma if_rule: "P a \<Longrightarrow> P b \<Longrightarrow> P (if c then a else b)"
  by simp

lemma keyword_split_rule:
  assumes "\<And>cur. P (push_part cur []) (length cur)"
    and "\<And>cur ps n. P ps n \<Longrightarrow> P (push_part cur ps) (length cur + n)"
    and "\<And>ps n m. P ps n \<Longrightarrow> n \<le> m \<Longrightarrow> P ps m"
  shows "P (keyword_split kw prev q depth cur s) (length cur + length s)"
proof (induction "length s" arbitrary: prev q depth cur s rule: less_induct)
  case less
  show ?case
  proof (cases s)
    case Nil
    then show ?thesis using assms(1) [of "rev cur"] by simp
  next
    case (Cons byte r)
    have step: "P (keyword_split kw prev' q' depth' (byte # cur) r) (length cur + length (byte # r))" for prev' q' depth'
      using less [of r prev' q' depth' "byte # cur"] Cons by simp
    have cut: "P (push_part (rev cur) (keyword_split kw prev' q' depth' [] (drop k r))) (length cur + length (byte # r))" for prev' q' depth' k
    proof -
      have "P (keyword_split kw prev' q' depth' [] (drop k r)) (length (drop k r))"
        using less [of "drop k r" prev' q' depth' "[]"] Cons by simp
      from assms(2) [OF this, of "rev cur"] show ?thesis
        by (rule assms(3)) (simp add: Cons)
    qed
    have tail: "P (push_part (rev cur @ byte # r) []) (length cur + length (byte # r))"
      using assms(1) [of "rev cur @ byte # r"] Cons by simp
    show ?thesis
      unfolding Cons keyword_split.simps
      by (cases q; simp only: option.case; intro if_rule [of "\<lambda>x. P x _"] step cut tail)
  qed
qed

lemma keyword_split_length:
  "sum_list (map length (keyword_split kw prev q depth cur s)) \<le> length cur + length s"
proof (rule keyword_split_rule [where P = "\<lambda>ps n. sum_list (map length ps) \<le> n"])
  show "sum_list (map length (push_part cur [])) \<le> length cur" for cur
    using push_part_length [of cur "[]"] by simp
  show "sum_list (map length (push_part cur ps)) \<le> length cur + n"
    if "sum_list (map length ps) \<le> n" for cur ps n
    using push_part_length [of cur ps] that by simp
qed simp

lemma push_part_nonempty: "[] \<notin> set ps \<Longrightarrow> [] \<notin> set (push_part p ps)"
  by (simp add: push_part_def)

lemma keyword_split_nonempty: "[] \<notin> set (keyword_split kw prev q depth cur s)"
  by (rule keyword_split_rule [where P = "\<lambda>ps n. [] \<notin> set ps"]) (simp_all add: push_part_nonempty)

lemma member_less_sum_list:
  "x \<in> set xs \<Longrightarrow> 1 < length xs \<Longrightarrow> 0 \<notin> set xs \<Longrightarrow> x < sum_list (xs :: nat list)"
proof (induction xs)
  case (Cons y ys)
  have pos: "0 < sum_list ys" using Cons.prems by (cases ys) auto
  show ?case
  proof (cases "x = y")
    case False
    then have "x \<in> set ys" using Cons.prems by simp
    then show ?thesis using member_le_sum_list [of x ys] Cons.prems by auto
  qed (use pos in simp)
qed simp

lemma split_keyword_shorter:
  assumes "t \<in> set (split_top_level_keyword s kw)" and "1 < length (split_top_level_keyword s kw)"
  shows "length t < length s"
proof -
  have "length t < sum_list (map length (split_top_level_keyword s kw))"
    using assms keyword_split_nonempty [of kw None None 0 "[]" s]
    by (intro member_less_sum_list) (auto simp: split_top_level_keyword_def)
  also have "\<dots> \<le> length s"
    using keyword_split_length [of kw None None 0 "[]" s] by (simp add: split_top_level_keyword_def)
  finally show ?thesis .
qed

lemma or_term_shorter:
  assumes "t \<in> set (split_or_predicates (trim_wrapping_parens (trim s)))"
    and "1 < length (split_or_predicates (trim_wrapping_parens (trim s)))"
  shows "length t < length s"
  using split_keyword_shorter [of t "trim_wrapping_parens (trim s)" "''OR''"] assms
    length_trim_wrapping_parens [of "trim s"] length_trim [of s]
  by (simp add: split_or_predicates_def)

end
