(* ===== verification/Query_Parser.thy ===== *)
theory Query_Parser
  imports Sql_Text
begin

text \<open>
  Parsing the SQL of sync rules (\<open>sync_rules/query.rs\<close> and the lookup part of
  \<open>sync_rules/lowering.rs\<close>): bindings, table-backed parameter lookups, projections, WHERE clauses
  and whole stream queries. The base64 and SHA-256 crates and \<open>serde_json\<close> are the fields of
  \<open>sql_lib\<close>. \<open>parse_binding\<close> and \<open>parse_parameter_lookup_plan\<close> call each other through a
  base64-encoded query: the model takes the inner parser as an argument and closes the recursion
  at depth one, which is enough since a lookup query never accepts a nested lookup.
\<close>

record sql_lib =
  sl_json :: json_lib
  sl_sha256 :: "bytes \<Rightarrow> bytes"
  sl_b64_encode :: "bytes \<Rightarrow> string"
  sl_b64_decode :: "string \<Rightarrow> bytes option"

type_synonym 'a sync_result = "sync_error + 'a"
type_synonym binding_parser = "string \<Rightarrow> CanonicalBinding option"

section \<open>Shared helpers\<close>

definition first_from_table :: "string \<Rightarrow> string" where
  "first_from_table from_part =
     trim (case split_top_level_csv from_part of [] \<Rightarrow> from_part | first # _ \<Rightarrow> first)"

definition projection_alias :: "string \<Rightarrow> string option" where
  "projection_alias item =
     (let alias = (case split_ascii_case_insensitive_once item '' AS '' of
                     Some (_, alias) \<Rightarrow> normalize_identifier alias
                   | None \<Rightarrow> normalize_identifier (last_dotted_identifier item)) in
      if alias \<noteq> [] \<and> alias \<noteq> ''*'' then Some alias else None)"

definition hex_byte :: "char \<Rightarrow> string" where
  "hex_byte c = (let digit = (\<lambda>n. ''0123456789abcdef'' ! n) in
     [digit (byte_val c div 16), digit (byte_val c mod 16)])"

definition hex_prefix :: "bytes \<Rightarrow> string" where
  "hex_prefix digest = concat (map hex_byte (take 8 digest))"

section \<open>Table-backed parameter lookups\<close>

text \<open>The flag says whether the scan is inside a single-quoted literal.\<close>

fun mask_literals :: "bool \<Rightarrow> string \<Rightarrow> string" where
  "mask_literals inside [] = []"
| "mask_literals False (c # s) = c # mask_literals (c = squote) s"
| "mask_literals True (c # s) =
     (if c \<noteq> squote then mask_literals True s
      else (case s of
              [] \<Rightarrow> [squote]
            | d # s' \<Rightarrow> if d = squote then mask_literals True s' else squote # mask_literals False s))"

definition mask_string_literals :: "string \<Rightarrow> string" where
  "mask_string_literals value = mask_literals False value"

definition is_lookup_identifier :: "string \<Rightarrow> bool" where
  "is_lookup_identifier value \<longleftrightarrow>
     value \<noteq> [] \<and>
     list_all (\<lambda>part. part \<noteq> [] \<and>
         (hd part = dquote \<and> last part = dquote
          \<or> list_all (\<lambda>c. is_ascii_alphanumeric c \<or> c \<in> {CHR ''_'', dquote} \<or> is_ascii_whitespace c) part))
       (split_char (CHR ''.'') value)"

definition parse_lookup_projection :: "string \<Rightarrow> ParameterLookupSelectedColumn sync_result" where
  "parse_lookup_projection item =
     rbind (ok_or (SyncRuleError ''unsupported SELECT item in parameter lookup query'')
             (projection_alias item)) (\<lambda>alias.
     let source = (case split_ascii_case_insensitive_once item '' AS '' of
                     Some (source, _) \<Rightarrow> source | None \<Rightarrow> item);
         column = normalize_identifier (last_dotted_identifier source) in
     if \<not> is_lookup_identifier column then
       Inl (SyncRuleError ''unsupported SELECT item in parameter lookup query'')
     else Inr \<lparr> sel_alias = alias, sel_column = column \<rparr>)"

definition lookup_column_name :: "string \<Rightarrow> string sync_result" where
  "lookup_column_name value =
     (let column = normalize_identifier (last_dotted_identifier value) in
      if \<not> is_lookup_identifier column then
        Inl (SyncRuleError ''unsupported column in parameter lookup predicate'')
      else Inr column)"

fun is_lookup_key_binding :: "CanonicalBinding \<Rightarrow> bool" where
  "is_lookup_key_binding (AuthParameter _) = True"
| "is_lookup_key_binding (SubscriptionParameter _) = True"
| "is_lookup_key_binding RequestUserId = True"
| "is_lookup_key_binding (RequestParameter _) = True"
| "is_lookup_key_binding _ = False"

fun is_lookup_request_binding :: "CanonicalBinding \<Rightarrow> bool" where
  "is_lookup_request_binding (AuthParameter _) = True"
| "is_lookup_request_binding (SubscriptionParameter _) = True"
| "is_lookup_request_binding RequestUserId = True"
| "is_lookup_request_binding (RequestJwt _) = True"
| "is_lookup_request_binding (RequestParameter _) = True"
| "is_lookup_request_binding _ = False"

fun literal_value :: "json \<Rightarrow> LiteralValue sync_result" where
  "literal_value (JString value) = Inr (String_Lit value)"
| "literal_value (JBool value) = Inr (Boolean_Lit value)"
| "literal_value JNull = Inr Null_Lit"
| "literal_value (JArray _) = Inl (SyncRuleError ''unsupported SQL literal'')"
| "literal_value (JObject _) = Inl (SyncRuleError ''unsupported SQL literal'')"
| "literal_value number =
     (case as_i64 number of
        Some value \<Rightarrow> Inr (Integer_Lit value)
      | None \<Rightarrow> Inl (SyncRuleError ''unsupported numeric SQL literal''))"

fun combine_lookup_predicates :: "Predicate list \<Rightarrow> Predicate option" where
  "combine_lookup_predicates [] = None"
| "combine_lookup_predicates [p] = Some p"
| "combine_lookup_predicates ps = Some (And ps)"

definition lookup_id_of ::
  "sql_lib \<Rightarrow> string \<Rightarrow> string \<Rightarrow> ParameterLookupSelectedColumn list \<Rightarrow>
   (string \<times> CanonicalBinding) list \<Rightarrow> Predicate option \<Rightarrow> string" where
  "lookup_id_of S query table sels keys pred =
     hex_prefix (sl_sha256 S (js_to_string (sl_json S) (JObject
       [(''raw_query'', JString query), (''source_table'', JString table),
        (''selected'', JArray (map (\<lambda>c. JObject [(''alias'', JString (sel_alias c)),
           (''column'', JString (sel_column c))]) sels)),
        (''key_bindings'', JArray (map (\<lambda>(c, b). JArray [JString c, binding_json JObject b]) keys)),
        (''row_predicate'', option_json (predicate_json JObject) pred)])))"

text \<open>One pass of the loop over the WHERE conjuncts: the key bindings and the row predicates so far.\<close>

definition lookup_binding_predicate ::
  "CanonicalBinding \<Rightarrow> string \<Rightarrow> CanonicalBinding btree \<times> Predicate list \<Rightarrow>
   (CanonicalBinding btree \<times> Predicate list) sync_result" where
  "lookup_binding_predicate binding other st =
     (if sql_literal_to_json other \<noteq> None then
        (if \<not> is_lookup_request_binding binding then
           Inl (SyncRuleError ''unsupported binding in parameter lookup query'')
         else Inr st)
      else rbind (lookup_column_name other) (\<lambda>column.
        if \<not> is_lookup_key_binding binding then
          Inl (SyncRuleError ''unsupported binding in parameter lookup query'')
        else if map_of (fst st) column \<noteq> None then
          Inl (SyncRuleError ''duplicate binding column in parameter lookup query'')
        else Inr (bt_insert column binding (fst st), snd st)))"

definition lookup_row_comparison :: "string \<Rightarrow> string \<Rightarrow> Predicate sync_result" where
  "lookup_row_comparison left right =
     rbind (case (sql_literal_to_json left, sql_literal_to_json right) of
              (None, Some value) \<Rightarrow> rbind (lookup_column_name left) (\<lambda>c. Inr (c, value, True))
            | (Some value, None) \<Rightarrow> rbind (lookup_column_name right) (\<lambda>c. Inr (c, value, False))
            | _ \<Rightarrow> Inl (SyncRuleError ''row predicates must compare a column to a string literal''))
       (\<lambda>(column, value, column_on_left).
          rbind (literal_value value) (\<lambda>value.
            case value of
              String_Lit _ \<Rightarrow>
                Inr (if column_on_left then Eq (Column column) (Literal value)
                     else Eq (Literal value) (Column column))
            | _ \<Rightarrow> Inl (SyncRuleError ''row predicates must compare a column to a string literal'')))"

definition lookup_predicate_step ::
  "binding_parser \<Rightarrow> CanonicalBinding btree \<times> Predicate list \<Rightarrow> string \<Rightarrow>
   (CanonicalBinding btree \<times> Predicate list) sync_result" where
  "lookup_predicate_step pb st raw =
     (let predicate = trim_wrapping_parens (trim raw);
          comparison = replace_sub ''->>'' [] (mask_string_literals predicate) in
      if contains_sub ''(select'' (to_ascii_lowercase predicate) then
        Inl (SyncRuleError ''sub-selects are not supported in parameter lookup queries'')
      else if length (split_or_predicates predicate) > 1 then
        Inl (SyncRuleError ''OR is not supported in parameter lookup queries'')
      else if split_ascii_case_insensitive_once predicate '' IN '' \<noteq> None then
        Inl (SyncRuleError ''IN is not supported in parameter lookup queries'')
      else if CHR ''>'' \<in> set comparison \<or> CHR ''<'' \<in> set comparison \<or> contains_sub ''!='' comparison then
        Inl (SyncRuleError ''non-equality comparison is not supported in parameter lookup queries'')
      else
        (case split_is_null predicate of
           Some (operand, negated) \<Rightarrow>
             if pb (trim operand) \<noteq> None then
               Inl (SyncRuleError ''request IS [NOT] NULL predicates are not supported'')
             else rbind (lookup_column_name operand) (\<lambda>column.
               Inr (fst st, snd st @ [IsNull (Column column) negated]))
         | None \<Rightarrow>
             (case split_once (CHR ''='') predicate of
                None \<Rightarrow> Inl (SyncRuleError ''unsupported predicate in parameter lookup query'')
              | Some (l, r) \<Rightarrow>
                  (let left = trim l; right = trim r in
                   case (pb left, pb right) of
                     (Some _, Some _) \<Rightarrow> Inl (SyncRuleError ''binding = binding is not supported'')
                   | (Some binding, None) \<Rightarrow> lookup_binding_predicate binding right st
                   | (None, Some binding) \<Rightarrow> lookup_binding_predicate binding left st
                   | (None, None) \<Rightarrow> rbind (lookup_row_comparison left right) (\<lambda>p.
                       Inr (fst st, snd st @ [p]))))))"

text \<open>The FROM clause of a lookup names one public table.\<close>

definition lookup_source :: "string \<Rightarrow> string sync_result" where
  "lookup_source from_clause =
     (let lower = to_ascii_lowercase from_clause in
      if length (split_top_level_csv from_clause) \<noteq> 1 \<or> contains_sub ''json_each'' lower
         \<or> contains_sub '' join '' lower \<or> CHR ''('' \<in> set from_clause then
        (if contains_sub ''json_each'' lower then
           Inl (SyncRuleError ''json_each is not supported inside table-backed parameter lookup queries'')
         else if CHR ''('' \<in> set from_clause then
           Inl (SyncRuleError ''sub-selects are not supported in parameter lookup queries'')
         else Inl (SyncRuleError ''parameter lookup queries must have exactly one table and no joins''))
      else
        (case split_whitespace from_clause of
           [token] \<Rightarrow>
             (let source_table = (case strip_prefix ''public.'' (normalize_identifier token) of
                                    Some table \<Rightarrow> table | None \<Rightarrow> normalize_identifier token) in
              if source_table = [] then
                Inl (SyncRuleError ''parameter lookup query FROM table must not be empty'')
              else if CHR ''.'' \<in> set source_table then
                Inl (SyncRuleError ''parameter lookup tables must be unqualified or in the public schema'')
              else Inr source_table)
         | _ \<Rightarrow> Inl (SyncRuleError ''parameter lookup queries must have exactly one table and no joins'')))"

definition parse_parameter_lookup_plan_with ::
  "sql_lib \<Rightarrow> binding_parser \<Rightarrow> string \<Rightarrow> ParameterLookupPlan sync_result" where
  "parse_parameter_lookup_plan_with S pb raw =
     (let raw_query = trim raw; upper = to_ascii_uppercase raw_query in
      if \<not> starts_with ''SELECT '' upper then
        Inl (SyncRuleError ''parameter lookup query must start with SELECT'')
      else
        rbind (ok_or (SyncRuleError ''parameter lookup query is missing FROM'')
                (find_sub '' FROM '' upper)) (\<lambda>from_index.
        let where_start = from_index + 6 in
        rbind (ok_or (SyncRuleError ''parameter lookup query is missing WHERE'')
                (map_option (\<lambda>index. where_start + index)
                  (find_sub '' WHERE '' (drop where_start upper)))) (\<lambda>where_index.
        rbind (if from_index \<le> 7 then Inr []
               else rbind (str_slice 7 from_index raw_query) (\<lambda>t. Inr (trim t))) (\<lambda>select_clause.
        if select_clause = [] then
          Inl (SyncRuleError ''parameter lookup query SELECT list must not be empty'')
        else
          rbind (rmap parse_lookup_projection (split_top_level_csv select_clause)) (\<lambda>sels.
          rbind (str_slice where_start where_index raw_query) (\<lambda>from_clause.
          rbind (lookup_source (trim from_clause)) (\<lambda>source_table.
          let where_clause = trim (drop (where_index + 7) raw_query) in
          if where_clause = [] then
            Inl (SyncRuleError ''parameter lookup query WHERE clause must not be empty'')
          else
            rbind (rfold (lookup_predicate_step pb) ([], []) (split_and_predicates where_clause))
              (\<lambda>(keys, row_predicates).
            if keys = [] then
              Inl (SyncRuleError ''parameter lookup query must contain at least one key binding'')
            else
              (let pred = combine_lookup_predicates row_predicates in
               Inr (ParameterLookupPlan raw_query source_table sels keys pred
                      (lookup_id_of S raw_query source_table sels keys pred)))))))))))"

section \<open>Bindings\<close>

definition parse_parameter_query_column_binding ::
  "sql_lib \<Rightarrow> (string \<Rightarrow> ParameterLookupPlan sync_result) \<Rightarrow> string \<Rightarrow> CanonicalBinding option" where
  "parse_parameter_query_column_binding S parse_lookup binding =
     Option.bind (strip_call_inner binding ''parameter_query_column('' '')'') (\<lambda>inner.
       case split_top_level_csv inner of
         [query_arg, name_arg] \<Rightarrow>
           Option.bind (parse_string_literal query_arg) (\<lambda>encoded_query.
           Option.bind (sl_b64_decode S encoded_query) (\<lambda>query.
             if \<not> utf8_valid query then None
             else Option.bind (parse_string_literal name_arg) (\<lambda>raw_name.
               let name = normalize_identifier raw_name in
               if name = [] then None
               else (case parse_lookup query of
                       Inl _ \<Rightarrow> None
                     | Inr lookup \<Rightarrow> Some (ParameterQueryColumn name lookup)))))
       | _ \<Rightarrow> None)"

text \<open>The alternatives in the order the code tries them; the last two are added by \<open>parse_binding_with\<close>.\<close>

definition direct_bindings :: "string \<Rightarrow> CanonicalBinding option list" where
  "direct_bindings binding =
     [map_option AuthParameter (strip_call_argument binding ''auth.parameter('' '')''),
      if eq_ignore_ascii_case binding ''auth.user_id()'' then Some RequestUserId else None,
      map_option RequestParameter
        (strip_arrow_string_argument binding ''connection.parameters()'' ''->>''),
      map_option RequestParameter (strip_call_argument binding ''connection.parameter('' '')''),
      map_option SubscriptionParameter (strip_call_argument binding ''subscription.parameter('' '')''),
      if eq_ignore_ascii_case binding ''request.user_id()'' then Some RequestUserId else None,
      map_option RequestJwt (strip_arrow_string_argument binding ''request.jwt()'' ''->>''),
      map_option RequestParameter
        (strip_arrow_string_argument binding ''request.parameters()'' ''->>''),
      map_option RequestParameterArray
        (strip_call_argument binding ''request.parameter_array('' '')'')]"

definition parse_binding_with ::
  "sql_lib \<Rightarrow> (string \<Rightarrow> ParameterLookupPlan sync_result) \<Rightarrow> string \<Rightarrow> CanonicalBinding option" where
  "parse_binding_with S parse_lookup raw =
     (let binding = trim raw in
      first_some (direct_bindings binding @
        [parse_parameter_query_column_binding S parse_lookup binding,
         map_option (\<lambda>name. BucketParameter (normalize_identifier name))
           (strip_prefix ''bucket.'' binding)]))"

primrec parse_binding_at :: "sql_lib \<Rightarrow> nat \<Rightarrow> string \<Rightarrow> CanonicalBinding option" where
  "parse_binding_at S 0 binding =
     parse_binding_with S (\<lambda>_. Inl (SyncRuleError ''nested parameter lookup'')) binding"
| "parse_binding_at S (Suc n) binding =
     parse_binding_with S (parse_parameter_lookup_plan_with S (parse_binding_at S n)) binding"

definition parse_binding :: "sql_lib \<Rightarrow> string \<Rightarrow> CanonicalBinding option" where
  "parse_binding S binding = parse_binding_at S 1 binding"

definition parse_parameter_lookup_plan :: "sql_lib \<Rightarrow> string \<Rightarrow> ParameterLookupPlan sync_result" where
  "parse_parameter_lookup_plan S raw = parse_parameter_lookup_plan_with S (parse_binding S) raw"

fun binding_name :: "CanonicalBinding \<Rightarrow> string" where
  "binding_name (AuthParameter name) = name"
| "binding_name (SubscriptionParameter name) = name"
| "binding_name (RequestParameter name) = name"
| "binding_name (RequestParameterArray name) = name"
| "binding_name (ParameterQueryColumn name _) = name"
| "binding_name (BucketParameter name) = name"
| "binding_name RequestUserId = ''user_id''"
| "binding_name (RequestJwt claim) = claim"

section \<open>Predicates\<close>

fun literal_value_from_json :: "json \<Rightarrow> LiteralValue option" where
  "literal_value_from_json (JString text) = Some (String_Lit text)"
| "literal_value_from_json (JBool b) = Some (Boolean_Lit b)"
| "literal_value_from_json JNull = Some Null_Lit"
| "literal_value_from_json (JArray _) = None"
| "literal_value_from_json (JObject _) = None"
| "literal_value_from_json number = map_option Integer_Lit (as_i64 number)"

definition classify_operand :: "sql_lib \<Rightarrow> string \<Rightarrow> Operand" where
  "classify_operand S raw =
     (let operand = trim raw in
      case parse_binding S operand of
        Some binding \<Rightarrow> Binding binding
      | None \<Rightarrow>
          (case Option.bind (sql_literal_to_json operand) literal_value_from_json of
             Some value \<Rightarrow> Literal value
           | None \<Rightarrow> Column (normalize_identifier (last_dotted_identifier operand))))"

definition classify_is_null_operand :: "sql_lib \<Rightarrow> string \<Rightarrow> Operand" where
  "classify_is_null_operand S raw =
     (let operand = trim raw in
      case parse_binding S operand of
        Some binding \<Rightarrow> Binding binding
      | None \<Rightarrow> Column (normalize_identifier (last_dotted_identifier operand)))"

definition parse_leaf :: "sql_lib \<Rightarrow> string \<Rightarrow> Predicate sync_result" where
  "parse_leaf S predicate =
     (case split_is_null predicate of
        Some (left, negated) \<Rightarrow> Inr (IsNull (classify_is_null_operand S left) negated)
      | None \<Rightarrow>
          (case split_ascii_case_insensitive_once predicate '' IN '' of
             Some (left, right) \<Rightarrow> Inr (In (classify_operand S left) (classify_operand S right))
           | None \<Rightarrow>
               (case split_once (CHR ''='') predicate of
                  Some (left, right) \<Rightarrow> Inr (Eq (classify_operand S left) (classify_operand S right))
                | None \<Rightarrow> Inl (SyncRuleError ''internal: predicate is neither IS [NOT] NULL, IN, nor =''))))"

function parse_disjunct :: "sql_lib \<Rightarrow> string \<Rightarrow> Predicate sync_result" where
  "parse_disjunct S raw =
     (let predicate = trim_wrapping_parens (trim raw); or_terms = split_or_predicates predicate in
      if length or_terms > 1 then rbind (rmap (parse_disjunct S) or_terms) (\<lambda>terms. Inr (Or terms))
      else parse_leaf S predicate)"
  by pat_completeness auto

termination parse_disjunct
  by (relation "measure (\<lambda>(_, raw). length raw)") (auto intro: or_term_shorter)

declare parse_disjunct.simps [simp del]

fun combine_conjuncts :: "Predicate list \<Rightarrow> Predicate option" where
  "combine_conjuncts [] = None"
| "combine_conjuncts [p] = Some p"
| "combine_conjuncts ps = Some (And ps)"

definition is_row_filter_predicate :: "string \<Rightarrow> bool" where
  "is_row_filter_predicate predicate =
     (let lower = to_ascii_lowercase predicate in
      \<not> contains_binding_reference_lower lower \<and> \<not> contains_sub ''bucket.'' lower)"

definition validate_row_filter_operand :: "string \<Rightarrow> unit sync_result" where
  "validate_row_filter_operand raw =
     (let operand = trim_wrapping_parens (trim raw) in
      if sql_literal_to_json operand \<noteq> None \<or> is_plain_column_reference operand then Inr ()
      else Inl (SyncRuleError ''unsupported row-filter operand''))"

function validate_row_filter_term :: "string \<Rightarrow> unit sync_result" where
  "validate_row_filter_term raw =
     (let term = trim_wrapping_parens (trim raw); or_terms = split_or_predicates term in
      if length or_terms > 1 then rbind (rmap validate_row_filter_term or_terms) (\<lambda>_. Inr ())
      else if split_is_null term \<noteq> None then Inr ()
      else
        rbind (case split_ascii_case_insensitive_once term '' IN '' of
                 Some parts \<Rightarrow> Inr parts
               | None \<Rightarrow> ok_or (SyncRuleError ''unsupported row-filter predicate'')
                          (split_once (CHR ''='') term)) (\<lambda>(left, right).
        rbind (validate_row_filter_operand left) (\<lambda>_. validate_row_filter_operand right)))"
  by pat_completeness auto

termination validate_row_filter_term
  by (relation "measure length") (auto intro: or_term_shorter)

declare validate_row_filter_term.simps [simp del]

definition validate_row_filter_predicate :: "string \<Rightarrow> unit sync_result" where
  "validate_row_filter_predicate predicate =
     rbind (rmap validate_row_filter_term
              (split_or_predicates (trim_wrapping_parens (trim predicate)))) (\<lambda>_. Inr ())"

definition request_predicate_term_supported :: "sql_lib \<Rightarrow> string \<Rightarrow> bool" where
  "request_predicate_term_supported S raw =
     (let predicate = trim_wrapping_parens (trim raw) in
      case split_is_null predicate of
        Some (left, _) \<Rightarrow> parse_binding S (trim left) \<noteq> None
      | None \<Rightarrow>
          (case split_once (CHR ''='') predicate of
             None \<Rightarrow> False
           | Some (left, right) \<Rightarrow>
               parse_binding S (trim left) \<noteq> None \<and> sql_literal_to_json (trim right) \<noteq> None
               \<or> parse_binding S (trim right) \<noteq> None \<and> sql_literal_to_json (trim left) \<noteq> None))"

definition is_request_filter_predicate :: "sql_lib \<Rightarrow> string \<Rightarrow> bool" where
  "is_request_filter_predicate S predicate \<longleftrightarrow>
     contains_binding_reference predicate \<and>
     list_all (request_predicate_term_supported S)
       (split_or_predicates (trim_wrapping_parens predicate))"

section \<open>Bucket parameters and WHERE clauses\<close>

definition parse_bucket_parameter :: "sql_lib \<Rightarrow> string \<Rightarrow> CanonicalBucketParameter sync_result" where
  "parse_bucket_parameter S predicate =
     (let without_arrows = replace_sub ''->>'' [] predicate;
          upper = to_ascii_uppercase without_arrows;
          column = (\<lambda>side. normalize_identifier (last_dotted_identifier side)) in
      if contains_sub '' OR '' upper \<or> contains_sub ''!='' without_arrows \<or> contains_sub ''>='' predicate
         \<or> contains_sub ''<='' predicate \<or> CHR ''>'' \<in> set without_arrows \<or> CHR ''<'' \<in> set without_arrows then
        Inl (SyncRuleError ''unsupported WHERE predicate'')
      else
        rbind
          (case split_once (CHR ''='') predicate of
             Some (left, right) \<Rightarrow>
               (case parse_binding S (trim right) of
                  Some binding \<Rightarrow> Inr (column left, binding)
                | None \<Rightarrow>
                    (case parse_binding S (trim left) of
                       Some binding \<Rightarrow> Inr (column right, binding)
                     | None \<Rightarrow> Inl (SyncRuleError ''unsupported WHERE predicate'')))
           | None \<Rightarrow>
               (case split_ascii_case_insensitive_once predicate '' IN '' of
                  Some (left, right) \<Rightarrow>
                    (case parse_binding S (trim left) of
                       Some binding \<Rightarrow> Inr (column right, binding)
                     | None \<Rightarrow>
                         (case parse_binding S (trim right) of
                            Some binding \<Rightarrow> Inr (column left, binding)
                          | None \<Rightarrow> Inl (SyncRuleError ''unsupported WHERE predicate'')))
                | None \<Rightarrow> Inl (SyncRuleError ''unsupported WHERE predicate'')))
          (\<lambda>(source_column, binding).
             Inr \<lparr> bp_name = binding_name binding, bp_source_column = source_column,
                   bp_binding = binding \<rparr>))"

record ParsedWhereClause =
  wc_bucket_parameters :: "CanonicalBucketParameter list"
  wc_row_filter :: "Predicate option"
  wc_request_filter :: "Predicate option"

type_synonym where_parts = "CanonicalBucketParameter list \<times> Predicate list \<times> Predicate list"

definition where_step :: "sql_lib \<Rightarrow> where_parts \<Rightarrow> string \<Rightarrow> where_parts sync_result" where
  "where_step S acc raw =
     (case acc of (params, rows, requests) \<Rightarrow>
        (let predicate = trim raw in
         if is_request_filter_predicate S predicate then
           rbind (parse_disjunct S predicate) (\<lambda>p. Inr (params, rows, requests @ [p]))
         else
           (case parse_bucket_parameter S predicate of
              Inr parameter \<Rightarrow> Inr (params @ [parameter], rows, requests)
            | Inl error \<Rightarrow>
                if is_row_filter_predicate predicate then
                  rbind (validate_row_filter_predicate predicate) (\<lambda>_.
                  rbind (parse_disjunct S predicate) (\<lambda>p. Inr (params, rows @ [p], requests)))
                else Inl error)))"

definition parse_where_clause :: "sql_lib \<Rightarrow> string option \<Rightarrow> ParsedWhereClause sync_result" where
  "parse_where_clause S where_clause =
     (let empty = \<lparr> wc_bucket_parameters = [], wc_row_filter = None, wc_request_filter = None \<rparr> in
      case where_clause of
        None \<Rightarrow> Inr empty
      | Some text \<Rightarrow>
          if text = [] then Inr empty
          else rbind (rfold (where_step S) ([], [], []) (split_and_predicates text))
            (\<lambda>(params, rows, requests).
               Inr \<lparr> wc_bucket_parameters = params, wc_row_filter = combine_conjuncts rows,
                     wc_request_filter = combine_conjuncts requests \<rparr>))"

section \<open>Projections\<close>

definition parse_projection_item :: "string \<Rightarrow> CanonicalProjectedColumn sync_result" where
  "parse_projection_item item =
     (let trimmed = trim item in
      if trimmed = [] then Inl (SyncRuleError ''projection item must not be empty'')
      else
        (case split_ascii_case_insensitive_once trimmed '' AS '' of
           Some (source, alias) \<Rightarrow>
             (let source_column = normalize_identifier (last_dotted_identifier source);
                  alias = normalize_identifier alias in
              if source_column = [] \<or> alias = [] then Inl (SyncRuleError ''unsupported projection item'')
              else Inr \<lparr> pc_source_column = source_column, pc_alias = alias \<rparr>)
         | None \<Rightarrow>
             (let source_column = normalize_identifier (last_dotted_identifier trimmed) in
              if source_column = [] then Inl (SyncRuleError ''unsupported projection item'')
              else Inr \<lparr> pc_source_column = source_column, pc_alias = source_column \<rparr>)))"

definition parse_computed_term :: "string \<Rightarrow> CanonicalComputedTerm sync_result" where
  "parse_computed_term raw =
     (let term = trim raw in
      if starts_with [squote] term then
        rbind (ok_or (SyncRuleError ''unsupported computed projection expression'')
                (parse_string_literal term)) (\<lambda>value. Inr (ComputedLiteral value))
      else
        (let source_column = normalize_identifier (last_dotted_identifier term) in
         if source_column = [] then Inl (SyncRuleError ''unsupported computed projection expression'')
         else Inr (ComputedColumn source_column)))"

definition parse_computed_expression :: "string \<Rightarrow> CanonicalComputedExpression sync_result" where
  "parse_computed_expression expression =
     rbind (rmap parse_computed_term (split_top_level_operator expression ''||'')) (\<lambda>terms.
       if terms = [] then Inl (SyncRuleError ''unsupported computed projection expression'')
       else Inr \<lparr> ce_terms = terms \<rparr>)"

definition parse_computed_projection_item :: "string \<Rightarrow> CanonicalComputedColumn sync_result" where
  "parse_computed_projection_item item =
     rbind (ok_or (SyncRuleError ''unsupported computed projection item'')
             (split_ascii_case_insensitive_once item '' AS '')) (\<lambda>(expression, raw_alias).
     let alias = normalize_identifier raw_alias in
     if alias = [] then Inl (SyncRuleError ''unsupported computed projection item'')
     else rbind (parse_computed_expression expression) (\<lambda>e.
       Inr \<lparr> cc_alias = alias, cc_expression = e \<rparr>))"

definition is_star_item :: "string \<Rightarrow> bool" where
  "is_star_item item \<longleftrightarrow> trim item = ''*'' \<or> contains_sub ''.*'' item"

definition parse_projection :: "string \<Rightarrow> CanonicalProjection sync_result" where
  "parse_projection select_clause =
     (if trim select_clause = ''*'' then Inr Star
      else
        (let items = split_top_level_csv select_clause in
         if list_ex is_star_item items then
           rbind (rmap parse_computed_projection_item (filter (\<lambda>item. \<not> is_star_item (trim item)) items))
             (\<lambda>computed. Inr (if computed = [] then Star else StarWithComputed computed))
         else
           rbind (rmap parse_projection_item items) (\<lambda>columns.
             if columns = [] then Inl (SyncRuleError ''projection must not be empty'')
             else Inr (Columns columns))))"

section \<open>Stream queries\<close>

definition parse_source_table :: "string \<Rightarrow> string sync_result" where
  "parse_source_table raw =
     (let first_table = first_from_table raw;
          table_token = (case split_whitespace first_table of [] \<Rightarrow> first_table | token # _ \<Rightarrow> token);
          normalized = normalize_identifier table_token in
      rbind (case strip_prefix ''public.'' normalized of
               Some table \<Rightarrow> Inr table
             | None \<Rightarrow> if CHR ''.'' \<in> set normalized then
                         Inl (SyncRuleError ''unsupported source table; only public.<table> is supported'')
                       else Inr normalized) (\<lambda>table.
      if table = [] then Inl (SyncRuleError ''source table must not be empty'') else Inr table))"

record ParsedStreamQuery =
  sq_source_table :: string
  sq_bucket_parameters :: "CanonicalBucketParameter list"
  sq_row_filter :: "Predicate option"
  sq_request_filter :: "Predicate option"
  sq_projection :: CanonicalProjection

definition parse_stream_query :: "sql_lib \<Rightarrow> string \<Rightarrow> ParsedStreamQuery sync_result" where
  "parse_stream_query S query =
     (let trimmed = trim query; upper = to_ascii_uppercase trimmed in
      if \<not> starts_with ''SELECT '' upper then
        Inl (SyncRuleError ''unsupported sync-rule SQL (missing SELECT)'')
      else
        rbind (ok_or (SyncRuleError ''unsupported sync-rule SQL (missing FROM)'')
                (find_sub '' FROM '' upper)) (\<lambda>from_index.
        rbind (str_slice 7 from_index trimmed) (\<lambda>select_text.
        let select_clause = trim select_text;
            after_from = drop (from_index + 6) trimmed;
            (table_part, where_part) =
              (case find_sub '' WHERE '' (drop (from_index + 6) upper) of
                 Some where_index \<Rightarrow> (trim (take where_index after_from),
                                     Some (trim (drop (where_index + 7) after_from)))
               | None \<Rightarrow> (trim after_from, None)) in
        rbind (parse_source_table table_part) (\<lambda>source_table.
        rbind (parse_projection select_clause) (\<lambda>projection.
        rbind (parse_where_clause S where_part) (\<lambda>w.
          Inr \<lparr> sq_source_table = source_table, sq_bucket_parameters = wc_bucket_parameters w,
                sq_row_filter = wc_row_filter w, sq_request_filter = wc_request_filter w,
                sq_projection = projection \<rparr>))))))"

end
