(* ===== verification/Lowering.thy ===== *)
theory Lowering
  imports Query_Parser "HOL-Library.AList"
begin

text \<open>
  The rule compiler (\<open>sync_rules/lowering.rs\<close>, \<open>sync_rules/yaml.rs\<close>, \<open>sync_rules/catalog.rs\<close>): the YAML
  front end, the rewriting of data queries that join a \<open>with:\<close> parameter query, the canonical plan,
  and its lowering to the execution plan the store and the readers use. \<open>serde_yaml\<close> parses the
  document: its value type is the datatype \<open>yaml\<close> and its parser an argument. A \<open>HashMap\<close> is an
  association list updated with \<open>AList.update\<close>.
\<close>

section \<open>Contract ids\<close>

definition CANONICAL_PLAN_VERSION :: nat where "CANONICAL_PLAN_VERSION = 1"
definition SUPPORTED_EDITION :: nat where "SUPPORTED_EDITION = 3"
definition SUPPORTED_COMPATIBILITY_VERSION :: nat where "SUPPORTED_COMPATIBILITY_VERSION = 1"
definition SUPPORTED_STORAGE_VERSION :: nat where "SUPPORTED_STORAGE_VERSION = 1"

definition optional_entry :: "string \<Rightarrow> ('a \<Rightarrow> json) \<Rightarrow> 'a option \<Rightarrow> json_object" where
  "optional_entry key f x = (case x of None \<Rightarrow> [] | Some a \<Rightarrow> [(key, f a)])"

definition bucket_parameters_json :: "CanonicalBucketParameter list \<Rightarrow> json" where
  "bucket_parameters_json ps =
     JArray (map (\<lambda>p. JObject [(''name'', JString (bp_name p)),
       (''source_column'', JString (bp_source_column p)),
       (''binding'', binding_json JObject (bp_binding p))]) ps)"

definition data_query_json :: "CanonicalDataQuery \<Rightarrow> json" where
  "data_query_json q =
     JObject ([(''source_table'', JString (dq_source_table q)),
        (''output_table'', JString (dq_output_table q)),
        (''bucket_parameters'', bucket_parameters_json (dq_bucket_parameters q))]
       @ optional_entry ''row_filter'' (predicate_json JObject) (dq_row_filter q)
       @ optional_entry ''request_filter'' (predicate_json JObject) (dq_request_filter q)
       @ [(''projection'', projection_json JObject (dq_projection q))])"

definition stream_json :: "CanonicalStream \<Rightarrow> json" where
  "stream_json s =
     JObject ([(''name'', JString (cs_name s)), (''source_table'', JString (cs_source_table s)),
        (''output_table'', JString (cs_output_table s)),
        (''auto_subscribe'', JBool (cs_auto_subscribe s)),
        (''bucket_parameters'', bucket_parameters_json (cs_bucket_parameters s))]
       @ optional_entry ''row_filter'' (predicate_json JObject) (cs_row_filter s)
       @ optional_entry ''request_filter'' (predicate_json JObject) (cs_request_filter s)
       @ [(''projection'', projection_json JObject (cs_projection s))]
       @ (if cs_data_queries s = [] then []
          else [(''data_queries'', JArray (map data_query_json (cs_data_queries s)))]))"

definition semantic_plan_json :: "CanonicalSemanticPlan \<Rightarrow> json" where
  "semantic_plan_json c =
     JObject [(''version'', JPos (sp_version c)), (''edition'', JPos (sp_edition c)),
       (''compatibility_version'', JPos (sp_compatibility_version c)),
       (''storage_version'', JPos (sp_storage_version c)),
       (''streams'', JArray (map stream_json (sp_streams c)))]"

definition canonical_storage_contract_id :: "json_lib \<Rightarrow> CanonicalSemanticPlan \<Rightarrow> string" where
  "canonical_storage_contract_id J c =
     ''layout=wire-mdbx-ingest-v3:version='' @ decimal (sp_version c)
     @ '':edition='' @ decimal (sp_edition c)
     @ '':compat='' @ decimal (sp_compatibility_version c)
     @ '':storage='' @ decimal (sp_storage_version c)
     @ '':canonical='' @ js_to_string J (semantic_plan_json c)"

definition contract_fingerprint :: "sql_lib \<Rightarrow> string \<Rightarrow> string" where
  "contract_fingerprint S contract_id = hex_prefix (sl_sha256 S contract_id)"

section \<open>Compiling a stream\<close>

definition parsed_data_query :: "ParsedStreamQuery \<Rightarrow> CanonicalDataQuery" where
  "parsed_data_query q =
     \<lparr> dq_source_table = sq_source_table q, dq_output_table = sq_source_table q,
       dq_bucket_parameters = sq_bucket_parameters q, dq_row_filter = sq_row_filter q,
       dq_request_filter = sq_request_filter q, dq_projection = sq_projection q \<rparr>"

definition merged_bucket_parameters :: "ParsedStreamQuery list \<Rightarrow> CanonicalBucketParameter list" where
  "merged_bucket_parameters queries =
     merged_bucket_parameters_from_queries (map sq_bucket_parameters queries)"

definition plain_query :: "CanonicalDataQuery \<Rightarrow> bool" where
  "plain_query q \<longleftrightarrow> dq_row_filter q = None \<and> dq_request_filter q = None
     \<and> list_all (\<lambda>p. bp_source_column p = bp_name p) (dq_bucket_parameters q)"

definition compile_stream_definition ::
  "sql_lib \<Rightarrow> string \<Rightarrow> string list \<Rightarrow> bool \<Rightarrow> CanonicalStream sync_result" where
  "compile_stream_definition S name queries auto_subscribe =
     rbind (rmap (parse_stream_query S) queries) (\<lambda>parsed.
       case parsed of
         [] \<Rightarrow> Inl (SyncRuleError ''stream is missing a query definition'')
       | first # _ \<Rightarrow>
           (let data_queries = map parsed_data_query parsed in
            Inr \<lparr> cs_name = name, cs_source_table = sq_source_table first,
                  cs_output_table = sq_source_table first, cs_auto_subscribe = auto_subscribe,
                  cs_bucket_parameters = merged_bucket_parameters parsed,
                  cs_row_filter = dq_row_filter (hd data_queries),
                  cs_request_filter = dq_request_filter (hd data_queries),
                  cs_projection = sq_projection first,
                  cs_data_queries =
                    (if length data_queries \<le> 1 \<and> list_all plain_query data_queries then []
                     else data_queries) \<rparr>))"

record StreamDefinition =
  def_name :: string
  def_query :: string
  def_auto_subscribe :: bool

definition compile_streams :: "sql_lib \<Rightarrow> StreamDefinition list \<Rightarrow> CanonicalSemanticPlan sync_result" where
  "compile_streams S definitions =
     rbind (rmap (\<lambda>d. compile_stream_definition S (def_name d) [def_query d] (def_auto_subscribe d))
             definitions) (\<lambda>streams.
       Inr \<lparr> sp_version = CANONICAL_PLAN_VERSION, sp_edition = SUPPORTED_EDITION,
             sp_compatibility_version = SUPPORTED_COMPATIBILITY_VERSION,
             sp_storage_version = SUPPORTED_STORAGE_VERSION, sp_streams = streams \<rparr>)"

section \<open>Request filters of lookups\<close>

fun flatten :: "Predicate \<Rightarrow> Predicate list" where
  "flatten (And terms) = concat (map flatten terms)"
| "flatten predicate = [predicate]"

definition flattened_predicates :: "Predicate option \<Rightarrow> Predicate list" where
  "flattened_predicates predicate = (case predicate of None \<Rightarrow> [] | Some p \<Rightarrow> flatten p)"

definition lookup_request_step ::
  "sql_lib \<Rightarrow> Predicate list \<Rightarrow> string \<Rightarrow> Predicate list sync_result" where
  "lookup_request_step S predicates raw =
     (let term = trim_wrapping_parens (trim raw) in
      case split_once (CHR ''='') term of
        None \<Rightarrow> Inr predicates
      | Some (l, r) \<Rightarrow>
          (let left = trim l; right = trim r;
               found =
                 (case (parse_binding S left, sql_literal_to_json right) of
                    (Some binding, Some literal) \<Rightarrow> Some (binding, literal, True)
                  | _ \<Rightarrow>
                      (case (sql_literal_to_json left, parse_binding S right) of
                         (Some literal, Some binding) \<Rightarrow> Some (binding, literal, False)
                       | _ \<Rightarrow> None)) in
           case found of
             None \<Rightarrow> Inr predicates
           | Some (binding, literal, binding_on_left) \<Rightarrow>
               if \<not> is_lookup_request_binding binding then Inr predicates
               else rbind (literal_value literal) (\<lambda>value.
                 Inr (predicates @ [if binding_on_left then Eq (Binding binding) (Literal value)
                                    else Eq (Literal value) (Binding binding)]))))"

definition lookup_request_predicates :: "sql_lib \<Rightarrow> string \<Rightarrow> Predicate list sync_result" where
  "lookup_request_predicates S raw =
     (let trimmed = trim raw; upper = to_ascii_uppercase trimmed in
      rbind (ok_or (SyncRuleError ''parameter lookup query is missing FROM'') (find_sub '' FROM '' upper))
        (\<lambda>from_index.
      let where_start = from_index + 6 in
      rbind (ok_or (SyncRuleError ''parameter lookup query is missing WHERE'')
              (map_option (\<lambda>index. where_start + index) (find_sub '' WHERE '' (drop where_start upper))))
        (\<lambda>where_index.
      rfold (lookup_request_step S) [] (split_and_predicates (trim (drop (where_index + 7) trimmed))))))"

definition validate_lookup_parameter ::
  "sql_lib \<Rightarrow> Predicate list \<Rightarrow> CanonicalBucketParameter \<Rightarrow> unit sync_result" where
  "validate_lookup_parameter S group_terms parameter =
     (case bp_binding parameter of
        ParameterQueryColumn _ lookup \<Rightarrow>
          rbind (lookup_request_predicates S (raw_query lookup)) (\<lambda>predicates.
            if list_all (\<lambda>p. p \<in> set group_terms) predicates then Inr ()
            else Inl (SyncRuleError ''parameter lookup request predicate is not mirrored in stream bucket group''))
      | _ \<Rightarrow> Inr ())"

definition validate_parameter_lookup_request_filters ::
  "sql_lib \<Rightarrow> CanonicalStream \<Rightarrow> unit sync_result" where
  "validate_parameter_lookup_request_filters S stream =
     rfold (\<lambda>_ grp. rfold (\<lambda>_ parameter.
              validate_lookup_parameter S (flattened_predicates (sg_request_filter grp)) parameter)
            () (sg_bucket_parameters grp))
       () (stream_bucket_groups stream)"

section \<open>Lowering\<close>

definition object_id_expression_from_projection ::
  "CanonicalProjection \<Rightarrow> CanonicalComputedExpression option" where
  "object_id_expression_from_projection projection =
     (case projection of
        Star \<Rightarrow> None
      | StarWithComputed computed \<Rightarrow>
          map_option cc_expression (find (\<lambda>c. cc_alias c = ''id'') computed)
      | Columns columns \<Rightarrow>
          map_option (\<lambda>c. \<lparr> ce_terms = [ComputedColumn (pc_source_column c)] \<rparr>)
            (find (\<lambda>c. pc_alias c = ''id'' \<and> pc_source_column c \<noteq> ''id'') columns))"

definition hm_push :: "string \<Rightarrow> 'a \<Rightarrow> (string \<times> 'a list) list \<Rightarrow> (string \<times> 'a list) list" where
  "hm_push k x m = AList.update k ((case map_of m k of None \<Rightarrow> [] | Some xs \<Rightarrow> xs) @ [x]) m"

definition add_lookup ::
  "CompiledLookupTablePlan btree \<Rightarrow> CanonicalBucketParameter \<Rightarrow> CompiledLookupTablePlan btree" where
  "add_lookup tables parameter =
     (case bp_binding parameter of
        ParameterQueryColumn _ lookup \<Rightarrow>
          (let source = lookup_source_table lookup;
               table = (case map_of tables source of
                          Some t \<Rightarrow> t | None \<Rightarrow> \<lparr> lt_source_table = source, lt_lookups = [] \<rparr>) in
           bt_insert source
             (if list_ex (\<lambda>e. lookup_id e = lookup_id lookup) (lt_lookups table) then table
              else table\<lparr>lt_lookups := lt_lookups table @ [lookup]\<rparr>) tables)
      | _ \<Rightarrow> tables)"

definition accumulator_template :: "json_lib \<Rightarrow> CanonicalStream \<Rightarrow> CanonicalDataQuery \<Rightarrow> AccumulatorQueryTemplate" where
  "accumulator_template J stream query =
     \<lparr> aq_stream_name = cs_name stream, aq_object_type = dq_output_table query,
       aq_bucket_parameters = dq_bucket_parameters query, aq_row_filter = dq_row_filter query,
       aq_request_filter = dq_request_filter query, aq_projection = dq_projection query,
       aq_projection_key = projection_key J (dq_projection query),
       aq_is_default = (cs_auto_subscribe stream \<and> dq_bucket_parameters query = []) \<rparr>"

definition query_route_columns :: "CanonicalDataQuery \<Rightarrow> string list" where
  "query_route_columns query = sort (map bp_source_column (dq_bucket_parameters query))"

definition add_table ::
  "CanonicalDataQuery \<Rightarrow> (string \<times> CompiledTablePlan) list \<Rightarrow> (string \<times> CompiledTablePlan) list sync_result" where
  "add_table query tables =
     (let route_columns = query_route_columns query;
          object_id_expression = object_id_expression_from_projection (dq_projection query);
          source = dq_source_table query in
      case map_of tables source of
        Some existing \<Rightarrow>
          if tp_object_type existing \<noteq> dq_output_table query then
            Inl (SyncRuleError ''source table maps to conflicting output tables'')
          else if tp_object_id_expression existing \<noteq> object_id_expression then
            Inl (SyncRuleError ''source table maps to conflicting object id expressions'')
          else Inr (AList.update source
            (existing\<lparr>tp_route_columns := sort (foldl (\<lambda>cs c. if c \<in> set cs then cs else cs @ [c])
                                                (tp_route_columns existing) route_columns)\<rparr>) tables)
      | None \<Rightarrow> Inr (AList.update source
          \<lparr> tp_source_table = source, tp_object_type = dq_output_table query,
            tp_route_columns = route_columns, tp_object_id_expression = object_id_expression \<rparr> tables))"

type_synonym lowering_state = "RustExecutionPlan \<times> (string \<times> string list) list"

definition lower_query ::
  "json_lib \<Rightarrow> CanonicalStream \<Rightarrow> lowering_state \<Rightarrow> CanonicalDataQuery \<Rightarrow> lowering_state sync_result" where
  "lower_query J stream st query =
     (case st of (plan, seen) \<Rightarrow>
        (let route_columns = query_route_columns query; key = (dq_output_table query, route_columns);
             fresh = (route_columns \<noteq> [] \<and> key \<notin> set seen);
             plan = plan\<lparr>lookup_tables_by_source :=
                      foldl add_lookup (lookup_tables_by_source plan) (dq_bucket_parameters query),
                    accumulator_queries_by_object :=
                      hm_push (dq_output_table query) (accumulator_template J stream query)
                        (accumulator_queries_by_object plan),
                    route_index_columns_by_object :=
                      (if fresh then hm_push (dq_output_table query) route_columns
                                       (route_index_columns_by_object plan)
                       else route_index_columns_by_object plan)\<rparr> in
         rbind (add_table query (tables_by_source plan)) (\<lambda>tables.
           Inr (plan\<lparr>tables_by_source := tables\<rparr>, if fresh then key # seen else seen))))"

definition lower_stream ::
  "sql_lib \<Rightarrow> lowering_state \<Rightarrow> CanonicalStream \<Rightarrow> lowering_state sync_result" where
  "lower_stream S st stream =
     rbind (validate_parameter_lookup_request_filters S stream) (\<lambda>_.
       case st of (plan, seen) \<Rightarrow>
         if map_of (streams_by_name plan) (cs_name stream) \<noteq> None
            \<or> map_of (stream_bucket_groups_by_name plan) (cs_name stream) \<noteq> None then
           Inl (SyncRuleError ''duplicate stream name in canonical semantic plan'')
         else
           (let plan = plan\<lparr>streams_by_name := AList.update (cs_name stream) stream (streams_by_name plan),
                  default_stream_names := default_stream_names plan
                    @ (if cs_auto_subscribe stream then [cs_name stream] else []),
                  stream_bucket_groups_by_name :=
                    AList.update (cs_name stream) (stream_bucket_groups stream)
                      (stream_bucket_groups_by_name plan)\<rparr> in
            rfold (lower_query (sl_json S) stream) (plan, seen) (data_queries stream)))"

definition empty_execution_plan :: "CanonicalSemanticPlan \<Rightarrow> RustExecutionPlan" where
  "empty_execution_plan c =
     \<lparr> canonical = c, streams_by_name = [], tables_by_source = [], lookup_tables_by_source = [],
       route_index_columns_by_object = [], stream_bucket_groups_by_name = [],
       accumulator_queries_by_object = [], default_stream_names = [],
       storage_contract_id = [], storage_contract_fingerprint = [] \<rparr>"

definition lower_canonical_semantic_plan ::
  "sql_lib \<Rightarrow> CanonicalSemanticPlan \<Rightarrow> RustExecutionPlan sync_result" where
  "lower_canonical_semantic_plan S c =
     (if sp_version c \<noteq> CANONICAL_PLAN_VERSION then
        Inl (SyncRuleError ''unsupported canonical semantic plan version'')
      else if sp_edition c \<noteq> SUPPORTED_EDITION then
        Inl (SyncRuleError ''unsupported sync-rules edition'')
      else if sp_compatibility_version c \<noteq> SUPPORTED_COMPATIBILITY_VERSION then
        Inl (SyncRuleError ''unsupported compatibility version'')
      else if sp_storage_version c \<noteq> SUPPORTED_STORAGE_VERSION then
        Inl (SyncRuleError ''unsupported storage version'')
      else
        rbind (rfold (lower_stream S) (empty_execution_plan c, []) (sp_streams c)) (\<lambda>(plan, _).
          let contract_id = canonical_storage_contract_id (sl_json S) c in
          Inr (plan\<lparr>storage_contract_id := contract_id,
                    storage_contract_fingerprint := contract_fingerprint S contract_id\<rparr>)))"

end
