(* ===== verification/Rule_Source.thy ===== *)
theory Rule_Source
  imports Lowering
begin

text \<open>
  The source of sync rules (\<open>sync_rules/yaml.rs\<close> and the rewriting in \<open>sync_rules/lowering.rs\<close>): the
  YAML document, its \<open>with:\<close> parameter queries, and the rewriting of a data query that joins a
  parameter query into one whose WHERE clause names the bindings directly. The document is parsed by
  \<open>serde_yaml\<close>: its value type is \<open>yaml\<close>, its parser the argument \<open>Y\<close>.
\<close>

section \<open>Parameter queries\<close>

record ParsedParameterQuery =
  pq_columns :: "CanonicalBinding option btree"
  pq_request_filter :: "string option"
  pq_query :: string

fun call_argument_len :: "char option \<Rightarrow> int \<Rightarrow> nat \<Rightarrow> string \<Rightarrow> nat option" where
  "call_argument_len q depth index [] = None"
| "call_argument_len q depth index (byte # s) =
     (case q of
        Some active \<Rightarrow> call_argument_len (if byte = active then None else q) depth (Suc index) s
      | None \<Rightarrow>
          if byte = squote then call_argument_len (Some byte) depth (Suc index) s
          else if byte = CHR ''('' then call_argument_len None (depth + 1) (Suc index) s
          else if byte = CHR '')'' \<and> depth = 0 then Some index
          else if byte = CHR '')'' then call_argument_len None (depth - 1) (Suc index) s
          else call_argument_len None depth (Suc index) s)"

definition matching_call_argument_len :: "string \<Rightarrow> nat option" where
  "matching_call_argument_len value = call_argument_len None 0 0 value"

definition json_each_request_parameter_name :: "string \<Rightarrow> string option" where
  "json_each_request_parameter_name part =
     Option.bind (split_ascii_case_insensitive_once part ''json_each('') (\<lambda>(_, after).
     Option.bind (matching_call_argument_len after) (\<lambda>n.
       let argument = take n after in
       first_some [strip_arrow_string_argument (trim argument) ''connection.parameters()'' ''->>'',
                   strip_arrow_string_argument (trim argument) ''request.parameters()'' ''->>'']))"

definition json_each_step ::
  "CanonicalBinding btree \<times> nat \<Rightarrow> string \<Rightarrow> CanonicalBinding btree \<times> nat" where
  "json_each_step acc part =
     (case acc of (bindings, unaliased_count) \<Rightarrow>
        (case json_each_request_parameter_name part of
           None \<Rightarrow> (bindings, unaliased_count)
         | Some name \<Rightarrow>
             (case json_each_alias part of
                Some alias \<Rightarrow> (bt_insert alias (RequestParameterArray name) bindings, unaliased_count)
              | None \<Rightarrow>
                  (let count = unaliased_count + 1;
                       alias = (if count = 1 then ''json_each'' else ''json_each_'' @ decimal count) in
                   (bt_insert alias (RequestParameterArray name) bindings, count)))))"

definition json_each_request_bindings :: "string \<Rightarrow> CanonicalBinding btree" where
  "json_each_request_bindings from_part =
     fst (foldl json_each_step ([], 0) (split_top_level_csv from_part))"

definition projection_json_each_binding ::
  "string \<Rightarrow> CanonicalBinding btree \<Rightarrow> CanonicalBinding option" where
  "projection_json_each_binding item bindings =
     (let source = trim (case split_ascii_case_insensitive_once item '' AS '' of
                           Some (source, _) \<Rightarrow> source | None \<Rightarrow> item) in
      Option.bind (split_once (CHR ''.'') source) (\<lambda>(left, right).
        if normalize_identifier right \<noteq> ''value'' then None
        else map_of bindings (normalize_identifier left)))"

text \<open>\<open>query.get(a..b)\<close>: \<open>None\<close> outside the text or inside a character.\<close>

definition char_boundary :: "nat \<Rightarrow> string \<Rightarrow> bool" where
  "char_boundary i s \<longleftrightarrow> i = length s \<or> i < length s \<and> \<not> utf8_cont (s ! i)"

definition str_get :: "nat \<Rightarrow> nat \<Rightarrow> string \<Rightarrow> string option" where
  "str_get a b s =
     (if a \<le> b \<and> b \<le> length s \<and> char_boundary a s \<and> char_boundary b s
      then Some (take (b - a) (drop a s)) else None)"

definition set_column :: "string \<Rightarrow> CanonicalBinding \<Rightarrow> CanonicalBinding option btree \<Rightarrow> CanonicalBinding option btree" where
  "set_column column binding columns =
     (if map_of columns column = None then columns else bt_insert column (Some binding) columns)"

definition parameter_predicate_step ::
  "sql_lib \<Rightarrow> CanonicalBinding option btree \<times> string list \<Rightarrow> string \<Rightarrow>
   CanonicalBinding option btree \<times> string list" where
  "parameter_predicate_step S acc raw =
     (case acc of (columns, request_predicates) \<Rightarrow>
        (let predicate = trim raw;
             requests = (if is_request_filter_predicate S predicate then request_predicates @ [predicate]
                         else request_predicates) in
         case split_once (CHR ''='') predicate of
           None \<Rightarrow> (columns, requests)
         | Some (left, right) \<Rightarrow>
             (case parse_binding S (trim right) of
                Some binding \<Rightarrow>
                  (set_column (normalize_identifier (last_dotted_identifier left)) binding columns, requests)
              | None \<Rightarrow>
                  (case parse_binding S (trim left) of
                     Some binding \<Rightarrow>
                       (set_column (normalize_identifier (last_dotted_identifier right)) binding columns, requests)
                   | None \<Rightarrow> (columns, requests)))))"

definition parse_parameter_query :: "sql_lib \<Rightarrow> string \<Rightarrow> ParsedParameterQuery sync_result" where
  "parse_parameter_query S query =
     (let upper = to_ascii_uppercase query;
          from_index = find_sub '' FROM '' upper;
          where_index = find_sub '' WHERE '' upper;
          select_end = (case from_index of Some f \<Rightarrow> f
                        | None \<Rightarrow> (case where_index of Some w \<Rightarrow> w | None \<Rightarrow> length query));
          select_clause = trim (case str_get 7 select_end query of Some t \<Rightarrow> t | None \<Rightarrow> []) in
      rbind (case from_index of
               None \<Rightarrow> Inr []
             | Some f \<Rightarrow>
                 (case where_index of
                    Some w \<Rightarrow> if w > f then str_slice (f + 6) w query else Inr (drop (f + 6) query)
                  | None \<Rightarrow> Inr (drop (f + 6) query))) (\<lambda>from_part.
      let bindings = json_each_request_bindings from_part;
          columns = foldl (\<lambda>columns item.
              case projection_alias item of
                None \<Rightarrow> columns
              | Some alias \<Rightarrow> bt_insert alias (projection_json_each_binding item bindings) columns)
            [] (split_top_level_csv select_clause) in
      case where_index of
        None \<Rightarrow> Inr \<lparr> pq_columns = columns, pq_request_filter = None, pq_query = trim query \<rparr>
      | Some w \<Rightarrow>
          (let (columns, requests) =
                 foldl (parameter_predicate_step S) (columns, []) (split_and_predicates (drop (w + 7) query)) in
           Inr \<lparr> pq_columns = columns,
                 pq_request_filter = (if requests = [] then None else Some (join_with '' AND '' requests)),
                 pq_query = trim query \<rparr>)))"

section \<open>Rewriting data queries\<close>

fun binding_sql_fragment :: "sql_lib \<Rightarrow> CanonicalBinding \<Rightarrow> string" where
  "binding_sql_fragment S (AuthParameter name) =
     ''auth.parameter('' @ [squote] @ escape_sql_string_literal name @ [squote] @ '')''"
| "binding_sql_fragment S (SubscriptionParameter name) =
     ''subscription.parameter('' @ [squote] @ escape_sql_string_literal name @ [squote] @ '')''"
| "binding_sql_fragment S RequestUserId = ''request.user_id()''"
| "binding_sql_fragment S (RequestJwt claim) =
     ''request.jwt() ->> '' @ [squote] @ escape_sql_string_literal claim @ [squote]"
| "binding_sql_fragment S (RequestParameter name) =
     ''request.parameters() ->> '' @ [squote] @ escape_sql_string_literal name @ [squote]"
| "binding_sql_fragment S (RequestParameterArray name) =
     ''request.parameter_array('' @ [squote] @ escape_sql_string_literal name @ [squote] @ '')''"
| "binding_sql_fragment S (ParameterQueryColumn name lookup) =
     ''parameter_query_column('' @ [squote] @ sl_b64_encode S (raw_query lookup) @ [squote] @ '',''
     @ [squote] @ escape_sql_string_literal name @ [squote] @ '')''"
| "binding_sql_fragment S (BucketParameter name) = ''bucket.'' @ name"

definition bucket_alias_column :: "string \<Rightarrow> string \<Rightarrow> string option" where
  "bucket_alias_column value alias =
     Option.bind (split_once (CHR ''.'') (trim value)) (\<lambda>(left, right).
       if normalize_identifier left = alias then Some (normalize_identifier right) else None)"

definition parameter_query_binding ::
  "sql_lib \<Rightarrow> ParsedParameterQuery \<Rightarrow> string \<Rightarrow> CanonicalBinding sync_result" where
  "parameter_query_binding S parameter_query column =
     (case map_of (pq_columns parameter_query) column of
        Some (Some binding) \<Rightarrow> Inr binding
      | _ \<Rightarrow> rbind (parse_parameter_lookup_plan S (pq_query parameter_query)) (\<lambda>lookup.
               Inr (ParameterQueryColumn column lookup)))"

definition format_bucket_predicate ::
  "sql_lib \<Rightarrow> string \<Rightarrow> CanonicalBinding \<Rightarrow> string \<Rightarrow> bool \<Rightarrow> string" where
  "format_bucket_predicate S source_column binding op source_on_left =
     (let fragment = binding_sql_fragment S binding in
      if eq_ignore_ascii_case op ''IN'' \<and> \<not> source_on_left then fragment @ '' IN '' @ source_column
      else source_column @ '' = '' @ fragment)"

definition rewrite_bucket_join_predicate ::
  "sql_lib \<Rightarrow> string \<Rightarrow> string \<Rightarrow> ParsedParameterQuery \<Rightarrow> string option sync_result" where
  "rewrite_bucket_join_predicate S predicate cte_alias parameter_query =
     (case (case split_ascii_case_insensitive_once predicate '' IN '' of
              Some (left, right) \<Rightarrow> Some (left, right, ''IN'')
            | None \<Rightarrow> map_option (\<lambda>(left, right). (left, right, ''='')) (split_once (CHR ''='') predicate)) of
        None \<Rightarrow> Inr None
      | Some (left, right, op) \<Rightarrow>
          (case (bucket_alias_column left cte_alias, bucket_alias_column right cte_alias) of
             (Some bucket_column, None) \<Rightarrow>
               rbind (parameter_query_binding S parameter_query bucket_column) (\<lambda>binding.
                 Inr (Some (format_bucket_predicate S
                   (normalize_identifier (last_dotted_identifier right)) binding op False)))
           | (None, Some bucket_column) \<Rightarrow>
               rbind (parameter_query_binding S parameter_query bucket_column) (\<lambda>binding.
                 Inr (Some (format_bucket_predicate S
                   (normalize_identifier (last_dotted_identifier left)) binding op True)))
           | _ \<Rightarrow> Inr None))"

definition parse_direct_parameter_predicate :: "sql_lib \<Rightarrow> string \<Rightarrow> unit option" where
  "parse_direct_parameter_predicate S predicate =
     Option.bind (split_once (CHR ''='') predicate) (\<lambda>(left, right).
       if normalize_identifier (last_dotted_identifier left) = [] then None
       else map_option (\<lambda>_. ()) (parse_binding S (trim right)))"

definition binding_or_has_direct_parameter :: "sql_lib \<Rightarrow> string \<Rightarrow> bool" where
  "binding_or_has_direct_parameter S predicate \<longleftrightarrow>
     contains_binding_reference predicate \<and>
     list_ex (\<lambda>term. parse_direct_parameter_predicate S term \<noteq> None)
       (split_or_predicates (trim_wrapping_parens predicate))"

definition kept_predicate :: "sql_lib \<Rightarrow> string \<Rightarrow> bool" where
  "kept_predicate S predicate \<longleftrightarrow>
     parse_direct_parameter_predicate S predicate \<noteq> None \<or> is_row_filter_predicate predicate
     \<or> is_request_filter_predicate S predicate \<or> binding_or_has_direct_parameter S predicate"

definition rebuilt_query :: "string \<Rightarrow> nat \<Rightarrow> string \<Rightarrow> string list \<Rightarrow> string" where
  "rebuilt_query query from_index from_part predicates =
     (if predicates = [] then take from_index query @ '' FROM '' @ first_from_table from_part
      else take from_index query @ '' FROM '' @ first_from_table from_part
           @ '' WHERE '' @ join_with '' AND '' predicates)"

definition normalize_query_without_parameter_source ::
  "sql_lib \<Rightarrow> string \<Rightarrow> nat \<Rightarrow> string \<Rightarrow> string \<Rightarrow> string" where
  "normalize_query_without_parameter_source S query from_index from_part where_part =
     rebuilt_query query from_index from_part
       (map trim (filter (kept_predicate S) (split_and_predicates where_part)))"

definition find_parameter_source_alias ::
  "string \<Rightarrow> ParsedParameterQuery btree \<Rightarrow> (string \<times> string) option" where
  "find_parameter_source_alias from_part parameter_queries =
     first_some (map (\<lambda>part.
       let tokens = split_whitespace part;
           name = normalize_identifier (case tokens of [] \<Rightarrow> [] | token # _ \<Rightarrow> token) in
       if map_of parameter_queries name = None then None
       else Some (name, case alias_token tokens of Some alias \<Rightarrow> alias | None \<Rightarrow> name))
     (drop 1 (split_top_level_csv from_part)))"

definition join_predicate_step ::
  "sql_lib \<Rightarrow> string \<Rightarrow> ParsedParameterQuery \<Rightarrow> string list \<Rightarrow> string \<Rightarrow> string list sync_result" where
  "join_predicate_step S cte_alias parameter_query predicates predicate =
     rbind (rewrite_bucket_join_predicate S predicate cte_alias parameter_query) (\<lambda>rewritten.
       case rewritten of
         Some text \<Rightarrow> Inr (predicates @ [text])
       | None \<Rightarrow> Inr (if kept_predicate S predicate then predicates @ [trim predicate] else predicates))"

definition normalize_data_query_with_parameters ::
  "sql_lib \<Rightarrow> string \<Rightarrow> ParsedParameterQuery btree \<Rightarrow> string sync_result" where
  "normalize_data_query_with_parameters S query parameter_queries =
     (let trimmed = trim query; upper = to_ascii_uppercase trimmed in
      case find_sub '' FROM '' upper of
        None \<Rightarrow> Inr trimmed
      | Some from_index \<Rightarrow>
          (case find_sub '' WHERE '' (drop (from_index + 6) upper) of
             None \<Rightarrow> Inr trimmed
           | Some offset \<Rightarrow>
               (let from_part = take offset (drop (from_index + 6) trimmed);
                    where_part = drop (from_index + 6 + offset + 7) trimmed in
                case find_parameter_source_alias from_part parameter_queries of
                  None \<Rightarrow> Inr (normalize_query_without_parameter_source S trimmed from_index from_part where_part)
                | Some (cte_name, cte_alias) \<Rightarrow>
                    (case map_of parameter_queries cte_name of
                       None \<Rightarrow> Inr trimmed
                     | Some parameter_query \<Rightarrow>
                         rbind (rfold (join_predicate_step S cte_alias parameter_query)
                                 (case pq_request_filter parameter_query of None \<Rightarrow> [] | Some f \<Rightarrow> [f])
                                 (split_and_predicates where_part)) (\<lambda>predicates.
                           Inr (rebuilt_query trimmed from_index from_part predicates))))))"

section \<open>The YAML document\<close>

datatype yaml =
    YNull
  | YBool bool
  | YPos nat
  | YNeg int
  | YFloat "64 word"
  | YString string
  | YSequence "yaml list"
  | YMapping "(yaml \<times> yaml) list"
  | YTagged string yaml

fun untag :: "yaml \<Rightarrow> yaml" where
  "untag (YTagged _ v) = untag v"
| "untag v = v"

definition yaml_as_str :: "yaml \<Rightarrow> string option" where
  "yaml_as_str v = (case untag v of YString s \<Rightarrow> Some s | _ \<Rightarrow> None)"

definition yaml_as_bool :: "yaml \<Rightarrow> bool option" where
  "yaml_as_bool v = (case untag v of YBool b \<Rightarrow> Some b | _ \<Rightarrow> None)"

definition yaml_as_u64 :: "yaml \<Rightarrow> nat option" where
  "yaml_as_u64 v = (case untag v of YPos n \<Rightarrow> Some n | _ \<Rightarrow> None)"

definition yaml_as_sequence :: "yaml \<Rightarrow> yaml list option" where
  "yaml_as_sequence v = (case untag v of YSequence vs \<Rightarrow> Some vs | _ \<Rightarrow> None)"

definition yaml_as_mapping :: "yaml \<Rightarrow> (yaml \<times> yaml) list option" where
  "yaml_as_mapping v = (case untag v of YMapping m \<Rightarrow> Some m | _ \<Rightarrow> None)"

definition mapping_get :: "string \<Rightarrow> (yaml \<times> yaml) list \<Rightarrow> yaml option" where
  "mapping_get key m = map_of m (YString key)"

definition yaml_get :: "string \<Rightarrow> yaml \<Rightarrow> yaml option" where
  "yaml_get key v = Option.bind (yaml_as_mapping v) (mapping_get key)"

record ParsedStreamDefinition =
  psd_name :: string
  psd_queries :: "string list"
  psd_auto_subscribe :: bool

record ParsedSyncRulesSource =
  pss_edition :: nat
  pss_compatibility_version :: nat
  pss_storage_version :: nat
  pss_streams :: "ParsedStreamDefinition list"

text \<open>\<open>str::lines\<close>: a line ends at a newline, the carriage return before it does not belong to the line.\<close>

definition str_lines :: "string \<Rightarrow> string list" where
  "str_lines s =
     (let parts = split_char (CHR 0x0A) s; ended = butlast parts;
          strip = (\<lambda>line. if ends_with [CHR 0x0D] line then butlast line else line) in
      map strip ended @ (if last parts = [] then [] else [last parts]))"

definition fold_query :: "string \<Rightarrow> string" where
  "fold_query query = join_with '' '' (filter (\<lambda>line. line \<noteq> []) (map trim (str_lines query)))"

definition query_string :: "yaml \<Rightarrow> string sync_result" where
  "query_string value =
     rbind (ok_or (SyncRuleError ''stream query must be a string'') (yaml_as_str value))
       (\<lambda>query. Inr (fold_query query))"

definition read_config_version :: "yaml \<Rightarrow> string \<Rightarrow> nat \<Rightarrow> nat sync_result" where
  "read_config_version document key fallback =
     (case first_some [Option.bind (yaml_get ''config'' document) (yaml_get key), yaml_get key document] of
        None \<Rightarrow> Inr fallback
      | Some value \<Rightarrow> ok_or (SyncRuleError ''version must be a non-negative integer'')
          (Option.bind (yaml_as_u64 value) (\<lambda>n. if n < u32_limit then Some n else None)))"

definition read_parameter_queries ::
  "sql_lib \<Rightarrow> yaml option \<Rightarrow> ParsedParameterQuery btree sync_result" where
  "read_parameter_queries S value =
     (case value of
        None \<Rightarrow> Inr []
      | Some v \<Rightarrow>
          rbind (ok_or (SyncRuleError ''with must be a mapping of name to query'') (yaml_as_mapping v))
            (rfold (\<lambda>queries (name, query).
               rbind (ok_or (SyncRuleError ''with keys must be strings'') (yaml_as_str name)) (\<lambda>name.
               rbind (ok_or (SyncRuleError ''with query must be a string'') (yaml_as_str query)) (\<lambda>query.
               rbind (parse_parameter_query S (fold_query query)) (\<lambda>parsed.
                 Inr (bt_insert name parsed queries))))) []))"

definition read_stream ::
  "sql_lib \<Rightarrow> ParsedParameterQuery btree \<Rightarrow> yaml \<times> yaml \<Rightarrow> ParsedStreamDefinition sync_result" where
  "read_stream S global_parameter_queries entry =
     rbind (ok_or (SyncRuleError ''stream names must be strings'') (yaml_as_str (fst entry))) (\<lambda>name.
     rbind (ok_or (SyncRuleError ''stream must be a mapping'') (yaml_as_mapping (snd entry))) (\<lambda>definition.
     rbind (case mapping_get ''auto_subscribe'' definition of
              None \<Rightarrow> Inr False
            | Some value \<Rightarrow> ok_or (SyncRuleError ''auto_subscribe must be true or false'') (yaml_as_bool value))
       (\<lambda>auto_subscribe.
     rbind (read_parameter_queries S (mapping_get ''with'' definition)) (\<lambda>own.
     let parameter_queries = foldl (\<lambda>m (k, v). bt_insert k v m) global_parameter_queries own in
     rbind (case mapping_get ''query'' definition of
              None \<Rightarrow> Inr [] | Some query \<Rightarrow> rbind (query_string query) (\<lambda>q. Inr [q])) (\<lambda>single.
     rbind (case mapping_get ''queries'' definition of
              None \<Rightarrow> Inr []
            | Some queries \<Rightarrow>
                rbind (ok_or (SyncRuleError ''queries must be a sequence'') (yaml_as_sequence queries))
                  (rmap query_string)) (\<lambda>many.
     let raw_queries = single @ many in
     if raw_queries = [] then Inl (SyncRuleError ''stream is missing a query definition'')
     else rbind (rmap (\<lambda>q. normalize_data_query_with_parameters S q parameter_queries) raw_queries)
       (\<lambda>queries. Inr \<lparr> psd_name = name, psd_queries = queries, psd_auto_subscribe = auto_subscribe \<rparr>)))))))"

definition parse_sync_rules_source ::
  "sql_lib \<Rightarrow> (string \<Rightarrow> yaml option) \<Rightarrow> string \<Rightarrow> ParsedSyncRulesSource sync_result" where
  "parse_sync_rules_source S Y source =
     rbind (ok_or (SyncRuleError ''invalid sync-rules YAML'') (Y source)) (\<lambda>document.
     rbind (read_config_version document ''edition'' SUPPORTED_EDITION) (\<lambda>edition.
     rbind (read_config_version document ''compatibility_version'' SUPPORTED_COMPATIBILITY_VERSION)
       (\<lambda>compatibility_version.
     rbind (read_config_version document ''storage_version'' SUPPORTED_STORAGE_VERSION) (\<lambda>storage_version.
     rbind (read_parameter_queries S (yaml_get ''with'' document)) (\<lambda>global_parameter_queries.
     rbind (case yaml_get ''streams'' document of
              Some (YMapping streams) \<Rightarrow> Inr streams
            | Some _ \<Rightarrow> Inl (SyncRuleError ''streams must be a mapping of stream name to definition'')
            | None \<Rightarrow> Inl (SyncRuleError ''sync-rules source must define at least one stream''))
       (\<lambda>entries.
     rbind (rmap (read_stream S global_parameter_queries) entries) (\<lambda>streams.
     if streams = [] then Inl (SyncRuleError ''sync-rules source must define at least one stream'')
     else Inr \<lparr> pss_edition = edition, pss_compatibility_version = compatibility_version,
                pss_storage_version = storage_version, pss_streams = streams \<rparr>)))))))"

definition compile_sync_rules_source ::
  "sql_lib \<Rightarrow> (string \<Rightarrow> yaml option) \<Rightarrow> string \<Rightarrow> CanonicalSemanticPlan sync_result" where
  "compile_sync_rules_source S Y source =
     rbind (parse_sync_rules_source S Y source) (\<lambda>parsed.
     rbind (rmap (\<lambda>d. compile_stream_definition S (psd_name d) (psd_queries d) (psd_auto_subscribe d))
             (pss_streams parsed)) (\<lambda>streams.
       Inr \<lparr> sp_version = CANONICAL_PLAN_VERSION, sp_edition = pss_edition parsed,
             sp_compatibility_version = pss_compatibility_version parsed,
             sp_storage_version = pss_storage_version parsed, sp_streams = streams \<rparr>))"

end
