(* ===== verification/Query_Facts.thy ===== *)
theory Query_Facts
  imports Rule_Source
begin

text \<open>
  Facts about the SQL parser: trimming, the recursion of \<open>parse_binding\<close> through encoded lookup
  queries, and the round trip of the fragments the rewriting generates.
\<close>

section \<open>Trimming\<close>

definition plain_char :: "char \<Rightarrow> bool" where
  "plain_char c \<longleftrightarrow> byte_val c < 128 \<and> byte_val c \<notin> {9, 10, 11, 12, 13, 32}"

lemma white_space_ends:
  assumes "w \<in> set white_space"
  shows "w \<noteq> []" and "\<not> plain_char (hd w)" and "\<not> plain_char (last w)"
proof -
  have "list_all (\<lambda>w. w \<noteq> [] \<and> \<not> plain_char (hd w) \<and> \<not> plain_char (last w)) white_space"
    by code_simp
  with assms show "w \<noteq> []" "\<not> plain_char (hd w)" "\<not> plain_char (last w)" by (auto simp: list_all_iff)
qed

lemma find_None_prefix: "find (\<lambda>w. take (length w) s = w) ws = None \<longleftrightarrow> (\<forall>w \<in> set ws. take (length w) s \<noteq> w)"
  by (auto simp: find_None_iff)

lemma strip_leading_stop: "find (\<lambda>w. take (length w) s = w) ws = None \<Longrightarrow> strip_leading ws n s = s"
  by (cases n) simp_all

lemma strip_leading_done:
  assumes "\<forall>w \<in> set ws. w \<noteq> []" and "length s \<le> n"
  shows "find (\<lambda>w. take (length w) (strip_leading ws n s) = w) ws = None"
  using assms(2)
proof (induction n arbitrary: s)
  case 0
  then show ?case using assms(1) by (auto simp: find_None_iff)
next
  case (Suc n)
  show ?case
  proof (cases "find (\<lambda>w. take (length w) s = w) ws")
    case (Some w)
    then have "w \<noteq> []" using assms(1) by (metis find_Some_iff nth_mem)
    then have "length (drop (length w) s) \<le> n" using Suc.prems by (cases w) auto
    from Suc.IH [OF this] Some show ?thesis by simp
  qed simp
qed

lemma strip_leading_suffix: "\<exists>z. x = z @ strip_leading ws n x"
proof (induction n arbitrary: x)
  case (Suc n)
  show ?case
  proof (cases "find (\<lambda>w. take (length w) x = w) ws")
    case (Some w)
    obtain z where "drop (length w) x = z @ strip_leading ws n (drop (length w) x)" using Suc by blast
    then have "x = (take (length w) x @ z) @ strip_leading ws n (drop (length w) x)"
      by (metis append_assoc append_take_drop_id)
    with Some show ?thesis by (simp only: strip_leading.simps option.case) blast
  qed simp
qed simp

lemma trim_clean:
  shows "find (\<lambda>w. take (length w) (trim s) = w) white_space = None"
    and "find (\<lambda>w. take (length w) (rev (trim s)) = w) (map rev white_space) = None"
proof -
  let ?t = "strip_leading white_space (length s) s"
  let ?u = "strip_leading (map rev white_space) (length ?t) (rev ?t)"
  have t: "\<forall>w \<in> set white_space. take (length w) ?t \<noteq> w"
    using strip_leading_done [of white_space s "length s"] white_space_ends(1) by (auto simp: find_None_prefix)
  show "find (\<lambda>w. take (length w) (rev (trim s)) = w) (map rev white_space) = None"
    using strip_leading_done [of "map rev white_space" "rev ?t" "length ?t"] white_space_ends(1)
    by (simp add: trim_def Let_def)
  obtain z where "rev ?t = z @ ?u" using strip_leading_suffix by blast
  then have "?t = trim s @ rev z" by (simp add: trim_def Let_def) (metis rev_append rev_rev_ident)
  then have "take (length w) (trim s) = w \<Longrightarrow> take (length w) ?t = w" for w
    by (metis append_Nil2 append_take_drop_id length_append take_all_iff nle_le take_append diff_is_0_eq' take_0 length_take min_def)
  with t show "find (\<lambda>w. take (length w) (trim s) = w) white_space = None" by (auto simp: find_None_prefix)
qed

lemma trim_id:
  assumes "find (\<lambda>w. take (length w) s = w) white_space = None"
    and "find (\<lambda>w. take (length w) (rev s) = w) (map rev white_space) = None"
  shows "trim s = s"
  using assms by (simp add: trim_def strip_leading_stop)

lemma trim_trim [simp]: "trim (trim s) = trim s"
  by (rule trim_id) (rule trim_clean)+

lemma plain_no_space: "s \<noteq> [] \<Longrightarrow> plain_char (hd s) \<Longrightarrow> find (\<lambda>w. take (length w) s = w) white_space = None"
  unfolding find_None_prefix
proof (intro ballI notI)
  fix w assume "s \<noteq> []" "plain_char (hd s)" "w \<in> set white_space" "take (length w) s = w"
  then show False using white_space_ends [of w] by (cases s; cases w) auto
qed

lemma plain_no_space_rev:
  "s \<noteq> [] \<Longrightarrow> plain_char (last s) \<Longrightarrow> find (\<lambda>w. take (length w) (rev s) = w) (map rev white_space) = None"
  unfolding find_None_prefix
proof (intro ballI notI)
  fix w assume s: "s \<noteq> []" "plain_char (last s)" and "w \<in> set (map rev white_space)" and w: "take (length w) (rev s) = w"
  then obtain v where v: "v \<in> set white_space" "w = rev v" by auto
  have "w \<noteq> []" using white_space_ends(1) [OF v(1)] v(2) by simp
  then have "hd w = hd (rev s)" using w s(1) by (cases "rev s"; cases w) auto
  then have "last v = last s" using v white_space_ends(1) [OF v(1)] s(1) by (simp add: hd_rev)
  with s(2) white_space_ends(3) [OF v(1)] show False by simp
qed

lemma trim_plain: "s \<noteq> [] \<Longrightarrow> plain_char (hd s) \<Longrightarrow> plain_char (last s) \<Longrightarrow> trim s = s"
  by (rule trim_id) (simp_all add: plain_no_space plain_no_space_rev)

lemma white_space_chars: "w \<in> set white_space \<Longrightarrow> c \<in> set w \<Longrightarrow> \<not> plain_char c"
proof -
  have "list_all (list_all (\<lambda>c. \<not> plain_char c)) white_space" by code_simp
  then show "w \<in> set white_space \<Longrightarrow> c \<in> set w \<Longrightarrow> \<not> plain_char c" by (auto simp: list_all_iff)
qed

lemma strip_leading_keeps:
  assumes "\<forall>w \<in> set ws. \<forall>x \<in> set w. \<not> plain_char x" and "plain_char c"
  shows "\<exists>s'. strip_leading ws n (s @ c # r) = s' @ c # r"
proof (induction n arbitrary: s)
  case (Suc n)
  show ?case
  proof (cases "find (\<lambda>w. take (length w) (s @ c # r) = w) ws")
    case (Some w)
    then have w: "w \<in> set ws" "take (length w) (s @ c # r) = w" by (auto simp: find_Some_iff)
    have "length w \<le> length s"
    proof (rule ccontr)
      assume "\<not> length w \<le> length s"
      then obtain m where "length w = length s + Suc m" by (metis less_iff_Suc_add not_le add_Suc_right)
      then have "w = s @ c # take m r" using w(2) by simp
      then show False using assms w(1) by (metis in_set_conv_decomp)
    qed
    then have "drop (length w) (s @ c # r) = drop (length w) s @ c # r" by simp
    with Suc.IH Some show ?thesis by simp
  qed simp
qed simp

lemma trim_snoc: "plain_char c \<Longrightarrow> \<exists>z. trim (s @ [c]) = z @ [c]"
proof -
  assume c: "plain_char c"
  have "\<exists>z. strip_leading white_space (length (s @ [c])) (s @ [c]) = z @ [c]"
    using white_space_chars by (intro strip_leading_keeps c) blast
  then obtain z where z: "strip_leading white_space (length (s @ [c])) (s @ [c]) = z @ [c]" ..
  have "find (\<lambda>w. take (length w) (rev (z @ [c])) = w) (map rev white_space) = None"
    by (rule plain_no_space_rev) (simp_all add: c)
  with z show ?thesis by (simp add: trim_def Let_def strip_leading_stop)
qed

lemma trim_prefix:
  assumes "plain_char (hd p)" and "plain_char (last p)" and "p \<noteq> []"
  shows "\<exists>z. trim (p @ s) = p @ z"
proof -
  obtain q d where p: "p = q @ [d]" using assms(3) by (cases p rule: rev_cases) auto
  have "find (\<lambda>w. take (length w) (p @ s) = w) white_space = None"
    using assms by (intro plain_no_space) simp_all
  then have "trim (p @ s) = rev (strip_leading (map rev white_space) (length (p @ s)) (rev s @ d # rev q))"
    by (simp only: trim_def strip_leading_stop Let_def) (simp add: p)
  moreover have "\<exists>z. strip_leading (map rev white_space) (length (p @ s)) (rev s @ d # rev q) = z @ d # rev q"
    using white_space_chars assms(2) by (intro strip_leading_keeps) (auto simp: p)
  then obtain z where "strip_leading (map rev white_space) (length (p @ s)) (rev s @ d # rev q) = z @ d # rev q" ..
  ultimately have "trim (p @ s) = rev (z @ d # rev q)" by (simp only:)
  then have "trim (p @ s) = p @ rev z" by (simp add: p)
  then show ?thesis ..
qed

section \<open>Text that ends in a closing parenthesis is no column\<close>

lemma split_char_nonempty [simp]: "split_char c s \<noteq> []"
  by (cases s) (auto split: list.splits)

lemma split_char_snoc:
  "x \<noteq> c \<Longrightarrow> split_char c (s @ [x]) = butlast (split_char c s) @ [last (split_char c s) @ [x]]"
proof (induction s)
  case (Cons a s)
  then show ?case by (cases "split_char c s") auto
qed simp

lemma last_split_char: "x \<noteq> c \<Longrightarrow> last (split_char c (s @ [x])) = last (split_char c s) @ [x]"
  by (simp add: split_char_snoc)

lemma replace_snoc: "c \<noteq> d \<Longrightarrow> \<exists>v. replace_sub [d, d] r (u @ [c]) = v @ [c]"
proof (induction u rule: length_induct)
  case (1 u)
  show ?case
  proof (cases u)
    case Nil
    then show ?thesis using 1(2) by (simp add: starts_with_def)
  next
    case (Cons a u')
    show ?thesis
    proof (cases "starts_with [d, d] (a # u' @ [c])")
      case True
      then obtain u'' where u'': "u' = d # u''" using 1(2) by (cases u') (auto simp: starts_with_def)
      obtain v where "replace_sub [d, d] r (u'' @ [c]) = v @ [c]"
        using 1(1) [rule_format, of u''] 1(2) Cons u'' by auto
      then show ?thesis using True Cons u'' by simp
    next
      case False
      obtain v where "replace_sub [d, d] r (u' @ [c]) = v @ [c]"
        using 1(1) [rule_format, of u'] 1(2) Cons by auto
      then show ?thesis using False Cons by simp
    qed
  qed
qed

lemma trim_quotes_snoc: "c \<noteq> dquote \<Longrightarrow> \<exists>v. trim_quotes (u @ [c]) = v @ [c]"
  using dropWhile_append3 [of "\<lambda>c. c = dquote" c u "[]"] by (simp add: trim_quotes_def)

lemma join_snoc: "ps \<noteq> [] \<Longrightarrow> last ps = v @ [c] \<Longrightarrow> \<exists>u. join_with sep ps = u @ [c]"
proof (induction sep ps rule: join_with.induct)
  case (3 sep x y xs)
  then obtain u where "join_with sep (y # xs) = u @ [c]" by auto
  then show ?case by simp
qed auto

lemma normalize_snoc:
  assumes "plain_char c" and "c \<noteq> CHR ''.''" and "c \<noteq> dquote"
  shows "\<exists>v. normalize_identifier (s @ [c]) = v @ [c]"
proof -
  obtain t where t: "trim (s @ [c]) = t @ [c]" using trim_snoc [OF assms(1)] by blast
  define parts where "parts = split_char (CHR ''.'') (t @ [c])"
  have "last parts = last (split_char (CHR ''.'') t) @ [c]" by (simp add: parts_def last_split_char assms(2))
  then obtain u where "trim (last parts) = u @ [c]" using trim_snoc [OF assms(1)] by metis
  then obtain v w where "replace_sub [dquote, dquote] [dquote] (trim_quotes (trim (last parts))) = w @ [c]"
    using trim_quotes_snoc [OF assms(3), of u] replace_snoc [OF assms(3)] by metis
  then have "last (map (\<lambda>part. replace_sub [dquote, dquote] [dquote] (trim_quotes (trim part))) parts) = w @ [c]"
    by (simp add: last_map parts_def)
  from join_snoc [OF _ this, of "''.''"] show ?thesis
    by (simp add: normalize_identifier_def t parts_def [symmetric]) (simp add: parts_def)
qed

lemma closing_not_identifier: "\<not> is_lookup_identifier (v @ [CHR '')''])"
proof
  let ?p = "last (split_char (CHR ''.'') (v @ [CHR '')'']))"
  assume "is_lookup_identifier (v @ [CHR '')''])"
  moreover have "?p \<in> set (split_char (CHR ''.'') (v @ [CHR '')'']))" by simp
  ultimately have "hd ?p = dquote \<and> last ?p = dquote \<or>
      list_all (\<lambda>c. is_ascii_alphanumeric c \<or> c \<in> {CHR ''_'', dquote} \<or> is_ascii_whitespace c) ?p"
    unfolding is_lookup_identifier_def list_all_iff by blast
  moreover have "?p = last (split_char (CHR ''.'') v) @ [CHR '')'']" by (simp add: last_split_char)
  ultimately show False
    by (auto simp: is_ascii_alphanumeric_def is_ascii_alphabetic_def is_ascii_digit_def is_ascii_whitespace_def)
qed

lemma plain_close [simp]: "plain_char (CHR '')'')" "plain_char squote"
  by (simp_all add: plain_char_def)

lemma call_not_column:
  assumes "trim x = y @ [CHR '')'']"
  shows "lookup_column_name x = Inl (SyncRuleError ''unsupported column in parameter lookup predicate'')"
proof -
  have "last (split_char (CHR ''.'') (trim x)) = last (split_char (CHR ''.'') y) @ [CHR '')'']"
    by (simp add: assms last_split_char)
  then obtain z where "last_dotted_identifier x = z @ [CHR '')'']"
    using trim_snoc [OF plain_close(1)] by (metis last_dotted_identifier_def)
  then obtain v where "normalize_identifier (last_dotted_identifier x) = v @ [CHR '')'']"
    using normalize_snoc [OF plain_close(1), of z] by auto
  then show ?thesis by (simp add: lookup_column_name_def Let_def closing_not_identifier)
qed

section \<open>Nested lookups\<close>

definition nested_lookup :: "string \<Rightarrow> bool" where
  "nested_lookup b \<longleftrightarrow> strip_call_inner (trim b) ''parameter_query_column('' '')'' \<noteq> None"

lemma nested_lookup_text:
  assumes "nested_lookup b"
  obtains y where "trim b = y @ [CHR '')'']" and "to_ascii_lower (hd (trim b)) = CHR ''p''" and "2 < length (trim b)"
proof -
  have b: "starts_with ''parameter_query_column('' (map to_ascii_lower (trim b))" "ends_with '')'' (trim b)"
    using assms by (auto simp: nested_lookup_def strip_call_inner_def to_ascii_lowercase_def split: if_splits)
  have "length (take (length ''parameter_query_column('') (map to_ascii_lower (trim b))) = length ''parameter_query_column(''"
    using b(1) by (simp only: starts_with_def)
  then have len: "2 < length (trim b)" by simp
  then have "to_ascii_lower (hd (trim b)) = CHR ''p''" using b(1) by (cases "trim b") (simp_all add: starts_with_def)
  moreover obtain y where "trim b = y @ [CHR '')'']"
    using b(2) len by (cases "trim b" rule: rev_cases) (auto simp: ends_with_def starts_with_def)
  ultimately show thesis using that len by blast
qed

lemma lower_p: "to_ascii_lower c = CHR ''p'' \<Longrightarrow> c = CHR ''p'' \<or> c = CHR ''P''"
proof -
  assume c: "to_ascii_lower c = CHR ''p''"
  show ?thesis
  proof (cases "65 \<le> byte_val c \<and> byte_val c \<le> 90")
    case True
    then have "byte_val (char_of (byte_val c + 32) :: char) = byte_val (CHR ''p'')" using c by (simp add: to_ascii_lower_def)
    then have "byte_val c = 80" using True by simp
    then have "byte_val c = byte_val (CHR ''P'')" by simp
    then show ?thesis by (simp only: of_char_eq_iff) simp
  qed (use c in \<open>auto simp: to_ascii_lower_def\<close>)
qed

lemma nested_lookup_literal: "nested_lookup b \<Longrightarrow> sql_literal_to_json b = None"
proof -
  assume "nested_lookup b"
  then obtain y where y: "trim b = y @ [CHR '')'']" and p: "hd (trim b) = CHR ''p'' \<or> hd (trim b) = CHR ''P''"
    and len: "2 < length (trim b)"
    by (metis nested_lookup_text lower_p)
  have plain: "trim_parens (trim b) = trim b"
    using p len by (subst trim_parens.simps) (cases "trim b"; auto simp: starts_with_def)
  have last: "last (trim b) = CHR '')''" using y by simp
  have digit: "char_digit 10 (CHR ''p'') = None" "char_digit 10 (CHR ''P'') = None" by code_simp+
  obtain c r where cr: "trim b = c # r" using len by (cases "trim b") auto
  with p have "c = CHR ''p'' \<or> c = CHR ''P''" by simp
  then have "parse_i64 (trim b) = None"
    unfolding cr by (elim disjE) (simp_all add: parse_i64_def parse_radix_def digit)
  moreover have "to_ascii_lower (last (trim b)) = CHR '')''" using last by (simp add: to_ascii_lower_def)
  then have "\<not> eq_ignore_ascii_case (trim b) t" if "last (map to_ascii_lower t) \<noteq> CHR '')''" "t \<noteq> []" for t
    using that len unfolding eq_ignore_ascii_case_def by (metis last_map list.size(3) not_less_zero)
  then have "\<not> eq_ignore_ascii_case (trim b) ''true''" "\<not> eq_ignore_ascii_case (trim b) ''false''"
    "\<not> eq_ignore_ascii_case (trim b) ''null''" by (simp_all add: to_ascii_lower_def)
  moreover have "parse_sql_string_literal (trim b) = None" using last by (simp add: parse_sql_string_literal_def Let_def)
  ultimately show ?thesis by (simp add: sql_literal_to_json_def trim_wrapping_parens_def plain)
qed

text \<open>A result without its error text.\<close>

fun result_ok :: "'e + 'a \<Rightarrow> 'a option" where
  "result_ok (Inl e) = None"
| "result_ok (Inr a) = Some a"

lemma result_ok_rbind: "result_ok (rbind m k) = Option.bind (result_ok m) (\<lambda>x. result_ok (k x))"
  by (cases m) simp_all

lemma result_ok_rfold:
  assumes "\<And>s x. result_ok (f s x) = result_ok (g s x)"
  shows "result_ok (rfold f s xs) = result_ok (rfold g s xs)"
  by (induction xs arbitrary: s) (simp_all add: result_ok_rbind assms)

definition nested_value :: "CanonicalBinding option \<Rightarrow> bool" where
  "nested_value v \<longleftrightarrow> v = None \<or> (\<exists>n l. v = Some (ParameterQueryColumn n l))"

definition lookup_parsers_agree :: "binding_parser \<Rightarrow> binding_parser \<Rightarrow> bool" where
  "lookup_parsers_agree pb pb' \<longleftrightarrow>
     (\<forall>b. pb b = pb' b \<or> nested_lookup b \<and> nested_value (pb b) \<and> nested_value (pb' b))"

lemma nested_not_column: "nested_lookup (trim b) \<Longrightarrow> result_ok (lookup_column_name b) = None"
  using nested_lookup_text [of "trim b"] call_not_column [of b] by force

lemma nested_lookup_trim [simp]: "nested_lookup (trim b) \<longleftrightarrow> nested_lookup b"
  by (simp add: nested_lookup_def)

lemma nested_binding_rejected:
  "result_ok (lookup_binding_predicate (ParameterQueryColumn n l) other st) = None"
  "nested_lookup b \<Longrightarrow> result_ok (lookup_binding_predicate binding b st) = None"
  by (auto simp: lookup_binding_predicate_def result_ok_rbind nested_lookup_literal nested_not_column split: Option.bind_split)

lemma nested_comparison_rejected:
  "nested_lookup b \<Longrightarrow> result_ok (lookup_row_comparison b r) = None"
  "nested_lookup b \<Longrightarrow> result_ok (lookup_row_comparison l b) = None"
  by (auto simp: lookup_row_comparison_def result_ok_rbind nested_lookup_literal nested_not_column split: option.splits)

definition lookup_equality ::
  "CanonicalBinding btree \<times> Predicate list \<Rightarrow> string \<Rightarrow> string \<Rightarrow> CanonicalBinding option \<times> CanonicalBinding option \<Rightarrow>
   (CanonicalBinding btree \<times> Predicate list) sync_result" where
  "lookup_equality st left right bs =
     (case bs of
        (Some _, Some _) \<Rightarrow> Inl (SyncRuleError ''binding = binding is not supported'')
      | (Some binding, None) \<Rightarrow> lookup_binding_predicate binding right st
      | (None, Some binding) \<Rightarrow> lookup_binding_predicate binding left st
      | (None, None) \<Rightarrow> rbind (lookup_row_comparison left right) (\<lambda>p. Inr (fst st, snd st @ [p])))"

lemma nested_equality_rejected:
  assumes "nested_lookup left \<and> nested_value (fst bs) \<or> nested_lookup right \<and> nested_value (snd bs)"
  shows "result_ok (lookup_equality st left right bs) = None"
  using assms
  by (cases bs) (auto simp: lookup_equality_def nested_value_def result_ok_rbind nested_binding_rejected nested_comparison_rejected
      split: option.splits)

lemma lookup_predicate_step_agree:
  assumes "lookup_parsers_agree pb pb'"
  shows "result_ok (lookup_predicate_step pb st raw) = result_ok (lookup_predicate_step pb' st raw)"
proof -
  have null: "result_ok (if pb (trim x) \<noteq> None then Inl e else rbind (lookup_column_name x) k) =
      result_ok (if pb' (trim x) \<noteq> None then Inl e else rbind (lookup_column_name x) k)" for x e and k :: "string \<Rightarrow> 'b sync_result"
    using assms [unfolded lookup_parsers_agree_def, rule_format, of "trim x"]
    by (auto simp: result_ok_rbind nested_not_column)
  have eq: "result_ok (lookup_equality st left right (pb left, pb right)) = result_ok (lookup_equality st left right (pb' left, pb' right))" for left right
  proof (cases "pb left = pb' left \<and> pb right = pb' right")
    case False
    then have "nested_lookup left \<and> nested_value (pb left) \<and> nested_value (pb' left) \<or>
        nested_lookup right \<and> nested_value (pb right) \<and> nested_value (pb' right)"
      using assms by (auto simp: lookup_parsers_agree_def)
    then show ?thesis by (subst (1 2) nested_equality_rejected) auto
  qed simp
  have "result_ok (case split_is_null p of
        Some (x, negated) \<Rightarrow> if pb (trim x) \<noteq> None then Inl e else rbind (lookup_column_name x) (k negated)
      | None \<Rightarrow> (case split_once (CHR ''='') p of None \<Rightarrow> Inl e' | Some (l, r) \<Rightarrow> lookup_equality st (trim l) (trim r) (pb (trim l), pb (trim r))))
    = result_ok (case split_is_null p of
        Some (x, negated) \<Rightarrow> if pb' (trim x) \<noteq> None then Inl e else rbind (lookup_column_name x) (k negated)
      | None \<Rightarrow> (case split_once (CHR ''='') p of None \<Rightarrow> Inl e' | Some (l, r) \<Rightarrow> lookup_equality st (trim l) (trim r) (pb' (trim l), pb' (trim r))))"
    for p e e' k
  proof (cases "split_is_null p")
    case None
    show ?thesis
    proof (cases "split_once (CHR ''='') p")
      case (Some lr)
      then show ?thesis using eq None by (cases lr) (simp only: option.case prod.case)
    qed (simp only: None option.case)
  next
    case (Some xn)
    then show ?thesis by (cases xn) (simp only: option.case prod.case null)
  qed
  then show ?thesis
    unfolding lookup_predicate_step_def lookup_equality_def [symmetric] Let_def if_distrib [of result_ok] by (simp only:)
qed

lemma lookup_plan_agree:
  assumes "lookup_parsers_agree pb pb'"
  shows "result_ok (parse_parameter_lookup_plan_with S pb raw) = result_ok (parse_parameter_lookup_plan_with S pb' raw)"
proof -
  have "result_ok (rfold (lookup_predicate_step pb) st ps) = result_ok (rfold (lookup_predicate_step pb') st ps)" for st ps
    by (rule result_ok_rfold) (rule lookup_predicate_step_agree [OF assms])
  then show ?thesis
    unfolding parse_parameter_lookup_plan_with_def Let_def if_distrib [of result_ok] result_ok_rbind by (simp only:)
qed

lemma query_column_agree:
  assumes "\<And>q. result_ok (L q) = result_ok (L' q)"
  shows "parse_parameter_query_column_binding S L b = parse_parameter_query_column_binding S L' b"
proof -
  have "(case L q of Inl _ \<Rightarrow> None | Inr l \<Rightarrow> Some (ParameterQueryColumn n l)) =
      (case L' q of Inl _ \<Rightarrow> None | Inr l \<Rightarrow> Some (ParameterQueryColumn n l))" for q n
    using assms [of q] by (cases "L q"; cases "L' q") simp_all
  then show ?thesis unfolding parse_parameter_query_column_binding_def by (simp only:)
qed

lemma query_column_nested:
  "nested_value (parse_parameter_query_column_binding S L b)"
  "\<not> nested_lookup b \<Longrightarrow> parse_parameter_query_column_binding S L (trim b) = None"
  by (auto simp: parse_parameter_query_column_binding_def nested_lookup_def nested_value_def Let_def
      split: Option.bind_splits list.splits sum.splits)

lemma first_some_append: "first_some (xs @ ys) = (case first_some xs of None \<Rightarrow> first_some ys | Some a \<Rightarrow> Some a)"
  by (induction xs) (auto split: option.splits)

lemma nested_not_bucket: "nested_lookup b \<Longrightarrow> strip_prefix ''bucket.'' (trim b) = None"
proof -
  assume "nested_lookup b"
  then obtain "to_ascii_lower (hd (trim b)) = CHR ''p''" "2 < length (trim b)" by (metis nested_lookup_text)
  then show ?thesis by (cases "trim b") (auto simp: strip_prefix_def to_ascii_lower_def)
qed

text \<open>Whatever parses the inner queries, the binding parsers differ on nested lookups only.\<close>

lemma binding_parsers_agree: "lookup_parsers_agree (parse_binding_with S L) (parse_binding_with S L')"
  unfolding lookup_parsers_agree_def
proof
  fix b
  show "parse_binding_with S L b = parse_binding_with S L' b \<or>
      nested_lookup b \<and> nested_value (parse_binding_with S L b) \<and> nested_value (parse_binding_with S L' b)"
  proof (cases "first_some (direct_bindings (trim b)) = None \<and> nested_lookup b")
    case True
    then have "parse_binding_with S M b = parse_parameter_query_column_binding S M (trim b)" for M
      by (simp add: parse_binding_with_def first_some_append nested_not_bucket split: option.split)
    then show ?thesis using True query_column_nested(1) by simp
  next
    case False
    then have "parse_binding_with S L b = parse_binding_with S L' b"
      by (auto simp: parse_binding_with_def Let_def first_some_append query_column_nested(2) split: option.split)
    then show ?thesis ..
  qed
qed

lemma parse_binding_at_agree: "lookup_parsers_agree (parse_binding_at S m) (parse_binding_at S n)"
proof -
  have "\<exists>L. parse_binding_at S k = parse_binding_with S L" for k
    by (cases k) (auto simp: fun_eq_iff)
  then show ?thesis using binding_parsers_agree by metis
qed

lemma parse_binding_at_stable: "parse_binding_at S (Suc m) b = parse_binding_at S (Suc n) b"
proof -
  have "result_ok (parse_parameter_lookup_plan_with S (parse_binding_at S m) q) =
      result_ok (parse_parameter_lookup_plan_with S (parse_binding_at S n) q)" for q
    by (rule lookup_plan_agree) (rule parse_binding_at_agree)
  from query_column_agree [OF this] show ?thesis by (simp add: parse_binding_with_def)
qed

section \<open>Generated fragments\<close>

lemma replace_sub_single: "replace_sub [q] r (c # s) = (if c = q then r else [c]) @ replace_sub [q] r s"
  by (simp add: starts_with_def)

lemma unescape_escape: "replace_sub [squote, squote] [squote] (escape_sql_string_literal s) = s"
  unfolding escape_sql_string_literal_def
proof (induction s)
  case (Cons c s)
  show ?case using Cons by (simp add: replace_sub_single starts_with_def del: replace_sub.simps(2)) (simp add: starts_with_def)
qed simp

lemma replace_absent: "q \<notin> set s \<Longrightarrow> replace_sub [q, q] r s = s"
  by (induction s) (auto simp: starts_with_def)

lemma parse_quoted: "parse_string_literal (squote # s @ [squote]) = Some (replace_sub [squote, squote] [squote] s)"
proof -
  have "trim (squote # s @ [squote]) = squote # s @ [squote]" by (rule trim_plain) simp_all
  then show ?thesis by (simp add: parse_string_literal_def)
qed

lemma parse_escaped: "parse_string_literal (squote # escape_sql_string_literal s @ [squote]) = Some s"
  by (simp add: parse_quoted unescape_escape)

lemma strip_call_inner_append:
  "map to_ascii_lower p = p \<Longrightarrow> strip_call_inner (p @ x @ '')'') p '')'' = Some x"
  by (simp add: strip_call_inner_def to_ascii_lowercase_def ends_with_def starts_with_def)

lemma strip_call_escaped:
  assumes "map to_ascii_lower p = p"
  shows "strip_call_argument (p @ [squote] @ escape_sql_string_literal s @ [squote] @ '')'') p '')'' = Some s"
proof -
  have "trim (squote # escape_sql_string_literal s @ [squote]) = squote # escape_sql_string_literal s @ [squote]"
    by (rule trim_plain) simp_all
  then show ?thesis
    using strip_call_inner_append [OF assms, of "squote # escape_sql_string_literal s @ [squote]"]
    by (simp add: strip_call_argument_def parse_escaped)
qed

lemma strip_call_other:
  assumes "\<not> starts_with q (map to_ascii_lower p @ map to_ascii_lower s)"
  shows "strip_call_argument (p @ s) q x = None"
  using assms by (simp add: strip_call_argument_def strip_call_inner_def to_ascii_lowercase_def)

lemma find_sub_skip: "c \<notin> set p \<Longrightarrow> find_sub (c # a) (p @ s) = map_option (\<lambda>i. length p + i) (find_sub (c # a) s)"
  by (induction p) (cases "find_sub (c # a) s"; auto simp: starts_with_def)+

lemma upper_not_dash: "CHR ''-'' \<notin> set p \<Longrightarrow> CHR ''-'' \<notin> set (map to_ascii_upper p)"
proof
  assume p: "CHR ''-'' \<notin> set p" and "CHR ''-'' \<in> set (map to_ascii_upper p)"
  then obtain c where c: "c \<in> set p" "to_ascii_upper c = CHR ''-''" by auto
  show False
  proof (cases "97 \<le> byte_val c \<and> byte_val c \<le> 122")
    case True
    then have "byte_val (char_of (byte_val c - 32) :: char) = byte_val (CHR ''-'')" using c by (simp add: to_ascii_upper_def)
    moreover have "byte_val c - 32 < 256" using byte_val_less [of c] by linarith
    ultimately show False using True by auto
  next
    case False
    then have "to_ascii_upper c = c" by (simp only: to_ascii_upper_def if_False)
    with c p show False by simp
  qed
qed

text \<open>The arrow comes after a prefix without a dash; that prefix decides the left operand.\<close>

lemma strip_arrow_other:
  assumes "CHR ''-'' \<notin> set p" and "p \<noteq> []" "plain_char (hd p)" "plain_char (last p)"
    and "take (length p) (map to_ascii_lower left) \<noteq> map to_ascii_lower p"
  shows "strip_arrow_string_argument (p @ s) left ''->>'' = None"
proof -
  have "\<not> eq_ignore_ascii_case (trim (p @ x)) left" for x
  proof -
    obtain z where "trim (p @ x) = p @ z" using trim_prefix [OF assms(3,4,2)] by blast
    then have "take (length p) (map to_ascii_lower (trim (p @ x))) = map to_ascii_lower p" by (simp add: take_map)
    with assms(5) show ?thesis by (auto simp: eq_ignore_ascii_case_def)
  qed
  moreover have "to_ascii_uppercase ''->>'' = ''->>''" by code_simp
  ultimately show ?thesis
    using find_sub_skip [OF upper_not_dash [OF assms(1)], of "''>>''" "map to_ascii_upper s"]
    by (cases "find_sub ''->>'' (map to_ascii_upper s)")
       (simp_all add: strip_arrow_string_argument_def split_ascii_case_insensitive_once_def to_ascii_uppercase_def)
qed

lemma trim_leading_space: "trim (CHR '' '' # s) = trim s"
proof -
  have ws: "'' '' \<in> set white_space" "list_all (\<lambda>w. w \<noteq> [] \<and> (hd w = CHR '' '' \<longrightarrow> w = '' '')) white_space" by code_simp+
  then obtain w where w: "find (\<lambda>w. take (length w) (CHR '' '' # s) = w) white_space = Some w"
    by (cases "find (\<lambda>w. take (length w) (CHR '' '' # s) = w) white_space") (auto simp: find_None_prefix)
  then have w': "w \<in> set white_space" "take (length w) (CHR '' '' # s) = w" by (auto simp: find_Some_iff)
  then have "w \<noteq> []" using ws(2) by (simp add: list_all_iff)
  then have "hd w = CHR '' ''" using w'(2) by (cases w) auto
  then have "w = '' ''" using ws(2) w'(1) by (simp add: list_all_iff)
  with w show ?thesis by (simp add: trim_def)
qed

lemma strip_arrow_here:
  assumes "CHR ''-'' \<notin> set p" and "trim (p @ '' '') = p"
  shows "strip_arrow_string_argument (p @ '' ->> '' @ [squote] @ escape_sql_string_literal s @ [squote]) p ''->>'' = Some s"
proof -
  let ?r = "squote # escape_sql_string_literal s @ [squote]"
  have "trim ?r = ?r" by (rule trim_plain) simp_all
  then have lit: "parse_string_literal (trim (CHR '' '' # ?r)) = Some s" by (simp add: trim_leading_space parse_escaped)
  have up: "map to_ascii_upper ''->> '' = ''->> ''" "map to_ascii_upper ''->>'' = ''->>''" "map to_ascii_upper '' '' = '' ''" by code_simp+
  have "CHR ''-'' \<notin> set (p @ '' '')" using assms(1) by simp
  from find_sub_skip [OF upper_not_dash [OF this], of "''>>''" "''->> '' @ map to_ascii_upper ?r"]
  have "find_sub ''->>'' (map to_ascii_upper ((p @ '' '') @ ''->> '' @ ?r)) = Some (length (p @ '' ''))"
    unfolding map_append up by (simp add: starts_with_def)
  then have "split_ascii_case_insensitive_once ((p @ '' '') @ ''->> '' @ ?r) ''->>'' = Some (p @ '' '', CHR '' '' # ?r)"
    unfolding split_ascii_case_insensitive_once_def to_ascii_uppercase_def up by simp
  then have "strip_arrow_string_argument ((p @ '' '') @ ''->> '' @ ?r) p ''->>'' = Some s"
    using lit assms(2) by (simp add: strip_arrow_string_argument_def eq_ignore_ascii_case_def)
  then show ?thesis by simp
qed

lemma eq_ignore_other:
  "take (length p) (map to_ascii_lower t) \<noteq> map to_ascii_lower p \<Longrightarrow> \<not> eq_ignore_ascii_case (p @ s) t"
  by (auto simp: eq_ignore_ascii_case_def) (metis append_eq_conv_conj length_map)

lemma strip_call_other_prefix:
  assumes "take (length q) (map to_ascii_lower p) \<noteq> take (length p) q"
  shows "strip_call_argument (p @ s) q x = None"
proof (rule strip_call_other)
  have "take (length p) (take (length q) (map to_ascii_lower p @ map to_ascii_lower s)) = take (length q) (map to_ascii_lower p)"
    by (simp add: min_def)
  then show "\<not> starts_with q (map to_ascii_lower p @ map to_ascii_lower s)"
    using assms unfolding starts_with_def by (metis take_take)
qed

lemma direct_bindings_append:
  assumes "p \<noteq> []" "plain_char (hd p)" "plain_char (last p)" "CHR ''-'' \<notin> set p"
  defines "call \<equiv> \<lambda>q. take (length q) (map to_ascii_lower p) = take (length p) q"
    and "text \<equiv> \<lambda>t. take (length p) (map to_ascii_lower t) = map to_ascii_lower p"
  shows "\<not> call ''auth.parameter('' \<Longrightarrow> \<not> text ''auth.user_id()'' \<Longrightarrow> \<not> text ''connection.parameters()'' \<Longrightarrow>
      \<not> call ''connection.parameter('' \<Longrightarrow> first_some (direct_bindings (p @ s)) = first_some (drop 4 (direct_bindings (p @ s)))"
    and "\<not> call ''subscription.parameter('' \<Longrightarrow> \<not> text ''request.user_id()'' \<Longrightarrow>
      first_some (drop 4 (direct_bindings (p @ s))) = first_some (drop 6 (direct_bindings (p @ s)))"
    and "\<not> text ''request.jwt()'' \<Longrightarrow> first_some (drop 6 (direct_bindings (p @ s))) = first_some (drop 7 (direct_bindings (p @ s)))"
    and "\<not> text ''request.parameters()'' \<Longrightarrow> first_some (drop 7 (direct_bindings (p @ s))) = first_some (drop 8 (direct_bindings (p @ s)))"
    and "\<not> call ''request.parameter_array('' \<Longrightarrow> first_some (drop 8 (direct_bindings (p @ s))) = None"
proof -
  have c: "strip_call_argument (p @ s) q x = None" if "\<not> call q" for q x
    using that strip_call_other_prefix by (simp only: call_def)
  have t: "\<not> eq_ignore_ascii_case (p @ s) q" "strip_arrow_string_argument (p @ s) q ''->>'' = None" if "\<not> text q" for q
    using that eq_ignore_other strip_arrow_other [OF assms(4,1,2,3)] by (simp_all only: text_def not_False_eq_True)
  show "\<not> call ''auth.parameter('' \<Longrightarrow> \<not> text ''auth.user_id()'' \<Longrightarrow> \<not> text ''connection.parameters()'' \<Longrightarrow>
      \<not> call ''connection.parameter('' \<Longrightarrow> first_some (direct_bindings (p @ s)) = first_some (drop 4 (direct_bindings (p @ s)))"
    by (simp add: direct_bindings_def c t)
  show "\<not> call ''subscription.parameter('' \<Longrightarrow> \<not> text ''request.user_id()'' \<Longrightarrow>
      first_some (drop 4 (direct_bindings (p @ s))) = first_some (drop 6 (direct_bindings (p @ s)))"
    by (simp add: direct_bindings_def c t)
  show "\<not> text ''request.jwt()'' \<Longrightarrow> first_some (drop 6 (direct_bindings (p @ s))) = first_some (drop 7 (direct_bindings (p @ s)))"
    by (simp add: direct_bindings_def t)
  show "\<not> text ''request.parameters()'' \<Longrightarrow> first_some (drop 7 (direct_bindings (p @ s))) = first_some (drop 8 (direct_bindings (p @ s)))"
    by (simp add: direct_bindings_def t)
  show "\<not> call ''request.parameter_array('' \<Longrightarrow> first_some (drop 8 (direct_bindings (p @ s))) = None"
    by (simp add: direct_bindings_def c)
qed

section \<open>Round trip of the generated fragments\<close>

lemma parse_binding_direct:
  assumes "trim v = v" and "first_some (direct_bindings v) = Some b"
  shows "parse_binding_with S L v = Some b"
  using assms by (simp add: parse_binding_with_def first_some_append)

lemma fragment_auth:
  "first_some (direct_bindings (''auth.parameter('' @ [squote] @ escape_sql_string_literal n @ [squote] @ '')'')) = Some (AuthParameter n)"
proof -
  have "map to_ascii_lower ''auth.parameter('' = ''auth.parameter(''" by (simp add: to_ascii_lower_def)
  from strip_call_escaped [OF this, of n] show ?thesis by (simp add: direct_bindings_def)
qed

lemma fragment_subscription:
  "first_some (direct_bindings (''subscription.parameter('' @ [squote] @ escape_sql_string_literal n @ [squote] @ '')'')) = Some (SubscriptionParameter n)"
proof -
  let ?s = "''parameter('' @ [squote] @ escape_sql_string_literal n @ [squote] @ '')''"
  have low: "map to_ascii_lower ''subscription.parameter('' = ''subscription.parameter(''" by (simp add: to_ascii_lower_def)
  have "first_some (direct_bindings (''subscription.'' @ ?s)) = first_some (drop 4 (direct_bindings (''subscription.'' @ ?s)))"
    by (rule direct_bindings_append(1)) (simp_all add: to_ascii_lower_def plain_char_def)
  also have "\<dots> = Some (SubscriptionParameter n)"
    using strip_call_escaped [OF low, of n] by (simp add: direct_bindings_def)
  finally show ?thesis by simp
qed

lemma fragment_jwt:
  "first_some (direct_bindings (''request.jwt() ->> '' @ [squote] @ escape_sql_string_literal n @ [squote])) = Some (RequestJwt n)"
proof -
  let ?s = "'' ->> '' @ [squote] @ escape_sql_string_literal n @ [squote]"
  have "first_some (direct_bindings (''request.jwt()'' @ ?s)) = first_some (drop 4 (direct_bindings (''request.jwt()'' @ ?s)))"
    by (rule direct_bindings_append(1)) (simp_all add: to_ascii_lower_def plain_char_def)
  also have "\<dots> = first_some (drop 6 (direct_bindings (''request.jwt()'' @ ?s)))"
    by (rule direct_bindings_append(2)) (simp_all add: to_ascii_lower_def plain_char_def)
  also have "strip_arrow_string_argument (''request.jwt()'' @ ?s) ''request.jwt()'' ''->>'' = Some n"
    by (rule strip_arrow_here) code_simp+
  then have "first_some (drop 6 (direct_bindings (''request.jwt()'' @ ?s))) = Some (RequestJwt n)"
    by (simp add: direct_bindings_def)
  finally show ?thesis by simp
qed

lemma fragment_parameter:
  "first_some (direct_bindings (''request.parameters() ->> '' @ [squote] @ escape_sql_string_literal n @ [squote])) = Some (RequestParameter n)"
proof -
  let ?s = "'' ->> '' @ [squote] @ escape_sql_string_literal n @ [squote]"
  have "first_some (direct_bindings (''request.parameters()'' @ ?s)) = first_some (drop 4 (direct_bindings (''request.parameters()'' @ ?s)))"
    by (rule direct_bindings_append(1)) (simp_all add: to_ascii_lower_def plain_char_def)
  also have "\<dots> = first_some (drop 6 (direct_bindings (''request.parameters()'' @ ?s)))"
    by (rule direct_bindings_append(2)) (simp_all add: to_ascii_lower_def plain_char_def)
  also have "\<dots> = first_some (drop 7 (direct_bindings (''request.parameters()'' @ ?s)))"
    by (rule direct_bindings_append(3)) (simp_all add: to_ascii_lower_def plain_char_def)
  also have "strip_arrow_string_argument (''request.parameters()'' @ ?s) ''request.parameters()'' ''->>'' = Some n"
    by (rule strip_arrow_here) code_simp+
  then have "first_some (drop 7 (direct_bindings (''request.parameters()'' @ ?s))) = Some (RequestParameter n)"
    by (simp add: direct_bindings_def)
  finally show ?thesis by simp
qed

lemma fragment_array:
  "first_some (direct_bindings (''request.parameter_array('' @ [squote] @ escape_sql_string_literal n @ [squote] @ '')'')) = Some (RequestParameterArray n)"
proof -
  let ?s = "''array('' @ [squote] @ escape_sql_string_literal n @ [squote] @ '')''"
  let ?p = "''request.parameter_''"
  have low: "map to_ascii_lower ''request.parameter_array('' = ''request.parameter_array(''" by (simp add: to_ascii_lower_def)
  have "first_some (direct_bindings (?p @ ?s)) = first_some (drop 4 (direct_bindings (?p @ ?s)))"
    by (rule direct_bindings_append(1)) (simp_all add: to_ascii_lower_def plain_char_def)
  also have "\<dots> = first_some (drop 6 (direct_bindings (?p @ ?s)))"
    by (rule direct_bindings_append(2)) (simp_all add: to_ascii_lower_def plain_char_def)
  also have "\<dots> = first_some (drop 7 (direct_bindings (?p @ ?s)))"
    by (rule direct_bindings_append(3)) (simp_all add: to_ascii_lower_def plain_char_def)
  also have "\<dots> = first_some (drop 8 (direct_bindings (?p @ ?s)))"
    by (rule direct_bindings_append(4)) (simp_all add: to_ascii_lower_def plain_char_def)
  also have "\<dots> = Some (RequestParameterArray n)"
    using strip_call_escaped [OF low, of n] by (simp add: direct_bindings_def)
  finally show ?thesis by simp
qed

lemma csv_quoted:
  "q \<notin> set x \<Longrightarrow> csv_split (Some q) d cur (x @ q # s) = csv_split None d (q # rev x @ cur) s"
  by (induction x arbitrary: cur) auto

lemma csv_escaped:
  "csv_split (Some squote) d cur (escape_sql_string_literal n @ [squote]) = [trim (rev cur @ escape_sql_string_literal n @ [squote])]"
proof (induction n arbitrary: cur)
  case (Cons c n)
  show ?case using Cons [of "c # cur"] Cons [of "squote # squote # cur"]
    by (simp add: escape_sql_string_literal_def replace_sub_single del: replace_sub.simps(2))
qed (simp add: escape_sql_string_literal_def)

lemma fragment_arguments:
  assumes "squote \<notin> set e"
  shows "split_top_level_csv ([squote] @ e @ [squote] @ '','' @ [squote] @ escape_sql_string_literal n @ [squote]) =
     [squote # e @ [squote], squote # escape_sql_string_literal n @ [squote]]"
proof -
  have "trim (squote # x @ [squote]) = squote # x @ [squote]" for x by (rule trim_plain) simp_all
  then show ?thesis
    using csv_quoted [OF assms, of 0 "[squote]" "CHR '','' # squote # escape_sql_string_literal n @ [squote]"]
    by (simp add: split_top_level_csv_def csv_escaped)
qed

lemma fragment_query_column:
  assumes "sl_b64_decode S e = Some q" and "squote \<notin> set e" and "utf8_valid q"
    and "L q = Inr l" and "normalize_identifier n = n" and "n \<noteq> []"
  shows "parse_binding_with S L (''parameter_query_column('' @ [squote] @ e @ [squote] @ '','' @ [squote]
      @ escape_sql_string_literal n @ [squote] @ '')'') = Some (ParameterQueryColumn n l)"
proof -
  let ?p = "''parameter_query_column(''"
  let ?inner = "[squote] @ e @ [squote] @ '','' @ [squote] @ escape_sql_string_literal n @ [squote]"
  let ?v = "?p @ ?inner @ '')''"
  have v: "trim ?v = ?v" by (rule trim_plain) (simp_all add: plain_char_def)
  have low: "map to_ascii_lower ?p = ?p" by (simp add: to_ascii_lower_def)
  have "first_some (direct_bindings ?v) = first_some (drop 4 (direct_bindings ?v))"
    by (rule direct_bindings_append(1)) (simp_all add: to_ascii_lower_def plain_char_def)
  also have "\<dots> = first_some (drop 6 (direct_bindings ?v))"
    by (rule direct_bindings_append(2)) (simp_all add: to_ascii_lower_def plain_char_def)
  also have "\<dots> = first_some (drop 7 (direct_bindings ?v))"
    by (rule direct_bindings_append(3)) (simp_all add: to_ascii_lower_def plain_char_def)
  also have "\<dots> = first_some (drop 8 (direct_bindings ?v))"
    by (rule direct_bindings_append(4)) (simp_all add: to_ascii_lower_def plain_char_def)
  also have "\<dots> = None"
    by (rule direct_bindings_append(5)) (simp_all add: to_ascii_lower_def plain_char_def)
  finally have direct: "first_some (direct_bindings ?v) = None" .
  have "parse_parameter_query_column_binding S L ?v = Some (ParameterQueryColumn n l)"
    unfolding parse_parameter_query_column_binding_def strip_call_inner_append [OF low] Option.bind.simps
      fragment_arguments [OF assms(2)]
    by (simp add: parse_quoted replace_absent [OF assms(2)] parse_escaped unescape_escape assms)
  then have "parse_binding_with S L ?v = Some (ParameterQueryColumn n l)"
    unfolding parse_binding_with_def Let_def v first_some_append direct by simp
  then show ?thesis by simp
qed

lemma reparse_lookup: "parse_parameter_lookup_plan S q = Inr l \<Longrightarrow> parse_parameter_lookup_plan S (raw_query l) = Inr l"
proof -
  assume l: "parse_parameter_lookup_plan S q = Inr l"
  then have "raw_query l = trim q"
    by (auto simp: parse_parameter_lookup_plan_def parse_parameter_lookup_plan_with_def Let_def
        split: if_splits elim!: rbindE)
  with l show ?thesis by (simp add: parse_parameter_lookup_plan_def parse_parameter_lookup_plan_with_def)
qed

lemma parse_binding_unfold: "parse_binding S b = parse_binding_with S (parse_parameter_lookup_plan S) b"
proof -
  have eq: "parse_binding S = parse_binding_at S 1" by (rule ext) (simp only: parse_binding_def)
  have "parse_parameter_lookup_plan S = parse_parameter_lookup_plan_with S (parse_binding_at S 1)"
    by (rule ext) (simp only: parse_parameter_lookup_plan_def eq)
  then show ?thesis using parse_binding_at_stable [of S 0 b 1] by (simp add: parse_binding_def)
qed

definition renderable :: "sql_lib \<Rightarrow> CanonicalBinding \<Rightarrow> bool" where
  "renderable S b =
     (case b of
        ParameterQueryColumn n l \<Rightarrow> n \<noteq> [] \<and> normalize_identifier n = n \<and> utf8_valid (raw_query l) \<and>
          parse_parameter_lookup_plan S (raw_query l) = Inr l
      | BucketParameter _ \<Rightarrow> False
      | _ \<Rightarrow> True)"

lemma fragment_roundtrip:
  assumes "\<And>q. sl_b64_decode S (sl_b64_encode S q) = Some q" and "\<And>q. squote \<notin> set (sl_b64_encode S q)"
    and "renderable S b"
  shows "parse_binding S (binding_sql_fragment S b) = Some b"
proof (cases b)
  case (ParameterQueryColumn n l)
  then show ?thesis
    using assms(3) fragment_query_column [OF assms(1,2), of "raw_query l" "parse_parameter_lookup_plan S" l n]
    by (simp add: parse_binding_unfold renderable_def)
next
  case RequestUserId
  show ?thesis unfolding RequestUserId parse_binding_unfold by (rule parse_binding_direct) code_simp+
qed (use assms(3) in \<open>auto simp: parse_binding_unfold renderable_def
      intro!: parse_binding_direct trim_plain fragment_auth [simplified] fragment_subscription [simplified]
        fragment_jwt [simplified] fragment_parameter [simplified] fragment_array [simplified]
      simp: plain_char_def\<close>)

end
