(* ===== verification/Lowering_Facts.thy ===== *)
theory Lowering_Facts
  imports Rule_Source Replica
begin

text \<open>
  What lowering produces: the loop of \<open>lower_canonical_semantic_plan\<close> splits into independent folds, one
  per table of the execution plan; each table is then described by the data queries of the canonical
  plan alone, and every bucket the plan resolves has its route indexes.
\<close>

section \<open>Maps of lists\<close>

lemma map_of_hm_push:
  "map_of (hm_push k x m) = (map_of m)(k \<mapsto> (case map_of m k of None \<Rightarrow> [] | Some xs \<Rightarrow> xs) @ [x])"
  by (simp add: hm_push_def update_conv')

lemma map_of_pushes:
  "map_of (foldl (\<lambda>m x. hm_push (f x) (g x) m) m xs) k =
     (let ys = map g (filter (\<lambda>x. f x = k) xs) in
      if ys = [] then map_of m k
      else Some ((case map_of m k of None \<Rightarrow> [] | Some l \<Rightarrow> l) @ ys))"
  by (induction xs arbitrary: m) (auto simp: map_of_hm_push Let_def split: option.splits)

section \<open>The lowering loop as independent folds\<close>

definition index_step ::
  "(string \<times> string list list) list \<times> (string \<times> string list) list \<Rightarrow> CanonicalDataQuery \<Rightarrow>
   (string \<times> string list list) list \<times> (string \<times> string list) list" where
  "index_step acc query =
     (let route_columns = query_route_columns query; key = (dq_output_table query, route_columns) in
      if route_columns \<noteq> [] \<and> key \<notin> set (snd acc)
      then (hm_push (dq_output_table query) route_columns (fst acc), key # snd acc) else acc)"

definition push_template ::
  "json_lib \<Rightarrow> (string \<times> AccumulatorQueryTemplate list) list \<Rightarrow> CanonicalStream \<times> CanonicalDataQuery \<Rightarrow>
   (string \<times> AccumulatorQueryTemplate list) list" where
  "push_template J m = (\<lambda>(s, q). hm_push (dq_output_table q) (accumulator_template J s q) m)"

definition stream_queries :: "CanonicalStream list \<Rightarrow> (CanonicalStream \<times> CanonicalDataQuery) list" where
  "stream_queries streams = concat (map (\<lambda>s. map (Pair s) (data_queries s)) streams)"

definition queries_lowered ::
  "json_lib \<Rightarrow> (CanonicalStream \<times> CanonicalDataQuery) list \<Rightarrow> (string \<times> CompiledTablePlan) list \<Rightarrow>
   lowering_state \<Rightarrow> lowering_state" where
  "queries_lowered J sqs tables st =
     (let ix = foldl index_step (route_index_columns_by_object (fst st), snd st) (map snd sqs) in
      ((fst st)\<lparr>tables_by_source := tables,
         lookup_tables_by_source := foldl add_lookup (lookup_tables_by_source (fst st))
           (concat (map (dq_bucket_parameters \<circ> snd) sqs)),
         route_index_columns_by_object := fst ix,
         accumulator_queries_by_object :=
           foldl (push_template J) (accumulator_queries_by_object (fst st)) sqs\<rparr>, snd ix))"

lemma queries_lowered_Nil: "queries_lowered J [] (tables_by_source (fst st)) st = st"
  by (cases st) (simp add: queries_lowered_def)

lemma queries_lowered_append:
  "queries_lowered J (xs @ ys) tables st = queries_lowered J ys tables (queries_lowered J xs t st)"
  by (simp add: queries_lowered_def Let_def)

lemma tables_queries_lowered [simp]: "tables_by_source (fst (queries_lowered J sqs t st)) = t"
  by (simp add: queries_lowered_def Let_def)

lemma lower_query_eq:
  "lower_query J s st q = rbind (add_table q (tables_by_source (fst st))) (\<lambda>t. Inr (queries_lowered J [(s, q)] t st))"
  by (cases st; cases "add_table q (tables_by_source (fst st))")
     (simp_all add: lower_query_def queries_lowered_def index_step_def push_template_def Let_def)

lemma lower_queries_eq:
  "rfold (lower_query J s) st qs =
     rbind (rfold (\<lambda>t q. add_table q t) (tables_by_source (fst st)) qs)
       (\<lambda>t. Inr (queries_lowered J (map (Pair s) qs) t st))"
proof (induction qs arbitrary: st)
  case Nil
  show ?case by (simp add: queries_lowered_Nil)
next
  case (Cons q qs)
  show ?case
    by (cases "add_table q (tables_by_source (fst st))")
       (simp_all add: lower_query_eq [of J s st q] Cons queries_lowered_append [of J "[(s, q)]", simplified, symmetric])
qed

definition streams_named :: "CanonicalStream list \<Rightarrow> lowering_state \<Rightarrow> lowering_state" where
  "streams_named streams st =
     ((fst st)\<lparr>streams_by_name := foldl (\<lambda>m s. AList.update (cs_name s) s m) (streams_by_name (fst st)) streams,
        default_stream_names := default_stream_names (fst st) @ map cs_name (filter cs_auto_subscribe streams),
        stream_bucket_groups_by_name :=
          foldl (\<lambda>m s. AList.update (cs_name s) (stream_bucket_groups s) m) (stream_bucket_groups_by_name (fst st)) streams\<rparr>,
      snd st)"

lemma streams_named_Nil: "streams_named [] st = st"
  by (simp add: streams_named_def)

lemma streams_named_append: "streams_named (xs @ ys) st = streams_named ys (streams_named xs st)"
  by (simp add: streams_named_def)

lemma streams_named_lowered:
  "streams_named ss (queries_lowered J sqs t st) = queries_lowered J sqs t (streams_named ss st)"
  by (simp add: streams_named_def queries_lowered_def Let_def)

lemma tables_streams_named [simp]: "tables_by_source (fst (streams_named ss st)) = tables_by_source (fst st)"
  by (simp add: streams_named_def)

definition unnamed :: "lowering_state \<Rightarrow> string \<Rightarrow> bool" where
  "unnamed st n \<longleftrightarrow> map_of (streams_by_name (fst st)) n = None \<and> map_of (stream_bucket_groups_by_name (fst st)) n = None"

lemma unnamed_lowered:
  "unnamed (queries_lowered J sqs t (streams_named [s] st)) n \<longleftrightarrow> n \<noteq> cs_name s \<and> unnamed st n"
  by (simp add: unnamed_def queries_lowered_def streams_named_def Let_def update_conv')

lemma lower_stream_eq:
  "lower_stream S st s =
     rbind (validate_parameter_lookup_request_filters S s) (\<lambda>_.
       if \<not> unnamed st (cs_name s) then Inl (SyncRuleError ''duplicate stream name in canonical semantic plan'')
       else rbind (rfold (\<lambda>t q. add_table q t) (tables_by_source (fst st)) (data_queries s))
         (\<lambda>t. Inr (queries_lowered (sl_json S) (map (Pair s) (data_queries s)) t (streams_named [s] st))))"
  by (cases st; cases "validate_parameter_lookup_request_filters S s")
     (simp_all add: lower_stream_def lower_queries_eq unnamed_def streams_named_def Let_def)

lemma lower_streams_iff:
  "rfold (lower_stream S) st ss = Inr st' \<longleftrightarrow>
     (\<forall>s \<in> set ss. validate_parameter_lookup_request_filters S s = Inr () \<and> unnamed st (cs_name s)) \<and>
     distinct (map cs_name ss) \<and>
     (\<exists>t. rfold (\<lambda>t q. add_table q t) (tables_by_source (fst st)) (map snd (stream_queries ss)) = Inr t \<and>
        st' = queries_lowered (sl_json S) (stream_queries ss) t (streams_named ss st))"
proof (induction ss arbitrary: st)
  case Nil
  show ?case by (auto simp: stream_queries_def streams_named_Nil queries_lowered_Nil)
next
  case (Cons s ss)
  let ?qs = "data_queries s"
  have q: "stream_queries (s # ss) = map (Pair s) ?qs @ stream_queries ss" by (simp add: stream_queries_def)
  have n: "streams_named (s # ss) st = streams_named ss (streams_named [s] st)" for st
    using streams_named_append [of "[s]" ss st] by simp
  have l: "queries_lowered (sl_json S) (stream_queries ss) t'
      (streams_named ss (queries_lowered (sl_json S) (map (Pair s) ?qs) t (streams_named [s] st)))
    = queries_lowered (sl_json S) (stream_queries (s # ss)) t' (streams_named (s # ss) st)" for t t'
    by (simp add: q n streams_named_lowered queries_lowered_append [symmetric])
  show ?case
    by (cases "validate_parameter_lookup_request_filters S s"; cases "unnamed st (cs_name s)";
        cases "rfold (\<lambda>t q. add_table q t) (tables_by_source (fst st)) ?qs")
       (auto simp: lower_stream_eq [of S st s] Cons.IH unnamed_lowered l q rfold_append comp_def image_iff)
qed

text \<open>Lowering as a whole: what it accepts, and the plan it returns.\<close>

lemma lowering_iff:
  "lower_canonical_semantic_plan S c = Inr plan \<longleftrightarrow>
     sp_version c = CANONICAL_PLAN_VERSION \<and> sp_edition c = SUPPORTED_EDITION \<and>
     sp_compatibility_version c = SUPPORTED_COMPATIBILITY_VERSION \<and> sp_storage_version c = SUPPORTED_STORAGE_VERSION \<and>
     (\<forall>s \<in> set (sp_streams c). validate_parameter_lookup_request_filters S s = Inr ()) \<and>
     distinct (map cs_name (sp_streams c)) \<and>
     (\<exists>t. rfold (\<lambda>t q. add_table q t) [] (map snd (stream_queries (sp_streams c))) = Inr t \<and>
        plan = (fst (queries_lowered (sl_json S) (stream_queries (sp_streams c)) t
                  (streams_named (sp_streams c) (empty_execution_plan c, []))))
          \<lparr>storage_contract_id := canonical_storage_contract_id (sl_json S) c,
           storage_contract_fingerprint := contract_fingerprint S (canonical_storage_contract_id (sl_json S) c)\<rparr>)"
proof -
  have u: "unnamed (empty_execution_plan c, []) n" for n by (simp add: unnamed_def empty_execution_plan_def)
  have t: "tables_by_source (empty_execution_plan c) = []" by (simp add: empty_execution_plan_def)
  have "rbind (rfold (lower_stream S) (empty_execution_plan c, []) (sp_streams c)) (\<lambda>st. Inr (f (fst st))) = Inr plan \<longleftrightarrow>
      (\<forall>s \<in> set (sp_streams c). validate_parameter_lookup_request_filters S s = Inr ()) \<and> distinct (map cs_name (sp_streams c)) \<and>
      (\<exists>t. rfold (\<lambda>t q. add_table q t) [] (map snd (stream_queries (sp_streams c))) = Inr t \<and>
        plan = f (fst (queries_lowered (sl_json S) (stream_queries (sp_streams c)) t
                  (streams_named (sp_streams c) (empty_execution_plan c, [])))))" for f
    by (simp only: rbind_Inr_iff lower_streams_iff u t fst_conv simp_thms sum.inject) blast
  from this [of "\<lambda>plan. plan\<lparr>storage_contract_id := canonical_storage_contract_id (sl_json S) c,
      storage_contract_fingerprint := contract_fingerprint S (canonical_storage_contract_id (sl_json S) c)\<rparr>"]
  show ?thesis
    by (simp add: lower_canonical_semantic_plan_def case_prod_unfold Let_def)
qed

section \<open>Table plans\<close>

definition tables_agree :: "CanonicalDataQuery list \<Rightarrow> bool" where
  "tables_agree qs \<longleftrightarrow> (\<forall>q \<in> set qs. \<forall>q' \<in> set qs. dq_source_table q = dq_source_table q' \<longrightarrow>
     dq_output_table q = dq_output_table q' \<and>
     object_id_expression_from_projection (dq_projection q) = object_id_expression_from_projection (dq_projection q'))"

definition table_plan_of :: "CanonicalDataQuery list \<Rightarrow> string \<Rightarrow> CompiledTablePlan \<Rightarrow> bool" where
  "table_plan_of qs k tp \<longleftrightarrow> tp_source_table tp = k \<and> sorted (tp_route_columns tp) \<and>
     set (tp_route_columns tp) = (\<Union>q \<in> {q \<in> set qs. dq_source_table q = k}. bp_source_column ` set (dq_bucket_parameters q)) \<and>
     (\<forall>q \<in> set qs. dq_source_table q = k \<longrightarrow> tp_object_type tp = dq_output_table q \<and>
        tp_object_id_expression tp = object_id_expression_from_projection (dq_projection q))"

definition tables_of :: "CanonicalDataQuery list \<Rightarrow> (string \<times> CompiledTablePlan) list \<Rightarrow> bool" where
  "tables_of qs t \<longleftrightarrow> dom (map_of t) = dq_source_table ` set qs \<and> distinct (map fst t) \<and>
     (\<forall>k tp. map_of t k = Some tp \<longrightarrow> table_plan_of qs k tp)"

lemma set_merge_columns: "set (foldl (\<lambda>cs c. if c \<in> set cs then cs else cs @ [c]) xs ys) = set xs \<union> set ys"
  by (induction ys arbitrary: xs) auto

lemma set_query_route_columns [simp]: "set (query_route_columns q) = bp_source_column ` set (dq_bucket_parameters q)"
  by (simp add: query_route_columns_def)

lemma table_plan_of_other: "dq_source_table q \<noteq> k \<Longrightarrow> table_plan_of (qs @ [q]) k tp \<longleftrightarrow> table_plan_of qs k tp"
  unfolding table_plan_of_def by (intro conj_cong refl arg_cong2 [where f = "(=)"]) auto

lemma add_table_step:
  assumes "tables_of qs t" and "add_table q t = Inr t'"
  shows "tables_of (qs @ [q]) t'"
proof -
  let ?k = "dq_source_table q"
  obtain tp where t': "t' = AList.update ?k tp t" and tp: "table_plan_of (qs @ [q]) ?k tp"
  proof (cases "map_of t ?k")
    case None
    then have none: "\<forall>q' \<in> set qs. dq_source_table q' \<noteq> ?k"
      using assms(1) unfolding tables_of_def by (metis domIff imageI)
    then have "{q' \<in> set (qs @ [q]). dq_source_table q' = ?k} = {q}" by auto
    with assms(2) None none show thesis
      by (intro that [of "\<lparr> tp_source_table = ?k, tp_object_type = dq_output_table q,
            tp_route_columns = query_route_columns q,
            tp_object_id_expression = object_id_expression_from_projection (dq_projection q) \<rparr>"])
         (simp_all add: add_table_def Let_def table_plan_of_def query_route_columns_def)
  next
    case (Some e)
    then have "table_plan_of qs ?k e" using assms(1) by (simp add: tables_of_def)
    moreover have "{q' \<in> set (qs @ [q]). dq_source_table q' = ?k} = insert q {q' \<in> set qs. dq_source_table q' = ?k}" by auto
    ultimately show thesis
      using assms(2) Some
      by (intro that [of "e\<lparr>tp_route_columns := sort (foldl (\<lambda>cs c. if c \<in> set cs then cs else cs @ [c])
            (tp_route_columns e) (query_route_columns q))\<rparr>"])
         (auto simp: add_table_def Let_def table_plan_of_def set_merge_columns split: if_splits)
  qed
  have "distinct (map fst t')" using assms(1) by (simp add: t' tables_of_def distinct_update)
  moreover have "dom (map_of t') = dq_source_table ` set (qs @ [q])"
    using assms(1) by (simp add: t' tables_of_def update_conv')
  moreover have "table_plan_of (qs @ [q]) k tp'" if "map_of t' k = Some tp'" for k tp'
  proof (cases "k = ?k")
    case False
    then show ?thesis using that assms(1) by (simp add: t' update_conv' tables_of_def table_plan_of_other)
  qed (use that tp in \<open>simp add: t' update_conv'\<close>)
  ultimately show ?thesis by (simp add: tables_of_def)
qed

lemma add_tables: "rfold (\<lambda>t q. add_table q t) [] qs = Inr t \<Longrightarrow> tables_of qs t"
proof (rule rfold_track [where P = tables_of])
  show "tables_of [] []" by (simp add: tables_of_def)
qed (auto intro: add_table_step)

lemma tables_of_agree: "tables_of qs t \<Longrightarrow> tables_agree qs"
  unfolding tables_agree_def
proof (intro ballI impI)
  fix q q' assume t: "tables_of qs t" and q: "q \<in> set qs" "q' \<in> set qs" "dq_source_table q = dq_source_table q'"
  then obtain tp where "map_of t (dq_source_table q) = Some tp"
    unfolding tables_of_def by (metis domD imageI)
  then have "table_plan_of qs (dq_source_table q) tp" using t by (simp add: tables_of_def)
  then show "dq_output_table q = dq_output_table q' \<and>
     object_id_expression_from_projection (dq_projection q) = object_id_expression_from_projection (dq_projection q')"
    using q by (metis table_plan_of_def)
qed

lemma add_table_total:
  assumes "tables_of qs t" and "tables_agree (qs @ [q])"
  shows "\<exists>t'. add_table q t = Inr t'"
proof (cases "map_of t (dq_source_table q)")
  case (Some e)
  then have e: "table_plan_of qs (dq_source_table q) e" and "dq_source_table q \<in> dom (map_of t)"
    using assms(1) by (auto simp add: tables_of_def simp del: map_of_eq_Some_iff)
  then have "dq_source_table q \<in> dq_source_table ` set qs" using assms(1) by (simp only: tables_of_def)
  then obtain q' where q': "q' \<in> set qs" "dq_source_table q' = dq_source_table q" by auto
  then have "tp_object_type e = dq_output_table q'" "tp_object_id_expression e = object_id_expression_from_projection (dq_projection q')"
    using e by (simp_all only: table_plan_of_def)
  moreover have "dq_output_table q' = dq_output_table q"
      "object_id_expression_from_projection (dq_projection q') = object_id_expression_from_projection (dq_projection q)"
    using q' assms(2) unfolding tables_agree_def by (metis Un_iff list.set_intros(1) set_append)+
  ultimately show ?thesis using Some by (simp add: add_table_def Let_def)
qed (simp add: add_table_def Let_def)

lemma add_tables_iff: "(\<exists>t. rfold (\<lambda>t q. add_table q t) [] qs = Inr t) \<longleftrightarrow> tables_agree qs"
proof
  show "\<exists>t. rfold (\<lambda>t q. add_table q t) [] qs = Inr t \<Longrightarrow> tables_agree qs"
    using add_tables tables_of_agree by blast
  show "tables_agree qs \<Longrightarrow> \<exists>t. rfold (\<lambda>t q. add_table q t) [] qs = Inr t"
  proof (induction qs rule: rev_induct)
    case (snoc q qs)
    have "tables_agree qs" using snoc.prems unfolding tables_agree_def set_append by blast
    with snoc.IH obtain t where t: "rfold (\<lambda>t q. add_table q t) [] qs = Inr t" by blast
    obtain t' where "add_table q t = Inr t'"
      using add_table_total [OF add_tables [OF t] snoc.prems] by blast
    with t show ?case by (simp add: rfold_append)
  qed simp
qed

section \<open>Route indexes\<close>

definition listed :: "(string \<times> 'a list) list \<Rightarrow> string \<Rightarrow> 'a \<Rightarrow> bool" where
  "listed m k x \<longleftrightarrow> (\<exists>xs. map_of m k = Some xs \<and> x \<in> set xs)"

lemma listed_hm_push: "listed (hm_push k x m) k' x' \<longleftrightarrow> k' = k \<and> x' = x \<or> listed m k' x'"
  by (auto simp: listed_def map_of_hm_push split: option.splits)

definition index_inv :: "CanonicalDataQuery list \<Rightarrow> (string \<times> string list list) list \<times> (string \<times> string list) list \<Rightarrow> bool" where
  "index_inv qs acc \<longleftrightarrow>
     (\<forall>ty cols. (ty, cols) \<in> set (snd acc) \<longleftrightarrow> listed (fst acc) ty cols) \<and>
     set (snd acc) = (\<lambda>q. (dq_output_table q, query_route_columns q)) ` {q \<in> set qs. query_route_columns q \<noteq> []}"

lemma index_step_inv:
  assumes "index_inv qs acc"
  shows "index_inv (qs @ [q]) (index_step acc q)"
proof -
  let ?k = "(dq_output_table q, query_route_columns q)"
  have seen: "(ty, cols) \<in> set (snd acc) \<longleftrightarrow> listed (fst acc) ty cols" for ty cols
    using assms unfolding index_inv_def by blast
  have split: "{q' \<in> set (qs @ [q]). query_route_columns q' \<noteq> []} =
      (if query_route_columns q = [] then {} else {q}) \<union> {q' \<in> set qs. query_route_columns q' \<noteq> []}" by auto
  have keys: "set (snd (index_step acc q)) = (if query_route_columns q = [] then {} else {?k}) \<union> set (snd acc)"
    by (auto simp: index_step_def Let_def)
  have "listed (fst (index_step acc q)) ty cols \<longleftrightarrow>
      query_route_columns q \<noteq> [] \<and> (ty, cols) = ?k \<or> listed (fst acc) ty cols" for ty cols
    using seen by (auto simp: index_step_def Let_def listed_hm_push)
  then have "(ty, cols) \<in> set (snd (index_step acc q)) \<longleftrightarrow> listed (fst (index_step acc q)) ty cols" for ty cols
    unfolding keys using seen by simp
  moreover have "set (snd (index_step acc q)) =
      (\<lambda>q. (dq_output_table q, query_route_columns q)) ` {q' \<in> set (qs @ [q]). query_route_columns q' \<noteq> []}"
    using assms unfolding keys split image_Un by (simp add: index_inv_def)
  ultimately show ?thesis unfolding index_inv_def by blast
qed

lemma index_fold: "index_inv qs (foldl index_step ([], []) qs)"
proof (induction qs rule: rev_induct)
  case (snoc q qs)
  then show ?case by (simp add: index_step_inv)
qed (simp add: index_inv_def listed_def)

lemma indexes_exact:
  "listed (fst (foldl index_step ([], []) qs)) ty cols \<longleftrightarrow>
     cols \<noteq> [] \<and> (\<exists>q \<in> set qs. dq_output_table q = ty \<and> query_route_columns q = cols)"
proof -
  have "listed (fst (foldl index_step ([], []) qs)) ty cols \<longleftrightarrow>
      (ty, cols) \<in> (\<lambda>q. (dq_output_table q, query_route_columns q)) ` {q \<in> set qs. query_route_columns q \<noteq> []}"
    using index_fold [of qs] unfolding index_inv_def by blast
  then show ?thesis by auto
qed

section \<open>Lookup tables\<close>

fun lookup_of :: "CanonicalBinding \<Rightarrow> ParameterLookupPlan option" where
  "lookup_of (ParameterQueryColumn _ l) = Some l"
| "lookup_of _ = None"

definition param_lookups :: "CanonicalBucketParameter list \<Rightarrow> ParameterLookupPlan set" where
  "param_lookups ps = {l. \<exists>p \<in> set ps. lookup_of (bp_binding p) = Some l}"

definition lookup_table_ok :: "CanonicalBucketParameter list \<Rightarrow> string \<Rightarrow> CompiledLookupTablePlan \<Rightarrow> bool" where
  "lookup_table_ok ps k lt \<longleftrightarrow> lt_source_table lt = k \<and> distinct (map lookup_id (lt_lookups lt)) \<and>
     set (lt_lookups lt) \<subseteq> {l \<in> param_lookups ps. lookup_source_table l = k} \<and>
     (\<forall>l \<in> param_lookups ps. lookup_source_table l = k \<longrightarrow> lookup_id l \<in> lookup_id ` set (lt_lookups lt))"

definition lookup_tables_ok :: "CanonicalBucketParameter list \<Rightarrow> CompiledLookupTablePlan btree \<Rightarrow> bool" where
  "lookup_tables_ok ps T \<longleftrightarrow> bt_sorted T \<and> dom (map_of T) = lookup_source_table ` param_lookups ps \<and>
     (\<forall>k lt. map_of T k = Some lt \<longrightarrow> lookup_table_ok ps k lt)"

lemma param_lookups_snoc:
  "param_lookups (ps @ [p]) = (case lookup_of (bp_binding p) of None \<Rightarrow> {} | Some l \<Rightarrow> {l}) \<union> param_lookups ps"
  by (auto simp: param_lookups_def split: option.splits)

lemma add_lookup_None: "lookup_of (bp_binding p) = None \<Longrightarrow> add_lookup T p = T"
  by (cases "bp_binding p") (simp_all add: add_lookup_def)

lemma add_lookup_Some:
  "lookup_of (bp_binding p) = Some l \<Longrightarrow> add_lookup T p =
     (let table = (case map_of T (lookup_source_table l) of Some t \<Rightarrow> t
                   | None \<Rightarrow> \<lparr> lt_source_table = lookup_source_table l, lt_lookups = [] \<rparr>) in
      bt_insert (lookup_source_table l)
        (if lookup_id l \<in> lookup_id ` set (lt_lookups table) then table
         else table\<lparr>lt_lookups := lt_lookups table @ [l]\<rparr>) T)"
  by (cases "bp_binding p") (auto simp: add_lookup_def Let_def list_ex_iff image_iff)

lemma add_lookup_step:
  assumes "lookup_tables_ok ps T"
  shows "lookup_tables_ok (ps @ [p]) (add_lookup T p)"
proof (cases "lookup_of (bp_binding p)")
  case None
  then show ?thesis using assms
    by (simp add: add_lookup_None lookup_tables_ok_def lookup_table_ok_def param_lookups_snoc)
next
  case (Some l)
  define k where "k = lookup_source_table l"
  define table where "table = (case map_of T k of Some t \<Rightarrow> t | None \<Rightarrow> \<lparr> lt_source_table = k, lt_lookups = [] \<rparr>)"
  define new where "new = (if lookup_id l \<in> lookup_id ` set (lt_lookups table) then table
      else table\<lparr>lt_lookups := lt_lookups table @ [l]\<rparr>)"
  have T': "add_lookup T p = bt_insert k new T"
    unfolding k_def new_def table_def using add_lookup_Some [OF Some, of T] by (simp only: Let_def)
  have ps: "param_lookups (ps @ [p]) = insert l (param_lookups ps)" by (simp add: param_lookups_snoc Some)
  have "lookup_table_ok ps k table"
  proof (cases "map_of T k")
    case None
    then have "k \<notin> lookup_source_table ` param_lookups ps" using assms by (metis lookup_tables_ok_def domIff)
    then show ?thesis using None by (auto simp: table_def lookup_table_ok_def)
  qed (use assms in \<open>simp add: table_def lookup_tables_ok_def\<close>)
  then have new: "lookup_table_ok (ps @ [p]) k new"
    by (auto simp: lookup_table_ok_def new_def ps k_def)
  have old: "lookup_table_ok (ps @ [p]) k' lt" if "k' \<noteq> k" "lookup_table_ok ps k' lt" for k' lt
    using that by (auto simp: lookup_table_ok_def ps k_def)
  have "dom (map_of (bt_insert k new T)) = lookup_source_table ` param_lookups (ps @ [p])"
    using assms by (simp add: lookup_tables_ok_def ps k_def)
  moreover have "lookup_table_ok (ps @ [p]) k' lt" if "map_of (bt_insert k new T) k' = Some lt" for k' lt
    using that new old assms by (cases "k' = k") (simp_all add: lookup_tables_ok_def)
  ultimately show ?thesis using assms by (simp add: T' lookup_tables_ok_def)
qed

lemma lookup_fold: "lookup_tables_ok ps (foldl add_lookup [] ps)"
proof (induction ps rule: rev_induct)
  case Nil
  show ?case by (simp add: lookup_tables_ok_def param_lookups_def bt_sorted_def)
qed (simp add: add_lookup_step)

lemma distinct_concat_keys:
  assumes "distinct (map fst T)" and "\<And>k v. (k, v) \<in> set T \<Longrightarrow> distinct (f v)"
    and "\<And>k v k' v'. (k, v) \<in> set T \<Longrightarrow> (k', v') \<in> set T \<Longrightarrow> k \<noteq> k' \<Longrightarrow> set (f v) \<inter> set (f v') = {}"
  shows "distinct (concat (map (\<lambda>(k, v). f v) T))"
  using assms
proof (induction T)
  case (Cons e T)
  obtain k v where e: "e = (k, v)" by (cases e)
  have "distinct (concat (map (\<lambda>(k, v). f v) T))"
    using Cons.prems by (intro Cons.IH) (simp, force, metis (no_types, lifting) list.set_intros(2))
  moreover have "set (f v) \<inter> set (f v') = {}" if "(k', v') \<in> set T" for k' v'
    using Cons.prems(1) Cons.prems(3) [of k v k' v'] that by (force simp: e)
  ultimately show ?case using Cons.prems(2) [of k v] by (fastforce simp: e)
qed simp

lemma lookup_tables_plan_ok:
  assumes "lookup_tables_ok ps (lookup_tables_by_source plan)"
    and "\<forall>l \<in> param_lookups ps. \<forall>l' \<in> param_lookups ps. lookup_id l = lookup_id l' \<longrightarrow> lookup_source_table l = lookup_source_table l'"
  shows "lookup_plan_ok plan"
proof -
  let ?T = "lookup_tables_by_source plan"
  have d: "distinct (map fst ?T)"
    using assms(1) by (simp add: lookup_tables_ok_def bt_sorted_distinct)
  have ok: "lookup_table_ok ps k lt" if "(k, lt) \<in> set ?T" for k lt
    using that assms(1) d by (metis lookup_tables_ok_def map_of_eq_Some_iff)
  have "distinct (concat (map (\<lambda>(k, lt). map lookup_id (lt_lookups lt)) ?T))"
  proof (rule distinct_concat_keys [OF d])
    show "distinct (map lookup_id (lt_lookups lt))" if "(k, lt) \<in> set ?T" for k lt
      using ok [OF that] by (simp add: lookup_table_ok_def)
    show "set (map lookup_id (lt_lookups lt)) \<inter> set (map lookup_id (lt_lookups lt')) = {}"
      if "(k, lt) \<in> set ?T" "(k', lt') \<in> set ?T" "k \<noteq> k'" for k lt k' lt'
    proof -
      have "lookup_source_table l = k \<and> l \<in> param_lookups ps" if "l \<in> set (lt_lookups lt)" for l
        using ok [OF \<open>(k, lt) \<in> set ?T\<close>] that by (auto simp: lookup_table_ok_def)
      moreover have "lookup_source_table l = k' \<and> l \<in> param_lookups ps" if "l \<in> set (lt_lookups lt')" for l
        using ok [OF \<open>(k', lt') \<in> set ?T\<close>] that by (auto simp: lookup_table_ok_def)
      ultimately show ?thesis using assms(2) \<open>k \<noteq> k'\<close> by (auto simp: image_iff) metis
    qed
  qed
  moreover have "\<forall>(k, lt) \<in> set ?T. lt_source_table lt = k" using ok by (auto simp: lookup_table_ok_def)
  ultimately show ?thesis using d by (simp add: lookup_plan_ok_def)
qed

section \<open>Resolved buckets\<close>

definition group_ok :: "CanonicalDataQuery list \<Rightarrow> StreamBucketGroup \<Rightarrow> bool" where
  "group_ok qs g \<longleftrightarrow> (\<forall>q \<in> set (sg_queries g). q \<in> set qs \<and>
     sg_bucket_parameters g = merged_bucket_parameters_from_queries [dq_bucket_parameters q] \<and>
     sg_request_filter g = dq_request_filter q)"

lemma group_ok_mono: "group_ok qs g \<Longrightarrow> set qs \<subseteq> set qs' \<Longrightarrow> group_ok qs' g"
  by (auto simp: group_ok_def)

lemma group_ok_add:
  "group_ok qs g \<Longrightarrow> q \<in> set qs \<Longrightarrow>
   sg_bucket_parameters g = merged_bucket_parameters_from_queries [dq_bucket_parameters q] \<Longrightarrow>
   sg_request_filter g = dq_request_filter q \<Longrightarrow> group_ok qs (g\<lparr>sg_queries := sg_queries g @ [q]\<rparr>)"
  by (auto simp: group_ok_def)

lemma add_query_to_group_ok:
  assumes "add_query_to_group (merged_bucket_parameters_from_queries [dq_bucket_parameters q]) (dq_request_filter q) q gs = Some gs'"
    and "\<forall>g \<in> set gs. group_ok qs g" and "q \<in> set qs"
  shows "\<forall>g \<in> set gs'. group_ok qs g"
  using assms(1,2)
proof (induction gs arbitrary: gs')
  case (Cons g gs)
  then show ?case using group_ok_add [of qs g q] assms(3) by (auto split: if_splits)
qed simp

lemma push_query_ok:
  assumes "\<forall>g \<in> set gs. group_ok qs g"
  shows "\<forall>g \<in> set (push_query gs q). group_ok (qs @ [q]) g"
proof -
  have old: "\<forall>g \<in> set gs. group_ok (qs @ [q]) g" using assms by (auto intro: group_ok_mono)
  show ?thesis
  proof (cases "add_query_to_group (merged_bucket_parameters_from_queries [dq_bucket_parameters q]) (dq_request_filter q) q gs")
    case None
    then show ?thesis using old by (simp add: push_query_def Let_def) (simp add: group_ok_def)
  next
    case (Some gs')
    from add_query_to_group_ok [OF this old] Some show ?thesis by (simp add: push_query_def Let_def)
  qed
qed

lemma stream_bucket_groups_ok: "g \<in> set (stream_bucket_groups s) \<Longrightarrow> group_ok (data_queries s) g"
proof -
  have "\<forall>g \<in> set (foldl push_query [] qs). group_ok qs g" for qs
    by (induction qs rule: rev_induct) (simp_all add: push_query_ok)
  then show "g \<in> set (stream_bucket_groups s) \<Longrightarrow> group_ok (data_queries s) g"
    by (simp add: stream_bucket_groups_def)
qed

lemma merge_names:
  "bp_name ` set (foldl merge_bucket_parameter m ps) = bp_name ` set m \<union> bp_name ` set ps"
proof (induction ps arbitrary: m)
  case (Cons p ps)
  have "bp_name ` set (merge_bucket_parameter m p) = insert (bp_name p) (bp_name ` set m)"
    by (auto simp: merge_bucket_parameter_def list_ex_iff intro: rev_image_eqI)
  then show ?case using Cons.IH [of "merge_bucket_parameter m p"] by auto
qed simp

lemma merged_names: "bp_name ` set (merged_bucket_parameters_from_queries [ps]) = bp_name ` set ps"
  using merge_names [of "[]" ps] by (simp add: merged_bucket_parameters_from_queries_def)

lemma bt_of_list_keys: "fst ` set (bt_of_list xs) = fst ` set xs"
proof -
  have "fst ` set (foldl (\<lambda>m (k, v). bt_insert k v m) m xs) = fst ` set m \<union> fst ` set xs" for m
  proof (induction xs arbitrary: m)
    case (Cons e xs)
    show ?case using Cons.IH [of "bt_insert (fst e) (snd e) m"] by (simp add: case_prod_beta fst_bt_insert)
  qed simp
  from this [of "[]"] show ?thesis by (simp add: bt_of_list_def)
qed

lemma resolve_query_keys:
  assumes "\<forall>p \<in> set (dq_bucket_parameters q). bp_name p \<in> fst ` set rv"
  shows "fst ` set (rq_route_constraints (resolve_query J rv q)) = set (query_route_columns q)"
proof -
  have some: "\<exists>v. map_of rv (bp_name p) = Some v" if "p \<in> set (dq_bucket_parameters q)" for p
    using assms that by (metis domD dom_map_of_conv_image_fst)
  have "fst ` set (List.map_filter (\<lambda>p. map_option (Pair (bp_source_column p)) (map_of rv (bp_name p))) ps) =
      bp_source_column ` set ps" if "set ps \<subseteq> set (dq_bucket_parameters q)" for ps
    using that
  proof (induction ps)
    case (Cons p ps)
    then obtain v where "map_of rv (bp_name p) = Some v" using some [of p] by auto
    with Cons show ?case by (simp add: map_filter_simps)
  qed (simp add: map_filter_simps)
  then show ?thesis by (simp add: resolve_query_def Let_def bt_of_list_keys)
qed

lemma resolve_bucket_request_queries:
  assumes "resolve_bucket_request J plan name = Some b"
    and "\<And>n s. map_of (streams_by_name plan) n = Some s \<Longrightarrow> map_of (stream_bucket_groups_by_name plan) n = Some (stream_bucket_groups s)"
  obtains n s rv where "map_of (streams_by_name plan) n = Some s"
    and "\<forall>rq \<in> set (rb_queries b). \<exists>q \<in> set (data_queries s). rq = resolve_query J rv q \<and>
          (\<forall>p \<in> set (dq_bucket_parameters q). bp_name p \<in> fst ` set rv)"
proof -
  obtain n s i grp vals where s: "map_of (streams_by_name plan) n = Some s"
    and grp: "find (\<lambda>g. sg_index g = i) (stream_bucket_groups s) = Some grp"
    and b: "resolve_group J name s grp vals = Some b"
    using assms by (auto simp: resolve_bucket_request_def bind_eq_Some_conv split: prod.splits)
  have "grp \<in> set (stream_bucket_groups s)" using grp by (auto simp: find_Some_iff)
  then have g: "group_ok (data_queries s) grp" by (rule stream_bucket_groups_ok)
  let ?rv = "bt_of_list (zip (map bp_name (sg_bucket_parameters grp)) vals)"
  have len: "length vals = length (sg_bucket_parameters grp)" and rb: "rb_queries b = map (resolve_query J ?rv) (sg_queries grp)"
    using b by (auto simp: resolve_group_def Let_def split: if_splits list.splits)
  have keys: "fst ` set ?rv = bp_name ` set (sg_bucket_parameters grp)"
    unfolding bt_of_list_keys using len by (simp add: set_map [symmetric] map_fst_zip del: set_map)
  have "bp_name p \<in> fst ` set ?rv" if "q \<in> set (sg_queries grp)" "p \<in> set (dq_bucket_parameters q)" for q p
    unfolding keys using g that merged_names [of "dq_bucket_parameters q"] by (simp add: group_ok_def)
  then show thesis
    using that [OF s, of ?rv] g rb by (fastforce simp: group_ok_def)
qed

section \<open>The lowered plan\<close>

lemma named_fold:
  assumes "distinct (map cs_name ss)"
  shows "map_of (foldl (\<lambda>m s. AList.update (cs_name s) (f s) m) [] ss) n = Some x \<longleftrightarrow>
     (\<exists>s \<in> set ss. cs_name s = n \<and> x = f s)"
  using assms
proof (induction ss rule: rev_induct)
  case (snoc s ss)
  then show ?case by (auto simp: update_conv' image_iff)
qed simp

lemma push_template_fun:
  "push_template J = (\<lambda>m x. hm_push (dq_output_table (snd x)) (accumulator_template J (fst x) (snd x)) m)"
  by (simp add: fun_eq_iff push_template_def case_prod_beta)

lemma lowered_fields:
  assumes "lower_canonical_semantic_plan S c = Inr plan"
  defines "qs \<equiv> map snd (stream_queries (sp_streams c))"
  shows "map_of (streams_by_name plan) n = Some s \<longleftrightarrow> s \<in> set (sp_streams c) \<and> cs_name s = n"
    and "map_of (stream_bucket_groups_by_name plan) n = Some gs \<longleftrightarrow>
      (\<exists>s \<in> set (sp_streams c). cs_name s = n \<and> gs = stream_bucket_groups s)"
    and "default_stream_names plan = map cs_name (filter cs_auto_subscribe (sp_streams c))"
    and "tables_of qs (tables_by_source plan)"
    and "lookup_tables_ok (concat (map dq_bucket_parameters qs)) (lookup_tables_by_source plan)"
    and "listed (route_index_columns_by_object plan) ty cols \<longleftrightarrow>
      cols \<noteq> [] \<and> (\<exists>q \<in> set qs. dq_output_table q = ty \<and> query_route_columns q = cols)"
    and "map_of (accumulator_queries_by_object plan) ty =
      (let ts = map (\<lambda>(s, q). accumulator_template (sl_json S) s q)
                  (filter (\<lambda>(s, q). dq_output_table q = ty) (stream_queries (sp_streams c))) in
       if ts = [] then None else Some ts)"
    and "canonical plan = c"
    and "storage_contract_id plan = canonical_storage_contract_id (sl_json S) c"
    and "distinct (map cs_name (sp_streams c))"
proof -
  let ?sqs = "stream_queries (sp_streams c)"
  obtain t where d: "distinct (map cs_name (sp_streams c))" and t: "rfold (\<lambda>t q. add_table q t) [] qs = Inr t"
    and plan: "plan = (fst (queries_lowered (sl_json S) ?sqs t (streams_named (sp_streams c) (empty_execution_plan c, []))))
          \<lparr>storage_contract_id := canonical_storage_contract_id (sl_json S) c,
           storage_contract_fingerprint := contract_fingerprint S (canonical_storage_contract_id (sl_json S) c)\<rparr>"
    using assms(1) unfolding lowering_iff qs_def by blast
  note defs = plan queries_lowered_def streams_named_def empty_execution_plan_def Let_def
  show "map_of (streams_by_name plan) n = Some s \<longleftrightarrow> s \<in> set (sp_streams c) \<and> cs_name s = n"
    using named_fold [OF d, of "\<lambda>s. s"] by (auto simp: defs)
  show "map_of (stream_bucket_groups_by_name plan) n = Some gs \<longleftrightarrow>
      (\<exists>s \<in> set (sp_streams c). cs_name s = n \<and> gs = stream_bucket_groups s)"
    using named_fold [OF d, of stream_bucket_groups] by (simp add: defs)
  show "tables_of qs (tables_by_source plan)" using add_tables [OF t] by (simp add: defs)
  show "lookup_tables_ok (concat (map dq_bucket_parameters qs)) (lookup_tables_by_source plan)"
    using lookup_fold [of "concat (map dq_bucket_parameters qs)"] by (simp add: defs qs_def comp_def)
  show "listed (route_index_columns_by_object plan) ty cols \<longleftrightarrow>
      cols \<noteq> [] \<and> (\<exists>q \<in> set qs. dq_output_table q = ty \<and> query_route_columns q = cols)"
    using indexes_exact [of qs ty cols] by (simp add: defs qs_def)
  show "map_of (accumulator_queries_by_object plan) ty =
      (let ts = map (\<lambda>(s, q). accumulator_template (sl_json S) s q) (filter (\<lambda>(s, q). dq_output_table q = ty) ?sqs) in
       if ts = [] then None else Some ts)"
    using map_of_pushes [of "\<lambda>(s, q). dq_output_table q" "\<lambda>(s, q). accumulator_template (sl_json S) s q" "[]" ?sqs ty]
    by (simp add: defs push_template_fun case_prod_unfold)
qed (use assms(1) in \<open>auto simp: lowering_iff queries_lowered_def streams_named_def empty_execution_plan_def Let_def\<close>)

lemma stream_queries_member: "(s, q) \<in> set (stream_queries ss) \<longleftrightarrow> s \<in> set ss \<and> q \<in> set (data_queries s)"
  by (auto simp: stream_queries_def)

lemma lowered_indexes:
  assumes "lower_canonical_semantic_plan S c = Inr plan" and "resolve_bucket_request J plan name = Some b"
  shows "bucket_indexed plan b"
proof -
  note f = lowered_fields [OF assms(1)]
  have groups: "map_of (stream_bucket_groups_by_name plan) n = Some (stream_bucket_groups s)"
    if "map_of (streams_by_name plan) n = Some s" for n s
    using that f(1,2) by blast
  obtain n s rv where s: "map_of (streams_by_name plan) n = Some s"
    and rq: "\<forall>rq \<in> set (rb_queries b). \<exists>q \<in> set (data_queries s). rq = resolve_query J rv q \<and>
          (\<forall>p \<in> set (dq_bucket_parameters q). bp_name p \<in> fst ` set rv)"
    by (rule resolve_bucket_request_queries [OF assms(2) groups])
  show ?thesis
    unfolding bucket_indexed_def
  proof
    fix r assume "r \<in> set (rb_queries b)"
    then obtain q where q: "q \<in> set (data_queries s)" "r = resolve_query J rv q"
      "\<forall>p \<in> set (dq_bucket_parameters q). bp_name p \<in> fst ` set rv" using rq by blast
    have keys: "set (query_route_columns q) = fst ` set (rq_route_constraints r)"
      using resolve_query_keys [OF q(3)] q(2) by simp
    have "q \<in> set (map snd (stream_queries (sp_streams c)))"
      using s f(1) q(1) stream_queries_member by (metis imageI set_map snd_conv)
    then have "query_route_columns q \<noteq> [] \<Longrightarrow> listed (route_index_columns_by_object plan) (rq_object_type r) (query_route_columns q)"
      using f(6) q(2) by (auto simp: resolve_query_def Let_def)
    moreover have "bt_sorted (rq_route_constraints r)" by (simp add: q(2) resolve_query_def Let_def)
    ultimately show "bt_sorted (rq_route_constraints r) \<and> (rq_route_constraints r = [] \<or>
         (\<exists>ixs columns. map_of (route_index_columns_by_object plan) (rq_object_type r) = Some ixs \<and> columns \<in> set ixs \<and>
            set columns = fst ` set (rq_route_constraints r)))"
      using keys unfolding listed_def by (cases "query_route_columns q = []") (simp, metis)
  qed
qed

end
