(* ===== verification/Rule_Guarantees.thy ===== *)
theory Rule_Guarantees
  imports Query_Facts Lowering_Facts Evaluation
begin

text \<open>
  The properties of the rule compiler, with their witnesses: the recursion of the binding parser, the
  round trip of generated SQL, the data queries a compiled stream keeps, what lowering accepts, and
  what the lowered plan provides to the store and the readers.
\<close>

section \<open>Shared facts\<close>

lemma merge_plain:
  assumes "list_all (\<lambda>p. bp_source_column p = bp_name p) m" and "list_all (\<lambda>p. bp_source_column p = bp_name p) ps"
  shows "set (foldl merge_bucket_parameter m ps) = set m \<union> set ps"
  using assms
proof (induction ps arbitrary: m)
  case (Cons p ps)
  have copy: "\<lparr> bp_name = bp_name p, bp_source_column = bp_name p, bp_binding = bp_binding p \<rparr> = p"
    using Cons.prems(2) by simp
  have same: "e = p" if "e \<in> set m" "bp_name e = bp_name p" "bp_binding e = bp_binding p" for e
    using that Cons.prems by (intro CanonicalBucketParameter.equality) (auto simp: list_all_iff)
  have step: "set (merge_bucket_parameter m p) = insert p (set m)"
    using same by (auto simp: merge_bucket_parameter_def copy list_ex_iff)
  have "list_all (\<lambda>p. bp_source_column p = bp_name p) (merge_bucket_parameter m p)"
    using Cons.prems step by (simp add: list_all_iff)
  with Cons step show ?case by simp
qed simp

lemma distinct_pushes: "distinct (map fst m) \<Longrightarrow> distinct (map fst (foldl (push_template J) m xs))"
  by (induction xs arbitrary: m) (simp_all add: push_template_fun hm_push_def distinct_update)

lemma lowered_templates:
  assumes "lower_canonical_semantic_plan S c = Inr plan" and "(ty, ts) \<in> set (accumulator_queries_by_object plan)" and "a \<in> set ts"
  shows "\<exists>s q. (s, q) \<in> set (stream_queries (sp_streams c)) \<and> a = accumulator_template (sl_json S) s q"
proof -
  have "distinct (map fst (accumulator_queries_by_object plan))"
    using assms(1) by (auto simp: lowering_iff queries_lowered_def streams_named_def empty_execution_plan_def Let_def distinct_pushes)
  then have "map_of (accumulator_queries_by_object plan) ty = Some ts" using assms(2) by simp
  then have "ts = map (\<lambda>(s, q). accumulator_template (sl_json S) s q)
      (filter (\<lambda>(s, q). dq_output_table q = ty) (stream_queries (sp_streams c)))"
    unfolding lowered_fields(7) [OF assms(1)] by (simp add: Let_def split: if_splits)
  then show ?thesis using assms(3) by auto
qed

section \<open>An example\<close>

text \<open>A reference base64: a quote is one character, every other byte is marked.\<close>

definition ref_b64 :: "bytes \<Rightarrow> string" where
  "ref_b64 q = concat (map (\<lambda>c. if c = squote then ''s'' else [CHR ''c'', c]) q)"

fun ref_b64_dec :: "string \<Rightarrow> bytes option" where
  "ref_b64_dec [] = Some []"
| "ref_b64_dec (x # r) =
     (if x = CHR ''s'' then map_option (Cons squote) (ref_b64_dec r)
      else (case r of [] \<Rightarrow> None | c # r' \<Rightarrow> map_option (Cons c) (ref_b64_dec r')))"

lemma ref_b64_roundtrip [simp]: "ref_b64_dec (ref_b64 q) = Some q"
  by (induction q) (simp_all add: ref_b64_def)

lemma ref_b64_no_quote [simp]: "squote \<notin> set (ref_b64 q)"
  by (auto simp: ref_b64_def)

definition ref_sql :: sql_lib where
  "ref_sql = \<lparr> sl_json = ref_json, sl_sha256 = rev, sl_b64_encode = ref_b64, sl_b64_decode = ref_b64_dec \<rparr>"

definition ex_parameter :: CanonicalBucketParameter where
  "ex_parameter = \<lparr> bp_name = ''user_id'', bp_source_column = ''owner'', bp_binding = RequestUserId \<rparr>"

definition ex_query :: "string \<Rightarrow> CanonicalBucketParameter list \<Rightarrow> CanonicalDataQuery" where
  "ex_query table params = \<lparr> dq_source_table = table, dq_output_table = table, dq_bucket_parameters = params,
     dq_row_filter = None, dq_request_filter = None, dq_projection = Star \<rparr>"

definition ex_stream :: "string \<Rightarrow> bool \<Rightarrow> CanonicalDataQuery list \<Rightarrow> CanonicalStream" where
  "ex_stream name auto qs = \<lparr> cs_name = name, cs_source_table = ''tasks'', cs_output_table = ''tasks'',
     cs_auto_subscribe = auto, cs_bucket_parameters = [], cs_row_filter = None, cs_request_filter = None,
     cs_projection = Star, cs_data_queries = qs \<rparr>"

definition ex_canonical :: CanonicalSemanticPlan where
  "ex_canonical = \<lparr> sp_version = 1, sp_edition = 3, sp_compatibility_version = 1, sp_storage_version = 1,
     sp_streams = [ex_stream ''mine'' False [ex_query ''tasks'' [ex_parameter], ex_query ''notes'' [ex_parameter]],
                   ex_stream ''all'' True []] \<rparr>"

definition ex_lowered :: RustExecutionPlan where
  "ex_lowered = (case lower_canonical_semantic_plan ref_sql ex_canonical of Inr p \<Rightarrow> p | Inl _ \<Rightarrow> empty_execution_plan ex_canonical)"

lemma ex_lowered_eq: "lower_canonical_semantic_plan ref_sql ex_canonical = Inr ex_lowered"
proof -
  have "case lower_canonical_semantic_plan ref_sql ex_canonical of Inr c \<Rightarrow> True | Inl _ \<Rightarrow> False" by code_simp
  then show ?thesis by (simp add: ex_lowered_def split: sum.splits)
qed

definition ex_bucket_name :: string where
  "ex_bucket_name = bucket_name_for_stream_group ref_json ''mine'' 0 [''u1'']"

definition ex_resolved :: ResolvedSyncBucket where
  "ex_resolved = the (resolve_bucket_request ref_json ex_lowered ex_bucket_name)"

lemma ex_resolved_eq: "resolve_bucket_request ref_json ex_lowered ex_bucket_name = Some ex_resolved"
proof -
  let ?s = "ex_stream ''mine'' False [ex_query ''tasks'' [ex_parameter], ex_query ''notes'' [ex_parameter]]"
  have "map_of (streams_by_name ex_lowered) ''mine'' = Some ?s"
    "map_of (stream_bucket_groups_by_name ex_lowered) ''mine'' = Some (stream_bucket_groups ?s)"
    using lowered_fields(1,2) [OF ex_lowered_eq] by (auto simp: ex_canonical_def ex_stream_def)
  then have "resolve_bucket_request ref_json ex_lowered ex_bucket_name \<noteq> None"
    by (simp add: exec ex_bucket_name_def ex_stream_def ex_query_def ex_parameter_def
        take_Cons' drop_Cons' cong: exec_cong del: exec_del)
  then show ?thesis by (auto simp: ex_resolved_def)
qed

lemma ex_parse:
  "parse_stream_query ref_sql ''SELECT * FROM tasks'' = Inr \<lparr> sq_source_table = ''tasks'', sq_bucket_parameters = [],
     sq_row_filter = None, sq_request_filter = None, sq_projection = Star \<rparr>"
  by (simp add: parse_stream_query_def to_ascii_uppercase_def to_ascii_upper_def starts_with_def str_slice_def
      parse_source_table_def first_from_table_def split_top_level_csv_def normalize_identifier_def split_whitespace_def
      parse_projection_def parse_where_clause_def trim_quotes_def strip_prefix_def Let_def trim_plain plain_char_def
      plain_no_space [of "_ # _", simplified])

section \<open>Parsing\<close>

text \<open>
  C37. The binding parser and the lookup parser, which call each other through an encoded query in the code,
  satisfy the code's own recursion equations, and parsing to a greater depth changes nothing: a query
  encoded inside a query is always refused.
\<close>

theorem binding_parser_recursion:
  "parse_binding S b = parse_binding_with S (parse_parameter_lookup_plan S) b \<and>
   parse_parameter_lookup_plan S q = parse_parameter_lookup_plan_with S (parse_binding S) q \<and>
   parse_binding_at S (Suc n) b = parse_binding S b"
  using parse_binding_unfold [of S b] parse_binding_at_stable [of S n b 0]
  by (simp add: parse_binding_def parse_parameter_lookup_plan_def)

text \<open>
  C36. The SQL fragment the rewriting generates for a binding parses back to that binding, whatever
  quotes, arrows, commas or parentheses its name contains. A lookup comes back with the plan that was
  encoded, provided base64 decodes what it encodes and writes no quote.
\<close>

theorem fragment_parses_back:
  assumes "\<And>q. sl_b64_decode S (sl_b64_encode S q) = Some q" and "\<And>q. squote \<notin> set (sl_b64_encode S q)"
    and "renderable S b"
  shows "parse_binding S (binding_sql_fragment S b) = Some b"
  using assms by (rule fragment_roundtrip)

theorem fragment_parses_back_witness:
  "parse_binding ref_sql (binding_sql_fragment ref_sql (RequestJwt ([squote] @ '' ->> a, b)''))) =
     Some (RequestJwt ([squote] @ '' ->> a, b)''))"
  by (rule fragment_parses_back) (simp_all add: ref_sql_def renderable_def)

text \<open>
  Two texts make the compiler panic instead of returning an error: a stream query with an empty
  select list, and a parameter query with an empty FROM clause.
\<close>

theorem empty_clause_panics:
  assumes "starts_with ''SELECT FROM '' (to_ascii_uppercase (trim query))"
    and "find_sub '' FROM '' (to_ascii_uppercase parameter_query) = Some f"
    and "find_sub '' WHERE '' (to_ascii_uppercase parameter_query) = Some (f + 5)"
  shows "parse_stream_query S query = Inl SyncPanic \<and> parse_parameter_query S parameter_query = Inl SyncPanic"
proof -
  obtain r where r: "to_ascii_uppercase (trim query) = ''SELECT FROM '' @ r"
    using assms(1) unfolding starts_with_def by (metis append_take_drop_id)
  have "find_sub '' FROM '' (''SELECT FROM '' @ r) = Some 6" by (simp add: starts_with_def)
  then have "parse_stream_query S query = Inl SyncPanic"
    by (simp add: parse_stream_query_def Let_def r starts_with_def str_slice_def)
  moreover have "parse_parameter_query S parameter_query = Inl SyncPanic"
    using assms(2,3) by (simp add: parse_parameter_query_def Let_def str_slice_def)
  ultimately show ?thesis ..
qed

theorem empty_clause_panics_witness:
  "parse_stream_query ref_sql ''SELECT FROM tasks'' = Inl SyncPanic \<and>
   parse_parameter_query ref_sql ''SELECT a FROM WHERE b = c'' = Inl SyncPanic"
  by (rule empty_clause_panics [where f = 8])
     (simp_all add: trim_plain plain_char_def to_ascii_uppercase_def to_ascii_upper_def starts_with_def)

section \<open>Compiling\<close>

text \<open>
  C38. A compiled stream keeps its queries: \<open>data_queries\<close> gives back every parsed query with its table, its
  filters, its projection and its bucket parameters, also when the compiler leaves the list out and
  rebuilds the only query from the stream's own fields.
\<close>

theorem compiled_stream_keeps_queries:
  assumes "compile_stream_definition S name queries auto = Inr s" and "rmap (parse_stream_query S) queries = Inr parsed"
  shows "list_all2 (\<lambda>q p. dq_source_table q = sq_source_table p \<and> dq_output_table q = sq_source_table p \<and>
      dq_row_filter q = sq_row_filter p \<and> dq_request_filter q = sq_request_filter p \<and>
      dq_projection q = sq_projection p \<and> set (dq_bucket_parameters q) = set (sq_bucket_parameters p))
    (data_queries s) parsed"
proof (cases parsed)
  case Nil
  then show ?thesis using assms by (simp add: compile_stream_definition_def)
next
  case (Cons p ps)
  show ?thesis
  proof (cases "ps = [] \<and> plain_query (parsed_data_query p)")
    case True
    then have "set (merged_bucket_parameters parsed) = set (sq_bucket_parameters p)"
      using merge_plain [of "[]" "sq_bucket_parameters p"] Cons
      by (simp add: merged_bucket_parameters_def merged_bucket_parameters_from_queries_def plain_query_def parsed_data_query_def)
    then show ?thesis
      using assms True Cons
      by (auto simp: compile_stream_definition_def Let_def data_queries_def plain_query_def parsed_data_query_def)
  next
    case False
    then have "data_queries s = map parsed_data_query parsed"
      using assms Cons by (auto simp: compile_stream_definition_def Let_def data_queries_def)
    then show ?thesis by (simp add: list_all2_map1 parsed_data_query_def list.rel_refl)
  qed
qed

theorem compiled_stream_keeps_queries_witness:
  "case compile_stream_definition ref_sql ''all'' [''SELECT * FROM tasks''] True of
     Inl _ \<Rightarrow> False
   | Inr s \<Rightarrow> list_all2 (\<lambda>q p. dq_source_table q = sq_source_table p \<and> dq_output_table q = sq_source_table p \<and>
       dq_row_filter q = sq_row_filter p \<and> dq_request_filter q = sq_request_filter p \<and>
       dq_projection q = sq_projection p \<and> set (dq_bucket_parameters q) = set (sq_bucket_parameters p))
     (data_queries s) [\<lparr> sq_source_table = ''tasks'', sq_bucket_parameters = [],
       sq_row_filter = None, sq_request_filter = None, sq_projection = Star \<rparr>]"
proof -
  have p: "rmap (parse_stream_query ref_sql) [''SELECT * FROM tasks''] = Inr [\<lparr> sq_source_table = ''tasks'', sq_bucket_parameters = [],
       sq_row_filter = None, sq_request_filter = None, sq_projection = Star \<rparr>]" by (simp add: ex_parse)
  then obtain s where s: "compile_stream_definition ref_sql ''all'' [''SELECT * FROM tasks''] True = Inr s"
    unfolding compile_stream_definition_def by (simp add: Let_def)
  from compiled_stream_keeps_queries [OF s p] show ?thesis by (simp only: s sum.case)
qed

section \<open>Lowering\<close>

text \<open>
  C39. Lowering succeeds exactly on a plan of the supported versions whose streams have different names,
  mirror the request predicates of their lookups, and give each source table one output table and one
  object id expression.
\<close>

theorem lowering_accepts_exactly:
  "(\<exists>plan. lower_canonical_semantic_plan S c = Inr plan) \<longleftrightarrow>
     sp_version c = CANONICAL_PLAN_VERSION \<and> sp_edition c = SUPPORTED_EDITION \<and>
     sp_compatibility_version c = SUPPORTED_COMPATIBILITY_VERSION \<and> sp_storage_version c = SUPPORTED_STORAGE_VERSION \<and>
     list_all (\<lambda>s. validate_parameter_lookup_request_filters S s = Inr ()) (sp_streams c) \<and>
     distinct (map cs_name (sp_streams c)) \<and> tables_agree (map snd (stream_queries (sp_streams c)))"
  unfolding lowering_iff list_all_iff using add_tables_iff [of "map snd (stream_queries (sp_streams c))"] by blast

text \<open>
  C19. The lowered plan is the canonical plan in tables: a stream and its bucket groups are found under its
  name, the default streams are the auto-subscribed ones in order, a table plan collects the sorted
  route columns of all queries of its table, the accumulator templates of an object type are its
  queries in order, and there is a route index for exactly the column lists of the routed queries.
\<close>

theorem lowered_tables_exact:
  assumes "lower_canonical_semantic_plan S c = Inr plan"
  defines "qs \<equiv> map snd (stream_queries (sp_streams c))"
  shows "(stream_lookup plan n = Some s \<longleftrightarrow> s \<in> set (sp_streams c) \<and> cs_name s = n) \<and>
    default_stream_names plan = map cs_name (filter cs_auto_subscribe (sp_streams c)) \<and>
    (table_plan plan k = Some tp \<longrightarrow> table_plan_of qs k tp) \<and>
    (table_plan plan k = None \<longleftrightarrow> k \<notin> dq_source_table ` set qs) \<and>
    map_of (accumulator_queries_by_object plan) ty =
      (let ts = map (\<lambda>(s, q). accumulator_template (sl_json S) s q)
                  (filter (\<lambda>(s, q). dq_output_table q = ty) (stream_queries (sp_streams c))) in
       if ts = [] then None else Some ts) \<and>
    (listed (route_index_columns_by_object plan) ty cols \<longleftrightarrow>
      cols \<noteq> [] \<and> (\<exists>q \<in> set qs. dq_output_table q = ty \<and> query_route_columns q = cols)) \<and>
    storage_contract_id plan = canonical_storage_contract_id (sl_json S) c"
proof -
  note f = lowered_fields [OF assms(1)]
  have t: "tables_of qs (tables_by_source plan)" using f(4) by (simp only: qs_def)
  then have "table_plan plan k = Some tp \<longrightarrow> table_plan_of qs k tp" "table_plan plan k = None \<longleftrightarrow> k \<notin> dq_source_table ` set qs"
    unfolding table_plan_def tables_of_def by (blast, metis domIff)
  then show ?thesis unfolding stream_lookup_def qs_def using f(1,3,6,7,9) by simp
qed

theorem lowered_tables_exact_witness:
  "table_plan ex_lowered ''tasks'' \<noteq> None \<and> listed (route_index_columns_by_object ex_lowered) ''notes'' [''owner'']"
  using lowered_tables_exact [OF ex_lowered_eq, of _ _ "''tasks''" _ "''notes''" "[''owner'']"]
  by (simp add: ex_canonical_def ex_stream_def ex_query_def ex_parameter_def stream_queries_def data_queries_def query_route_columns_def)

text \<open>
  C18. Every bucket a lowered plan resolves is indexed: each of its routed queries has a route index over
  exactly the columns of its route constraints. This is the hypothesis under which a client that
  follows the delta stream converges.
\<close>

theorem resolved_bucket_indexed:
  assumes "lower_canonical_semantic_plan S c = Inr plan" and "resolve_bucket_request J plan name = Some b"
  shows "bucket_indexed plan b"
  using assms by (rule lowered_indexes)

theorem resolved_bucket_indexed_witness: "bucket_indexed ex_lowered ex_resolved"
  by (rule resolved_bucket_indexed [OF ex_lowered_eq ex_resolved_eq])

text \<open>
  What the store relies on depends on the JSON library through the texts of projections. \<open>text_json\<close> are the
  values made of strings, arrays and objects; the law about the library is that it prints two different ones of them
  differently.
\<close>

inductive text_json :: "json \<Rightarrow> bool" where
  text_string: "text_json (JString s)"
| text_array: "(\<And>x. x \<in> set xs \<Longrightarrow> text_json x) \<Longrightarrow> text_json (JArray xs)"
| text_object: "(\<And>k x. (k, x) \<in> set es \<Longrightarrow> text_json x) \<Longrightarrow> text_json (JObject es)"

inductive_cases text_arrayE: "text_json (JArray xs)"
inductive_cases text_objectE: "text_json (JObject es)"

definition prints_apart :: "json_lib \<Rightarrow> bool" where
  "prints_apart J \<longleftrightarrow> inj_on (js_to_string J) {j. text_json j}"

lemma computed_term_text: "text_json (computed_term_json JObject t)"
  by (cases t) (auto simp: tagged_def intro!: text_json.intros)

lemma projection_text: "text_json (projection_json JObject p)"
  by (cases p) (auto simp: tagged_def intro!: text_json.intros computed_term_text)

lemma computed_term_json_inj: "computed_term_json JObject a = computed_term_json JObject b \<longleftrightarrow> a = b"
  by (cases a; cases b) (simp_all add: tagged_def)

lemma projection_json_inj: "projection_json JObject p = projection_json JObject p' \<longleftrightarrow> p = p'"
proof -
  have c: "inj (\<lambda>c :: CanonicalProjectedColumn. JObject [(''source_column'', JString (pc_source_column c)), (''alias'', JString (pc_alias c))])"
    by (auto intro!: injI CanonicalProjectedColumn.equality)
  have t: "inj (computed_term_json JObject)" by (simp add: inj_on_def computed_term_json_inj)
  have e: "inj (\<lambda>c :: CanonicalComputedColumn. JObject [(''alias'', JString (cc_alias c)), (''expression'', JObject [(''terms'',
      JArray (map (computed_term_json JObject) (ce_terms (cc_expression c))))])])"
    by (auto simp: inj_map_eq_map [OF t] intro!: injI CanonicalComputedColumn.equality CanonicalComputedExpression.equality)
  show ?thesis by (cases p; cases p') (simp_all add: tagged_def inj_map_eq_map [OF c] inj_map_eq_map [OF e])
qed

lemma projection_key_inj: "prints_apart J \<Longrightarrow> projection_key J p = projection_key J p' \<longleftrightarrow> p = p'"
  using projection_text projection_json_inj unfolding prints_apart_def projection_key_def by (metis inj_onD mem_Collect_eq)

lemma lookup_plan_ok_iff:
  assumes "lookup_tables_ok ps (lookup_tables_by_source plan)"
  shows "lookup_plan_ok plan \<longleftrightarrow>
    (\<forall>l \<in> param_lookups ps. \<forall>l' \<in> param_lookups ps. lookup_id l = lookup_id l' \<longrightarrow> lookup_source_table l = lookup_source_table l')"
proof
  assume ok: "lookup_plan_ok plan"
  let ?T = "lookup_tables_by_source plan"
  have table: "\<exists>lt. (lookup_source_table l, lt) \<in> set ?T \<and> lookup_id l \<in> set (map lookup_id (lt_lookups lt))" if "l \<in> param_lookups ps" for l
  proof -
    have "lookup_source_table l \<in> dom (map_of ?T)" using assms that by (simp add: lookup_tables_ok_def)
    then obtain lt where lt: "map_of ?T (lookup_source_table l) = Some lt" by blast
    then have "lookup_table_ok ps (lookup_source_table l) lt" using assms by (simp add: lookup_tables_ok_def)
    with lt that show ?thesis by (force simp: lookup_table_ok_def dest: map_of_SomeD)
  qed
  have apart: "k = k'" if "distinct (concat (map (\<lambda>(k, lt). map lookup_id (lt_lookups lt)) T))" "(k, lt) \<in> set T" "(k', lt') \<in> set T"
    "i \<in> set (map lookup_id (lt_lookups lt))" "i \<in> set (map lookup_id (lt_lookups lt'))" for T :: "CompiledLookupTablePlan btree" and k lt k' lt' i
    using that
  proof (induction T)
    case (Cons x T)
    have "i \<in> set (concat (map (\<lambda>(k, lt). map lookup_id (lt_lookups lt)) T))" if "(k, lt) \<in> set T" "i \<in> set (map lookup_id (lt_lookups lt))" for k lt
      using that by force
    with Cons show ?case by (cases x) (auto simp del: set_map set_concat dest: disjoint_iff [THEN iffD1])
  qed simp
  show "\<forall>l \<in> param_lookups ps. \<forall>l' \<in> param_lookups ps. lookup_id l = lookup_id l' \<longrightarrow> lookup_source_table l = lookup_source_table l'"
    using table apart ok unfolding lookup_plan_ok_def by metis
qed (rule lookup_tables_plan_ok [OF assms])

lemma plan_types_ok_iff:
  assumes "tables_of qs (tables_by_source plan)"
  shows "plan_types_ok plan \<longleftrightarrow> (\<forall>q \<in> set qs. CHR '':'' \<notin> set (dq_output_table q))"
proof -
  have "tp_object_type ` snd ` set (tables_by_source plan) = dq_output_table ` set qs"
  proof (intro equalityI subsetI)
    fix ty assume "ty \<in> tp_object_type ` snd ` set (tables_by_source plan)"
    then obtain k tp where tp: "(k, tp) \<in> set (tables_by_source plan)" "ty = tp_object_type tp" by auto
    then have "map_of (tables_by_source plan) k = Some tp" using assms by (simp add: tables_of_def)
    then have "k \<in> dq_source_table ` set qs" "table_plan_of qs k tp" using assms unfolding tables_of_def by blast+
    with tp(2) show "ty \<in> dq_output_table ` set qs" by (auto simp: table_plan_of_def)
  next
    fix ty assume "ty \<in> dq_output_table ` set qs"
    then obtain q where q: "q \<in> set qs" "ty = dq_output_table q" by blast
    then obtain tp where tp: "map_of (tables_by_source plan) (dq_source_table q) = Some tp"
      using assms unfolding tables_of_def by blast
    then have "table_plan_of qs (dq_source_table q) tp" using assms by (simp add: tables_of_def)
    with q have "ty = tp_object_type (snd (dq_source_table q, tp))" by (simp add: table_plan_of_def)
    with map_of_SomeD [OF tp] show "ty \<in> tp_object_type ` snd ` set (tables_by_source plan)" by blast
  qed
  moreover have "plan_types_ok plan \<longleftrightarrow> (\<forall>ty \<in> tp_object_type ` snd ` set (tables_by_source plan). CHR '':'' \<notin> set ty)"
    by (auto simp: plan_types_ok_def)
  ultimately show ?thesis by simp
qed

text \<open>
  C20. When a lowered plan meets the conditions the store relies on. Two of them are not checked by the code and depend
  on the rules: the stored documents of different tables are kept apart exactly when no query's output table contains
  a colon, and the parameter lookups are kept apart exactly when no two lookups of different tables have
  the same id, which is a hash. The third always holds: accumulator templates with the same projection key project the
  same way, because the serialization of a projection determines it, given that the JSON library prints
  different values of strings, arrays and objects differently.
\<close>

theorem lowered_plan_ok:
  assumes "lower_canonical_semantic_plan S c = Inr plan" and "prints_apart (sl_json S)"
  defines "qs \<equiv> map snd (stream_queries (sp_streams c))"
  shows "projection_keys_ok plan \<and>
    (plan_types_ok plan \<longleftrightarrow> (\<forall>q \<in> set qs. CHR '':'' \<notin> set (dq_output_table q))) \<and>
    (lookup_plan_ok plan \<longleftrightarrow> (\<forall>l \<in> param_lookups (concat (map dq_bucket_parameters qs)).
       \<forall>l' \<in> param_lookups (concat (map dq_bucket_parameters qs)). lookup_id l = lookup_id l' \<longrightarrow> lookup_source_table l = lookup_source_table l'))"
proof (intro conjI)
  note f = lowered_fields [OF assms(1)]
  show "lookup_plan_ok plan \<longleftrightarrow> (\<forall>l \<in> param_lookups (concat (map dq_bucket_parameters qs)).
       \<forall>l' \<in> param_lookups (concat (map dq_bucket_parameters qs)). lookup_id l = lookup_id l' \<longrightarrow> lookup_source_table l = lookup_source_table l')"
    using lookup_plan_ok_iff [OF f(5)] by (simp only: qs_def)
  show "plan_types_ok plan \<longleftrightarrow> (\<forall>q \<in> set qs. CHR '':'' \<notin> set (dq_output_table q))"
    using plan_types_ok_iff [OF f(4)] by (simp only: qs_def)
  show "projection_keys_ok plan"
    unfolding projection_keys_ok_def
  proof clarify
    fix ty ts a a'
    assume ts: "(ty, ts) \<in> set (accumulator_queries_by_object plan)" "a \<in> set ts" "a' \<in> set ts" "aq_projection_key a = aq_projection_key a'"
    from lowered_templates [OF assms(1) ts(1,2)] lowered_templates [OF assms(1) ts(1,3)] obtain s q s' q' where
      "a = accumulator_template (sl_json S) s q" "a' = accumulator_template (sl_json S) s' q'" by blast
    with projection_key_inj [OF assms(2)] ts(4) show "aq_projection a = aq_projection a'" by (simp add: accumulator_template_def)
  qed
qed

text \<open>A printer that keeps nested values apart: every part is written with its length in front.\<close>

fun framed_json_text :: "json \<Rightarrow> string" where
  "framed_json_text (JString s) = CHR ''s'' # s"
| "framed_json_text (JArray xs) = CHR ''['' # ref_enc (map framed_json_text xs)"
| "framed_json_text (JObject es) = CHR ''{'' # ref_enc (concat (map (\<lambda>(k, x). [k, framed_json_text x]) es))"
| "framed_json_text j = ref_json_text j"

lemma ref_enc_inj: "ref_enc xs = ref_enc ys \<longleftrightarrow> xs = ys"
  using ref_dec_enc by (metis option.inject)

lemma framed_apart: "text_json a \<Longrightarrow> text_json b \<Longrightarrow> framed_json_text a = framed_json_text b \<Longrightarrow> a = b"
proof (induction a arbitrary: b rule: text_json.induct)
  case (text_string s)
  then show ?case by (cases b rule: text_json.cases) auto
next
  case (text_array xs)
  from text_array.prems obtain ys where b: "b = JArray ys" and eq: "map framed_json_text xs = map framed_json_text ys"
    by (cases b rule: text_json.cases) (auto simp: ref_enc_inj)
  have "text_json y" if "y \<in> set ys" for y using text_array.prems(1) that by (auto simp: b elim: text_arrayE)
  with text_array.IH eq show ?case unfolding b
    by (auto simp: list_eq_iff_nth_eq intro!: nth_equalityI dest!: map_eq_imp_length_eq)
next
  case (text_object es)
  from text_object.prems obtain fs where b: "b = JObject fs"
    and eq: "concat (map (\<lambda>(k, x). [k, framed_json_text x]) es) = concat (map (\<lambda>(k, x). [k, framed_json_text x]) fs)"
    by (cases b rule: text_json.cases) (auto simp: ref_enc_inj)
  have "\<And>k x. (k, x) \<in> set fs \<Longrightarrow> text_json x" using text_object.prems(1) by (auto simp: b elim: text_objectE)
  with text_object.IH eq have "es = fs"
  proof (induction es arbitrary: fs)
    case (Cons e es)
    then show ?case by (cases fs) (auto split: prod.splits, blast+)
  next
    case Nil
    then show ?case by (cases fs) auto
  qed
  then show ?case by (simp add: b)
qed

definition framed_sql :: sql_lib where
  "framed_sql = ref_sql\<lparr>sl_json := ref_json\<lparr>js_to_string := framed_json_text\<rparr>\<rparr>"

lemma framed_prints_apart: "prints_apart (sl_json framed_sql)"
  by (auto simp: prints_apart_def framed_sql_def inj_on_def intro: framed_apart)

theorem lowered_plan_ok_witness:
  "\<exists>plan. lower_canonical_semantic_plan framed_sql ex_canonical = Inr plan \<and>
     projection_keys_ok plan \<and> plan_types_ok plan \<and> lookup_plan_ok plan"
proof -
  have "case lower_canonical_semantic_plan framed_sql ex_canonical of Inr c \<Rightarrow> True | Inl _ \<Rightarrow> False" by code_simp
  then obtain plan where plan: "lower_canonical_semantic_plan framed_sql ex_canonical = Inr plan"
    by (auto split: sum.splits)
  from lowered_plan_ok [OF plan framed_prints_apart] have "projection_keys_ok plan \<and> plan_types_ok plan \<and> lookup_plan_ok plan"
    by (simp add: ex_canonical_def ex_stream_def ex_query_def ex_parameter_def stream_queries_def data_queries_def param_lookups_def)
  with plan show ?thesis by blast
qed

end
