(* ===== verification/Authentication.thy ===== *)
theory Authentication
  imports Sql_Text
begin

text \<open>
  Authentication (\<open>auth.rs\<close>): the bearer token of a request, the verification of a JSON web token
  against the configured keys and the claim policy, the API tokens of the management interface, and
  how both configurations are read from the environment. base64, serde, HMAC, RSA signatures, SHA-256,
  URL parsing and the HTTP client are third-party code: the fields of the record \<open>auth_lib\<close>. The system
  clock and the environment are arguments.
\<close>

section \<open>Data\<close>

record AuthFailure =
  af_status :: nat
  af_error :: string

definition AUTH_REQUIRED_CODE :: string where
  "AUTH_REQUIRED_CODE = ''PSYNC_S2106''"

definition auth_required :: AuthFailure where
  "auth_required = \<lparr> af_status = 401, af_error = ''Authentication required'' \<rparr>"

definition auth_failed :: AuthFailure where
  "auth_failed = \<lparr> af_status = 401, af_error = ''Authentication failed'' \<rparr>"

definition auth_disabled :: AuthFailure where
  "auth_disabled = \<lparr> af_status = 401, af_error = ''Authentication disabled'' \<rparr>"

record TokenPayload =
  tk_claims :: json
  tk_exp :: "nat option"
  tk_user_id :: "string option"

record HmacKey =
  hk_kid :: "string option"
  hk_secret :: bytes

record RsaKey =
  rk_kid :: "string option"
  rk_n :: string
  rk_e :: string

datatype AuthKey = Hmac HmacKey | Rsa RsaKey

record JwtHeader =
  jh_alg :: string
  jh_kid :: "string option"

record Jwk =
  jk_kty :: string
  jk_alg :: "string option"
  jk_kid :: "string option"
  jk_k :: string
  jk_n :: string
  jk_e :: string

record UserAuthConfig =
  ua_keys :: "AuthKey list"
  ua_audiences :: "string list"
  ua_issuers :: "string list"

record ApiAuthConfig =
  aa_tokens :: "string list"

datatype url_host = Domain string | Ipv4 "nat list" | Ipv6 "nat list"

record url =
  url_scheme :: string
  url_host_of :: "url_host option"

record auth_lib =
  al_json :: json_lib
  al_b64_decode :: "string \<Rightarrow> bytes option"
  al_jwt_header :: "bytes \<Rightarrow> JwtHeader option"
  al_json_slice :: "bytes \<Rightarrow> json option"
  al_jwk_array :: "string \<Rightarrow> Jwk list option"
  al_jwk_set :: "string \<Rightarrow> Jwk list option"
  al_hmac_verify :: "bytes \<Rightarrow> bytes \<Rightarrow> bytes \<Rightarrow> bool"
  al_rsa_verify :: "string \<Rightarrow> string \<Rightarrow> string \<Rightarrow> bool"
  al_digest :: "bytes \<Rightarrow> 8 word list"
  al_parse_url :: "string \<Rightarrow> url option"
  al_http_get :: "(nat \<Rightarrow> url \<Rightarrow> bool) \<Rightarrow> url \<Rightarrow> string + string"

type_synonym headers = "(string \<times> bytes) list"
type_synonym environment = "string \<Rightarrow> string option"

section \<open>Claims\<close>

text \<open>
  \<open>f64 as u64\<close> for a finite double that is not below zero: truncation, at most the greatest \<open>u64\<close>.
\<close>

definition f64_nonneg :: "64 word \<Rightarrow> bool" where
  "f64_nonneg w \<longleftrightarrow> unat w < 2 ^ 63 \<or> unat w = 2 ^ 63"

definition f64_as_u64 :: "64 word \<Rightarrow> nat" where
  "f64_as_u64 w =
     (let e = unat w div 2 ^ 52 mod 2 ^ 11; m = unat w mod 2 ^ 52;
          v = (if e = 0 then 0
               else if e < 1075 then (2 ^ 52 + m) div 2 ^ (1075 - e)
               else (2 ^ 52 + m) * 2 ^ (e - 1075)) in
      min v (u64_limit - 1))"

fun value_as_u64 :: "json \<Rightarrow> nat option" where
  "value_as_u64 (JPos n) = Some n"
| "value_as_u64 (JFloat w) = (if f64_is_finite w \<and> f64_nonneg w then Some (f64_as_u64 w) else None)"
| "value_as_u64 (JString text) = parse_u64 text"
| "value_as_u64 _ = None"

definition audience_matches :: "json option \<Rightarrow> string list \<Rightarrow> bool" where
  "audience_matches value audiences =
     (case value of
        Some (JString text) \<Rightarrow> text \<in> set audiences
      | Some (JArray array) \<Rightarrow> list_ex (\<lambda>candidate. candidate \<in> set audiences) (List.map_filter as_str array)
      | _ \<Rightarrow> False)"

definition NBF_LEEWAY_SECS :: nat where
  "NBF_LEEWAY_SECS = 60"

definition validate_payload :: "nat \<Rightarrow> UserAuthConfig \<Rightarrow> json \<Rightarrow> AuthFailure + TokenPayload" where
  "validate_payload now cfg payload =
     (case as_object payload of
        None \<Rightarrow> Inl auth_failed
      | Some claims \<Rightarrow>
          (case Option.bind (map_of claims ''exp'') value_as_u64 of
             None \<Rightarrow> Inl auth_failed
           | Some exp \<Rightarrow>
               if exp \<le> now then Inl auth_failed
               else if (case map_of claims ''nbf'' of
                          None \<Rightarrow> False
                        | Some nbf_claim \<Rightarrow>
                            (case value_as_u64 nbf_claim of
                               None \<Rightarrow> True
                             | Some nbf \<Rightarrow> now + NBF_LEEWAY_SECS < nbf))
               then Inl auth_failed
               else if ua_audiences cfg \<noteq> [] \<and> \<not> audience_matches (map_of claims ''aud'') (ua_audiences cfg)
               then Inl auth_failed
               else if ua_issuers cfg \<noteq> []
                 \<and> \<not> (case Option.bind (map_of claims ''iss'') as_str of
                        None \<Rightarrow> False | Some issuer \<Rightarrow> issuer \<in> set (ua_issuers cfg))
               then Inl auth_failed
               else Inr \<lparr> tk_claims = payload, tk_exp = Some exp,
                          tk_user_id = (case Option.bind (map_of claims ''sub'') as_str of
                                          Some s \<Rightarrow> Some s
                                        | None \<Rightarrow> Option.bind (map_of claims ''user_id'') as_str) \<rparr>))"

text \<open>
  The time a token has left in nanoseconds, zero when it has expired; adding to the epoch fails only
  beyond the range of the clock.
\<close>

definition remaining_lifetime :: "nat \<Rightarrow> nat \<Rightarrow> TokenPayload \<Rightarrow> nat option" where
  "remaining_lifetime clock_limit now_nanos token =
     (case tk_exp token of
        None \<Rightarrow> None
      | Some exp \<Rightarrow> if exp < clock_limit then Some (exp * 10 ^ 9 - now_nanos) else None)"

function flatten_claim_value :: "json_lib \<Rightarrow> string \<Rightarrow> json \<Rightarrow> routes \<Rightarrow> routes" where
  "flatten_claim_value J prefix value out =
     (case value of
        JObject m \<Rightarrow>
          foldl (\<lambda>out (key, nested).
            flatten_claim_value J (if prefix = [] then key else prefix @ ''.'' @ key) nested out) out m
      | JNull \<Rightarrow> out
      | JString s \<Rightarrow> if prefix = [] then out else bt_insert prefix s out
      | JBool b \<Rightarrow> if prefix = [] then out else bt_insert prefix (if b then ''true'' else ''false'') out
      | _ \<Rightarrow> if prefix = [] then out else bt_insert prefix (js_to_string J value) out)"
  by pat_completeness auto

termination flatten_claim_value
  by (relation "measure (\<lambda>(_, _, v, _). size v)") (auto dest: size_entry_member)

declare flatten_claim_value.simps [simp del]

definition flattened_claim_strings :: "json_lib \<Rightarrow> TokenPayload \<Rightarrow> routes" where
  "flattened_claim_strings J token = flatten_claim_value J [] (tk_claims token) []"

section \<open>Keys and signatures\<close>

fun auth_key_kid :: "AuthKey \<Rightarrow> string option" where
  "auth_key_kid (Hmac key) = hk_kid key"
| "auth_key_kid (Rsa key) = rk_kid key"

fun as_hmac :: "AuthKey \<Rightarrow> HmacKey option" where
  "as_hmac (Hmac key) = Some key"
| "as_hmac (Rsa _) = None"

fun as_rsa :: "AuthKey \<Rightarrow> RsaKey option" where
  "as_rsa (Hmac _) = None"
| "as_rsa (Rsa key) = Some key"

definition select_auth_key :: "AuthKey list \<Rightarrow> string option \<Rightarrow> (AuthKey \<Rightarrow> 'k option) \<Rightarrow> 'k option" where
  "select_auth_key keys kid as_key =
     first_some (map (\<lambda>key.
       case kid of
         None \<Rightarrow> as_key key
       | Some expected \<Rightarrow> if auth_key_kid key = Some expected then as_key key else None) keys)"

definition select_hmac_key :: "AuthKey list \<Rightarrow> string option \<Rightarrow> HmacKey option" where
  "select_hmac_key keys kid = select_auth_key keys kid as_hmac"

definition select_rsa_key :: "AuthKey list \<Rightarrow> string option \<Rightarrow> RsaKey option" where
  "select_rsa_key keys kid = select_auth_key keys kid as_rsa"

definition split_jwt :: "string \<Rightarrow> AuthFailure + (string \<times> string \<times> string)" where
  "split_jwt token =
     (case split_char (CHR ''.'') token of
        [header, payload, signature] \<Rightarrow> Inr (header, payload, signature)
      | _ \<Rightarrow> Inl auth_failed)"

definition decode_segment :: "auth_lib \<Rightarrow> (bytes \<Rightarrow> 'a option) \<Rightarrow> string \<Rightarrow> AuthFailure + 'a" where
  "decode_segment L from_slice segment =
     ok_or auth_failed (Option.bind (al_b64_decode L segment) from_slice)"

definition verify_rsa_token ::
  "auth_lib \<Rightarrow> nat \<Rightarrow> UserAuthConfig \<Rightarrow> string \<Rightarrow> JwtHeader \<Rightarrow> json \<Rightarrow> AuthFailure + TokenPayload" where
  "verify_rsa_token L now cfg token header payload =
     (if jh_alg header \<noteq> ''RS256'' then Inl auth_failed
      else rbind (ok_or auth_failed (select_rsa_key (ua_keys cfg) (jh_kid header))) (\<lambda>key.
        if al_rsa_verify L (rk_n key) (rk_e key) token then validate_payload now cfg payload
        else Inl auth_failed))"

definition verify_token ::
  "auth_lib \<Rightarrow> nat \<Rightarrow> UserAuthConfig \<Rightarrow> string \<Rightarrow> AuthFailure + TokenPayload" where
  "verify_token L now cfg token =
     rbind (split_jwt token) (\<lambda>(header_segment, payload_segment, signature_segment).
     rbind (decode_segment L (al_jwt_header L) header_segment) (\<lambda>header.
     rbind (decode_segment L (al_json_slice L) payload_segment) (\<lambda>payload.
       if jh_alg header \<noteq> ''HS256'' then verify_rsa_token L now cfg token header payload
       else
         rbind (ok_or auth_failed (select_hmac_key (ua_keys cfg) (jh_kid header))) (\<lambda>key.
         rbind (ok_or auth_failed (al_b64_decode L signature_segment)) (\<lambda>signature.
           if al_hmac_verify L (hk_secret key) (header_segment @ ''.'' @ payload_segment) signature
           then validate_payload now cfg payload
           else Inl auth_failed)))))"

text \<open>A header value reads as text when all its bytes are visible ASCII or tabs.\<close>

definition header_to_str :: "bytes \<Rightarrow> string option" where
  "header_to_str v =
     (if list_all (\<lambda>c. 32 \<le> byte_val c \<and> byte_val c < 127 \<or> byte_val c = 9) v then Some v else None)"

definition extract_token :: "headers \<Rightarrow> AuthFailure + string" where
  "extract_token hs =
     (let raw = (case Option.bind (map_of hs ''authorization'') header_to_str of None \<Rightarrow> '''' | Some v \<Rightarrow> v) in
      case split_whitespace raw of
        [scheme, token] \<Rightarrow>
          if eq_ignore_ascii_case scheme ''bearer'' \<or> eq_ignore_ascii_case scheme ''token''
          then Inr token else Inl auth_required
      | _ \<Rightarrow> Inl auth_required)"

definition user_authorize_headers ::
  "auth_lib \<Rightarrow> nat \<Rightarrow> UserAuthConfig \<Rightarrow> headers \<Rightarrow> AuthFailure + TokenPayload" where
  "user_authorize_headers L now cfg hs = rbind (extract_token hs) (verify_token L now cfg)"

section \<open>API tokens\<close>

definition constant_time_token_eq :: "auth_lib \<Rightarrow> string \<Rightarrow> string \<Rightarrow> bool" where
  "constant_time_token_eq L expected candidate \<longleftrightarrow>
     foldl (\<lambda>acc (a, b). or acc (xor a b)) 0
       (zip (al_digest L expected) (al_digest L candidate)) = 0"

definition api_authorize_headers :: "auth_lib \<Rightarrow> ApiAuthConfig \<Rightarrow> headers \<Rightarrow> AuthFailure + unit" where
  "api_authorize_headers L cfg hs =
     (if aa_tokens cfg = [] then Inl auth_disabled
      else rbind (extract_token hs) (\<lambda>token.
        if list_ex (\<lambda>expected. constant_time_token_eq L expected token) (aa_tokens cfg)
        then Inr () else Inl auth_failed))"

definition api_is_configured :: "ApiAuthConfig \<Rightarrow> bool" where
  "api_is_configured cfg \<longleftrightarrow> aa_tokens cfg \<noteq> []"

section \<open>Configuration\<close>

record ReplicationConnection =
  rcn_id :: "string option"
  rcn_tag :: "string option"
  rcn_type :: "string option"
  rcn_uri :: string

record ClientAuthConfig =
  ca_jwks_uri :: "string option"
  ca_audience :: "string list"
  ca_issuer :: "string list"

record ApiConfig =
  ac_tokens :: "string list"

record PowerSyncConfig =
  pc_port :: "nat option"
  pc_replication :: "ReplicationConnection list option"
  pc_sync_rules :: "string option option"
  pc_client_auth :: "ClientAuthConfig option"
  pc_api :: "ApiConfig option"

text \<open>\<open>env::var(a).or_else(|_| env::var(b))\<close>: the first variable that is set.\<close>

definition env_first :: "environment \<Rightarrow> string list \<Rightarrow> string option" where
  "env_first env names = first_some (map env names)"

definition env_list :: "string \<Rightarrow> string list" where
  "env_list raw = filter (\<lambda>value. value \<noteq> []) (map trim (split_char (CHR '','') raw))"

definition api_from_env_with_config :: "environment \<Rightarrow> PowerSyncConfig option \<Rightarrow> ApiAuthConfig" where
  "api_from_env_with_config env config =
     \<lparr> aa_tokens =
         (case env_first env [''POWERSYNC_RUST_API_TOKENS'', ''PS_API_TOKENS'', ''PS_API_TOKEN''] of
            Some raw \<Rightarrow> env_list raw
          | None \<Rightarrow> (case Option.bind config pc_api of None \<Rightarrow> [] | Some api \<Rightarrow> ac_tokens api)) \<rparr>"

definition validate_claim_policy :: "string list \<Rightarrow> string list \<Rightarrow> string + unit" where
  "validate_claim_policy audiences issuers =
     (if audiences = [] then Inl ''JWT keys are configured but no accepted audience is set''
      else if issuers = [] then Inl ''JWT keys are configured but no accepted issuer is set''
      else Inr ())"

definition from_hs256_secrets ::
  "(string option \<times> bytes) list \<Rightarrow> string list \<Rightarrow> string list \<Rightarrow> string + UserAuthConfig" where
  "from_hs256_secrets secrets audiences issuers =
     rbind (validate_claim_policy audiences issuers) (\<lambda>_.
       Inr \<lparr> ua_keys = map (\<lambda>(kid, secret). Hmac \<lparr> hk_kid = kid, hk_secret = secret \<rparr>) secrets,
             ua_audiences = audiences, ua_issuers = issuers \<rparr>)"

definition jwk_to_key :: "auth_lib \<Rightarrow> Jwk \<Rightarrow> string + AuthKey" where
  "jwk_to_key L key =
     (if to_ascii_uppercase (jk_kty key) = ''OCT'' then
        if (case jk_alg key of None \<Rightarrow> False | Some alg \<Rightarrow> \<not> eq_ignore_ascii_case alg ''HS256'')
        then Inl ''unsupported jwk alg; expected HS256''
        else rbind (ok_or ''invalid jwk secret'' (al_b64_decode L (jk_k key))) (\<lambda>secret.
          Inr (Hmac \<lparr> hk_kid = jk_kid key, hk_secret = secret \<rparr>))
      else
        if (case jk_alg key of None \<Rightarrow> False | Some alg \<Rightarrow> \<not> eq_ignore_ascii_case alg ''RS256'')
        then Inl ''unsupported jwk alg; expected RS256''
        else if jk_n key = [] \<or> jk_e key = [] then Inl ''RSA jwk missing modulus or exponent''
        else Inr (Rsa \<lparr> rk_kid = jk_kid key, rk_n = jk_n key, rk_e = jk_e key \<rparr>))"

definition trim_start :: "string \<Rightarrow> string" where
  "trim_start s = strip_leading white_space (length s) s"

definition parse_jwks :: "auth_lib \<Rightarrow> string \<Rightarrow> string + AuthKey list" where
  "parse_jwks L raw =
     rbind (if starts_with ''['' (trim_start raw) then ok_or ''invalid JWKS JSON array'' (al_jwk_array L raw)
            else ok_or ''invalid JWKS JSON'' (al_jwk_set L raw)) (\<lambda>keys.
       rmap (jwk_to_key L) (filter (\<lambda>key. eq_ignore_ascii_case (jk_kty key) ''oct''
                                         \<or> eq_ignore_ascii_case (jk_kty key) ''RSA'') keys))"

definition jwks_url_is_loopback_http :: "url \<Rightarrow> bool" where
  "jwks_url_is_loopback_http u \<longleftrightarrow>
     url_scheme u = ''http'' \<and>
     (case url_host_of u of
        Some (Domain host) \<Rightarrow> eq_ignore_ascii_case host ''localhost''
      | Some (Ipv4 octets) \<Rightarrow> (case octets of a # _ \<Rightarrow> a = 127 | [] \<Rightarrow> False)
      | Some (Ipv6 segments) \<Rightarrow> segments = [0, 0, 0, 0, 0, 0, 0, 1]
      | None \<Rightarrow> False)"

definition jwks_url_transport_allowed :: "url \<Rightarrow> bool" where
  "jwks_url_transport_allowed u \<longleftrightarrow> url_scheme u = ''https'' \<or> jwks_url_is_loopback_http u"

definition jwks_redirect_transport_allowed :: "url \<Rightarrow> bool \<Rightarrow> bool" where
  "jwks_redirect_transport_allowed u allow_loopback_http \<longleftrightarrow>
     url_scheme u = ''https'' \<or> allow_loopback_http \<and> jwks_url_is_loopback_http u"

definition validate_jwks_url :: "auth_lib \<Rightarrow> string \<Rightarrow> string + url" where
  "validate_jwks_url L raw =
     rbind (ok_or ''invalid JWKS URL'' (al_parse_url L raw)) (\<lambda>u.
       if url_host_of u = None then Inl ''JWKS URL must include a host''
       else if \<not> jwks_url_transport_allowed u then Inl ''JWKS URL must use HTTPS''
       else Inr u)"

text \<open>The redirect policy gets the number of URLs visited before and the next one.\<close>

definition fetch_jwks :: "auth_lib \<Rightarrow> string \<Rightarrow> string + string" where
  "fetch_jwks L raw =
     rbind (validate_jwks_url L raw) (\<lambda>u.
       al_http_get L (\<lambda>previous next. previous < 10
                        \<and> jwks_redirect_transport_allowed next (jwks_url_is_loopback_http u)) u)"

definition supported_keys :: "string \<Rightarrow> string + AuthKey list \<Rightarrow> string + AuthKey list" where
  "supported_keys message parsed =
     rbind parsed (\<lambda>keys. if keys = [] then Inl message else Inr keys)"

definition from_sources ::
  "auth_lib \<Rightarrow> string option \<Rightarrow> string option \<Rightarrow> string option \<Rightarrow> string list \<Rightarrow> string list \<Rightarrow>
   string + UserAuthConfig option" where
  "from_sources L supabase_secret raw_jwks jwks_url audiences issuers =
     (let secret_keys = (case supabase_secret of None \<Rightarrow> []
                         | Some secret \<Rightarrow> [Hmac \<lparr> hk_kid = None, hk_secret = secret \<rparr>]) in
      rbind (case raw_jwks of None \<Rightarrow> Inr []
             | Some raw \<Rightarrow> supported_keys ''JWKS JSON did not contain any supported keys'' (parse_jwks L raw)) (\<lambda>json_keys.
      rbind (case jwks_url of None \<Rightarrow> Inr []
             | Some u \<Rightarrow> rbind (fetch_jwks L u) (\<lambda>raw.
                 supported_keys ''JWKS URL did not contain any supported keys'' (parse_jwks L raw))) (\<lambda>url_keys.
        let keys = secret_keys @ json_keys @ url_keys in
        if keys = [] then Inr None
        else rbind (validate_claim_policy audiences issuers) (\<lambda>_.
          Inr (Some \<lparr> ua_keys = keys, ua_audiences = audiences, ua_issuers = issuers \<rparr>)))))"

definition user_from_env_with_config ::
  "auth_lib \<Rightarrow> environment \<Rightarrow> PowerSyncConfig option \<Rightarrow> string + UserAuthConfig option" where
  "user_from_env_with_config L env config =
     (let nonblank = (\<lambda>v. if trim v = [] then None else Some v);
          client_auth = Option.bind config pc_client_auth;
          supabase_secret = Option.bind (env ''POWERSYNC_RUST_SUPABASE_JWT_SECRET'')
                              (\<lambda>secret. if secret = [] then None else Some secret);
          raw_jwks = Option.bind (env ''POWERSYNC_RUST_JWKS_JSON'') nonblank;
          jwks_url =
            (case Option.bind (env_first env [''POWERSYNC_RUST_JWKS_URL'', ''PS_JWKS_URL'', ''PS_JWKS_URI'']) nonblank of
               Some u \<Rightarrow> Some u | None \<Rightarrow> Option.bind client_auth ca_jwks_uri);
          audiences =
            (case env_first env [''POWERSYNC_RUST_JWT_AUDIENCES'', ''PS_JWT_AUDIENCES''] of
               Some raw \<Rightarrow> env_list raw
             | None \<Rightarrow> (case client_auth of None \<Rightarrow> [] | Some ca \<Rightarrow> ca_audience ca));
          issuers =
            (case env_first env [''POWERSYNC_RUST_JWT_ISSUERS'', ''PS_JWT_ISSUERS''] of
               Some raw \<Rightarrow> env_list raw
             | None \<Rightarrow> (case client_auth of None \<Rightarrow> [] | Some ca \<Rightarrow> ca_issuer ca)) in
      from_sources L supabase_secret raw_jwks jwks_url audiences issuers)"

text \<open>\<open>ServiceContext::authorize_user\<close>, \<open>authorize_diagnostics\<close> and \<open>env_flag\<close> (\<open>control_plane/mod.rs\<close>).\<close>

definition authorize_user ::
  "auth_lib \<Rightarrow> nat \<Rightarrow> UserAuthConfig option \<Rightarrow> bool \<Rightarrow> headers \<Rightarrow> AuthFailure + TokenPayload option" where
  "authorize_user L now user_auth allow_anonymous_sync hs =
     (case user_auth of
        Some cfg \<Rightarrow> rbind (user_authorize_headers L now cfg hs) (\<lambda>t. Inr (Some t))
      | None \<Rightarrow> if allow_anonymous_sync then Inr None else Inl auth_disabled)"

definition authorize_diagnostics :: "auth_lib \<Rightarrow> ApiAuthConfig \<Rightarrow> headers \<Rightarrow> AuthFailure + unit" where
  "authorize_diagnostics L api hs =
     (if api_is_configured api then api_authorize_headers L api hs else Inr ())"

definition env_flag :: "environment \<Rightarrow> string \<Rightarrow> bool" where
  "env_flag env name =
     (case env name of
        None \<Rightarrow> False
      | Some value \<Rightarrow> to_ascii_lowercase (trim value) \<in> {''1'', ''true'', ''yes'', ''on''})"

end
