(* ===== verification/Sync_Request.thy ===== *)
theory Sync_Request
  imports Authentication Wire
begin

text \<open>
  The request side of the sync endpoint: the values that bindings take for a request
  (\<open>control_plane/parameters.rs\<close>), the buckets a request asks for and may ask for, and the admission of a
  request (\<open>http/sync_stream.rs\<close>). The storage backend is the trait object of the code: its lookup read is
  an argument, as are the clock, the environment and the semaphore's answer. The active plan is read
  once per request.
\<close>

section \<open>Parameters of a request\<close>

function flatten_json_value :: "json_lib \<Rightarrow> string \<Rightarrow> json \<Rightarrow> routes \<Rightarrow> routes" where
  "flatten_json_value J path value out =
     (case value of
        JObject m \<Rightarrow>
          foldl (\<lambda>out (key, nested).
            flatten_json_value J (if path = [] then key else path @ ''.'' @ key) nested out) out m
      | JNull \<Rightarrow> out
      | JString text \<Rightarrow> bt_insert path text out
      | JBool b \<Rightarrow> bt_insert path (if b then ''true'' else ''false'') out
      | _ \<Rightarrow> bt_insert path (js_to_string J value) out)"
  by pat_completeness auto

termination flatten_json_value
  by (relation "measure (\<lambda>(_, _, v, _). size v)") (auto dest: size_entry_member)

declare flatten_json_value.simps [simp del]

definition flatten_json_map :: "json_lib \<Rightarrow> string \<Rightarrow> json_object \<Rightarrow> routes \<Rightarrow> routes" where
  "flatten_json_map J prefix m out =
     foldl (\<lambda>out (key, value).
       flatten_json_value J (if prefix = [] then key else prefix @ ''.'' @ key) value out) out m"

definition extract_string_map :: "json_lib \<Rightarrow> json_object option \<Rightarrow> routes" where
  "extract_string_map J m = (case m of None \<Rightarrow> [] | Some m \<Rightarrow> flatten_json_map J [] m [])"

record ResolvedParameterContext =
  rp_auth_parameters :: routes
  rp_request_parameters :: routes
  rp_jwt_claims :: routes
  rp_user_id :: "string option"

definition context_from_request ::
  "json_lib \<Rightarrow> TokenPayload option \<Rightarrow> json_object \<Rightarrow> ResolvedParameterContext" where
  "context_from_request J token request_parameters =
     (let jwt_claims = (case token of None \<Rightarrow> [] | Some t \<Rightarrow> flattened_claim_strings J t);
          user_id = Option.bind token tk_user_id;
          auth_parameters =
            (case user_id of
               None \<Rightarrow> jwt_claims
             | Some u \<Rightarrow> if map_of jwt_claims ''user_id'' = None then bt_insert ''user_id'' u jwt_claims
                         else jwt_claims) in
      \<lparr> rp_auth_parameters = auth_parameters, rp_request_parameters = flatten_json_map J [] request_parameters [],
        rp_jwt_claims = jwt_claims, rp_user_id = user_id \<rparr>)"

fun binding_value :: "ResolvedParameterContext \<Rightarrow> routes \<Rightarrow> CanonicalBinding \<Rightarrow> string option" where
  "binding_value c sub (AuthParameter name) = map_of (rp_auth_parameters c) name"
| "binding_value c sub (SubscriptionParameter name) = map_of sub name"
| "binding_value c sub RequestUserId = rp_user_id c"
| "binding_value c sub (RequestJwt claim) = map_of (rp_jwt_claims c) claim"
| "binding_value c sub (RequestParameter name) = map_of (rp_request_parameters c) name"
| "binding_value c sub (RequestParameterArray name) = map_of (rp_request_parameters c) name"
| "binding_value c sub (ParameterQueryColumn name _) = map_of sub name"
| "binding_value c sub (BucketParameter name) = map_of sub name"

fun array_element_text :: "json_lib \<Rightarrow> json \<Rightarrow> string option" where
  "array_element_text J (JString s) = Some s"
| "array_element_text J (JBool b) = Some (if b then ''true'' else ''false'')"
| "array_element_text J (JPos n) = Some (js_to_string J (JPos n))"
| "array_element_text J (JNeg i) = Some (js_to_string J (JNeg i))"
| "array_element_text J (JFloat w) = Some (js_to_string J (JFloat w))"
| "array_element_text J _ = None"

definition parse_request_array_values :: "json_lib \<Rightarrow> string \<Rightarrow> string list" where
  "parse_request_array_values J value =
     (case Option.bind (js_from_str J value) as_array of
        None \<Rightarrow> [value]
      | Some values \<Rightarrow> List.map_filter (array_element_text J) values)"

definition binding_values ::
  "json_lib \<Rightarrow> ResolvedParameterContext \<Rightarrow> routes \<Rightarrow> CanonicalBinding \<Rightarrow> string list" where
  "binding_values J c sub binding =
     (case binding of
        RequestParameterArray name \<Rightarrow>
          (case map_of (rp_request_parameters c) name of
             None \<Rightarrow> [] | Some value \<Rightarrow> parse_request_array_values J value)
      | _ \<Rightarrow> (case binding_value c sub binding of None \<Rightarrow> [] | Some v \<Rightarrow> [v]))"

section \<open>Requests\<close>

record SyncBucketRequest =
  br_name :: string
  br_after :: string

record RequestedStreamSubscription =
  rs_stream :: string
  rs_parameters :: "json_object option"

record StreamSubscriptionRequest =
  ss_include_defaults :: "bool option"
  ss_subscriptions :: "RequestedStreamSubscription list"

record SyncStreamRequest =
  sr_binary_data :: bool
  sr_raw_data :: bool
  sr_buckets :: "SyncBucketRequest list"
  sr_client_id :: string
  sr_parameters :: json_object
  sr_streams :: "StreamSubscriptionRequest option"
  sr_only :: "string list"

definition should_hold_open :: "SyncStreamRequest \<Rightarrow> bool" where
  "should_hold_open r \<longleftrightarrow> sr_raw_data r \<and> \<not> starts_with ''probe-'' (sr_client_id r)"

definition max_resolved_buckets_per_request :: "environment \<Rightarrow> nat" where
  "max_resolved_buckets_per_request env =
     (case Option.bind (env ''POWERSYNC_RUST_MAX_BUCKETS_PER_REQUEST'') parse_u64 of
        None \<Rightarrow> 10000 | Some n \<Rightarrow> if 0 < n then n else 10000)"

definition cartesian_product_values :: "'a list list \<Rightarrow> 'a list list" where
  "cartesian_product_values value_options =
     foldl (\<lambda>products options. concat (map (\<lambda>product. map (\<lambda>option. product @ [option]) options) products))
       [[]] value_options"

type_synonym lookup_reader = "string \<Rightarrow> string list \<Rightarrow> nat \<Rightarrow> storage_error + routes list"

definition resolve_parameter_lookup_rows ::
  "lookup_reader \<Rightarrow> ParameterLookupPlan \<Rightarrow> ResolvedParameterContext \<Rightarrow> routes \<Rightarrow> nat \<Rightarrow> string + routes list" where
  "resolve_parameter_lookup_rows read lookup c sub max_entries =
     rbind (rmap (\<lambda>(column, binding).
              ok_or ''missing value for parameter query key'' (binding_value c sub binding)) (key_bindings lookup))
       (\<lambda>key_values. map_err (\<lambda>_. ''failed to read parameter lookup rows'')
          (read (lookup_id lookup) key_values max_entries))"

fun binding_lookup :: "CanonicalBinding \<Rightarrow> ParameterLookupPlan option" where
  "binding_lookup (ParameterQueryColumn _ lookup) = Some lookup"
| "binding_lookup _ = None"

definition group_lookup :: "CanonicalBucketGroup \<Rightarrow> ParameterLookupPlan option" where
  "group_lookup g = first_some (map (\<lambda>p. binding_lookup (bp_binding p)) (bg_bucket_parameters g))"

definition saturating_product :: "nat list \<Rightarrow> nat" where
  "saturating_product ns = foldl (\<lambda>a n. min (a * n) (u64_limit - 1)) 1 ns"

definition row_values :: "CanonicalBucketGroup \<Rightarrow> routes \<Rightarrow> string + string list" where
  "row_values g row =
     rmap (\<lambda>p. ok_or ''parameter query did not return a column'' (map_of row (bp_name p))) (bg_bucket_parameters g)"

definition group_bucket_names ::
  "json_lib \<Rightarrow> lookup_reader \<Rightarrow> nat \<Rightarrow> ResolvedParameterContext \<Rightarrow> string \<Rightarrow> routes \<Rightarrow>
   string list \<Rightarrow> nat \<times> CanonicalBucketGroup \<Rightarrow> string + string list" where
  "group_bucket_names J read limit c stream_name sub bucket_names ig =
     (case ig of (group_index, g) \<Rightarrow>
        if \<not> request_filter_matches (bg_request_filter g) (binding_value c sub) then Inr bucket_names
        else
          (case group_lookup g of
             Some lookup \<Rightarrow>
               rbind (map_err (\<lambda>_. ''parameter query could not be evaluated'')
                        (resolve_parameter_lookup_rows read lookup c sub limit)) (\<lambda>rows.
               rbind (rmap (row_values g) rows) (\<lambda>vs.
                 Inr (bucket_names @ map (bucket_name_for_stream_group J stream_name group_index) vs)))
           | None \<Rightarrow>
               rbind (rmap (\<lambda>p. let values = binding_values J c sub (bp_binding p) in
                              if values = [] then Inl ''missing value for stream parameter'' else Inr values)
                        (bg_bucket_parameters g)) (\<lambda>value_options.
                 if limit < min (length bucket_names + saturating_product (map length value_options)) (u64_limit - 1)
                 then Inl ''stream resolves more buckets than the limit in one request''
                 else Inr (bucket_names @ map (bucket_name_for_stream_group J stream_name group_index)
                                            (cartesian_product_values value_options)))))"

definition subscription_bucket_names ::
  "json_lib \<Rightarrow> RustExecutionPlan \<Rightarrow> lookup_reader \<Rightarrow> nat \<Rightarrow> ResolvedParameterContext \<Rightarrow>
   string list \<Rightarrow> RequestedStreamSubscription \<Rightarrow> string + string list" where
  "subscription_bucket_names J plan read limit c bucket_names subscription =
     rbind (ok_or ''unknown stream'' (stream_lookup plan (rs_stream subscription))) (\<lambda>stream.
       rfold (group_bucket_names J read limit c (rs_stream subscription)
                (extract_string_map J (rs_parameters subscription)))
         bucket_names (List.enumerate 0 (bucket_groups stream)))"

definition default_bucket_names :: "json_lib \<Rightarrow> RustExecutionPlan \<Rightarrow> ResolvedParameterContext \<Rightarrow> string list" where
  "default_bucket_names J plan c =
     map rb_bucket_name (default_bucket_requests_matching J plan (binding_value c []))"

definition resolve_stream_bucket_names ::
  "json_lib \<Rightarrow> environment \<Rightarrow> RustExecutionPlan \<Rightarrow> lookup_reader \<Rightarrow> TokenPayload option \<Rightarrow>
   SyncStreamRequest \<Rightarrow> StreamSubscriptionRequest \<Rightarrow> string + string list" where
  "resolve_stream_bucket_names J env plan read token request streams =
     (let c = context_from_request J token (sr_parameters request);
          limit = max_resolved_buckets_per_request env;
          include_defaults = (case ss_include_defaults streams of None \<Rightarrow> True | Some b \<Rightarrow> b) in
      rbind (rfold (subscription_bucket_names J plan read limit c)
               (if include_defaults then default_bucket_names J plan c else []) (ss_subscriptions streams))
        (\<lambda>bucket_names.
          let kept = (if sr_only request = [] then bucket_names
                      else filter (\<lambda>name. name \<in> set (sr_only request)) bucket_names) in
          if limit < length kept then Inl ''request resolves more buckets than the limit'' else Inr kept))"

definition allowed_default_bucket_names ::
  "json_lib \<Rightarrow> RustExecutionPlan \<Rightarrow> TokenPayload option \<Rightarrow> SyncStreamRequest \<Rightarrow> string list" where
  "allowed_default_bucket_names J plan token request =
     btset_of_list (default_bucket_names J plan (context_from_request J token (sr_parameters request)))"

definition validate_explicit_bucket_names ::
  "json_lib \<Rightarrow> RustExecutionPlan \<Rightarrow> bool \<Rightarrow> TokenPayload option \<Rightarrow> string list \<Rightarrow> string list \<Rightarrow> string + unit" where
  "validate_explicit_bucket_names J plan allows_anonymous token allowed_defaults names =
     rfold (\<lambda>_ name.
       if token = None \<and> allows_anonymous then
         if resolve_bucket_request J plan name = None then Inl ''unknown bucket'' else Inr ()
       else if name \<notin> set allowed_defaults then Inl ''explicit bucket is not an authorized default bucket''
       else Inr ()) () names"

definition bucket_cursors ::
  "json_lib \<Rightarrow> environment \<Rightarrow> RustExecutionPlan \<Rightarrow> lookup_reader \<Rightarrow> bool \<Rightarrow> TokenPayload option \<Rightarrow>
   SyncStreamRequest \<Rightarrow> string + SyncBucketCursors" where
  "bucket_cursors J env plan read allows_anonymous token request =
     rbind (rmap (\<lambda>b. rbind (ok_or ''invalid after cursor'' (parse_u64 (br_after b))) (\<lambda>after. Inr (br_name b, after)))
              (sr_buckets request)) (\<lambda>existing.
       let existing_map = bt_of_list existing;
           at_cursor = (\<lambda>name. (name, case map_of existing_map name of None \<Rightarrow> 0 | Some after \<Rightarrow> after)) in
       case sr_streams request of
         Some streams \<Rightarrow>
           rbind (resolve_stream_bucket_names J env plan read token request streams) (\<lambda>desired.
             Inr (cursors_from_pairs (map at_cursor desired)))
       | None \<Rightarrow>
           (let allowed_defaults = allowed_default_bucket_names J plan token request in
            if sr_only request = [] then
              if existing = [] then Inr (cursors_from_pairs (map (\<lambda>name. (name, 0)) allowed_defaults))
              else rbind (validate_explicit_bucket_names J plan allows_anonymous token allowed_defaults (map fst existing))
                     (\<lambda>_. Inr (cursors_from_pairs existing))
            else rbind (validate_explicit_bucket_names J plan allows_anonymous token allowed_defaults (sr_only request))
                   (\<lambda>_. Inr (cursors_from_pairs (map at_cursor (sr_only request))))))"

section \<open>Admission\<close>

datatype StreamEncoding = Ndjson | Bson

definition NDJSON_CONTENT_TYPE :: string where
  "NDJSON_CONTENT_TYPE = ''application/x-ndjson''"

definition BSON_STREAM_CONTENT_TYPE :: string where
  "BSON_STREAM_CONTENT_TYPE = ''application/vnd.powersync.bson-stream''"

definition MAX_SYNC_BUCKETS :: nat where
  "MAX_SYNC_BUCKETS = 256"

definition MAX_STREAM_LIFETIME :: nat where
  "MAX_STREAM_LIFETIME = 300 * 10 ^ 9"

datatype ContentNegotiationError = BadRequest string | NotAcceptable string

definition negotiate_content_type :: "headers \<Rightarrow> bool \<Rightarrow> ContentNegotiationError + StreamEncoding" where
  "negotiate_content_type hs binary_data =
     (case map_of hs ''accept'' of
        None \<Rightarrow> Inr (if binary_data then Bson else Ndjson)
      | Some value \<Rightarrow>
          (case header_to_str value of
             None \<Rightarrow> Inl (BadRequest ''invalid Accept header'')
           | Some accept \<Rightarrow>
               if contains_sub BSON_STREAM_CONTENT_TYPE accept then Inr Bson
               else if contains_sub NDJSON_CONTENT_TYPE accept \<or> contains_sub ''*/*'' accept then Inr Ndjson
               else Inl (NotAcceptable ''supported content types'')))"

fun negotiation_reply :: "ContentNegotiationError \<Rightarrow> nat \<times> string" where
  "negotiation_reply (BadRequest message) = (400, message)"
| "negotiation_reply (NotAcceptable message) = (406, message)"

record service_context =
  sv_auth :: auth_lib
  sv_user_auth :: "UserAuthConfig option"
  sv_allow_anonymous_sync :: bool
  sv_plan :: RustExecutionPlan
  sv_env :: environment

record AdmittedSync =
  as_token :: "TokenPayload option"
  as_hold_open :: bool
  as_lifetime :: nat
  as_cursors :: SyncBucketCursors
  as_encoding :: StreamEncoding

text \<open>
  The handler reads the wall clock twice: in seconds when it checks the token (\<open>authorised_at\<close>) and in
  nanoseconds when it measures the token's remaining lifetime (\<open>measured_at\<close>). Resolving the buckets and
  waiting for a read permit come after that, so the stream starts at a third, later moment.
\<close>

definition sync_stream ::
  "service_context \<Rightarrow> bool \<Rightarrow> lookup_reader \<Rightarrow> nat \<Rightarrow> nat \<Rightarrow> nat \<Rightarrow> bool \<Rightarrow> headers \<Rightarrow> nat + SyncStreamRequest \<Rightarrow>
   nat \<times> string + AdmittedSync" where
  "sync_stream S ready read clock_limit authorised_at measured_at permit hs request =
     (if \<not> ready then Inl (503, ''sync storage is not ready'')
      else rbind (map_err (\<lambda>e. (af_status e, af_error e))
             (authorize_user (sv_auth S) authorised_at (sv_user_auth S) (sv_allow_anonymous_sync S) hs)) (\<lambda>token.
      rbind (map_err (\<lambda>status. (status, ''invalid sync request JSON'')) request) (\<lambda>request.
      let lifetime = (case Option.bind token (remaining_lifetime clock_limit measured_at) of
                        None \<Rightarrow> MAX_STREAM_LIFETIME | Some remaining \<Rightarrow> min remaining MAX_STREAM_LIFETIME) in
      rbind (map_err (\<lambda>message. (400, message))
               (bucket_cursors (al_json (sv_auth S)) (sv_env S) (sv_plan S) read (sv_allow_anonymous_sync S) token request))
        (\<lambda>cursors.
          if MAX_SYNC_BUCKETS < length (sc_buckets cursors) then Inl (400, ''sync request exceeds the bucket limit'')
          else if \<not> permit then Inl (503, ''sync read capacity is temporarily exhausted'')
          else rbind (map_err negotiation_reply (negotiate_content_type hs (sr_binary_data request))) (\<lambda>encoding.
            Inr \<lparr> as_token = token, as_hold_open = should_hold_open request, as_lifetime = lifetime,
                  as_cursors = cursors, as_encoding = encoding \<rparr>)))))"

text \<open>
  \<open>take_until(sleep(lifetime))\<close> around the body, with the timer set when the body is built: what the stream
  yields when it is polled at a time, given what the inner stream would yield then.
\<close>

definition stream_deadline :: "nat \<Rightarrow> AdmittedSync \<Rightarrow> nat" where
  "stream_deadline started_at a = started_at + as_lifetime a"

definition body_stream_item :: "nat \<Rightarrow> AdmittedSync \<Rightarrow> nat \<Rightarrow> 'a option \<Rightarrow> 'a option" where
  "body_stream_item started_at a now item = (if stream_deadline started_at a \<le> now then None else item)"

end
