(* ===== verification/Sync_Session.thy ===== *)
theory Sync_Session
  imports Sync_Request
begin

text \<open>
  The streaming response (\<open>sync_response\<close>, \<open>streaming_response\<close> and \<open>build_body_stream\<close> of \<open>http/sync_stream.rs\<close>) on the
  MDBX storage backend (\<open>impl Storage for WireMdbxStorage\<close> of \<open>storage/wire_mdbx.rs\<close>). A session is the state of the
  stream's unfold; one poll is one step of its loop, cut at the points where other tasks may run, so
  that batches persisted between polls give every interleaving with the ingest loop. Encoding a line
  to bytes and logging are not modelled; the deadline is \<open>body_stream_item\<close> of \<open>Sync_Request\<close>.
\<close>

section \<open>The storage backend\<close>

definition wire_is_ready :: "'t mdbx \<Rightarrow> 't store \<Rightarrow> storage_error + bool" where
  "wire_is_ready M st = map_err (\<lambda>_. StorageError ''failed to read snapshot readiness'') (is_initial_snapshot_complete M st)"

definition wire_read_parameter_lookup_rows :: "crates \<Rightarrow> 't mdbx \<Rightarrow> 't store \<Rightarrow> lookup_reader" where
  "wire_read_parameter_lookup_rows C M st lookup key_values max_entries =
     map_err (\<lambda>_. StorageError ''failed to read parameter lookup rows'')
       (read_parameter_lookup_rows C M st lookup key_values max_entries)"

definition latest_sync_op_id :: "'t mdbx \<Rightarrow> 't store \<Rightarrow> storage_error + nat" where
  "latest_sync_op_id M st =
     rbind (map_err (\<lambda>_. StorageError ''failed to read dynamic task tail cursor'') (task_tail_last_op_id M st))
       (\<lambda>id. Inr (case id of None \<Rightarrow> 0 | Some n \<Rightarrow> n))"

record 't backend =
  be_crates :: crates
  be_mdbx :: "'t mdbx"
  be_global_plan :: RustExecutionPlan
  be_max_entries :: nat
  be_max_bytes :: nat
  be_env_clear :: bool
  be_page_sizes :: StreamPageSizes

text \<open>The chunk source: the iterator over the views, and the cursors it ends at.\<close>

definition sync_chunk_source ::
  "'t backend \<Rightarrow> 't store \<Rightarrow> SyncBucketCursors \<Rightarrow> RustExecutionPlan \<Rightarrow>
   't store \<times> (storage_error + (BucketSyncChunkIterator \<times> SyncBucketCursors))" where
  "sync_chunk_source B st cursors plan =
     (case dynamic_task_tail_source_for_buckets (be_crates B) (be_mdbx B) (be_global_plan B)
             (be_max_entries B) (be_max_bytes B) st cursors plan of
        (st, r) \<Rightarrow> (st, rbind r (\<lambda>(views, last_op_id, final).
          Inr (chunk_iterator_new (be_env_clear B) (be_page_sizes B) views last_op_id, final))))"

abbreviation latest_cursors_of ::
  "'t backend \<Rightarrow> 't store \<Rightarrow> SyncBucketCursors \<Rightarrow> RustExecutionPlan \<Rightarrow> 't store \<times> (storage_error + SyncBucketCursors)" where
  "latest_cursors_of B \<equiv> latest_sync_bucket_cursors_for_plan (be_crates B) (be_mdbx B) (be_global_plan B)"

section \<open>Sessions\<close>

datatype session_phase = Draining | Waiting | Advanced SyncBucketCursors

record HoldOpenStreamState =
  se_plan :: RustExecutionPlan
  se_cursors :: SyncBucketCursors
  se_pending :: BucketSyncChunkIterator
  se_after :: nat
  se_hold_open :: bool
  se_phase :: session_phase

datatype session_event = Emitted StreamingSyncLine | Silent | Ended

definition hold_open_poll_interval :: "environment \<Rightarrow> nat" where
  "hold_open_poll_interval env =
     (case Option.bind (env ''POWERSYNC_RUST_HOLD_OPEN_POLL_MS'') parse_u64 of
        None \<Rightarrow> 1000 | Some n \<Rightarrow> if 0 < n then n else 1000)"

text \<open>
  The response of an admitted request. On this backend there is no preframed body and no chunk count,
  so every response is a stream; a failed read is the status 500.
\<close>

definition sync_response ::
  "'t backend \<Rightarrow> 't store \<Rightarrow> RustExecutionPlan \<Rightarrow> AdmittedSync \<Rightarrow>
   't store \<times> (nat \<times> string + HoldOpenStreamState)" where
  "sync_response B st plan request =
     (case sync_chunk_source B st (as_cursors request) plan of
        (st, Inl _) \<Rightarrow> (st, Inl (500, ''internal storage error''))
      | (st, Inr (chunks, final)) \<Rightarrow>
          (st, Inr \<lparr> se_plan = plan, se_cursors = final, se_pending = chunks,
                     se_after = (case max_after final of None \<Rightarrow> 0 | Some a \<Rightarrow> a),
                     se_hold_open = as_hold_open request, se_phase = Draining \<rparr>))"

definition check_cursors ::
  "'t backend \<Rightarrow> 't store \<Rightarrow> HoldOpenStreamState \<Rightarrow> session_phase \<Rightarrow> 't store \<times> HoldOpenStreamState \<times> session_event" where
  "check_cursors B st se unchanged =
     (case latest_cursors_of B st (se_cursors se) (se_plan se) of
        (st, Inl _) \<Rightarrow> (st, se, Ended)
      | (st, Inr latest) \<Rightarrow>
          (st, se\<lparr>se_phase := (if latest \<noteq> se_cursors se then Advanced latest else unchanged)\<rparr>, Silent))"

definition session_poll :: "'t backend \<Rightarrow> 't store \<Rightarrow> HoldOpenStreamState \<Rightarrow> 't store \<times> HoldOpenStreamState \<times> session_event" where
  "session_poll B st se =
     (case se_phase se of
        Draining \<Rightarrow>
          (case next_line (se_pending se) of
             Inl _ \<Rightarrow> (st, se, Ended)
           | Inr (Some line, it) \<Rightarrow> (st, se\<lparr>se_pending := it\<rparr>, Emitted line)
           | Inr (None, it) \<Rightarrow>
               if \<not> se_hold_open se then (st, se\<lparr>se_pending := it\<rparr>, Ended)
               else (case check_cursors B st (se\<lparr>se_pending := it\<rparr>) Waiting of
                       (st, se, event) \<Rightarrow>
                         if event = Silent \<and> se_phase se = Waiting \<and> isl (latest_sync_op_id (be_mdbx B) st)
                         then (st, se, Ended) else (st, se, event)))
      | Waiting \<Rightarrow> check_cursors B st se Draining
      | Advanced latest \<Rightarrow>
          if latest = se_cursors se then (st, se\<lparr>se_phase := Draining\<rparr>, Silent)
          else
            (case sync_chunk_source B st (se_cursors se) (se_plan se) of
               (st, Inl _) \<Rightarrow> (st, se, Ended)
             | (st, Inr (chunks, final)) \<Rightarrow>
                 (st, se\<lparr>se_after := (case max_after final of None \<Rightarrow> se_after se | Some a \<Rightarrow> a),
                         se_cursors := final, se_pending := chunks, se_phase := Draining\<rparr>, Silent)))"

end
