(* ===== verification/Session_Facts.thy ===== *)
theory Session_Facts
  imports Sync_Session Convergence
begin

text \<open>
  A client that applies every line of a streaming session, batch after batch, holds the contents of
  its buckets: the session as a transition system over polls and persisted batches, and its
  invariant by rule induction.
\<close>

section \<open>The client\<close>

fun apply_line :: "(string \<Rightarrow> replica) \<Rightarrow> StreamingSyncLine \<Rightarrow> string \<Rightarrow> replica" where
  "apply_line R (DataLine d) = R(bd_bucket d := replay (R (bd_bucket d)) (bd_data d))"
| "apply_line R _ = R"

abbreviation client :: "(string \<Rightarrow> replica) \<Rightarrow> StreamingSyncLine list \<Rightarrow> string \<Rightarrow> replica" where
  "client \<equiv> foldl apply_line"

lemma client_pages: "client R (pages b n a es) = R(b := replay (R b) es)"
proof (induction b n a es arbitrary: R rule: pages.induct)
  case (1 b n a es)
  show ?case
  proof (cases "es = []")
    case False
    have "replay (replay (R b) (take (max n 1) es)) (drop (max n 1) es) = replay (R b) es"
      by (metis append_take_drop_id foldl_append)
    with 1 [OF False refl refl refl] False show ?thesis
      by (subst pages.simps) (auto simp: Let_def data_line_from_entries_def fun_eq_iff)
  qed (simp add: pages.simps)
qed

lemma client_page_lines: "client R (page_lines p) = R(pi_bucket_name p := replay (R (pi_bucket_name p)) (page_entries p))"
  by (simp add: page_lines_def client_pages)

lemma client_other: "name \<notin> pi_bucket_name ` set ps \<Longrightarrow> client R (concat (map page_lines ps)) name = R name"
  by (induction ps arbitrary: R) (simp_all add: client_page_lines)

lemma client_views:
  assumes "distinct (map pi_bucket_name ps)" and "p \<in> set ps"
  shows "client R (concat (map page_lines ps)) (pi_bucket_name p) = replay (R (pi_bucket_name p)) (page_entries p)"
  using assms
proof (induction ps arbitrary: R)
  case (Cons p' ps)
  show ?case
  proof (cases "p = p'")
    case True
    with Cons.prems(1) have "pi_bucket_name p \<notin> pi_bucket_name ` set ps" by simp
    with True show ?thesis by (simp add: client_page_lines client_other)
  next
    case False
    with Cons.prems have p: "p \<in> set ps" by simp
    then have "pi_bucket_name p \<in> pi_bucket_name ` set ps" by (rule imageI)
    with Cons.prems(1) have "pi_bucket_name p \<noteq> pi_bucket_name p'" by auto
    with Cons.IH [OF _ p] Cons.prems(1) show ?thesis by (simp add: client_page_lines)
  qed
qed simp

section \<open>The iterator\<close>

lemma run_lines_mono: "run_lines n it = Some r \<Longrightarrow> run_lines (n + k) it = Some r"
proof (induction n arbitrary: it r)
  case (Suc n)
  show ?case
  proof (cases "next_line it")
    case (Inr x)
    obtain line it' where x: "x = (line, it')" by (cases x)
    with Inr Suc show ?thesis by (cases line) auto
  qed (use Suc.prems in simp)
qed simp

lemma run_lines_unique: "run_lines n it = Some r \<Longrightarrow> run_lines m it = Some r' \<Longrightarrow> r = r'"
  using run_lines_mono [of n it r m] run_lines_mono [of m it r' n] by (simp add: add.commute)

lemma page_loop_None: "page_loop l pending page views = Inr (None, page', views', pending') \<Longrightarrow>
  page' = None \<and> views' = [] \<and> \<not> pending'"
proof (induction views arbitrary: page)
  case Nil
  then show ?case by (subst (asm) page_loop.simps) (auto elim!: rbindE split: option.splits if_splits)
next
  case (Cons v vs)
  then show ?case by (subst (asm) (2) page_loop.simps) (auto elim!: rbindE split: option.splits)
qed

lemma next_line_fused: "next_line it = Inr (None, it') \<Longrightarrow> next_line it' = Inr (None, it')"
proof -
  assume n: "next_line it = Inr (None, it')"
  then obtain page views pending where c: "it_checkpoint it = None"
    and p: "page_loop (it_last_op_id it) (it_complete_pending it) (it_page it) (it_views it) = Inr (None, page, views, pending)"
    and it': "it' = it\<lparr>it_page := page, it_views := views, it_complete_pending := pending\<rparr>"
    by (auto simp: next_line_def elim!: rbindE split: option.splits)
  from page_loop_None [OF p] have "it' = it\<lparr>it_page := None, it_views := [], it_complete_pending := False\<rparr>"
    unfolding it' by simp
  then show ?thesis by (simp add: next_line_def c page_loop.simps)
qed

section \<open>One read\<close>

text \<open>A store that serves: the invariant, a dense log, routing values that are not arrays, and an id.\<close>

definition serving_ok :: "crates \<Rightarrow> RustExecutionPlan \<Rightarrow> abs_store \<Rightarrow> kv \<Rightarrow> bool" where
  "serving_ok C plan A kv \<longleftrightarrow> store_inv C plan A kv \<and> tail_dense A kv \<and> 0 < last_id kv \<and>
     (\<forall>x \<in> ran (ab_tail A). scalar_op (cr_json C) x) \<and>
     (\<forall>(rf, data) \<in> ran (ab_docs A). scalar_routes (cr_json C) rf)"

text \<open>What a replica may hold at a cursor: nothing at zero, else the contents of the store at that id.\<close>

definition in_step :: "crates \<Rightarrow> RustExecutionPlan \<Rightarrow> abs_store \<Rightarrow> nat \<Rightarrow> ResolvedSyncBucket \<Rightarrow> nat \<Rightarrow> replica \<Rightarrow> bool" where
  "in_step C plan A l b after R \<longleftrightarrow>
     (if after = 0 then R = Map.empty
      else \<exists>A0. history plan A0 after A l \<and> R = bucket_contents (cr_json C) b (ab_docs A0))"

definition bucket_ok :: "RustExecutionPlan \<Rightarrow> ResolvedSyncBucket \<Rightarrow> bool" where
  "bucket_ok plan b \<longleftrightarrow> bucket_indexed plan b \<and> (\<forall>q \<in> set (rb_queries b). CHR '':'' \<notin> set (rq_object_type q))"

lemma tail_entries_ok:
  assumes "tail_entries_for_bucket C xs b = Inr es" and "\<forall>x \<in> set xs. so_op_id x < u64_limit"
  shows "entries_ok es"
  unfolding entries_ok_def
proof
  fix e assume "e \<in> set es"
  from tail_entries_ids [OF assms(1) this] obtain x where "x \<in> set xs" "oe_op_id e = decimal (so_op_id x)" by blast
  with assms(2) show "parse_u64 (oe_op_id e) \<noteq> None" by (simp add: parse_decimal)
qed

lemma snapshot_entries_ok:
  assumes "length (bv_current_entries v) \<le> l" and "l < u64_limit"
  shows "entries_ok (snapshot_entries c v l)"
proof -
  have e: "parse_u64 (oe_op_id (snapshot_current_entry x n)) \<noteq> None" if "n < u64_limit" for x n
    using that by (simp add: snapshot_current_entry_def parse_decimal)
  have k: "parse_u64 (oe_op_id (snapshot_clear_entry n x)) \<noteq> None" if "n < u64_limit" for x n
    using that by (simp add: snapshot_clear_entry_def parse_decimal)
  have i: "i < length (bv_current_entries v)" if "(i, x) \<in> set (enumerate 0 (bv_current_entries v))" for i x
    using that by (simp add: in_set_enumerate_eq)
  show ?thesis
    using assms by (auto simp: entries_ok_def snapshot_entries_def Let_def simp del: not_None_eq intro!: e k dest!: i split: if_splits)
qed

context ingest_store
begin

lemma follow_bucket:
  fixes env :: bool and sizes :: StreamPageSizes
  assumes "read_bucket_snapshot_in_transaction C M t (bucket_read_request bucket) budget = Inr (s, budget')"
    and "serving_ok C plan A (view t)" and "bucket_ok plan (rc_resolved bucket)"
    and "in_step C plan A (last_id (view t)) (rc_resolved bucket) (rc_after bucket) R"
    and "build_bucket_payload C bucket s = Inr p" and "pl_global_last_op_id p \<le> last_id (view t)"
    and "pl_global_last_op_id p \<le> l"
  defines "it \<equiv> page_iterator env sizes l (bucket_view (rc_resolved bucket) p)"
  shows "replay R (page_entries it) = bucket_contents (cr_json C) (rc_resolved bucket) (ab_docs A)"
    and "pl_global_last_op_id p = last_id (view t)" and "entries_ok (ei_items (pi_entries it))"
proof -
  note sv = assms(2) [unfolded serving_ok_def]
  note bk = assms(3) [unfolded bucket_ok_def]
  have lim: "last_id (view t) < u64_limit" by (rule counter_of_bound)
  consider (snapshot) "rs_reset_required s \<or> rc_after bucket = 0" | (delta) "\<not> rs_reset_required s" "0 < rc_after bucket" by blast
  then have "replay R (page_entries it) = bucket_contents (cr_json C) (rc_resolved bucket) (ab_docs A) \<and>
      pl_global_last_op_id p = last_id (view t) \<and> entries_ok (ei_items (pi_entries it))"
  proof cases
    case snapshot
    have latest: "rs_latest_op_id s = last_id (view t)"
      using snapshot_read_spec(3) [OF assms(1), simplified] sv bk snapshot by blast
    obtain es where g: "pl_global_last_op_id p = max (rs_latest_op_id s) (length es)"
      and pc: "pl_current_entries p = (if pl_global_last_op_id p = 0 then [] else es)"
      and pf: "pl_snapshot_floor_op_id p = pl_global_last_op_id p" "pl_bounded_after p = 0"
      by (rule payload_snapshot [OF assms(5) snapshot]) blast
    have pg: "pl_global_last_op_id p = last_id (view t)" "length es \<le> last_id (view t)"
      using g latest assms(6) by simp_all
    have R: "rs_reset_required s \<or> rc_after bucket = 0 \<and> R = Map.empty"
      using snapshot assms(4) by (auto simp: in_step_def)
    have si: "store_inv C plan A (view t)" and ty: "\<forall>q \<in> set (rb_queries (rc_resolved bucket)). CHR '':'' \<notin> set (rq_object_type q)"
      and ix: "bucket_indexed plan (rc_resolved bucket)" using sv bk by blast+
    have "replay R (page_entries it) = bucket_contents (cr_json C) (rc_resolved bucket) (ab_docs A)"
      unfolding it_def
      by (rule snapshot_stream_converges [OF assms(1) si ty R ix _ assms(5) _ assms(7)]) (use sv pg in \<open>force intro: ranI\<close>)+
    moreover have "ei_items (pi_entries it) = snapshot_entries (includes_clear env (bucket_view (rc_resolved bucket) p))
        (bucket_view (rc_resolved bucket) p) (pl_global_last_op_id p)"
      using pf pg sv assms(7) by (simp add: it_def page_iterator_def Let_def bucket_view_def)
    then have "entries_ok (ei_items (pi_entries it))"
      using snapshot_entries_ok [of "bucket_view (rc_resolved bucket) p" "pl_global_last_op_id p"] pc pg lim
      by (simp add: bucket_view_def)
    ultimately show ?thesis using pg by blast
  next
    case delta
    obtain A0 where h: "history plan A0 (rc_after bucket) A (last_id (view t))"
      and R: "R = bucket_contents (cr_json C) (rc_resolved bucket) (ab_docs A0)"
      using delta assms(4) by (auto simp: in_step_def)
    have si: "store_inv C plan A (view t)" and td: "tail_dense A (view t)" using sv by blast+
    have after: "0 < rr_after (bucket_read_request bucket)" using delta by simp
    note d = delta_read_spec [OF assms(1) si request_index_names delta(1) after, simplified]
    have "replay R (page_entries it) = bucket_contents (cr_json C) (rc_resolved bucket) (ab_docs A)"
      unfolding it_def R
      by (rule delta_stream_converges [OF assms(1) si td delta h _ _ assms(5,7)]) (use sv bk in blast)+
    moreover have "pl_global_last_op_id p = last_id (view t)"
      using payload_delta(4) [OF assms(5) delta] d(3) assms(6) by simp
    moreover have "entries_ok (pl_tail_entries p)"
    proof (rule tail_entries_ok [OF payload_delta(1) [OF assms(5) delta]])
      have "finite (delta_ids plan (ab_tail A) (bucket_tail_index_keys (rc_resolved bucket)) (rc_after bucket) (last_id (view t)))"
        by (rule finite_subset [of _ "{..last_id (view t)}"]) (auto simp: delta_ids_def)
      then show "\<forall>x \<in> set (rs_tail_ops s). so_op_id x < u64_limit"
        using si unfolding d(1) by (auto simp: store_inv_def tail_inv_def tail_op_ok_def delta_ids_def covered_def)
    qed
    then have "entries_ok (ei_items (pi_entries it))"
      using payload_delta(2) [OF assms(5) delta]
      by (auto simp: it_def page_iterator_def Let_def bucket_view_def entries_ok_def)
    ultimately show ?thesis by blast
  qed
  then show "replay R (page_entries it) = bucket_contents (cr_json C) (rc_resolved bucket) (ab_docs A)"
    "pl_global_last_op_id p = last_id (view t)" "entries_ok (ei_items (pi_entries it))" by blast+
qed

end

end
