(* ===== verification/Session_Converges.thy ===== *)
theory Session_Converges
  imports Session_Facts
begin

text \<open>
  Sessions from the response to the last poll. One chunk source reads every bucket of the request from
  one table; a session is a transition system whose steps are polls and batches persisted between
  them; its invariant is that the client, once it has applied the pending lines, stands exactly where
  the session's cursors stand.
\<close>

section \<open>One chunk source\<close>

lemma source_Inr:
  assumes "dynamic_task_tail_source_for_buckets C M gp me mb st cursors plan = (st', Inr (views, l, final))"
  obtains snaps pairs where
    "read_bucket_snapshots_with_limits C M gp st (map bucket_read_request (resolved_sync_buckets (cr_json C) gp cursors plan)) me me mb
       = (st', Inr snaps)"
    and "bucket_views C (resolved_sync_buckets (cr_json C) gp cursors plan) snaps = Inr (views, pairs)"
    and "l = fold max (map bv_last_op_id views) 0" and "final = cursors_from_pairs pairs"
proof -
  obtain st1 r where r: "read_bucket_snapshots_with_limits C M gp st
      (map bucket_read_request (resolved_sync_buckets (cr_json C) gp cursors plan)) me me mb = (st1, r)" by (meson surj_pair)
  show thesis
    using assms that by (cases r) (auto simp: dynamic_task_tail_source_for_buckets_def Let_def r elim!: rbindE)
qed

lemma bucket_views_payloads:
  assumes "bucket_views C resolved snaps = Inr (views, pairs)" and "length snaps = length resolved"
  obtains ps where "list_all2 (\<lambda>(rc, s) p. build_bucket_payload C rc s = Inr p) (zip resolved snaps) ps"
    and "views = map2 (\<lambda>rc p. bucket_view (rc_resolved rc) p) resolved ps"
    and "pairs = map2 (\<lambda>rc p. (rb_bucket_name (rc_resolved rc), pl_global_last_op_id p)) resolved ps"
proof -
  let ?g = "\<lambda>(bucket, snapshot). rbind (build_bucket_payload C bucket snapshot) (\<lambda>payload.
      Inr (bucket_view (rc_resolved bucket) payload, rb_bucket_name (rc_resolved bucket), pl_global_last_op_id payload))"
  obtain xs where xs: "rmap ?g (zip resolved snaps) = Inr xs" and v: "views = map fst xs" "pairs = map snd xs"
    using assms(1) by (auto simp: bucket_views_def elim!: rbindE)
  have "\<exists>ps. list_all2 (\<lambda>(rc, s) p. build_bucket_payload C rc s = Inr p) (zip resolved snaps) ps \<and>
      map fst xs = map2 (\<lambda>rc p. bucket_view (rc_resolved rc) p) resolved ps \<and>
      map snd xs = map2 (\<lambda>rc p. (rb_bucket_name (rc_resolved rc), pl_global_last_op_id p)) resolved ps"
    using assms(2) [symmetric] xs
  proof (induction resolved snaps arbitrary: xs rule: list_induct2)
    case (Cons rc rcs s ss)
    from Cons.prems obtain p ys where p: "build_bucket_payload C rc s = Inr p" "rmap ?g (zip rcs ss) = Inr ys"
      "xs = (bucket_view (rc_resolved rc) p, rb_bucket_name (rc_resolved rc), pl_global_last_op_id p) # ys"
      by (auto elim!: rbindE)
    from Cons.IH [OF p(2)] obtain ps where
      "list_all2 (\<lambda>(rc, s) p. build_bucket_payload C rc s = Inr p) (zip rcs ss) ps"
      "map fst ys = map2 (\<lambda>rc p. bucket_view (rc_resolved rc) p) rcs ps"
      "map snd ys = map2 (\<lambda>rc p. (rb_bucket_name (rc_resolved rc), pl_global_last_op_id p)) rcs ps" by blast
    with p show ?case by (intro exI [of _ "p # ps"]) simp
  qed simp
  then show thesis using that v by blast
qed

context ingest_store
begin

lemma snapshots_read:
  assumes "read_bucket_snapshots_with_limits C M gp st requests me ms mb = (st', Inr snaps)"
    and "last_id (view (st_table st)) \<le> indexed_id (view (st_table st))"
  obtains t where "st' = st" and "view t = view (st_table st)"
    and "list_all2 (\<lambda>req s. \<exists>b b'. read_bucket_snapshot_in_transaction C M t req b = Inr (s, b')) requests snaps"
proof -
  let ?step = "\<lambda>t (snapshots, budget) request. rbind (read_bucket_snapshot_in_transaction C M t request budget)
      (\<lambda>(snapshot, budget). Inr (snapshots @ [snapshot], budget))"
  obtain st1 r1 where e: "ensure_sync_tail_indexes_current C M gp st = (st1, r1)" by (meson surj_pair)
  have st1: "st1 = st" by (rule indexes_current_noop [OF e assms(2)])
  obtain t budget budget' where t: "st' = st" "view t = view (st_table st)"
    "rfold (?step t) ([], budget) requests = Inr (snaps, budget')"
    using assms(1) unfolding read_bucket_snapshots_with_limits_def e st1
    by (cases r1) (auto elim!: run_ro_cases rbindE)
  have "list_all2 (\<lambda>req s. \<exists>b b'. read_bucket_snapshot_in_transaction C M t req b = Inr (s, b')) requests (fst (snaps, budget'))"
    by (rule rfold_track [OF t(3)]) (auto elim!: rbindE intro!: list_all2_appendI, blast)
  with that t(1,2) show thesis by simp
qed

lemma source_reads:
  assumes "dynamic_task_tail_source_for_buckets C M gp me mb st cursors plan = (st', Inr (views, l, final))"
    and "last_id (view (st_table st)) \<le> indexed_id (view (st_table st))"
  defines "resolved \<equiv> resolved_sync_buckets (cr_json C) gp cursors plan"
  obtains ps where "st' = st" and "views = map2 (\<lambda>rc p. bucket_view (rc_resolved rc) p) resolved ps"
    and "final = cursors_from_pairs (map2 (\<lambda>rc p. (rb_bucket_name (rc_resolved rc), pl_global_last_op_id p)) resolved ps)"
    and "l = fold max (map bv_last_op_id views) 0"
    and "list_all2 (\<lambda>rc p. \<exists>t b s b'. view t = view (st_table st) \<and>
           read_bucket_snapshot_in_transaction C M t (bucket_read_request rc) b = Inr (s, b') \<and>
           build_bucket_payload C rc s = Inr p) resolved ps"
proof -
  obtain snaps pairs where r: "read_bucket_snapshots_with_limits C M gp st (map bucket_read_request resolved) me me mb = (st', Inr snaps)"
    and v: "bucket_views C resolved snaps = Inr (views, pairs)" and l: "l = fold max (map bv_last_op_id views) 0"
    and f: "final = cursors_from_pairs pairs"
    using source_Inr [OF assms(1)] unfolding resolved_def by blast
  obtain t where st': "st' = st" and t: "view t = view (st_table st)"
    and reads: "list_all2 (\<lambda>rc s. \<exists>b b'. read_bucket_snapshot_in_transaction C M t (bucket_read_request rc) b = Inr (s, b')) resolved snaps"
    using snapshots_read [OF r assms(2)] by (auto simp: list_all2_map1)
  have len: "length snaps = length resolved" using list_all2_lengthD [OF reads] by simp
  obtain ps where ps: "list_all2 (\<lambda>(rc, s) p. build_bucket_payload C rc s = Inr p) (zip resolved snaps) ps"
    and "views = map2 (\<lambda>rc p. bucket_view (rc_resolved rc) p) resolved ps"
    and "pairs = map2 (\<lambda>rc p. (rb_bucket_name (rc_resolved rc), pl_global_last_op_id p)) resolved ps"
    by (rule bucket_views_payloads [OF v len])
  moreover have "list_all2 (\<lambda>rc p. \<exists>t b s b'. view t = view (st_table st) \<and>
      read_bucket_snapshot_in_transaction C M t (bucket_read_request rc) b = Inr (s, b') \<and>
      build_bucket_payload C rc s = Inr p) resolved ps"
    using reads ps len t unfolding list_all2_conv_all_nth by fastforce
  ultimately show thesis using that st' l f by blast
qed

end

section \<open>Cursors\<close>

lemma resolve_group_name: "resolve_group J name s g vs = Some b \<Longrightarrow> rb_bucket_name b = name"
  by (auto simp: resolve_group_def Let_def split: if_splits list.splits)

lemma resolve_name: "resolve_bucket_request_for_plan J gp plan name = Some b \<Longrightarrow> rb_bucket_name b = name"
proof -
  have "rb_bucket_name b = name" if "resolve_bucket_request J p name = Some b" for p
    using that by (auto simp: resolve_bucket_request_def bind_eq_Some_conv intro: resolve_group_name)
  then show "resolve_bucket_request_for_plan J gp plan name = Some b \<Longrightarrow> rb_bucket_name b = name"
    by (auto simp: resolve_bucket_request_for_plan_def split: option.splits)
qed

text \<open>The cursors of a session: one per bucket, each resolving to a bucket the plan has indexes for, if at all.\<close>

definition cursors_ok :: "crates \<Rightarrow> RustExecutionPlan \<Rightarrow> RustExecutionPlan \<Rightarrow> SyncBucketCursors \<Rightarrow> bool" where
  "cursors_ok C gp plan cs \<longleftrightarrow> \<not> sc_default_when_empty cs \<and> distinct (map sc_name (sc_buckets cs)) \<and>
     (\<forall>c \<in> set (sc_buckets cs). \<forall>b. resolve_bucket_request_for_plan (cr_json C) gp plan (sc_name c) = Some b \<longrightarrow> bucket_ok plan b)"

text \<open>A client that stands at its cursors.\<close>

definition following ::
  "crates \<Rightarrow> RustExecutionPlan \<Rightarrow> RustExecutionPlan \<Rightarrow> abs_store \<Rightarrow> nat \<Rightarrow> SyncBucketCursors \<Rightarrow> (string \<Rightarrow> replica) \<Rightarrow> bool" where
  "following C gp plan A l cs R \<longleftrightarrow>
     (\<forall>c \<in> set (sc_buckets cs). \<forall>b. resolve_bucket_request_for_plan (cr_json C) gp plan (sc_name c) = Some b \<longrightarrow>
        in_step C plan A l b (sc_after c) (R (sc_name c)))"

lemma resolved_members:
  assumes "cursors_ok C gp plan cs" and "rc \<in> set (resolved_sync_buckets (cr_json C) gp cs plan)"
  obtains c where "c \<in> set (sc_buckets cs)"
    and "resolve_bucket_request_for_plan (cr_json C) gp plan (sc_name c) = Some (rc_resolved rc)"
    and "rc_after rc = sc_after c" and "rb_bucket_name (rc_resolved rc) = sc_name c"
proof -
  from assms obtain c b where "c \<in> set (sc_buckets cs)" "resolve_bucket_request_for_plan (cr_json C) gp plan (sc_name c) = Some b"
    "rc = \<lparr>rc_resolved = b, rc_after = sc_after c\<rparr>"
    by (auto simp: cursors_ok_def resolved_sync_buckets_def map_filter_def)
  with that show thesis by (simp add: resolve_name)
qed

lemma resolved_distinct:
  assumes "cursors_ok C gp plan cs"
  shows "distinct (map (\<lambda>rc. rb_bucket_name (rc_resolved rc)) (resolved_sync_buckets (cr_json C) gp cs plan))"
proof -
  let ?r = "\<lambda>c. resolve_bucket_request_for_plan (cr_json C) gp plan (sc_name c)"
  have "map (\<lambda>rc. rb_bucket_name (rc_resolved rc)) (List.map_filter (\<lambda>c. map_option (\<lambda>b. \<lparr>rc_resolved = b, rc_after = sc_after c\<rparr>) (?r c)) xs)
      = map sc_name (filter (\<lambda>c. ?r c \<noteq> None) xs)" for xs
    by (induction xs) (auto simp: map_filter_simps resolve_name)
  then have "map (\<lambda>rc. rb_bucket_name (rc_resolved rc)) (resolved_sync_buckets (cr_json C) gp cs plan)
      = map sc_name (filter (\<lambda>c. ?r c \<noteq> None) (sc_buckets cs))"
    using assms by (simp only: cursors_ok_def resolved_sync_buckets_def simp_thms if_False append_Nil2)
  with assms show ?thesis by (simp only: cursors_ok_def distinct_map_filter)
qed

text \<open>A bucket whose stream ends at the last id of the store with its contents.\<close>

definition caught_up ::
  "'t backend \<Rightarrow> crates \<Rightarrow> abs_store \<Rightarrow> nat \<Rightarrow> (string \<Rightarrow> replica) \<Rightarrow> nat \<Rightarrow> ResolvedBucketCursor \<Rightarrow> BucketPayload \<Rightarrow> bool" where
  "caught_up B C A l R last_op_id rc p \<longleftrightarrow>
     (let it = page_iterator (be_env_clear B) (be_page_sizes B) l (bucket_view (rc_resolved rc) p) in
      pl_global_last_op_id p = last_op_id \<and> entries_ok (ei_items (pi_entries it)) \<and>
      replay (R (rb_bucket_name (rc_resolved rc))) (page_entries it) = bucket_contents (cr_json C) (rc_resolved rc) (ab_docs A))"

lemma fold_max_ge: "x \<in> set xs \<Longrightarrow> (x :: nat) \<le> fold max xs a"
proof (induction xs arbitrary: a)
  case (Cons y ys)
  have "a \<le> fold max ys a" for a by (induction ys arbitrary: a) (auto intro: order_trans [OF max.cobounded2])
  then have "max y a \<le> fold max ys (max y a)" .
  with Cons show ?case by auto
qed simp

lemma client_frame:
  "client R (checkpoint_line views l # concat (map page_lines ps) @ [checkpoint_complete_line l]) = client R (concat (map page_lines ps))"
  by (simp add: checkpoint_line_def checkpoint_complete_line_def Let_def)

context ingest_store
begin

lemma chunk_source_buckets:
  assumes src: "sync_chunk_source B st cs plan = (st', Inr (it, final))" and B: "be_crates B = C" "be_mdbx B = M"
    and sv: "serving_ok C plan A (view (st_table st))" and ok: "cursors_ok C (be_global_plan B) plan cs"
    and fo: "following C (be_global_plan B) plan A (last_id (view (st_table st))) cs R"
    and within: "\<forall>c \<in> set (sc_buckets final). sc_after c \<le> last_id (view (st_table st))"
  obtains l ps where "st' = st"
    and "it = chunk_iterator_new (be_env_clear B) (be_page_sizes B)
      (map2 (\<lambda>rc p. bucket_view (rc_resolved rc) p) (resolved_sync_buckets (cr_json C) (be_global_plan B) cs plan) ps) l"
    and "final = cursors_from_pairs (map2 (\<lambda>rc p. (rb_bucket_name (rc_resolved rc), pl_global_last_op_id p))
      (resolved_sync_buckets (cr_json C) (be_global_plan B) cs plan) ps)"
    and "length ps = length (resolved_sync_buckets (cr_json C) (be_global_plan B) cs plan)"
    and "\<And>rc p. (rc, p) \<in> set (zip (resolved_sync_buckets (cr_json C) (be_global_plan B) cs plan) ps) \<Longrightarrow>
      caught_up B C A l R (last_id (view (st_table st))) rc p \<and>
      (\<exists>c \<in> set (sc_buckets cs). sc_name c = rb_bucket_name (rc_resolved rc)) \<and>
      resolve_bucket_request_for_plan (cr_json C) (be_global_plan B) plan (rb_bucket_name (rc_resolved rc)) = Some (rc_resolved rc)"
proof -
  let ?gp = "be_global_plan B" and ?l = "last_id (view (st_table st))"
  let ?rs = "resolved_sync_buckets (cr_json C) ?gp cs plan"
  obtain views l where v: "dynamic_task_tail_source_for_buckets C M ?gp (be_max_entries B) (be_max_bytes B) st cs plan = (st', Inr (views, l, final))"
    and it: "it = chunk_iterator_new (be_env_clear B) (be_page_sizes B) views l"
    using src by (auto simp: sync_chunk_source_def B split: prod.splits elim!: rbindE)
  have "?l \<le> indexed_id (view (st_table st))" using sv by (simp add: serving_ok_def store_inv_def)
  from source_reads [OF v this] obtain ps where st': "st' = st"
    and views: "views = map2 (\<lambda>rc p. bucket_view (rc_resolved rc) p) ?rs ps"
    and final: "final = cursors_from_pairs (map2 (\<lambda>rc p. (rb_bucket_name (rc_resolved rc), pl_global_last_op_id p)) ?rs ps)"
    and l: "l = fold max (map bv_last_op_id views) 0"
    and reads: "list_all2 (\<lambda>rc p. \<exists>t b s b'. view t = view (st_table st) \<and>
           read_bucket_snapshot_in_transaction C M t (bucket_read_request rc) b = Inr (s, b') \<and>
           build_bucket_payload C rc s = Inr p) ?rs ps" .
  let ?pi = "\<lambda>rc p. page_iterator (be_env_clear B) (be_page_sizes B) l (bucket_view (rc_resolved rc) p)"
  have "caught_up B C A l R ?l rc p \<and> (\<exists>c \<in> set (sc_buckets cs). sc_name c = rb_bucket_name (rc_resolved rc)) \<and>
      resolve_bucket_request_for_plan (cr_json C) ?gp plan (rb_bucket_name (rc_resolved rc)) = Some (rc_resolved rc)"
    if rp: "(rc, p) \<in> set (zip ?rs ps)" for rc p
  proof -
    have rc: "rc \<in> set ?rs" using rp by (rule set_zip_leftD)
    obtain c where c: "c \<in> set (sc_buckets cs)" "resolve_bucket_request_for_plan (cr_json C) ?gp plan (sc_name c) = Some (rc_resolved rc)"
      "rc_after rc = sc_after c" "rb_bucket_name (rc_resolved rc) = sc_name c" by (rule resolved_members [OF ok rc])
    obtain t b s b' where t: "view t = view (st_table st)"
      "read_bucket_snapshot_in_transaction C M t (bucket_read_request rc) b = Inr (s, b')" "build_bucket_payload C rc s = Inr p"
      using reads rp by (auto simp: list_all2_iff)
    have "pl_global_last_op_id p \<le> ?l" using within rp by (force simp: final cursors_from_pairs_def)
    moreover have "pl_global_last_op_id p \<le> l"
      unfolding l by (rule fold_max_ge) (use rp in \<open>force simp: views bucket_view_def\<close>)
    moreover have "bucket_ok plan (rc_resolved rc)" using ok c(1,2) by (auto simp: cursors_ok_def)
    moreover have "in_step C plan A ?l (rc_resolved rc) (rc_after rc) (R (sc_name c))" using fo c(1-3) by (auto simp: following_def)
    ultimately have "caught_up B C A l R ?l rc p"
      using follow_bucket [OF t(2) _ _ _ t(3)] sv t(1) c(4) by (simp add: caught_up_def Let_def)
    with c show ?thesis by auto
  qed
  moreover have "length ps = length ?rs" using list_all2_lengthD [OF reads] by simp
  ultimately show thesis using that it views final st' by blast
qed

lemma chunk_source_follows:
  assumes src: "sync_chunk_source B st cs plan = (st', Inr (it, final))" and B: "be_crates B = C" "be_mdbx B = M"
    and sv: "serving_ok C plan A (view (st_table st))" and ok: "cursors_ok C (be_global_plan B) plan cs"
    and fo: "following C (be_global_plan B) plan A (last_id (view (st_table st))) cs R"
    and within: "\<forall>c \<in> set (sc_buckets final). sc_after c \<le> last_id (view (st_table st))"
  shows "st' = st" and "cursors_ok C (be_global_plan B) plan final"
    and "\<forall>c \<in> set (sc_buckets final). sc_after c = last_id (view (st_table st))"
    and "\<exists>fuel ls. run_lines fuel it = Some (Inr ls) \<and>
      following C (be_global_plan B) plan A (last_id (view (st_table st))) final (client R ls)"
proof -
  let ?gp = "be_global_plan B" and ?l = "last_id (view (st_table st))" and ?name = "\<lambda>rc. rb_bucket_name (rc_resolved rc)"
  let ?rs = "resolved_sync_buckets (cr_json C) ?gp cs plan"
  obtain l ps where st': "st' = st" and it: "it = chunk_iterator_new (be_env_clear B) (be_page_sizes B)
      (map2 (\<lambda>rc p. bucket_view (rc_resolved rc) p) ?rs ps) l"
    and final: "final = cursors_from_pairs (map2 (\<lambda>rc p. (?name rc, pl_global_last_op_id p)) ?rs ps)" and len: "length ps = length ?rs"
    and bucket: "\<And>rc p. (rc, p) \<in> set (zip ?rs ps) \<Longrightarrow> caught_up B C A l R ?l rc p \<and>
      (\<exists>c \<in> set (sc_buckets cs). sc_name c = ?name rc) \<and>
      resolve_bucket_request_for_plan (cr_json C) ?gp plan (?name rc) = Some (rc_resolved rc)"
    using chunk_source_buckets [OF assms] by blast
  have names: "map (\<lambda>(rc, p). ?name rc) (zip ?rs ps) = map ?name ?rs"
    by (rule nth_equalityI) (use len in simp_all)
  show "st' = st" by (rule st')
  show "cursors_ok C ?gp plan final"
    using resolved_distinct [OF ok] ok bucket
    by (auto simp: cursors_ok_def final cursors_from_pairs_def comp_def case_prod_beta names [unfolded case_prod_beta]) metis
  show "\<forall>c \<in> set (sc_buckets final). sc_after c = ?l"
    using bucket by (auto simp: final cursors_from_pairs_def caught_up_def Let_def)
  let ?pi = "\<lambda>(rc, p). page_iterator (be_env_clear B) (be_page_sizes B) l (bucket_view (rc_resolved rc) p)"
  let ?ls = "checkpoint_line (map2 (\<lambda>rc p. bucket_view (rc_resolved rc) p) ?rs ps) l #
    concat (map page_lines (map ?pi (zip ?rs ps))) @ [checkpoint_complete_line l]"
  have "\<forall>v \<in> set (map2 (\<lambda>rc p. bucket_view (rc_resolved rc) p) ?rs ps).
      entries_ok (ei_items (pi_entries (page_iterator (be_env_clear B) (be_page_sizes B) l v)))"
    using bucket by (auto simp: caught_up_def Let_def)
  from chunk_iterator_lines [OF this lessI] have "\<exists>fuel. run_lines fuel it = Some (Inr ?ls)"
    unfolding it by (intro exI) (simp add: comp_def case_prod_beta del: run_lines.simps)
  moreover have "following C ?gp plan A ?l final (client R ?ls)" unfolding client_frame following_def
  proof (intro ballI allI impI)
    fix c b assume "c \<in> set (sc_buckets final)" and b: "resolve_bucket_request_for_plan (cr_json C) ?gp plan (sc_name c) = Some b"
    then obtain rc p where rp: "(rc, p) \<in> set (zip ?rs ps)" and c: "sc_name c = ?name rc" "sc_after c = pl_global_last_op_id p"
      by (auto simp: final cursors_from_pairs_def)
    have name: "pi_bucket_name (?pi (rc, p)) = ?name rc" for rc p by (simp add: page_iterator_def Let_def bucket_view_def)
    have "distinct (map pi_bucket_name (map ?pi (zip ?rs ps)))"
      using resolved_distinct [OF ok] by (simp add: comp_def case_prod_beta name [simplified] names [unfolded case_prod_beta])
    moreover have "?pi (rc, p) \<in> set (map ?pi (zip ?rs ps))" using rp by (force intro: image_eqI)
    ultimately have "client R (concat (map page_lines (map ?pi (zip ?rs ps)))) (pi_bucket_name (?pi (rc, p)))
        = replay (R (pi_bucket_name (?pi (rc, p)))) (page_entries (?pi (rc, p)))" by (rule client_views)
    then show "in_step C plan A ?l b (sc_after c) (client R (concat (map page_lines (map ?pi (zip ?rs ps)))) (sc_name c))"
      using bucket [OF rp] b c sv history.start by (auto simp: in_step_def caught_up_def Let_def serving_ok_def name [simplified])
  qed
  ultimately show "\<exists>fuel ls. run_lines fuel it = Some (Inr ls) \<and> following C ?gp plan A ?l final (client R ls)" by blast
qed

lemma obind_keeps: "(\<And>a. fst (f st a) = st) \<Longrightarrow> fst (obind (st, r) f) = st"
  by (cases r) simp_all

lemma latest_cursors_store:
  assumes "last_id (view (st_table st)) \<le> indexed_id (view (st_table st))"
  shows "fst (latest_cursors C M gp st rcs) = st"
proof (induction rcs)
  case (Cons rc rcs)
  obtain st1 r1 where "ensure_sync_tail_indexes_current C M gp st = (st1, r1)" by (meson surj_pair)
  with indexes_current_noop [OF this assms] have "fst (latest_cursor C M gp st rc) = st"
    by (cases r1) (simp_all add: latest_cursor_def indexed_task_tail_last_op_id_def obind_keeps)
  then obtain r where "latest_cursor C M gp st rc = (st, r)" by (metis fst_conv surj_pair)
  with Cons show ?case by (cases r; cases "latest_cursors C M gp st rcs") (auto simp: obind_keeps)
qed simp

lemma latest_cursors_ids:
  assumes "last_id (view (st_table st)) \<le> indexed_id (view (st_table st))"
  shows "latest_cursors C M gp st rcs = (st', Inr pairs) \<Longrightarrow>
    list_all2 (\<lambda>rc (name, n). name = rb_bucket_name (rc_resolved rc) \<and>
      (bucket_tail_index_keys (rc_resolved rc) \<noteq> [] \<longrightarrow> last_id (view (st_table st)) \<le> n)) rcs pairs"
proof (induction rcs arbitrary: st' pairs)
  case (Cons rc rcs)
  obtain st1 r1 where e: "ensure_sync_tail_indexes_current C M gp st = (st1, r1)" by (meson surj_pair)
  have st1: "st1 = st" by (rule indexes_current_noop [OF e assms])
  obtain st2 r where r: "latest_cursor C M gp st rc = (st2, r)" by (meson surj_pair)
  then obtain p where p: "latest_cursor C M gp st rc = (st2, Inr p)" using Cons.prems by (cases r) auto
  obtain st3 r3 where r3: "latest_cursors C M gp st rcs = (st3, r3)" by (meson surj_pair)
  have "fst p = rb_bucket_name (rc_resolved rc) \<and> st2 = st \<and>
      (bucket_tail_index_keys (rc_resolved rc) \<noteq> [] \<longrightarrow> last_id (view (st_table st)) \<le> snd p)"
    using p e st1
    by (auto simp: latest_cursor_def indexed_task_tail_last_op_id_def obind_Inr_iff dest!: read_u64_or_view elim!: rbindE run_ro_cases split: if_splits)
  then show ?case
    using Cons p r3 by (cases r3; cases p) auto
qed simp

lemma check_cursors_store:
  assumes "check_cursors B st se ph = (st', se', e)" and "be_crates B = C" "be_mdbx B = M"
    and "last_id (view (st_table st)) \<le> indexed_id (view (st_table st))"
  shows "st' = st" and "\<exists>ph'. se' = se\<lparr>se_phase := ph'\<rparr>" and "\<forall>line. e \<noteq> Emitted line"
proof -
  obtain r where r: "latest_cursors C M (be_global_plan B) st
      (resolved_sync_buckets (cr_json C) (be_global_plan B) (se_cursors se) (se_plan se)) = (st, r)"
    using latest_cursors_store [OF assms(4)] by (metis fst_conv surj_pair)
  have "\<exists>ph'. se = se\<lparr>se_phase := ph'\<rparr>" by (rule exI [of _ "se_phase se"]) simp
  then have "st' = st \<and> (\<exists>ph'. se' = se\<lparr>se_phase := ph'\<rparr>) \<and> (\<forall>line. e \<noteq> Emitted line)"
    using assms(1) by (cases r) (auto simp: check_cursors_def latest_sync_bucket_cursors_for_plan_def assms(2,3) r)
  then show "st' = st" "\<exists>ph'. se' = se\<lparr>se_phase := ph'\<rparr>" "\<forall>line. e \<noteq> Emitted line" by blast+
qed

text \<open>A session behind the log on any of its buckets sees other cursors than its own.\<close>

lemma check_cursors_behind:
  assumes "check_cursors B st se ph = (st', se', e)" and "be_crates B = C" "be_mdbx B = M" and "e \<noteq> Ended"
    and "last_id (view (st_table st)) \<le> indexed_id (view (st_table st))"
    and "cursors_ok C (be_global_plan B) (se_plan se) (se_cursors se)" and "c \<in> set (sc_buckets (se_cursors se))"
    and "resolve_bucket_request_for_plan (cr_json C) (be_global_plan B) (se_plan se) (sc_name c) = Some b"
    and "rb_queries b \<noteq> []" and "sc_after c < last_id (view (st_table st))"
  shows "\<exists>latest. se' = se\<lparr>se_phase := Advanced latest\<rparr> \<and> latest \<noteq> se_cursors se"
proof -
  let ?rcs = "resolved_sync_buckets (cr_json C) (be_global_plan B) (se_cursors se) (se_plan se)"
  obtain st1 r where r: "latest_cursors C M (be_global_plan B) st ?rcs = (st1, r)" by (meson surj_pair)
  then obtain pairs where pairs: "r = Inr pairs"
    using assms(1,4) by (cases r) (auto simp: check_cursors_def latest_sync_bucket_cursors_for_plan_def assms(2,3))
  have "\<lparr>rc_resolved = b, rc_after = sc_after c\<rparr> \<in> set ?rcs"
    using assms(7,8) by (force simp: resolved_sync_buckets_def map_filter_def)
  moreover have "bucket_tail_index_keys b \<noteq> []"
    using assms(9) by (cases "rb_queries b")
      (auto simp: bucket_tail_index_keys_def sync_tail_index_keys_for_bucket_def simp flip: set_empty2)
  ultimately have "\<exists>n. (sc_name c, n) \<in> set pairs \<and> last_id (view (st_table st)) \<le> n"
    using latest_cursors_ids [OF assms(5) r [unfolded pairs]] resolve_name [OF assms(8)]
    by (fastforce simp: list_all2_conv_all_nth in_set_conv_nth)
  then obtain n where n: "\<lparr>sc_name = sc_name c, sc_after = n\<rparr> \<in> set (sc_buckets (cursors_from_pairs pairs))" "sc_after c < n"
    using assms(10) by (force simp: cursors_from_pairs_def)
  have "cursors_from_pairs pairs \<noteq> se_cursors se"
  proof
    assume eq: "cursors_from_pairs pairs = se_cursors se"
    have "distinct (map sc_name (sc_buckets (se_cursors se)))" using assms(6) by (simp add: cursors_ok_def)
    then have "\<lparr>sc_name = sc_name c, sc_after = n\<rparr> = c"
      using inj_onD [of sc_name, OF _ _ n(1) [unfolded eq] assms(7)] by (simp add: distinct_map)
    from arg_cong [OF this, of sc_after] n(2) show False by simp
  qed
  then show ?thesis
    using assms(1) by (auto simp: check_cursors_def latest_sync_bucket_cursors_for_plan_def assms(2,3) r pairs)
qed

end

section \<open>Sessions\<close>

text \<open>
  The transition system. The abstract store is a ghost of the table; between polls the ingest loop may
  grow it along a history (\<open>persist_batch_serves\<close>). Cursors are handed out within the ids of the log.
\<close>

definition within_log :: "('t \<Rightarrow> kv) \<Rightarrow> 't store \<Rightarrow> HoldOpenStreamState \<Rightarrow> bool" where
  "within_log view st se \<longleftrightarrow> (\<forall>c \<in> set (sc_buckets (se_cursors se)). sc_after c \<le> last_id (view (st_table st)))"

inductive session ::
  "'t backend \<Rightarrow> ('t \<Rightarrow> kv) \<Rightarrow> RustExecutionPlan \<Rightarrow> AdmittedSync \<Rightarrow> (string \<Rightarrow> replica) \<Rightarrow>
   't store \<Rightarrow> abs_store \<Rightarrow> HoldOpenStreamState \<Rightarrow> StreamingSyncLine list \<Rightarrow> bool" for B view plan request R0 where
  respond: "session B view plan request R0 st' A se []"
    if "sync_response B st plan request = (st', Inr se)" and "serving_ok (be_crates B) plan A (view (st_table st))"
    and "cursors_ok (be_crates B) (be_global_plan B) plan (as_cursors request)"
    and "following (be_crates B) (be_global_plan B) plan A (last_id (view (st_table st))) (as_cursors request) R0"
    and "within_log view st se"
| grow: "session B view plan request R0 st' A' se ls"
    if "session B view plan request R0 st A se ls" and "serving_ok (be_crates B) plan A' (view (st_table st'))"
    and "history plan A (last_id (view (st_table st))) A' (last_id (view (st_table st')))"
| silent: "session B view plan request R0 st' A se' ls"
    if "session B view plan request R0 st A se ls" and "session_poll B st se = (st', se', Silent)" and "within_log view st se'"
| emit: "session B view plan request R0 st' A se' (ls @ [line])"
    if "session B view plan request R0 st A se ls" and "session_poll B st se = (st', se', Emitted line)"

definition session_inv ::
  "'t backend \<Rightarrow> ('t \<Rightarrow> kv) \<Rightarrow> RustExecutionPlan \<Rightarrow> (string \<Rightarrow> replica) \<Rightarrow>
   't store \<Rightarrow> abs_store \<Rightarrow> HoldOpenStreamState \<Rightarrow> StreamingSyncLine list \<Rightarrow> bool" where
  "session_inv B view plan R0 st A se ls \<longleftrightarrow>
     serving_ok (be_crates B) plan A (view (st_table st)) \<and> se_plan se = plan \<and>
     cursors_ok (be_crates B) (be_global_plan B) plan (se_cursors se) \<and>
     (\<forall>c \<in> set (sc_buckets (se_cursors se)). 0 < sc_after c) \<and>
     (se_phase se \<noteq> Draining \<longrightarrow> next_line (se_pending se) = Inr (None, se_pending se)) \<and>
     (\<exists>fuel rest. run_lines fuel (se_pending se) = Some (Inr rest) \<and>
        following (be_crates B) (be_global_plan B) plan A (last_id (view (st_table st))) (se_cursors se) (client R0 (ls @ rest)))"

lemma history_trans: "history plan A l A' l' \<Longrightarrow> history plan A0 l0 A l \<Longrightarrow> history plan A0 l0 A' l'"
  by (induction rule: history.induct) (auto intro: history.batch)

lemma following_grow:
  "following C gp plan A l cs R \<Longrightarrow> history plan A l A' l' \<Longrightarrow> following C gp plan A' l' cs R"
  unfolding following_def in_step_def by (metis history_trans)

lemma drained_lines: "next_line it = Inr (None, it') \<Longrightarrow> run_lines n it = Some (Inr rest) \<Longrightarrow> rest = []"
  by (cases n) simp_all

lemma next_line_rest:
  "next_line it = Inr (Some line, it') \<Longrightarrow> run_lines n it = Some (Inr rest) \<Longrightarrow>
   \<exists>n' rest'. run_lines n' it' = Some (Inr rest') \<and> rest = line # rest'"
  by (cases n) (auto elim!: rbindE)

lemma session_inv_grow:
  "session_inv B view plan R0 st A se ls \<Longrightarrow> serving_ok (be_crates B) plan A' (view (st_table st')) \<Longrightarrow>
   history plan A (last_id (view (st_table st))) A' (last_id (view (st_table st'))) \<Longrightarrow> session_inv B view plan R0 st' A' se ls"
  unfolding session_inv_def by (blast intro: following_grow)

lemma session_inv_phase:
  assumes "session_inv B view plan R0 st A se ls" and "next_line (se_pending se) = Inr (None, it)"
  shows "session_inv B view plan R0 st A (se\<lparr>se_pending := it, se_phase := ph\<rparr>) ls"
proof -
  obtain fuel rest where r: "run_lines fuel (se_pending se) = Some (Inr rest)"
    and f: "following (be_crates B) (be_global_plan B) plan A (last_id (view (st_table st))) (se_cursors se) (client R0 (ls @ rest))"
    using assms(1) by (auto simp: session_inv_def)
  have "rest = []" by (rule drained_lines [OF assms(2) r])
  moreover have "run_lines 1 it = Some (Inr [])" using next_line_fused [OF assms(2)] by simp
  ultimately have "\<exists>fuel rest. run_lines fuel it = Some (Inr rest) \<and>
      following (be_crates B) (be_global_plan B) plan A (last_id (view (st_table st))) (se_cursors se) (client R0 (ls @ rest))"
    using f by blast
  then show ?thesis
    using assms(1) next_line_fused [OF assms(2)] by (simp add: session_inv_def)
qed

text \<open>A session that starts to stream a chunk source, at the response and after every advance.\<close>

lemma session_inv_source:
  assumes "ingest_store (be_mdbx B) view (be_crates B)"
    and "sync_chunk_source B st cs plan = (st', Inr (it, final))" and "serving_ok (be_crates B) plan A (view (st_table st))"
    and "cursors_ok (be_crates B) (be_global_plan B) plan cs"
    and "following (be_crates B) (be_global_plan B) plan A (last_id (view (st_table st))) cs (client R0 ls)"
    and "\<forall>c \<in> set (sc_buckets final). sc_after c \<le> last_id (view (st_table st))"
    and "se_plan se = plan" "se_cursors se = final" "se_pending se = it" "se_phase se = Draining"
  shows "st' = st \<and> session_inv B view plan R0 st A se ls"
proof -
  note f = ingest_store.chunk_source_follows [OF assms(1,2) refl refl assms(3-6)]
  have "0 < last_id (view (st_table st))" using assms(3) by (simp add: serving_ok_def)
  with f assms(3,7-10) show ?thesis by (simp add: session_inv_def)
qed

lemma session_inv_poll:
  assumes law: "ingest_store (be_mdbx B) view (be_crates B)" and inv: "session_inv B view plan R0 st A se ls"
    and poll: "session_poll B st se = (st', se', e)" and e: "e \<noteq> Ended" and within: "e = Silent \<longrightarrow> within_log view st se'"
  shows "st' = st \<and> session_inv B view plan R0 st A se' (case e of Emitted line \<Rightarrow> ls @ [line] | _ \<Rightarrow> ls)"
proof -
  have ix: "last_id (view (st_table st)) \<le> indexed_id (view (st_table st))"
    using inv by (simp add: session_inv_def serving_ok_def store_inv_def)
  note check = ingest_store.check_cursors_store [OF law _ refl refl ix]
  have drained: "st' = st \<and> session_inv B view plan R0 st A se' (case e of Emitted line \<Rightarrow> ls @ [line] | _ \<Rightarrow> ls)"
    if "next_line (se_pending se) = Inr (None, it)" and "check_cursors B st (se\<lparr>se_pending := it\<rparr>) ph = (st', se', e)" for it ph
    using check [OF that(2)] session_inv_phase [OF inv that(1)] by (cases e) auto
  show ?thesis
  proof (cases "se_phase se")
    case Draining
    obtain line it where n: "next_line (se_pending se) = Inr (line, it)"
      using poll e by (cases "next_line (se_pending se)") (auto simp: session_poll_def Draining)
    show ?thesis
    proof (cases line)
      case None
      have "check_cursors B st (se\<lparr>se_pending := it\<rparr>) Waiting = (st', se', e)"
        using poll e n by (auto simp: session_poll_def Draining None split: if_splits prod.splits)
      with n None show ?thesis by (intro drained) auto
    next
      case (Some l)
      have "st' = st" "se' = se\<lparr>se_pending := it\<rparr>" "e = Emitted l" using poll n by (auto simp: session_poll_def Draining Some)
      moreover obtain fuel rest where "run_lines fuel (se_pending se) = Some (Inr rest)"
        "following (be_crates B) (be_global_plan B) plan A (last_id (view (st_table st))) (se_cursors se) (client R0 (ls @ rest))"
        using inv by (auto simp: session_inv_def)
      with next_line_rest n Some have "\<exists>fuel rest. run_lines fuel it = Some (Inr rest) \<and>
        following (be_crates B) (be_global_plan B) plan A (last_id (view (st_table st))) (se_cursors se) (client R0 ((ls @ [l]) @ rest))"
        by (metis append.assoc append_Cons append_Nil)
      ultimately show ?thesis using inv Draining by (simp add: session_inv_def)
    qed
  next
    case Waiting
    then have "check_cursors B st (se\<lparr>se_pending := se_pending se\<rparr>) Draining = (st', se', e)"
      using poll by (simp add: session_poll_def)
    with inv Waiting show ?thesis by (intro drained) (auto simp: session_inv_def)
  next
    case (Advanced latest)
    have n: "next_line (se_pending se) = Inr (None, se_pending se)" using inv Advanced by (simp add: session_inv_def)
    show ?thesis
    proof (cases "latest = se_cursors se")
      case True
      with session_inv_phase [OF inv n, of Draining] poll Advanced show ?thesis by (auto simp: session_poll_def)
    next
      case False
      obtain chunks final where src: "sync_chunk_source B st (se_cursors se) plan = (st', Inr (chunks, final))" and "e = Silent"
        and se': "se_plan se' = plan" "se_cursors se' = final" "se_pending se' = chunks" "se_phase se' = Draining"
        using poll inv e False by (auto simp: session_poll_def Advanced session_inv_def split: prod.splits sum.splits)
      obtain fuel rest where r: "run_lines fuel (se_pending se) = Some (Inr rest)"
        "following (be_crates B) (be_global_plan B) plan A (last_id (view (st_table st))) (se_cursors se) (client R0 (ls @ rest))"
        using inv by (auto simp: session_inv_def)
      moreover have "rest = []" by (rule drained_lines [OF n r(1)])
      moreover have "serving_ok (be_crates B) plan A (view (st_table st))"
        "cursors_ok (be_crates B) (be_global_plan B) plan (se_cursors se)" using inv by (simp_all add: session_inv_def)
      ultimately have "st' = st \<and> session_inv B view plan R0 st A se' ls"
        using within se'(2) \<open>e = Silent\<close> by (intro session_inv_source [OF law src _ _ _ _ se']) (simp_all add: within_log_def)
      with \<open>e = Silent\<close> show ?thesis by simp
    qed
  qed
qed

lemma session_invariant:
  assumes "ingest_store (be_mdbx B) view (be_crates B)"
  shows "session B view plan request R0 st A se ls \<Longrightarrow> session_inv B view plan R0 st A se ls"
proof (induction rule: session.induct)
  case (respond st st' se A)
  obtain chunks final where src: "sync_chunk_source B st (as_cursors request) plan = (st', Inr (chunks, final))"
    and se: "se_plan se = plan" "se_cursors se = final" "se_pending se = chunks" "se_phase se = Draining"
    using respond(1) by (auto simp: sync_response_def split: prod.splits sum.splits)
  from session_inv_source [OF assms src respond(2,3) _ _ se, of R0 "[]"] respond(4,5) se show ?case
    by (simp add: within_log_def)
next
  case (grow st A se ls A' st')
  then show ?case by (blast intro: session_inv_grow)
next
  case (silent st A se ls st' se')
  with session_inv_poll [OF assms silent.IH silent(2)] show ?case by simp
next
  case (emit st A se ls st' se' line)
  with session_inv_poll [OF assms emit.IH emit(2)] show ?case by simp
qed

text \<open>
  Two polls bring a drained session that is behind up to the log: the first sees that the cursors moved,
  the second starts a chunk source whose cursors stand at the last id.
\<close>

lemma session_catches_up:
  assumes law: "ingest_store (be_mdbx B) view (be_crates B)" and inv: "session_inv B view plan R0 st A se ls"
    and se: "se_phase se = Draining" "next_line (se_pending se) = Inr (None, it)" "se_hold_open se"
    and c: "c \<in> set (sc_buckets (se_cursors se))" "sc_after c < last_id (view (st_table st))"
      "resolve_bucket_request_for_plan (cr_json (be_crates B)) (be_global_plan B) plan (sc_name c) = Some b" "rb_queries b \<noteq> []"
    and first: "session_poll B st se = (st1, se1, e1)" "e1 \<noteq> Ended"
    and second: "session_poll B st1 se1 = (st2, se2, e2)" "e2 \<noteq> Ended" "within_log view st1 se2"
  shows "\<forall>c \<in> set (sc_buckets (se_cursors se2)). sc_after c = last_id (view (st_table st))"
    and "session_inv B view plan R0 st A se2 ls"
proof -
  have ix: "last_id (view (st_table st)) \<le> indexed_id (view (st_table st))" and plan: "se_plan se = plan"
    and ok: "cursors_ok (be_crates B) (be_global_plan B) plan (se_cursors se)"
    using inv by (simp_all add: session_inv_def serving_ok_def store_inv_def)
  have check: "check_cursors B st (se\<lparr>se_pending := it\<rparr>) Waiting = (st1, se1, e1)"
    using first se by (auto simp: session_poll_def split: prod.splits if_splits)
  have e1: "e1 = Silent" "st1 = st"
    using ingest_store.check_cursors_store [OF law check refl refl ix] first(2) by (cases e1; simp)+
  obtain latest where se1: "se1 = se\<lparr>se_pending := it, se_phase := Advanced latest\<rparr>" "latest \<noteq> se_cursors se"
    using ingest_store.check_cursors_behind [OF law check refl refl first(2) ix, of c b] ok plan c by auto
  have inv1: "session_inv B view plan R0 st A se1 ls"
    using session_inv_poll [OF law inv first(1)] e1 se1 first(2) by (simp add: session_inv_phase [OF inv se(2)])
  obtain chunks where src: "sync_chunk_source B st (se_cursors se) plan = (st2, Inr (chunks, se_cursors se2))"
    using second(1,2) se1 e1 plan by (auto simp: session_poll_def split: prod.splits sum.splits)
  obtain fuel rest where r: "run_lines fuel (se_pending se1) = Some (Inr rest)"
    and fo: "following (be_crates B) (be_global_plan B) plan A (last_id (view (st_table st))) (se_cursors se) (client R0 (ls @ rest))"
    and sv: "serving_ok (be_crates B) plan A (view (st_table st))"
    using inv1 se1(1) by (auto simp: session_inv_def)
  from ingest_store.chunk_source_follows(3) [OF law src refl refl sv ok fo] second(3) e1(2)
  show "\<forall>c \<in> set (sc_buckets (se_cursors se2)). sc_after c = last_id (view (st_table st))" by (simp add: within_log_def)
  have "e2 = Silent" using second(1,2) se1 by (auto simp: session_poll_def split: prod.splits sum.splits)
  with session_inv_poll [OF law inv1 _ second(2)] second(1,3) e1(2) show "session_inv B view plan R0 st A se2 ls" by simp
qed

section \<open>Batches persisted between polls\<close>

definition scalar_docs :: "json_lib \<Rightarrow> docs \<Rightarrow> bool" where
  "scalar_docs J D \<longleftrightarrow> (\<forall>k rf data. D k = Some (rf, data) \<longrightarrow> scalar_routes J rf)"

lemma scalar_docs_ran: "(\<forall>(rf, data) \<in> ran D. scalar_routes J rf) \<longleftrightarrow> scalar_docs J D"
  by (force simp: scalar_docs_def ran_def)

definition scalar_derived :: "json_lib \<Rightarrow> DerivedSyncTailOp \<Rightarrow> bool" where
  "scalar_derived J x \<longleftrightarrow> scalar_routes J (ds_route_fields x) \<and>
     (\<forall>rf. ds_previous_route_fields x = Some rf \<longrightarrow> scalar_routes J rf)"

lemma scalar_docs_subset: "D' \<subseteq>\<^sub>m D \<Longrightarrow> scalar_docs J D \<Longrightarrow> scalar_docs J D'"
  unfolding scalar_docs_def map_le_def dom_def by force

lemma scalar_docs_apply:
  assumes "scalar_docs J D" and "scalar_derived J x"
  shows "scalar_docs J (abs_apply D x)"
proof -
  have "scalar_docs J (D((ty, i) \<mapsto> (ds_route_fields x, data)))" for ty i data
    using assms by (auto simp: scalar_docs_def scalar_derived_def)
  moreover have "scalar_docs J (D(k := None))" "scalar_docs J (D |` S)" for k S
    using assms(1) by (auto intro!: scalar_docs_subset [of _ D] simp: map_le_def restrict_map_def split: if_splits)
  moreover have "scalar_docs J Map.empty" by (simp add: scalar_docs_def)
  ultimately show ?thesis
    using assms(1) by (simp add: abs_apply_def split: PersistedSyncTailOperation.splits option.splits)
qed

lemma scalar_mat_spec: "scalar_docs J D \<Longrightarrow> scalar_derived J x \<Longrightarrow> scalar_derived J (mat_spec D x)"
  by (auto simp: mat_spec_def scalar_derived_def scalar_docs_def split: option.splits prod.splits PersistedSyncTailOperation.splits)

lemma scalar_log:
  "scalar_docs J D \<Longrightarrow> \<forall>x \<in> set xs. scalar_derived J x \<Longrightarrow>
   scalar_docs J (foldl abs_apply D xs) \<and> (\<forall>y \<in> set (number_ops l (mat_specs D xs)). scalar_op J y)"
proof (induction xs arbitrary: D l)
  case (Cons x xs)
  then have "scalar_docs J (abs_apply D x)" and m: "scalar_derived J (mat_spec D x)" and "\<forall>x \<in> set xs. scalar_derived J x"
    by (simp_all add: scalar_docs_apply scalar_mat_spec)
  note ih = Cons.IH [OF this(1,3), of "l + 1"]
  have "scalar_op J (persisted_op (l + 1) (mat_spec D x))" using m by (simp add: scalar_op_def scalar_derived_def persisted_op_def)
  with ih show ?case by simp
qed simp

lemma ran_log_append: "ran (log_append L xs) \<subseteq> ran L \<union> set xs"
proof (induction xs arbitrary: L)
  case (Cons x xs)
  have "ran (L(so_op_id x \<mapsto> x)) \<subseteq> insert x (ran L)" by (auto simp: ran_def)
  moreover have "ran (log_append (L(so_op_id x \<mapsto> x)) xs) \<subseteq> ran (L(so_op_id x \<mapsto> x)) \<union> set xs" by (rule Cons.IH)
  moreover have "log_append L (x # xs) = log_append (L(so_op_id x \<mapsto> x)) xs" by (simp add: log_append_def)
  ultimately show ?case by (simp only: list.set) blast
qed (simp add: log_append_def)

context ingest_store
begin

lemma persist_batch_serves:
  assumes "persist_batch_with_plan_options_and_tail_retention C enc M now st b plan opts retain chunk = (st', Inr ())"
    and "view (st_table st) META_LAYOUT_VERSION_KEY = Some (layout_version (storage_contract_id plan))"
    and "serving_ok C plan A (view (st_table st))" and "plan_types_ok plan" "lookup_plan_ok plan"
    and "\<not> assume_new_inserts opts" "\<not> snapshot_without_tail opts"
    and "derive_sync_tail_ops_with_options C b plan False = Inr ops" "\<forall>x \<in> set ops. put_fits x"
    and "last_id (view (st_table st)) + length ops < u64_limit" and "\<forall>x \<in> set ops. scalar_derived (cr_json C) x"
  shows "\<exists>A'. serving_ok C plan A' (view (st_table st')) \<and>
     history plan A (last_id (view (st_table st))) A' (last_id (view (st_table st')))"
proof -
  let ?kv = "view (st_table st)" and ?kv' = "view (st_table st')"
  have sv: "store_inv C plan A ?kv" "tail_dense A ?kv" "0 < last_id ?kv" "\<forall>x \<in> ran (ab_tail A). scalar_op (cr_json C) x"
    "scalar_docs (cr_json C) (ab_docs A)" using assms(3) by (simp_all add: serving_ok_def scalar_docs_ran)
  from persist_batch_spec [OF assms(1,2) sv(1) assms(4-10)] show ?thesis
  proof (elim disjE exE conjE)
    assume "?kv' = ?kv"
    with assms(3) show ?thesis by (auto intro: history.start)
  next
    fix lops flr
    let ?A = "abs_persist plan ops lops (last_id ?kv) flr A"
    assume new: "flr = max (retained_id ?kv) (last_id ?kv + length ops - retain)" "store_inv C plan ?A ?kv'"
      "last_id ?kv' = last_id ?kv + length ops" "retained_id ?kv' = flr" "snapshot_id ?kv' = snapshot_id ?kv"
    have "\<forall>x \<in> set ops. row_op x" using derive_ops_of_plan [OF assms(8)] op_of_plan_row_op by blast
    then have "history plan A (last_id ?kv) ?A (last_id ?kv')"
      unfolding new(3) using history.batch [OF history.start derived_ops_ok [OF assms(8,4,9)]] by blast
    moreover have "tail_dense ?A ?kv'"
      using abs_persist_dense [OF sv(2) new(3), of retain plan lops] new(1,4,5) sv(1) by (simp add: store_inv_def)
    moreover have "\<forall>x \<in> ran (ab_tail ?A). scalar_op (cr_json C) x"
    proof -
      have "ran (ab_tail ?A) \<subseteq> ran (ab_tail A) \<union> set (number_ops (last_id ?kv) (mat_specs (ab_docs A) ops))"
        using ran_log_append by (fastforce simp: abs_persist_def ran_def restrict_map_def split: if_splits)
      with sv(4) scalar_log [OF sv(5) assms(11)] show ?thesis by blast
    qed
    moreover have "scalar_docs (cr_json C) (ab_docs ?A)"
      using scalar_log [OF sv(5) assms(11)] by (simp add: abs_persist_def)
    ultimately show ?thesis using new(2,3) sv(3) unfolding serving_ok_def scalar_docs_ran by (intro exI [of _ ?A]) simp
  qed
qed

end

end
