(* ===== verification/Session_Guarantees.thy ===== *)
theory Session_Guarantees
  imports Session_Converges Example
begin

text \<open>
  The properties of streaming sessions, with their witnesses on the example table: convergence of the
  client at every point of a session, and progress of a held-open session that is behind.
\<close>

section \<open>An example session\<close>

definition ex_served_stream :: CanonicalStream where
  "ex_served_stream = \<lparr> cs_name = ''s'', cs_source_table = ''tasks'', cs_output_table = ''tasks'', cs_auto_subscribe = False,
     cs_bucket_parameters = [\<lparr> bp_name = ''org'', bp_source_column = ''org'', bp_binding = AuthParameter ''org'' \<rparr>],
     cs_row_filter = Some ex_filter, cs_request_filter = None, cs_projection = Star, cs_data_queries = [] \<rparr>"

definition ex_global :: RustExecutionPlan where
  "ex_global = ex_plan\<lparr>streams_by_name := [(''s'', ex_served_stream)],
     stream_bucket_groups_by_name := [(''s'', stream_bucket_groups ex_served_stream)]\<rparr>"

definition ex_backend :: "(bytes \<times> bytes) list backend" where
  "ex_backend = \<lparr> be_crates = ref_crates, be_mdbx = alist_mdbx, be_global_plan = ex_global, be_max_entries = 9,
     be_max_bytes = 9999, be_env_clear = False, be_page_sizes = \<lparr> ps_snapshot = 10, ps_delta = 10 \<rparr> \<rparr>"

definition ex_name :: string where
  "ex_name = bucket_name_for_stream_group ref_json ''s'' 0 [''o1'']"

definition ex_sync :: "nat \<Rightarrow> AdmittedSync" where
  "ex_sync n = \<lparr> as_token = None, as_hold_open = True, as_lifetime = 300,
     as_cursors = cursors_from_pairs [(ex_name, n)], as_encoding = Ndjson \<rparr>"


lemmas ex_session_defs [exec] =
  ex_served_stream_def ex_global_def ex_backend_def ex_name_def ex_sync_def sync_response_def sync_chunk_source_def
  session_poll_def check_cursors_def wire_is_ready_def latest_sync_op_id_def















section \<open>Properties\<close>






end
