(* ===== verification/Auth_Facts.thy ===== *)
theory Auth_Facts
  imports Authentication
begin

text \<open>
  What authentication guarantees: whose signature an accepted token carries, which claim policy it
  met, and which API tokens are accepted.
\<close>

section \<open>Splitting a token\<close>

lemma split_char_not_Nil [simp]: "split_char c s \<noteq> []"
  by (induction s) (auto split: list.splits)

lemma split_char_parts:
  "split_char c s = [a, b, d] \<Longrightarrow> s = a @ [c] @ b @ [c] @ d \<and> c \<notin> set a \<and> c \<notin> set b \<and> c \<notin> set d"
proof -
  have one: "split_char c s = [a] \<Longrightarrow> s = a \<and> c \<notin> set a" for s a
    by (induction s arbitrary: a) (auto split: if_splits list.splits)
  have two: "split_char c s = [a, b] \<Longrightarrow> s = a @ [c] @ b \<and> c \<notin> set a \<and> c \<notin> set b" for s a b
    by (induction s arbitrary: a) (auto split: if_splits list.splits dest: one)
  show "split_char c s = [a, b, d] \<Longrightarrow> ?thesis"
    by (induction s arbitrary: a) (auto split: if_splits list.splits dest: two)
qed

lemma split_jwt_Inr:
  "split_jwt token = Inr (h, p, s) \<longleftrightarrow> split_char (CHR ''.'') token = [h, p, s]"
  by (auto simp: split_jwt_def split: list.splits)

section \<open>Keys\<close>

lemma first_some_member: "first_some xs = Some a \<Longrightarrow> Some a \<in> set xs"
  by (induction xs) (auto split: option.splits)

lemma select_auth_key_member:
  assumes "select_auth_key keys kid as_key = Some k"
  shows "\<exists>key \<in> set keys. as_key key = Some k \<and> (kid = None \<or> auth_key_kid key = kid)"
  using first_some_member [OF assms [unfolded select_auth_key_def]]
  by (auto split: option.splits if_splits)

lemma select_hmac_member:
  "select_hmac_key keys kid = Some k \<Longrightarrow> Hmac k \<in> set keys \<and> (kid = None \<or> hk_kid k = kid)"
  unfolding select_hmac_key_def by (drule select_auth_key_member) (auto elim: as_hmac.elims)

lemma select_rsa_member:
  "select_rsa_key keys kid = Some k \<Longrightarrow> Rsa k \<in> set keys \<and> (kid = None \<or> rk_kid k = kid)"
  unfolding select_rsa_key_def by (drule select_auth_key_member) (auto elim: as_rsa.elims)

text \<open>A signature of the token under a key, with the algorithm the header names.\<close>

fun signed_by :: "auth_lib \<Rightarrow> string \<Rightarrow> string \<Rightarrow> string \<Rightarrow> JwtHeader \<Rightarrow> AuthKey \<Rightarrow> bool" where
  "signed_by L h p s header (Hmac k) \<longleftrightarrow>
     jh_alg header = ''HS256'' \<and> (jh_kid header = None \<or> hk_kid k = jh_kid header) \<and>
     (\<exists>signature. al_b64_decode L s = Some signature \<and> al_hmac_verify L (hk_secret k) (h @ ''.'' @ p) signature)"
| "signed_by L h p s header (Rsa k) \<longleftrightarrow>
     jh_alg header = ''RS256'' \<and> (jh_kid header = None \<or> rk_kid k = jh_kid header) \<and>
     al_rsa_verify L (rk_n k) (rk_e k) (h @ ''.'' @ p @ ''.'' @ s)"

text \<open>The claims that a configuration asks for.\<close>

definition policy_met :: "nat \<Rightarrow> UserAuthConfig \<Rightarrow> json_object \<Rightarrow> TokenPayload \<Rightarrow> bool" where
  "policy_met now cfg claims t \<longleftrightarrow>
     tk_claims t = JObject claims \<and>
     (\<exists>exp. Option.bind (map_of claims ''exp'') value_as_u64 = Some exp \<and> tk_exp t = Some exp \<and> now < exp) \<and>
     (\<forall>nbf. map_of claims ''nbf'' = Some nbf \<longrightarrow> (\<exists>n. value_as_u64 nbf = Some n \<and> n \<le> now + NBF_LEEWAY_SECS)) \<and>
     (ua_audiences cfg \<noteq> [] \<longrightarrow> audience_matches (map_of claims ''aud'') (ua_audiences cfg)) \<and>
     (ua_issuers cfg \<noteq> [] \<longrightarrow> (\<exists>iss \<in> set (ua_issuers cfg). map_of claims ''iss'' = Some (JString iss)))"

lemma as_str_Some [simp]: "as_str j = Some s \<longleftrightarrow> j = JString s"
  by (cases j) auto

lemma validate_payload_Inr:
  assumes "validate_payload now cfg payload = Inr t"
  shows "\<exists>claims. payload = JObject claims \<and> policy_met now cfg claims t"
proof -
  obtain claims where c: "payload = JObject claims"
    using assms by (cases payload) (auto simp: validate_payload_def)
  with assms have "policy_met now cfg claims t"
    by (auto simp: validate_payload_def policy_met_def bind_eq_Some_conv not_less
        split: option.splits if_splits)
  with c show ?thesis by blast
qed

lemma verify_token_Inr:
  assumes "verify_token L now cfg token = Inr t"
  shows "\<exists>h p s header key claims. token = h @ ''.'' @ p @ ''.'' @ s \<and>
    Option.bind (al_b64_decode L h) (al_jwt_header L) = Some header \<and>
    Option.bind (al_b64_decode L p) (al_json_slice L) = Some (JObject claims) \<and>
    key \<in> set (ua_keys cfg) \<and> signed_by L h p s header key \<and> policy_met now cfg claims t"
proof -
  from assms obtain h p s header payload where parts: "split_jwt token = Inr (h, p, s)"
    and header: "Option.bind (al_b64_decode L h) (al_jwt_header L) = Some header"
    and payload: "Option.bind (al_b64_decode L p) (al_json_slice L) = Some payload"
    and rest: "(if jh_alg header \<noteq> ''HS256'' then verify_rsa_token L now cfg token header payload
       else rbind (ok_or auth_failed (select_hmac_key (ua_keys cfg) (jh_kid header))) (\<lambda>key.
         rbind (ok_or auth_failed (al_b64_decode L s)) (\<lambda>signature.
           if al_hmac_verify L (hk_secret key) (h @ ''.'' @ p) signature
           then validate_payload now cfg payload else Inl auth_failed))) = Inr t"
    by (auto simp: verify_token_def decode_segment_def elim!: rbindE)
  have token: "token = h @ ''.'' @ p @ ''.'' @ s"
    using parts split_char_parts by (fastforce simp: split_jwt_Inr)
  have "validate_payload now cfg payload = Inr t \<and> (\<exists>key \<in> set (ua_keys cfg). signed_by L h p s header key)"
  proof (cases "jh_alg header = ''HS256''")
    case True
    with rest obtain k signature where "select_hmac_key (ua_keys cfg) (jh_kid header) = Some k"
      "al_b64_decode L s = Some signature" "al_hmac_verify L (hk_secret k) (h @ ''.'' @ p) signature"
      "validate_payload now cfg payload = Inr t"
      by (auto elim!: rbindE split: if_splits)
    with True show ?thesis by (auto dest!: select_hmac_member intro!: bexI [of _ "Hmac k"])
  next
    case False
    with rest obtain k where "jh_alg header = ''RS256''" "select_rsa_key (ua_keys cfg) (jh_kid header) = Some k"
      "al_rsa_verify L (rk_n k) (rk_e k) token" "validate_payload now cfg payload = Inr t"
      by (auto simp: verify_rsa_token_def elim!: rbindE split: if_splits)
    with token show ?thesis by (auto dest!: select_rsa_member intro!: bexI [of _ "Rsa k"])
  qed
  then obtain key where k: "key \<in> set (ua_keys cfg)" "signed_by L h p s header key"
    and v: "validate_payload now cfg payload = Inr t" by blast
  from validate_payload_Inr [OF v] obtain claims where "payload = JObject claims" "policy_met now cfg claims t"
    by blast
  with token header payload k show ?thesis by blast
qed

section \<open>Configuration\<close>

lemma configured_policy:
  assumes "user_from_env_with_config L env config = Inr (Some cfg)"
  shows "ua_keys cfg \<noteq> [] \<and> ua_audiences cfg \<noteq> [] \<and> ua_issuers cfg \<noteq> []"
  using assms
  by (auto simp: user_from_env_with_config_def from_sources_def validate_claim_policy_def Let_def
      elim!: rbindE split: if_splits)

section \<open>Comparing tokens\<close>

lemma or_eq_0: "or a b = 0 \<longleftrightarrow> a = 0 \<and> b = (0 :: 'a :: len word)"
  by (auto simp: bit_eq_iff bit_or_iff)

lemma xor_eq_0: "xor a b = 0 \<longleftrightarrow> a = (b :: 'a :: len word)"
  by (auto simp: bit_eq_iff bit_xor_iff)

lemma fold_difference:
  "foldl (\<lambda>acc (a, b). or acc (xor a b)) d ps = (0 :: 'a :: len word) \<longleftrightarrow> d = 0 \<and> list_all (\<lambda>(a, b). a = b) ps"
proof (induction ps arbitrary: d)
  case (Cons p ps)
  then show ?case by (cases p) (simp add: or_eq_0 xor_eq_0 del: or_eq_0_iff)
qed simp

lemma constant_time_eq:
  assumes "length (al_digest L a) = length (al_digest L b)"
  shows "constant_time_token_eq L a b \<longleftrightarrow> al_digest L a = al_digest L b"
proof -
  have "list_all (\<lambda>(a, b). a = b) (zip xs ys) \<longleftrightarrow> xs = ys" if "length xs = length ys" for xs ys :: "8 word list"
    using that by (induction xs ys rule: list_induct2) auto
  with assms show ?thesis by (simp add: constant_time_token_eq_def fold_difference)
qed

end
