(* ===== verification/Request_Facts.thy ===== *)
theory Request_Facts
  imports Sync_Request Auth_Facts Lowering_Facts
begin

text \<open>
  What the request side guarantees: the bounded product of parameter values, the buckets a
  subscription grants and the buckets a request may name, and that a granted bucket name resolves to
  the group and the values it was made from.
\<close>

section \<open>The product of parameter values\<close>

lemma cartesian_step:
  "foldl (\<lambda>products options. concat (map (\<lambda>product. map (\<lambda>option. product @ [option]) options) products)) ps opts
   = concat (map (\<lambda>p. map ((@) p) (product_lists opts)) ps)"
proof (induction opts arbitrary: ps)
  case (Cons os opts)
  have app: "(@) (p @ [v]) = (\<lambda>vs. p @ v # vs)" for p :: "'a list" and v by (rule ext) simp
  have "concat (map (\<lambda>p. map ((@) p) (product_lists opts)) (concat (map (\<lambda>p. map (\<lambda>v. p @ [v]) os) ps)))
    = concat (map (\<lambda>p. map ((@) p) (product_lists (os # opts))) ps)"
    by (induction ps) (simp_all add: map_concat comp_def app)
  with Cons show ?case by simp
qed (simp add: concat_map_singleton)

lemma cartesian_product_lists: "cartesian_product_values opts = product_lists opts"
  unfolding cartesian_product_values_def cartesian_step by (simp add: map_idI)

lemma in_cartesian_product:
  "vs \<in> set (cartesian_product_values opts) \<longleftrightarrow> list_all2 (\<lambda>v os. v \<in> set os) vs opts"
  by (simp add: cartesian_product_lists product_lists_set)

section \<open>Granted buckets\<close>

text \<open>The parameter values that a group of a stream takes for a request.\<close>

definition group_values ::
  "json_lib \<Rightarrow> lookup_reader \<Rightarrow> nat \<Rightarrow> ResolvedParameterContext \<Rightarrow> routes \<Rightarrow> CanonicalBucketGroup \<Rightarrow> string list \<Rightarrow> bool" where
  "group_values J read limit c sub g vs \<longleftrightarrow>
     (case group_lookup g of
        Some lookup \<Rightarrow> \<exists>rows row. resolve_parameter_lookup_rows read lookup c sub limit = Inr rows \<and> row \<in> set rows \<and>
          list_all2 (\<lambda>p v. map_of row (bp_name p) = Some v) (bg_bucket_parameters g) vs
      | None \<Rightarrow> list_all2 (\<lambda>p v. v \<in> set (binding_values J c sub (bp_binding p))) (bg_bucket_parameters g) vs)"

definition group_grants ::
  "json_lib \<Rightarrow> lookup_reader \<Rightarrow> nat \<Rightarrow> ResolvedParameterContext \<Rightarrow> string \<Rightarrow> routes \<Rightarrow> nat \<times> CanonicalBucketGroup \<Rightarrow> string set" where
  "group_grants J read limit c stream_name sub ig =
     (case ig of (i, g) \<Rightarrow>
        if request_filter_matches (bg_request_filter g) (binding_value c sub)
        then bucket_name_for_stream_group J stream_name i ` {vs. group_values J read limit c sub g vs} else {})"

definition subscription_grants ::
  "json_lib \<Rightarrow> RustExecutionPlan \<Rightarrow> lookup_reader \<Rightarrow> nat \<Rightarrow> ResolvedParameterContext \<Rightarrow> RequestedStreamSubscription \<Rightarrow> string set" where
  "subscription_grants J plan read limit c s =
     (case stream_lookup plan (rs_stream s) of None \<Rightarrow> {}
      | Some stream \<Rightarrow> \<Union>ig \<in> set (List.enumerate 0 (bucket_groups stream)).
          group_grants J read limit c (rs_stream s) (extract_string_map J (rs_parameters s)) ig)"

lemma rmap_members: "rmap f xs = Inr ys \<Longrightarrow> set ys = {y. \<exists>x \<in> set xs. f x = Inr y}"
  by (induction xs arbitrary: ys) (auto elim!: rbindE)

lemma row_values_iff: "row_values g row = Inr vs \<longleftrightarrow> list_all2 (\<lambda>p v. map_of row (bp_name p) = Some v) (bg_bucket_parameters g) vs"
  by (simp add: row_values_def rmap_Inr_iff)

lemma group_bucket_names_exact:
  assumes "group_bucket_names J read limit c n sub names ig = Inr names'"
  shows "set names' = set names \<union> group_grants J read limit c n sub ig"
proof -
  obtain i g where ig: "ig = (i, g)" by (cases ig)
  show ?thesis
  proof (cases "request_filter_matches (bg_request_filter g) (binding_value c sub)")
    case False
    with assms ig show ?thesis by (simp add: group_bucket_names_def group_grants_def)
  next
    case True
    show ?thesis
    proof (cases "group_lookup g")
      case None
      with assms True obtain opts where opts: "rmap (\<lambda>p. let values = binding_values J c sub (bp_binding p) in
            if values = [] then Inl ''missing value for stream parameter'' else Inr values) (bg_bucket_parameters g) = Inr opts"
        and names': "names' = names @ map (bucket_name_for_stream_group J n i) (cartesian_product_values opts)"
        by (auto simp: group_bucket_names_def ig elim!: rbindE split: if_splits)
      from opts have "list_all2 (\<lambda>p os. os = binding_values J c sub (bp_binding p)) (bg_bucket_parameters g) opts"
        unfolding rmap_Inr_iff by (rule list_all2_mono) (auto simp: Let_def split: if_splits)
      then have "opts = map (\<lambda>p. binding_values J c sub (bp_binding p)) (bg_bucket_parameters g)"
        by (simp add: list_all2_eq [symmetric] list_all2_map1 list_all2_conv_all_nth list_eq_iff_nth_eq)
      then have "set (cartesian_product_values opts) = {vs. group_values J read limit c sub g vs}"
        by (auto simp: in_cartesian_product group_values_def None list_all2_map2 list_all2_conv_all_nth)
      with True show ?thesis by (simp add: names' group_grants_def ig)
    next
      case (Some lookup)
      with assms True obtain rows vs where rows: "resolve_parameter_lookup_rows read lookup c sub limit = Inr rows"
        and vs: "rmap (row_values g) rows = Inr vs" and names': "names' = names @ map (bucket_name_for_stream_group J n i) vs"
        by (auto simp: group_bucket_names_def ig elim!: rbindE)
      have "set vs = {vs. group_values J read limit c sub g vs}"
        by (auto simp: rmap_members [OF vs] group_values_def Some rows row_values_iff)
      with True show ?thesis by (simp add: names' group_grants_def ig)
    qed
  qed
qed

lemma rfold_grants:
  assumes "rfold f names xs = Inr names'" and "\<And>names x names'. f names x = Inr names' \<Longrightarrow> set names' = set names \<union> G x"
  shows "set names' = set names \<union> (\<Union>x \<in> set xs. G x)"
  using assms(1) by (induction xs arbitrary: names) (auto elim!: rbindE dest!: assms(2))

lemma subscription_bucket_names_exact:
  assumes "subscription_bucket_names J plan read limit c names s = Inr names'"
  shows "set names' = set names \<union> subscription_grants J plan read limit c s"
proof -
  obtain stream where s: "stream_lookup plan (rs_stream s) = Some stream"
    and f: "rfold (group_bucket_names J read limit c (rs_stream s) (extract_string_map J (rs_parameters s)))
      names (List.enumerate 0 (bucket_groups stream)) = Inr names'"
    using assms by (auto simp: subscription_bucket_names_def elim!: rbindE)
  from rfold_grants [OF f group_bucket_names_exact] show ?thesis
    by (simp add: subscription_grants_def s)
qed

text \<open>The buckets a request with stream subscriptions is granted.\<close>

definition stream_grants ::
  "json_lib \<Rightarrow> environment \<Rightarrow> RustExecutionPlan \<Rightarrow> lookup_reader \<Rightarrow> TokenPayload option \<Rightarrow>
   SyncStreamRequest \<Rightarrow> StreamSubscriptionRequest \<Rightarrow> string set" where
  "stream_grants J env plan read token request streams =
     (let c = context_from_request J token (sr_parameters request) in
      {name. (ss_include_defaults streams \<noteq> Some False \<and> name \<in> set (default_bucket_names J plan c) \<or>
          (\<exists>s \<in> set (ss_subscriptions streams).
             name \<in> subscription_grants J plan read (max_resolved_buckets_per_request env) c s)) \<and>
        (sr_only request = [] \<or> name \<in> set (sr_only request))})"

lemma resolved_names_exact:
  assumes "resolve_stream_bucket_names J env plan read token request streams = Inr names"
  shows "set names = stream_grants J env plan read token request streams \<and>
    length names \<le> max_resolved_buckets_per_request env"
proof -
  let ?c = "context_from_request J token (sr_parameters request)" and ?l = "max_resolved_buckets_per_request env"
  let ?d = "if (case ss_include_defaults streams of None \<Rightarrow> True | Some b \<Rightarrow> b) then default_bucket_names J plan ?c else []"
  obtain all where f: "rfold (subscription_bucket_names J plan read ?l ?c) ?d (ss_subscriptions streams) = Inr all"
    and k: "names = (if sr_only request = [] then all else filter (\<lambda>name. name \<in> set (sr_only request)) all)"
      "length names \<le> ?l"
    using assms by (auto simp: resolve_stream_bucket_names_def Let_def elim!: rbindE split: if_splits)
  have d: "set ?d = (if ss_include_defaults streams \<noteq> Some False then set (default_bucket_names J plan ?c) else {})"
    by (auto split: option.splits)
  from rfold_grants [OF f subscription_bucket_names_exact] d k show ?thesis
    by (auto simp: stream_grants_def Let_def split: if_splits)
qed

section \<open>Buckets a request may name\<close>

lemma validate_explicit:
  "validate_explicit_bucket_names J plan anon token allowed names = Inr () \<longleftrightarrow>
     (\<forall>name \<in> set names. if token = None \<and> anon then resolve_bucket_request J plan name \<noteq> None else name \<in> set allowed)"
  unfolding validate_explicit_bucket_names_def by (induction names) auto

definition entitled ::
  "json_lib \<Rightarrow> environment \<Rightarrow> RustExecutionPlan \<Rightarrow> lookup_reader \<Rightarrow> bool \<Rightarrow> TokenPayload option \<Rightarrow> SyncStreamRequest \<Rightarrow> string set" where
  "entitled J env plan read anon token request =
     (case sr_streams request of
        Some streams \<Rightarrow> stream_grants J env plan read token request streams
      | None \<Rightarrow>
          set (default_bucket_names J plan (context_from_request J token (sr_parameters request))) \<union>
          {name. token = None \<and> anon \<and> resolve_bucket_request J plan name \<noteq> None})"

lemma cursors_from_pairs_names: "sc_name ` set (sc_buckets (cursors_from_pairs ps)) = fst ` set ps"
  by (force simp: cursors_from_pairs_def)

lemma bucket_cursors_entitled:
  assumes "bucket_cursors J env plan read anon token request = Inr cursors"
  shows "sc_name ` set (sc_buckets cursors) \<subseteq> entitled J env plan read anon token request"
proof -
  obtain existing where e: "(let existing_map = bt_of_list existing;
           at_cursor = (\<lambda>name. (name, case map_of existing_map name of None \<Rightarrow> 0 | Some after \<Rightarrow> after)) in
       case sr_streams request of
         Some streams \<Rightarrow>
           rbind (resolve_stream_bucket_names J env plan read token request streams) (\<lambda>desired.
             Inr (cursors_from_pairs (map at_cursor desired)))
       | None \<Rightarrow>
           (let allowed_defaults = allowed_default_bucket_names J plan token request in
            if sr_only request = [] then
              if existing = [] then Inr (cursors_from_pairs (map (\<lambda>name. (name, 0)) allowed_defaults))
              else rbind (validate_explicit_bucket_names J plan anon token allowed_defaults (map fst existing))
                     (\<lambda>_. Inr (cursors_from_pairs existing))
            else rbind (validate_explicit_bucket_names J plan anon token allowed_defaults (sr_only request))
                   (\<lambda>_. Inr (cursors_from_pairs (map at_cursor (sr_only request)))))) = Inr cursors"
    using assms unfolding bucket_cursors_def by (auto elim!: rbindE)
  have allowed: "set (allowed_default_bucket_names J plan token request)
      = set (default_bucket_names J plan (context_from_request J token (sr_parameters request)))"
    by (simp add: allowed_default_bucket_names_def)
  have named: "fst ` set ps \<subseteq> entitled J env plan read anon token request"
    if "sr_streams request = None"
      "validate_explicit_bucket_names J plan anon token (allowed_default_bucket_names J plan token request) (map fst ps) = Inr ()" for ps :: "(string \<times> nat) list"
    using that unfolding validate_explicit entitled_def allowed by (auto split: if_splits)
  show ?thesis
  proof (cases "sr_streams request")
    case (Some streams)
    note e = e [unfolded Let_def Some option.case]
    then obtain desired where d: "resolve_stream_bucket_names J env plan read token request streams = Inr desired"
      and "sc_name ` set (sc_buckets cursors) = set desired"
      by (auto simp: cursors_from_pairs_names image_image elim!: rbindE)
    with resolved_names_exact [OF d] Some show ?thesis by (simp add: entitled_def)
  next
    case None
    note e = e [unfolded Let_def None option.case]
    show ?thesis
    proof (cases "sr_only request = []")
      case True
      show ?thesis
      proof (cases "existing = []")
        case empty: True
        from e True empty have "cursors = cursors_from_pairs (map (\<lambda>name. (name, 0)) (allowed_default_bucket_names J plan token request))"
          by simp
        then have "sc_name ` set (sc_buckets cursors) = set (allowed_default_bucket_names J plan token request)"
          by (simp add: cursors_from_pairs_names image_image)
        with allowed None show ?thesis by (simp add: entitled_def)
      next
        case False
        then have "cursors = cursors_from_pairs existing"
          "validate_explicit_bucket_names J plan anon token (allowed_default_bucket_names J plan token request) (map fst existing) = Inr ()"
          using e True by (auto elim!: rbindE)
        with named [OF None, of existing] show ?thesis by (simp add: cursors_from_pairs_names)
      qed
    next
      case False
      let ?ps = "map (\<lambda>name. (name, case map_of (bt_of_list existing) name of None \<Rightarrow> 0 | Some after \<Rightarrow> after)) (sr_only request)"
      have "map fst ?ps = sr_only request" by (simp add: comp_def)
      with e False have "cursors = cursors_from_pairs ?ps"
        "validate_explicit_bucket_names J plan anon token (allowed_default_bucket_names J plan token request) (map fst ?ps) = Inr ()"
        by (auto elim!: rbindE)
      with named [OF None, of ?ps] show ?thesis by (simp add: cursors_from_pairs_names)
    qed
  qed
qed

section \<open>Bucket names\<close>

text \<open>What the JSON library promises of an array of strings: it prints with a bracket first and reads back.\<close>

definition arrays_read_back :: "json_lib \<Rightarrow> bool" where
  "arrays_read_back J \<longleftrightarrow> (\<forall>vs. (\<exists>r. js_to_string J (JArray (map JString vs)) = CHR ''['' # r) \<and>
     js_from_str J (js_to_string J (JArray (map JString vs))) = Some (JArray (map JString vs)))"

lemma omap_as_str: "omap as_str (map JString vs) = Some vs"
  by (induction vs) auto

lemma bucket_name_parts:
  assumes "arrays_read_back J" and "CHR ''|'' \<notin> set n" and "i < u64_limit"
  shows "resolve_bucket_request J plan (bucket_name_for_stream_group J n i vs) =
    Option.bind (map_of (streams_by_name plan) n) (\<lambda>stream.
    Option.bind (map_of (stream_bucket_groups_by_name plan) n) (\<lambda>groups.
    Option.bind (find (\<lambda>g. sg_index g = i) groups) (\<lambda>grp.
      resolve_group J (bucket_name_for_stream_group J n i vs) stream grp vs)))"
proof -
  obtain r where r: "js_to_string J (JArray (map JString vs)) = CHR ''['' # r"
    and reads: "js_from_str J (CHR ''['' # r) = Some (JArray (map JString vs))"
    using assms(1) unfolding arrays_read_back_def by metis
  have "CHR ''['' \<notin> set (decimal i)" using decimal_chars [of "CHR ''[''" i] by auto
  then have "takeWhile (\<lambda>d. d \<noteq> CHR ''['') (decimal i @ CHR ''['' # r) = decimal i"
    by (subst takeWhile_append2) auto
  then have at: "find_char (CHR ''['') (decimal i @ CHR ''['' # r) = Some (length (decimal i))"
    by (simp add: find_char_def)
  have "split_once (CHR ''|'') (n @ CHR ''|'' # decimal i @ CHR ''['' # r) = Some (n, decimal i @ CHR ''['' # r)"
    by (rule split_once_append [OF assms(2)])
  with at show ?thesis
    by (simp add: resolve_bucket_request_def bucket_name_for_stream_group_def r STREAM_BUCKET_PREFIX_def strip_prefix_def
        parse_decimal [OF assms(3)] parse_bucket_values_def reads omap_as_str)
qed

lemma add_query_to_group_index:
  "add_query_to_group ps flt q gs = Some gs' \<Longrightarrow> map sg_index gs' = map sg_index gs \<and> (\<forall>g' \<in> set gs'. g' \<in> set gs \<or> sg_queries g' \<noteq> [])"
  by (induction gs arbitrary: gs') (auto split: if_splits)

lemma push_query_index:
  assumes "map sg_index gs = [0..<length gs]" and "\<forall>g \<in> set gs. sg_queries g \<noteq> []"
  shows "map sg_index (push_query gs q) = [0..<length (push_query gs q)] \<and> (\<forall>g \<in> set (push_query gs q). sg_queries g \<noteq> [])"
proof (cases "add_query_to_group (merged_bucket_parameters_from_queries [dq_bucket_parameters q]) (dq_request_filter q) q gs")
  case None
  with assms show ?thesis by (simp add: push_query_def Let_def)
next
  case (Some gs')
  from add_query_to_group_index [OF this] assms have "map sg_index gs' = map sg_index gs" "\<forall>g \<in> set gs'. sg_queries g \<noteq> []"
    by auto
  moreover from this(1) have "length gs' = length gs" by (metis length_map)
  ultimately show ?thesis using Some assms by (simp add: push_query_def Let_def)
qed

lemma stream_bucket_groups_index:
  "map sg_index (stream_bucket_groups s) = [0..<length (stream_bucket_groups s)] \<and> (\<forall>g \<in> set (stream_bucket_groups s). sg_queries g \<noteq> [])"
proof -
  have "map sg_index (foldl push_query [] qs) = [0..<length (foldl push_query [] qs)] \<and>
      (\<forall>g \<in> set (foldl push_query [] qs). sg_queries g \<noteq> [])" for qs
  proof (induction qs rule: rev_induct)
    case (snoc q qs)
    then show ?case using push_query_index [of "foldl push_query [] qs" q] by simp
  qed simp
  then show ?thesis by (simp add: stream_bucket_groups_def)
qed

lemma find_group:
  assumes "i < length (stream_bucket_groups s)"
  shows "find (\<lambda>g. sg_index g = i) (stream_bucket_groups s) = Some (stream_bucket_groups s ! i)"
proof -
  have ix: "sg_index (stream_bucket_groups s ! k) = k" if "k < length (stream_bucket_groups s)" for k
    using stream_bucket_groups_index [of s] that by (metis add_0 nth_map nth_upt)
  then have "\<forall>j < i. sg_index (stream_bucket_groups s ! j) \<noteq> i" 
    using assms by (metis less_irrefl order.strict_trans)
  with assms ix [OF assms] show ?thesis unfolding find_Some_iff by blast
qed

text \<open>A granted bucket name resolves to the queries of its group, with the granted values.\<close>

lemma granted_bucket_resolves:
  assumes "lower_canonical_semantic_plan S c = Inr plan" and "arrays_read_back J"
    and "stream_lookup plan n = Some stream" and "CHR ''|'' \<notin> set n"
    and "(i, g) \<in> set (List.enumerate 0 (bucket_groups stream))" and "length (bucket_groups stream) < u64_limit"
    and "length vs = length (bg_bucket_parameters g)"
  shows "\<exists>b. resolve_bucket_request J plan (bucket_name_for_stream_group J n i vs) = Some b \<and>
    rb_stream_name b = n \<and>
    rb_queries b = map (resolve_query J (bt_of_list (zip (map bp_name (bg_bucket_parameters g)) vs)))
      (sg_queries (stream_bucket_groups stream ! i))"
proof -
  have i: "i < length (stream_bucket_groups stream)" and g: "g = bucket_groups stream ! i"
    using assms(5) by (auto simp: in_set_enumerate_eq bucket_groups_def)
  have g': "bg_bucket_parameters g = sg_bucket_parameters (stream_bucket_groups stream ! i)"
    using i by (simp add: g bucket_groups_def)
  have s: "map_of (streams_by_name plan) n = Some stream" using assms(3) by (simp add: stream_lookup_def)
  then have m: "stream \<in> set (sp_streams c)" "cs_name stream = n" using lowered_fields(1) [OF assms(1)] by auto
  then have gs: "map_of (stream_bucket_groups_by_name plan) n = Some (stream_bucket_groups stream)"
    using lowered_fields(2) [OF assms(1)] by blast
  have q: "sg_queries (stream_bucket_groups stream ! i) \<noteq> []" using stream_bucket_groups_index [of stream] i by simp
  have "i < u64_limit" using i assms(6) by (simp add: bucket_groups_def)
  from bucket_name_parts [OF assms(2,4) this, of plan vs] show ?thesis
    using assms(7) q m by (auto simp: s gs find_group [OF i] resolve_group_def Let_def g' neq_Nil_conv)
qed

end
