(* ===== verification/Request_Guarantees.thy ===== *)
theory Request_Guarantees
  imports Request_Facts Rule_Guarantees
begin

text \<open>
  The properties of authentication and of the admission of requests, with their witnesses: who may
  stream, what a request resolves to and for how long it is served.
\<close>

section \<open>An example service\<close>

text \<open>Reference signatures: segments are their own encoding, a signature is the secret itself.\<close>

definition ref_claims :: json_object where
  "ref_claims = [(''aud'', JString ''app''), (''exp'', JPos 50), (''iss'', JString ''me''), (''sub'', JString ''u1'')]"

definition ref_auth :: auth_lib where
  "ref_auth = \<lparr> al_json = ref_json, al_b64_decode = Some, al_jwt_header = (\<lambda>_. Some \<lparr> jh_alg = ''HS256'', jh_kid = None \<rparr>),
     al_json_slice = (\<lambda>_. Some (JObject ref_claims)), al_jwk_array = (\<lambda>_. None), al_jwk_set = (\<lambda>_. None),
     al_hmac_verify = (\<lambda>secret message signature. signature = secret), al_rsa_verify = (\<lambda>_ _ _. False),
     al_digest = (\<lambda>s. [of_nat (length s)]), al_parse_url = (\<lambda>_. None), al_http_get = (\<lambda>_ _. Inl ''offline'') \<rparr>"

definition ex_env :: environment where
  "ex_env = map_of [(''POWERSYNC_RUST_SUPABASE_JWT_SECRET'', ''key''), (''PS_JWT_AUDIENCES'', ''app''), (''PS_JWT_ISSUERS'', ''me'')]"

definition ex_user_auth :: UserAuthConfig where
  "ex_user_auth = \<lparr> ua_keys = [Hmac \<lparr> hk_kid = None, hk_secret = ''key'' \<rparr>], ua_audiences = [''app''], ua_issuers = [''me''] \<rparr>"

definition ex_headers :: headers where
  "ex_headers = [(''authorization'', ''Bearer h.p.key'')]"

definition ex_token :: TokenPayload where
  "ex_token = \<lparr> tk_claims = JObject ref_claims, tk_exp = Some 50, tk_user_id = Some ''u1'' \<rparr>"

lemma ex_user_auth_eq: "user_from_env_with_config ref_auth ex_env None = Inr (Some ex_user_auth)"
  by (simp add: user_from_env_with_config_def from_sources_def validate_claim_policy_def env_first_def env_list_def ex_env_def
      ex_user_auth_def Let_def trim_plain plain_char_def)

lemma find_blank: "find (\<lambda>w. starts_with w (CHR '' '' # s)) white_space = Some '' ''"
  by (simp add: white_space_def starts_with_def char_of_bits)

lemma find_plain: "plain_char c \<Longrightarrow> find (\<lambda>w. starts_with w (c # s)) white_space = None"
  using plain_no_space [of "c # s"] by (simp add: starts_with_def)

lemma ex_extract: "extract_token ex_headers = Inr ''h.p.key''"
  by (simp add: extract_token_def ex_headers_def header_to_str_def split_whitespace_def find_blank find_plain plain_char_def
      eq_ignore_ascii_case_def to_ascii_lower_def char_of_bits Let_def)

lemma ex_authorized: "authorize_user ref_auth 7 (Some ex_user_auth) False ex_headers = Inr (Some ex_token)"
  by (simp add: authorize_user_def user_authorize_headers_def verify_token_def split_jwt_def decode_segment_def select_hmac_key_def
      select_auth_key_def validate_payload_def audience_matches_def NBF_LEEWAY_SECS_def ex_extract ex_token_def ex_user_auth_def
      ref_auth_def ref_claims_def)

section \<open>Authentication\<close>

text \<open>
  C6. No request is served without a verified token. With the configuration the service starts with, an authorised
  request either carries a bearer token of three segments, signed under a configured key by the algorithm and key
  id of its own header, whose claims have not expired, are not before their time, and name one of the configured
  audiences and issuers, neither of which can be empty; or no keys are configured at all and anonymous access was
  opted into.
\<close>

theorem request_authenticated:
  assumes "user_from_env_with_config L env config = Inr user_auth" and "authorize_user L now user_auth anon hs = Inr t"
  shows "case t of
      None \<Rightarrow> user_auth = None \<and> anon
    | Some payload \<Rightarrow> \<exists>cfg h p s header key claims. user_auth = Some cfg \<and> extract_token hs = Inr (h @ ''.'' @ p @ ''.'' @ s) \<and>
        Option.bind (al_b64_decode L h) (al_jwt_header L) = Some header \<and>
        Option.bind (al_b64_decode L p) (al_json_slice L) = Some (JObject claims) \<and>
        key \<in> set (ua_keys cfg) \<and> signed_by L h p s header key \<and> tk_claims payload = JObject claims \<and>
        (\<exists>exp. tk_exp payload = Some exp \<and> now < exp) \<and>
        (\<forall>nbf. map_of claims ''nbf'' = Some nbf \<longrightarrow> (\<exists>n. value_as_u64 nbf = Some n \<and> n \<le> now + NBF_LEEWAY_SECS)) \<and>
        audience_matches (map_of claims ''aud'') (ua_audiences cfg) \<and>
        (\<exists>iss \<in> set (ua_issuers cfg). map_of claims ''iss'' = Some (JString iss))"
proof (cases user_auth)
  case None
  with assms(2) show ?thesis by (auto simp: authorize_user_def split: if_splits)
next
  case (Some cfg)
  with assms(2) obtain raw payload where t: "t = Some payload" and raw: "extract_token hs = Inr raw"
    and v: "verify_token L now cfg raw = Inr payload"
    by (auto simp: authorize_user_def user_authorize_headers_def elim!: rbindE)
  have "ua_audiences cfg \<noteq> []" "ua_issuers cfg \<noteq> []" using configured_policy assms(1) Some by blast+
  with verify_token_Inr [OF v] raw show ?thesis unfolding t Some option.case policy_met_def by blast
qed

theorem request_authenticated_witness:
  "user_from_env_with_config ref_auth ex_env None = Inr (Some ex_user_auth) \<and>
   authorize_user ref_auth 7 (Some ex_user_auth) False ex_headers = Inr (Some ex_token) \<and>
   (\<exists>h p s header key. extract_token ex_headers = Inr (h @ ''.'' @ p @ ''.'' @ s) \<and> signed_by ref_auth h p s header key)"
  using request_authenticated [OF ex_user_auth_eq ex_authorized] ex_user_auth_eq ex_authorized by simp blast

text \<open>
  C26. The management interface admits exactly the configured tokens. Although the comparison folds over all bytes
  of both digests, it accepts a request if and only if its bearer token has the digest of a configured token; with
  no tokens configured it accepts none. The digest has a fixed length.
\<close>

theorem api_tokens_exact:
  assumes "\<And>a b. length (al_digest L a) = length (al_digest L b)"
  shows "api_authorize_headers L cfg hs = Inr () \<longleftrightarrow>
    (\<exists>token. extract_token hs = Inr token \<and> (\<exists>expected \<in> set (aa_tokens cfg). al_digest L expected = al_digest L token))"
  using constant_time_eq [OF assms]
  by (cases "extract_token hs") (auto simp: api_authorize_headers_def list_ex_iff)

theorem api_tokens_exact_witness:
  "api_authorize_headers ref_auth \<lparr> aa_tokens = [''other!!''] \<rparr> ex_headers = Inr ()"
  by (subst api_tokens_exact) (simp_all add: ref_auth_def ex_extract)

section \<open>Requests\<close>

text \<open>
  C23. A request with stream subscriptions resolves to exactly the buckets it is granted: the default buckets unless they
  are excluded, and for every subscription and every bucket group whose filter the request satisfies one bucket per
  combination of the parameters' values, or per row of the group's parameter query; restricted to the names the
  request lists, if it lists any; and never more than the limit.
\<close>

theorem requested_buckets_exact:
  assumes "resolve_stream_bucket_names J env plan read token request streams = Inr names"
  shows "set names = stream_grants J env plan read token request streams \<and>
    length names \<le> max_resolved_buckets_per_request env"
  by (rule resolved_names_exact [OF assms])

definition ex_sync_request :: SyncStreamRequest where
  "ex_sync_request = \<lparr> sr_binary_data = False, sr_raw_data = True, sr_buckets = [], sr_client_id = ''c'', sr_parameters = [],
     sr_streams = Some \<lparr> ss_include_defaults = Some False, ss_subscriptions = [\<lparr> rs_stream = ''mine'', rs_parameters = None \<rparr>] \<rparr>,
     sr_only = [] \<rparr>"

definition ex_streams :: StreamSubscriptionRequest where
  "ex_streams = \<lparr> ss_include_defaults = Some False, ss_subscriptions = [\<lparr> rs_stream = ''mine'', rs_parameters = None \<rparr>] \<rparr>"

lemma ex_stream_lookup:
  "stream_lookup ex_lowered ''mine'' = Some (ex_stream ''mine'' False [ex_query ''tasks'' [ex_parameter], ex_query ''notes'' [ex_parameter]])"
  using lowered_fields(1) [OF ex_lowered_eq] by (auto simp: stream_lookup_def ex_canonical_def ex_stream_def)

lemma ex_subscription:
  assumes "rp_user_id c = Some ''u1''"
  shows "subscription_bucket_names ref_json ex_lowered read 10000 c [] \<lparr> rs_stream = ''mine'', rs_parameters = None \<rparr> = Inr [ex_bucket_name]"
  using assms ex_stream_lookup [unfolded stream_lookup_def]
  by (simp add: exec subscription_bucket_names_def group_bucket_names_def ex_stream_def ex_query_def ex_parameter_def ex_bucket_name_def
      extract_string_map_def binding_values_def group_lookup_def saturating_product_def cartesian_product_values_def
      stream_lookup_def cong: exec_cong del: exec_del)

lemma ex_names_resolve:
  "resolve_stream_bucket_names ref_json ex_env ex_lowered read (Some ex_token) ex_sync_request ex_streams = Inr [ex_bucket_name]"
proof -
  have "rp_user_id (context_from_request ref_json (Some ex_token) []) = Some ''u1''"
    by (simp add: context_from_request_def Let_def ex_token_def)
  moreover have "max_resolved_buckets_per_request ex_env = 10000" by (simp add: max_resolved_buckets_per_request_def ex_env_def)
  ultimately show ?thesis
    using ex_subscription by (simp add: resolve_stream_bucket_names_def ex_streams_def ex_sync_request_def Let_def)
qed

text \<open>An authorised token expires in the future.\<close>

lemma authorized_expiry:
  assumes "authorize_user L now ua anon hs = Inr (Some t)"
  shows "\<exists>exp. tk_exp t = Some exp \<and> now < exp"
proof -
  obtain cfg raw where "verify_token L now cfg raw = Inr t"
    using assms by (auto simp: authorize_user_def user_authorize_headers_def elim!: rbindE split: option.splits if_splits)
  from verify_token_Inr [OF this] show ?thesis by (auto simp: policy_met_def)
qed

theorem requested_buckets_exact_witness:
  "stream_grants ref_json ex_env ex_lowered (\<lambda>_ _ _. Inr []) (Some ex_token) ex_sync_request ex_streams = {ex_bucket_name}"
  using requested_buckets_exact [OF ex_names_resolve, of "\<lambda>_ _ _. Inr []"] by simp

lemma sync_streamE:
  assumes "sync_stream S ready read clock_limit authorised_at measured_at permit hs request = Inr a"
  obtains r where "ready" "permit" "request = Inr r"
    "authorize_user (sv_auth S) authorised_at (sv_user_auth S) (sv_allow_anonymous_sync S) hs = Inr (as_token a)"
    "bucket_cursors (al_json (sv_auth S)) (sv_env S) (sv_plan S) read (sv_allow_anonymous_sync S) (as_token a) r = Inr (as_cursors a)"
    "length (sc_buckets (as_cursors a)) \<le> MAX_SYNC_BUCKETS"
    "as_lifetime a = (case Option.bind (as_token a) (remaining_lifetime clock_limit measured_at) of
       None \<Rightarrow> MAX_STREAM_LIFETIME | Some remaining \<Rightarrow> min remaining MAX_STREAM_LIFETIME)"
  using assms by (auto simp: sync_stream_def Let_def elim!: rbindE split: if_splits)

text \<open>
  C4. A streaming response is only started for a request authorised at the time of its check, for buckets its token
  entitles it to, at most 256 of them, while the store is ready and a read permit is held. The stream yields nothing once
  it has run for five minutes, and nothing once it has run for the lifetime its token had left when that was measured:
  a token that was measured before the stream started may thus be outlived by the time between the measurement and the
  start, spent resolving buckets and waiting for the permit, and by no more.
\<close>

theorem admitted_sync_authorized:
  assumes "sync_stream S ready read clock_limit authorised_at measured_at permit hs request = Inr a"
  shows "ready \<and> permit \<and>
    authorize_user (sv_auth S) authorised_at (sv_user_auth S) (sv_allow_anonymous_sync S) hs = Inr (as_token a) \<and>
    (\<forall>t. as_token a = Some t \<longrightarrow> (\<exists>exp. tk_exp t = Some exp \<and> authorised_at < exp)) \<and>
    (\<exists>r. request = Inr r \<and> sc_name ` set (sc_buckets (as_cursors a))
       \<subseteq> entitled (al_json (sv_auth S)) (sv_env S) (sv_plan S) read (sv_allow_anonymous_sync S) (as_token a) r) \<and>
    length (sc_buckets (as_cursors a)) \<le> MAX_SYNC_BUCKETS \<and>
    (\<forall>started now item. body_stream_item started a now item \<noteq> None \<longrightarrow> now < started + 5 * 60 * 10 ^ 9) \<and>
    (\<forall>t exp started now item. as_token a = Some t \<longrightarrow> tk_exp t = Some exp \<longrightarrow> exp < clock_limit \<longrightarrow>
       measured_at \<le> started \<longrightarrow> started \<le> now \<longrightarrow> body_stream_item started a now item \<noteq> None \<longrightarrow>
       now < exp * 10 ^ 9 + (started - measured_at))"
proof -
  let ?J = "al_json (sv_auth S)" and ?anon = "sv_allow_anonymous_sync S"
  obtain r where a: "ready" "permit" "request = Inr r" "authorize_user (sv_auth S) authorised_at (sv_user_auth S) ?anon hs = Inr (as_token a)"
    "bucket_cursors ?J (sv_env S) (sv_plan S) read ?anon (as_token a) r = Inr (as_cursors a)"
    "length (sc_buckets (as_cursors a)) \<le> MAX_SYNC_BUCKETS"
    and life: "as_lifetime a = (case Option.bind (as_token a) (remaining_lifetime clock_limit measured_at) of
      None \<Rightarrow> MAX_STREAM_LIFETIME | Some remaining \<Rightarrow> min remaining MAX_STREAM_LIFETIME)"
    using assms by (rule sync_streamE)
  have "as_lifetime a \<le> 5 * 60 * 10 ^ 9" unfolding life by (auto simp: MAX_STREAM_LIFETIME_def split: option.splits)
  then have cap: "\<forall>started now item. body_stream_item started a now item \<noteq> None \<longrightarrow> now < started + 5 * 60 * 10 ^ 9"
    by (auto simp: body_stream_item_def stream_deadline_def)
  have out: "\<forall>t exp started now item. as_token a = Some t \<longrightarrow> tk_exp t = Some exp \<longrightarrow> exp < clock_limit \<longrightarrow>
     measured_at \<le> started \<longrightarrow> started \<le> now \<longrightarrow> body_stream_item started a now item \<noteq> None \<longrightarrow>
     now < exp * 10 ^ 9 + (started - measured_at)"
  proof (intro allI impI)
    fix u exp started now item
    assume that: "as_token a = Some u" "tk_exp u = Some exp" "exp < clock_limit" "measured_at \<le> started" "started \<le> now"
      "body_stream_item started a now item \<noteq> None"
    have "as_lifetime a \<le> exp * 10 ^ 9 - measured_at" using that(1-3) by (simp add: life remaining_lifetime_def)
    with that(4-6) show "now < exp * 10 ^ 9 + (started - measured_at)"
      by (auto simp: body_stream_item_def stream_deadline_def split: if_splits)
  qed
  have live: "\<forall>u. as_token a = Some u \<longrightarrow> (\<exists>exp. tk_exp u = Some exp \<and> authorised_at < exp)"
    using authorized_expiry a(4) by fastforce
  have grant: "\<exists>r. request = Inr r \<and> sc_name ` set (sc_buckets (as_cursors a)) \<subseteq> entitled ?J (sv_env S) (sv_plan S) read ?anon (as_token a) r"
    using bucket_cursors_entitled [OF a(5)] a(3) by blast
  show ?thesis using a(1,2,4,6) live grant cap out by (intro conjI)
qed

definition ex_service :: service_context where
  "ex_service = \<lparr> sv_auth = ref_auth, sv_user_auth = Some ex_user_auth, sv_allow_anonymous_sync = False, sv_plan = ex_lowered,
     sv_env = ex_env \<rparr>"

lemma ex_remaining: "remaining_lifetime 1000 7000000000 ex_token = Some (43 * 10 ^ 9)"
  by (simp add: remaining_lifetime_def ex_token_def)

lemma ex_admitted:
  "\<exists>a. sync_stream ex_service True (\<lambda>_ _ _. Inr []) 1000 7 7000000000 True ex_headers (Inr ex_sync_request) = Inr a \<and>
     as_token a = Some ex_token"
proof -
  have "sr_streams ex_sync_request = Some ex_streams" "sr_buckets ex_sync_request = []" "map_of ex_headers ''accept'' = None"
    "al_json ref_auth = ref_json" by (simp_all add: ex_sync_request_def ex_streams_def ex_headers_def ref_auth_def)
  with ex_names_resolve [of "\<lambda>_ _ _. Inr []"] show ?thesis
    by (simp add: sync_stream_def ex_service_def ex_authorized bucket_cursors_def cursors_from_pairs_def negotiate_content_type_def
        MAX_SYNC_BUCKETS_def Let_def)
qed

theorem admitted_sync_authorized_witness:
  "\<exists>a. sync_stream ex_service True (\<lambda>_ _ _. Inr []) 1000 7 7000000000 True ex_headers (Inr ex_sync_request) = Inr a \<and>
     body_stream_item 8000000000 a 50500000000 (Some ()) = Some () \<and> (50500000000::nat) < 50 * 10 ^ 9 + (8000000000 - 7000000000)"
proof -
  obtain a where a: "sync_stream ex_service True (\<lambda>_ _ _. Inr []) 1000 7 7000000000 True ex_headers (Inr ex_sync_request) = Inr a"
    "as_token a = Some ex_token" using ex_admitted by blast
  have life: "as_lifetime a = 43 * 10 ^ 9"
    using a(1) by (rule sync_streamE) (simp add: a(2) ex_remaining MAX_STREAM_LIFETIME_def)
  have "tk_exp ex_token = Some 50" by (simp add: ex_token_def)
  moreover have item: "body_stream_item 8000000000 a 50500000000 (Some ()) = Some ()"
    by (simp add: body_stream_item_def stream_deadline_def life)
  moreover note admitted_sync_authorized [OF a(1), THEN conjunct2, THEN conjunct2, THEN conjunct2, THEN conjunct2, THEN conjunct2,
      THEN conjunct2, THEN conjunct2, rule_format, OF a(2), of 50 8000000000 50500000000 "Some ()"]
  ultimately have "(50500000000::nat) < 50 * 10 ^ 9 + (8000000000 - 7000000000)" by simp
  with a item show ?thesis by blast
qed

text \<open>
  C24. The bucket names the service grants are names it can read: for a plan the rule compiler lowered, the name made for a
  group of a stream and a list of values resolves to that stream and to the queries of that group with exactly those
  values. The stream's name has no \<open>|\<close>, and the JSON library reads back the arrays of strings it prints.
\<close>

theorem granted_bucket_roundtrip:
  assumes "lower_canonical_semantic_plan S c = Inr plan" and "arrays_read_back J"
    and "stream_lookup plan n = Some stream" and "CHR ''|'' \<notin> set n"
    and "(i, g) \<in> set (List.enumerate 0 (bucket_groups stream))" and "length (bucket_groups stream) < u64_limit"
    and "length vs = length (bg_bucket_parameters g)"
  shows "\<exists>b. resolve_bucket_request J plan (bucket_name_for_stream_group J n i vs) = Some b \<and>
    rb_stream_name b = n \<and>
    rb_queries b = map (resolve_query J (bt_of_list (zip (map bp_name (bg_bucket_parameters g)) vs)))
      (sg_queries (stream_bucket_groups stream ! i))"
  by (rule granted_bucket_resolves [OF assms])

lemma ref_arrays: "arrays_read_back ref_json"
proof -
  have "concat (map (\<lambda>j. case j of JString s \<Rightarrow> esc s | _ \<Rightarrow> ref_json_text j) (map JString vs)) = ref_enc vs" for vs
    by (simp add: ref_enc_def comp_def)
  then show ?thesis by (simp add: arrays_read_back_def ref_json_def ref_json_parse_def comp_def)
qed

theorem granted_bucket_roundtrip_witness:
  "\<exists>b. resolve_bucket_request ref_json ex_lowered (bucket_name_for_stream_group ref_json ''mine'' 0 [''u1'']) = Some b \<and>
     rb_stream_name b = ''mine'' \<and> length (rb_queries b) = 2"
proof -
  let ?s = "ex_stream ''mine'' False [ex_query ''tasks'' [ex_parameter], ex_query ''notes'' [ex_parameter]]"
  have groups: "bucket_groups ?s = [\<lparr> bg_bucket_parameters = [ex_parameter\<lparr>bp_source_column := ''user_id''\<rparr>], bg_request_filter = None \<rparr>]"
    "length (sg_queries (stream_bucket_groups ?s ! 0)) = 2"
    by (simp_all add: bucket_groups_def stream_bucket_groups_def data_queries_def ex_stream_def ex_query_def ex_parameter_def
        push_query_def merged_bucket_parameters_from_queries_def merge_bucket_parameter_def Let_def)
  from granted_bucket_roundtrip [OF ex_lowered_eq ref_arrays ex_stream_lookup, of 0 _ "[''u1'']"] groups show ?thesis
    by fastforce
qed

text \<open>
  A stream whose name contains the separator of bucket names is granted buckets that never resolve: the name is split at
  its first separator, and what follows is not a group index.
\<close>

lemma parse_u64_foreign: "c \<in> set s \<Longrightarrow> c \<noteq> CHR ''+'' \<Longrightarrow> char_digit 10 c = None \<Longrightarrow> parse_u64 s = None"
proof -
  assume c: "c \<in> set s" "c \<noteq> CHR ''+''" "char_digit 10 c = None"
  have "omap (char_digit 10) ds = None" if "c \<in> set ds" for ds
    using that c(3) by (induction ds) (auto split: option.splits)
  moreover have "c \<in> set (case s of [] \<Rightarrow> [] | d # r \<Rightarrow> if d = CHR ''+'' then r else s)"
    using c(1,2) by (cases s) auto
  ultimately show ?thesis by (simp add: parse_radix_def Let_def)
qed

theorem piped_stream_unresolvable:
  assumes "arrays_read_back J" and "CHR ''|'' \<notin> set a" and "CHR ''['' \<notin> set b"
  shows "resolve_bucket_request J plan (bucket_name_for_stream_group J (a @ ''|'' @ b) i vs) = None"
proof -
  obtain r where r: "js_to_string J (JArray (map JString vs)) = CHR ''['' # r"
    using assms(1) unfolding arrays_read_back_def by metis
  let ?p = "b @ ''|'' @ decimal i"
  have "CHR ''['' \<notin> set ?p" using assms(3) decimal_chars [of "CHR ''[''" i] by auto
  then have "takeWhile (\<lambda>d. d \<noteq> CHR ''['') (?p @ CHR ''['' # r) = ?p" by (subst takeWhile_append2) auto
  then have at: "find_char (CHR ''['') (?p @ CHR ''['' # r) = Some (length ?p)" by (simp add: find_char_def)
  have "parse_u64 ?p = None" by (rule parse_u64_foreign [of "CHR ''|''"]) (simp_all add: char_digit_def)
  with at split_once_append [OF assms(2), of "?p @ CHR ''['' # r"] show ?thesis
    by (simp add: resolve_bucket_request_def bucket_name_for_stream_group_def r STREAM_BUCKET_PREFIX_def strip_prefix_def)
qed

end
