(* ===== verification/Ingest_Runner.thy ===== *)
theory Ingest_Runner
  imports Decoder Store Authentication
begin

text \<open>
  The replication runner (\<open>replication/runner.rs\<close>): the tap and the ingest loop over the events of a
  replication stream. The stream belongs to the crate \<open>pgwire_replication\<close>: what it delivers is a list of
  answers, at whose end it has no more events, and the calls the runner makes on it are recorded in the
  state. The ingest loop drives the decoder and the store; the result of an iteration carries the state it
  leaves, since a failed one may have changed the decoder or the store. Counters of the summary do not
  reach their bounds, and logging and metrics are not modelled.
\<close>

section \<open>Options and errors\<close>

datatype ReplicationRunnerConfigError = InvalidUnsignedEnv string string

datatype ReplicationRunnerError =
    ConfigFailed ReplicationRunnerConfigError
  | IngestFailed ingest_error
  | RuntimeFailed string
  | OtherFailed string

record ReplicationRunnerOptions =
  ro_max_events :: "nat option"

definition MAX_EVENTS_ENV :: string where
  "MAX_EVENTS_ENV = ''POWERSYNC_RUST_REPLICATION_MAX_EVENTS''"

definition runner_options_from_lookup ::
  "environment \<Rightarrow> ReplicationRunnerConfigError + ReplicationRunnerOptions" where
  "runner_options_from_lookup lookup =
     (case Option.bind (map_option trim (lookup MAX_EVENTS_ENV)) (\<lambda>v. if v = [] then None else Some v) of
        None \<Rightarrow> Inr \<lparr> ro_max_events = None \<rparr>
      | Some v \<Rightarrow> rbind (ok_or (InvalidUnsignedEnv MAX_EVENTS_ENV v) (parse_u64 v))
                    (\<lambda>n. Inr \<lparr> ro_max_events = Some n \<rparr>))"

section \<open>Events and the summary\<close>

fun durable_lsn :: "ReplicationStreamEvent \<Rightarrow> lsn option" where
  "durable_lsn (Commit _ l _) = Some l"
| "durable_lsn (StoppedAt reached) = Some reached"
| "durable_lsn _ = None"

fun event_kind :: "ReplicationStreamEvent \<Rightarrow> string" where
  "event_kind (KeepAlive _) = ''keepalive''"
| "event_kind (Begin _ _ _) = ''begin''"
| "event_kind (XLogData _ _) = ''xlog-data''"
| "event_kind (Commit _ _ _) = ''commit''"
| "event_kind MessageEvent = ''message''"
| "event_kind (StoppedAt _) = ''stopped-at''"

record ReplicationRunSummary =
  su_start_lsn :: lsn
  su_total_events :: nat
  su_keepalive_events :: nat
  su_transaction_begin_events :: nat
  su_xlog_data_events :: nat
  su_commit_events :: nat
  su_message_events :: nat
  su_stop_events :: nat
  su_persisted_batches :: nat
  su_persisted_change_events :: nat
  su_last_ack_lsn :: "lsn option"
  su_last_persisted_lsn :: "lsn option"
  su_stopped_by_limit :: bool

definition summary_new :: "lsn \<Rightarrow> ReplicationRunSummary" where
  "summary_new start_lsn =
     \<lparr> su_start_lsn = start_lsn, su_total_events = 0, su_keepalive_events = 0, su_transaction_begin_events = 0,
       su_xlog_data_events = 0, su_commit_events = 0, su_message_events = 0, su_stop_events = 0,
       su_persisted_batches = 0, su_persisted_change_events = 0, su_last_ack_lsn = None,
       su_last_persisted_lsn = None, su_stopped_by_limit = False \<rparr>"

definition record_event :: "ReplicationStreamEvent \<Rightarrow> ReplicationRunSummary \<Rightarrow> ReplicationRunSummary" where
  "record_event event su =
     (let su = su\<lparr>su_total_events := su_total_events su + 1\<rparr> in
      case event of
        KeepAlive _ \<Rightarrow> su\<lparr>su_keepalive_events := su_keepalive_events su + 1\<rparr>
      | Begin _ _ _ \<Rightarrow> su\<lparr>su_transaction_begin_events := su_transaction_begin_events su + 1\<rparr>
      | XLogData _ _ \<Rightarrow> su\<lparr>su_xlog_data_events := su_xlog_data_events su + 1\<rparr>
      | Commit _ _ _ \<Rightarrow> su\<lparr>su_commit_events := su_commit_events su + 1\<rparr>
      | MessageEvent \<Rightarrow> su\<lparr>su_message_events := su_message_events su + 1\<rparr>
      | StoppedAt _ \<Rightarrow> su\<lparr>su_stop_events := su_stop_events su + 1\<rparr>)"

definition record_ack_lsn :: "lsn \<Rightarrow> ReplicationRunSummary \<Rightarrow> ReplicationRunSummary" where
  "record_ack_lsn l su = su\<lparr>su_last_ack_lsn := Some l\<rparr>"

definition record_persisted_batch :: "batch \<Rightarrow> ReplicationRunSummary \<Rightarrow> ReplicationRunSummary" where
  "record_persisted_batch b su =
     su\<lparr>su_persisted_batches := su_persisted_batches su + 1,
        su_persisted_change_events := su_persisted_change_events su + length (changes b),
        su_last_persisted_lsn := Some (end_lsn b)\<rparr>"

definition should_stop_for_limit :: "ReplicationRunnerOptions \<Rightarrow> ReplicationRunSummary \<Rightarrow> bool" where
  "should_stop_for_limit options su \<longleftrightarrow>
     (case ro_max_events options of None \<Rightarrow> False | Some limit \<Rightarrow> limit \<le> su_total_events su)"

section \<open>The stream\<close>

record ReplicationStream =
  rs_start_lsn :: lsn
  rs_applied :: "lsn list"
  rs_stops :: nat

definition stream_started :: "lsn \<Rightarrow> ReplicationStream" where
  "stream_started l = \<lparr> rs_start_lsn = l, rs_applied = [], rs_stops = 0 \<rparr>"

definition update_applied_lsn :: "lsn \<Rightarrow> ReplicationStream \<Rightarrow> ReplicationStream" where
  "update_applied_lsn l s = s\<lparr>rs_applied := rs_applied s @ [l]\<rparr>"

definition stop_stream :: "ReplicationStream \<Rightarrow> ReplicationStream" where
  "stop_stream s = s\<lparr>rs_stops := rs_stops s + 1\<rparr>"

record ReplicationRunner =
  rn_stream :: ReplicationStream
  rn_options :: ReplicationRunnerOptions
  rn_summary :: ReplicationRunSummary

definition runner_connected :: "ReplicationRunnerOptions \<Rightarrow> lsn \<Rightarrow> ReplicationRunner" where
  "runner_connected options start_lsn =
     \<lparr> rn_stream = stream_started start_lsn, rn_options = options, rn_summary = summary_new start_lsn \<rparr>"

definition stop_at_limit :: "ReplicationRunner \<Rightarrow> ReplicationRunner" where
  "stop_at_limit r =
     (if should_stop_for_limit (rn_options r) (rn_summary r)
      then r\<lparr>rn_summary := (rn_summary r)\<lparr>su_stopped_by_limit := True\<rparr>, rn_stream := stop_stream (rn_stream r)\<rparr>
      else r)"

section \<open>The tap\<close>

definition tap_event :: "ReplicationStreamEvent \<Rightarrow> ReplicationRunner \<Rightarrow> ReplicationRunner" where
  "tap_event event r =
     (let r = r\<lparr>rn_summary := record_event event (rn_summary r)\<rparr> in
      stop_at_limit
        (case durable_lsn event of
           None \<Rightarrow> r
         | Some l \<Rightarrow> r\<lparr>rn_stream := update_applied_lsn l (rn_stream r),
                       rn_summary := record_ack_lsn l (rn_summary r)\<rparr>))"

fun run_with_observer ::
  "ReplicationRunner \<Rightarrow> (string + ReplicationStreamEvent) list \<Rightarrow> string + unit \<Rightarrow>
   ReplicationRunnerError + ReplicationRunSummary" where
  "run_with_observer r [] shutdown = rbind (map_err RuntimeFailed shutdown) (\<lambda>_. Inr (rn_summary r))"
| "run_with_observer r (Inl e # answers) shutdown = Inl (RuntimeFailed e)"
| "run_with_observer r (Inr event # answers) shutdown = run_with_observer (tap_event event r) answers shutdown"

section \<open>The ingest loop\<close>

definition positive_u64_env :: "environment \<Rightarrow> string \<Rightarrow> nat \<Rightarrow> nat" where
  "positive_u64_env env name fallback =
     (case Option.bind (env name) parse_u64 of None \<Rightarrow> fallback | Some n \<Rightarrow> if 0 < n then n else fallback)"

definition persist_raw_batches_enabled :: "environment \<Rightarrow> bool" where
  "persist_raw_batches_enabled env =
     (case env ''POWERSYNC_RUST_PERSIST_RAW_BATCHES'' of
        None \<Rightarrow> False
      | Some value \<Rightarrow> to_ascii_lowercase (trim value) \<notin> {''0'', ''false'', ''no'', ''off''})"

definition persist_batch_options_default :: "environment \<Rightarrow> PersistBatchOptions" where
  "persist_batch_options_default env =
     \<lparr> persist_raw_batch = persist_raw_batches_enabled env, assume_new_inserts = False, snapshot_without_tail = False \<rparr>"

definition persist_batch_with_plan ::
  "crates \<Rightarrow> (ChangeEvent \<Rightarrow> bytes) \<Rightarrow> 't mdbx \<Rightarrow> environment \<Rightarrow> string + nat \<Rightarrow> 't store \<Rightarrow> batch \<Rightarrow> RustExecutionPlan \<Rightarrow>
   ('t, unit) outcome" where
  "persist_batch_with_plan C enc M env now st batch plan =
     persist_batch_with_plan_options_and_tail_retention C enc M now st batch plan (persist_batch_options_default env)
       (positive_u64_env env ''POWERSYNC_RUST_TAIL_RETAIN_OPS'' 1000000)
       (positive_u64_env env ''POWERSYNC_RUST_TAIL_PRUNE_BATCH_OPS'' 10000)"

record ('p, 'm, 't) ingest_env =
  ie_pgoutput :: "('p, 'm) pgoutput"
  ie_crates :: crates
  ie_encode :: "ChangeEvent \<Rightarrow> bytes"
  ie_mdbx :: "'t mdbx"
  ie_env :: environment

record ('p, 't) ingest_state =
  ig_decoder :: "'p PgOutputBatchDecoder"
  ig_store :: "'t store"
  ig_runner :: ReplicationRunner

text \<open>One iteration: the plan is the one active when the batch is persisted, and only a persisted batch is acknowledged.\<close>

definition acknowledge :: "batch \<Rightarrow> ReplicationRunner \<Rightarrow> ReplicationRunner" where
  "acknowledge batch r =
     r\<lparr>rn_stream := update_applied_lsn (end_lsn batch) (rn_stream r),
       rn_summary := record_persisted_batch batch (record_ack_lsn (end_lsn batch) (rn_summary r))\<rparr>"

definition ingest_event ::
  "('p, 'm, 't) ingest_env \<Rightarrow> RustExecutionPlan \<Rightarrow> string + nat \<Rightarrow> ReplicationStreamEvent \<Rightarrow> ('p, 't) ingest_state \<Rightarrow>
   ('p, 't) ingest_state \<times> (ReplicationRunnerError + unit)" where
  "ingest_event E active_plan now event s =
     (let r = (ig_runner s)\<lparr>rn_summary := record_event event (rn_summary (ig_runner s))\<rparr> in
      case push_stream_event (ie_pgoutput E) (ig_decoder s) event of
        (d, Inl e) \<Rightarrow> (s\<lparr>ig_decoder := d, ig_runner := r\<rparr>, Inl (IngestFailed e))
      | (d, Inr None) \<Rightarrow> (s\<lparr>ig_decoder := d, ig_runner := stop_at_limit r\<rparr>, Inr ())
      | (d, Inr (Some batch)) \<Rightarrow>
          (case persist_batch_with_plan (ie_crates E) (ie_encode E) (ie_mdbx E) (ie_env E) now (ig_store s) batch active_plan of
             (st, Inl e) \<Rightarrow> (s\<lparr>ig_decoder := d, ig_store := st, ig_runner := r\<rparr>, Inl (IngestFailed e))
           | (st, Inr _) \<Rightarrow>
               (s\<lparr>ig_decoder := d, ig_store := st, ig_runner := stop_at_limit (acknowledge batch r)\<rparr>, Inr ())))"

type_synonym stream_answer = "string + (RustExecutionPlan \<times> (string + nat) \<times> ReplicationStreamEvent)"

fun ingest_loop ::
  "('p, 'm, 't) ingest_env \<Rightarrow> ('p, 't) ingest_state \<Rightarrow> stream_answer list \<Rightarrow> ('p, 't) ingest_state \<times> (ReplicationRunnerError + unit)" where
  "ingest_loop E s [] = (s, Inr ())"
| "ingest_loop E s (Inl e # answers) = (s, Inl (RuntimeFailed e))"
| "ingest_loop E s (Inr (active_plan, now, event) # answers) =
     (case ingest_event E active_plan now event s of
        (s', Inl e) \<Rightarrow> (s', Inl e)
      | (s', Inr _) \<Rightarrow> ingest_loop E s' answers)"

text \<open>
  The whole run. The initial snapshot (\<open>replication/snapshot.rs\<close>) leaves a store and may fail; connecting
  yields the start position of the stream. The readiness flag is written when the guard is made, once the
  stream is connected, and when the guard is dropped.
\<close>

definition run_replication_ingest_with_store_and_readiness ::
  "('p, 'm, 't) ingest_env \<Rightarrow> ReplicationRunnerOptions \<Rightarrow> 't store \<times> (string + unit) \<Rightarrow> (lsn \<Rightarrow> string + lsn) \<Rightarrow>
   stream_answer list \<Rightarrow> string + unit \<Rightarrow>
   't store \<times> bool list \<times> ReplicationStream option \<times> (ReplicationRunnerError + ReplicationRunSummary)" where
  "run_replication_ingest_with_store_and_readiness E options snapshot connect answers shutdown =
     (case snapshot of
        (st, Inl e) \<Rightarrow> (st, [False, False], None, Inl (OtherFailed e))
      | (st, Inr _) \<Rightarrow>
          (case last_persisted_end_lsn (ie_mdbx E) st of
             Inl e \<Rightarrow> (st, [False, False], None, Inl (IngestFailed e))
           | Inr None \<Rightarrow>
               (st, [False, False], None, Inl (OtherFailed ''initial snapshot completed without a durable resume LSN''))
           | Inr (Some resume_lsn) \<Rightarrow>
               (case connect resume_lsn of
                  Inl e \<Rightarrow> (st, [False, False], None, Inl (RuntimeFailed e))
                | Inr start_lsn \<Rightarrow>
                    (case ingest_loop E \<lparr> ig_decoder = decoder_new (ie_pgoutput E), ig_store = st,
                                          ig_runner = runner_connected options start_lsn \<rparr> answers of
                       (s, r) \<Rightarrow>
                         (ig_store s, [False, True, False], Some (rn_stream (ig_runner s)),
                          rbind r (\<lambda>_. rbind (map_err RuntimeFailed shutdown) (\<lambda>_. Inr (rn_summary (ig_runner s)))))))))"

end
