(* ===== verification/Ingest_Facts.thy ===== *)
theory Ingest_Facts
  imports Ingest_Runner Convergence Example
begin

text \<open>
  The ingest loop as a whole: along any run that keeps its plan, the store refines the abstract store
  and extends its history, and no position is acknowledged upstream before it is durable.
\<close>

section \<open>Invariant\<close>

text \<open>A position is durable when the table says that a transaction ending at or after it is persisted.\<close>

definition durable :: "kv \<Rightarrow> lsn \<Rightarrow> bool" where
  "durable kv l \<longleftrightarrow> (\<exists>s m. kv META_LAST_COMMIT_END_LSN_KEY = Some s \<and> lsn_from_str s = Inr m \<and> l \<le> m)"

definition ingest_inv ::
  "('p, 'm, 't) ingest_env \<Rightarrow> ('t \<Rightarrow> kv) \<Rightarrow> RustExecutionPlan \<Rightarrow> abs_store \<Rightarrow> nat \<Rightarrow> ('p, 't) ingest_state \<Rightarrow> bool" where
  "ingest_inv E view plan A0 l0 s \<longleftrightarrow>
     (let kv = view (st_table (ig_store s)) in
      kv META_LAYOUT_VERSION_KEY = Some (layout_version (storage_contract_id plan)) \<and>
      (\<exists>A. store_inv (ie_crates E) plan A kv \<and> tail_dense A kv \<and> history plan A0 l0 A (last_id kv)) \<and>
      (\<forall>l \<in> set (rs_applied (rn_stream (ig_runner s))). durable kv l) \<and>
      su_last_ack_lsn (rn_summary (ig_runner s)) =
        (if rs_applied (rn_stream (ig_runner s)) = [] then None else Some (last (rs_applied (rn_stream (ig_runner s))))) \<and>
      su_persisted_batches (rn_summary (ig_runner s)) = length (rs_applied (rn_stream (ig_runner s))))"

text \<open>The batches of a run are within the bounds of the store's formats.\<close>

definition batch_fits :: "crates \<Rightarrow> RustExecutionPlan \<Rightarrow> kv \<Rightarrow> batch \<Rightarrow> bool" where
  "batch_fits C plan kv b \<longleftrightarrow> end_lsn b < u64_limit \<and>
     (\<forall>ops. derive_sync_tail_ops_with_options C b plan False = Inr ops \<longrightarrow>
        (\<forall>x \<in> set ops. put_fits x) \<and> last_id kv + length ops < u64_limit)"

fun run_fits :: "('p, 'm, 't) ingest_env \<Rightarrow> ('t \<Rightarrow> kv) \<Rightarrow> RustExecutionPlan \<Rightarrow> ('p, 't) ingest_state \<Rightarrow> stream_answer list \<Rightarrow> bool" where
  "run_fits E view plan s (Inr (active_plan, now, event) # answers) \<longleftrightarrow>
     active_plan = plan \<and>
     (case push_stream_event (ie_pgoutput E) (ig_decoder s) event of
        (_, Inr (Some b)) \<Rightarrow> batch_fits (ie_crates E) plan (view (st_table (ig_store s))) b
      | _ \<Rightarrow> True) \<and>
     (case ingest_event E active_plan now event s of
        (s', Inr _) \<Rightarrow> run_fits E view plan s' answers
      | _ \<Rightarrow> True)"
| "run_fits E view plan s _ \<longleftrightarrow> True"

lemma record_event_sel [simp]:
  "su_last_ack_lsn (record_event e su) = su_last_ack_lsn su"
  "su_persisted_batches (record_event e su) = su_persisted_batches su"
  by (cases e; simp add: record_event_def Let_def)+

lemma stop_at_limit_sel [simp]:
  "rs_applied (rn_stream (stop_at_limit r)) = rs_applied (rn_stream r)"
  "su_last_ack_lsn (rn_summary (stop_at_limit r)) = su_last_ack_lsn (rn_summary r)"
  "su_persisted_batches (rn_summary (stop_at_limit r)) = su_persisted_batches (rn_summary r)"
  by (simp_all add: stop_at_limit_def stop_stream_def)

lemma acknowledge_sel [simp]:
  "rs_applied (rn_stream (acknowledge b r)) = rs_applied (rn_stream r) @ [end_lsn b]"
  "su_last_ack_lsn (rn_summary (acknowledge b r)) = Some (end_lsn b)"
  "su_persisted_batches (rn_summary (acknowledge b r)) = su_persisted_batches (rn_summary r) + 1"
  by (simp_all add: acknowledge_def update_applied_lsn_def record_ack_lsn_def record_persisted_batch_def)

section \<open>One batch\<close>

context ingest_store
begin

lemma persist_batch_durable:
  assumes "persist_batch_with_plan C enc M env now st b plan = (st', r)"
    and "view (st_table st) META_LAYOUT_VERSION_KEY = Some (layout_version (storage_contract_id plan))"
    and "store_inv C plan A (view (st_table st))" and "plan_types_ok plan" "lookup_plan_ok plan"
    and "batch_fits C plan (view (st_table st)) b"
    and "tail_dense A (view (st_table st))" and "history plan A0 l0 A (last_id (view (st_table st)))"
  shows "view (st_table st') META_LAYOUT_VERSION_KEY = Some (layout_version (storage_contract_id plan))"
    and "r = Inr () \<Longrightarrow> durable (view (st_table st')) (end_lsn b)"
    and "durable (view (st_table st)) l \<Longrightarrow> durable (view (st_table st')) l"
    and "\<exists>A'. store_inv C plan A' (view (st_table st')) \<and> tail_dense A' (view (st_table st')) \<and>
      history plan A0 l0 A' (last_id (view (st_table st')))"
proof -
  let ?kv = "view (st_table st)" and ?kv' = "view (st_table st')"
  note run = assms(1) [unfolded persist_batch_with_plan_def]
  have opts: "\<not> assume_new_inserts (persist_batch_options_default env)" "\<not> snapshot_without_tail (persist_batch_options_default env)"
    by (simp_all add: persist_batch_options_default_def)
  have lsn: "lsn_from_str (lsn_to_string (end_lsn b)) = Inr (end_lsn b)"
    using assms(6) lsn_roundtrip by (auto simp: batch_fits_def)
  have fit: "(\<forall>x \<in> set ops. put_fits x) \<and> last_id ?kv + length ops < u64_limit"
    if "derive_sync_tail_ops_with_options C b plan False = Inr ops" for ops
    using assms(6) that by (simp add: batch_fits_def)
  let ?concl = "?kv' META_LAYOUT_VERSION_KEY = ?kv META_LAYOUT_VERSION_KEY \<and> (r = Inr () \<longrightarrow> durable ?kv' (end_lsn b)) \<and>
    (durable ?kv l \<longrightarrow> durable ?kv' l) \<and>
    (\<exists>A'. store_inv C plan A' ?kv' \<and> tail_dense A' ?kv' \<and> history plan A0 l0 A' (last_id ?kv'))"
  have "r \<noteq> Inr () \<and> ?kv' = ?kv \<or> (\<exists>ops. derive_sync_tail_ops_with_options C b plan False = Inr ops \<and>
      batch_effect C enc b plan (persist_batch_options_default env)
        (positive_u64_env env ''POWERSYNC_RUST_TAIL_RETAIN_OPS'' 1000000) ops A ?kv ?kv')"
    by (rule persist_batch_any [OF run assms(2-5) opts]) (rule fit)
  then have ?concl
  proof (elim disjE exE conjE)
    assume "r \<noteq> Inr ()" "?kv' = ?kv"
    with assms(3,7,8) show ?concl by auto
  next
    fix ops
    assume ops: "derive_sync_tail_ops_with_options C b plan False = Inr ops"
      and eff: "batch_effect C enc b plan (persist_batch_options_default env)
        (positive_u64_env env ''POWERSYNC_RUST_TAIL_RETAIN_OPS'' 1000000) ops A ?kv ?kv'"
    have fits: "\<forall>x \<in> set ops. put_fits x" using assms(6) ops by (auto simp: batch_fits_def)
    have "?kv' META_LAYOUT_VERSION_KEY = ?kv META_LAYOUT_VERSION_KEY \<and> durable ?kv' (end_lsn b) \<and> (durable ?kv l \<longrightarrow> durable ?kv' l)"
      using eff unfolding batch_effect_def
    proof (elim disjE exE conjE)
      fix s m assume "?kv' = ?kv" "?kv META_LAST_COMMIT_END_LSN_KEY = Some s" "lsn_from_str s = Inr m" "end_lsn b \<le> m"
      then show ?thesis by (auto simp: durable_def)
    next
      assume "?kv' META_LAST_COMMIT_END_LSN_KEY = Some (lsn_to_string (end_lsn b))" "?kv' META_LAYOUT_VERSION_KEY = ?kv META_LAYOUT_VERSION_KEY"
        "\<forall>s l. ?kv META_LAST_COMMIT_END_LSN_KEY = Some s \<longrightarrow> lsn_from_str s = Inr l \<longrightarrow> l < end_lsn b"
      then show ?thesis using lsn by (force simp: durable_def)
    qed
    with batch_effect_history [OF eff assms(3,4) ops fits assms(7,8)] show ?concl by blast
  qed
  then show "?kv' META_LAYOUT_VERSION_KEY = Some (layout_version (storage_contract_id plan))" "r = Inr () \<Longrightarrow> durable ?kv' (end_lsn b)"
    "durable ?kv l \<Longrightarrow> durable ?kv' l"
    "\<exists>A'. store_inv C plan A' ?kv' \<and> tail_dense A' ?kv' \<and> history plan A0 l0 A' (last_id ?kv')" using assms(2) by simp_all
qed

end

section \<open>The loop\<close>

text \<open>One iteration keeps the invariant whatever its result.\<close>

lemma ingest_event_inv:
  assumes "ingest_store (ie_mdbx E) view (ie_crates E)" and "plan_types_ok plan" "lookup_plan_ok plan"
    and "ingest_event E plan now event s = (s', r)" and "ingest_inv E view plan A0 l0 s"
    and "run_fits E view plan s (Inr (plan, now, event) # answers)"
  shows "ingest_inv E view plan A0 l0 s' \<and> (r = Inr () \<longrightarrow> run_fits E view plan s' answers)"
proof -
  let ?kv = "view (st_table (ig_store s))" and ?r = "(ig_runner s)\<lparr>rn_summary := record_event event (rn_summary (ig_runner s))\<rparr>"
  obtain d b where p: "push_stream_event (ie_pgoutput E) (ig_decoder s) event = (d, b)" by fastforce
  have fits: "r = Inr () \<longrightarrow> run_fits E view plan s' answers" using assms(4,6) by auto
  consider (error) e where "b = Inl e" | (none) "b = Inr None" | (batch) batch where "b = Inr (Some batch)"
    by (metis obj_sumE option.exhaust)
  then show ?thesis
  proof cases
    case error
    with p assms(4) have "s' = s\<lparr>ig_decoder := d, ig_runner := ?r\<rparr>" by (auto simp: ingest_event_def Let_def)
    with fits assms(5) show ?thesis by (simp add: ingest_inv_def Let_def)
  next
    case none
    with p assms(4) have "s' = s\<lparr>ig_decoder := d, ig_runner := stop_at_limit ?r\<rparr>" by (auto simp: ingest_event_def Let_def)
    with fits assms(5) show ?thesis by (simp add: ingest_inv_def Let_def)
  next
    case (batch batch)
    obtain st br where run: "persist_batch_with_plan (ie_crates E) (ie_encode E) (ie_mdbx E) (ie_env E) now (ig_store s) batch plan = (st, br)"
      by fastforce
    have s': "s' = s\<lparr>ig_decoder := d, ig_store := st,
        ig_runner := (if br = Inr () then stop_at_limit (acknowledge batch ?r) else ?r)\<rparr>"
      using p batch run assms(4) by (cases br) (auto simp: ingest_event_def Let_def)
    obtain A where A: "store_inv (ie_crates E) plan A ?kv" "tail_dense A ?kv" "history plan A0 l0 A (last_id ?kv)"
      and lay: "?kv META_LAYOUT_VERSION_KEY = Some (layout_version (storage_contract_id plan))"
      using assms(5) by (auto simp: ingest_inv_def Let_def)
    have "batch_fits (ie_crates E) plan ?kv batch" using assms(6) p batch by simp
    note step = ingest_store.persist_batch_durable [OF assms(1) run lay A(1) assms(2,3) this A(2,3)]
    from step fits assms(5) show ?thesis unfolding s' by (simp add: ingest_inv_def Let_def)
  qed
qed

lemma ingest_loop_inv:
  assumes "ingest_store (ie_mdbx E) view (ie_crates E)" and "plan_types_ok plan" "lookup_plan_ok plan"
  shows "ingest_loop E s answers = (s', r) \<Longrightarrow> ingest_inv E view plan A0 l0 s \<Longrightarrow> run_fits E view plan s answers \<Longrightarrow>
    ingest_inv E view plan A0 l0 s'"
proof (induction answers arbitrary: s)
  case (Cons answer answers)
  show ?case
  proof (cases answer)
    case (Inl e)
    with Cons.prems show ?thesis by simp
  next
    case (Inr a)
    obtain active_plan now event where a: "a = (active_plan, now, event)" by (cases a)
    have [simp]: "active_plan = plan" using Cons.prems(3) by (simp add: Inr a)
    obtain s1 r1 where s1: "ingest_event E plan now event s = (s1, r1)" by fastforce
    have inv: "ingest_inv E view plan A0 l0 s1 \<and> (r1 = Inr () \<longrightarrow> run_fits E view plan s1 answers)"
      by (rule ingest_event_inv [OF assms s1 Cons.prems(2)]) (use Cons.prems(3) in \<open>simp only: Inr a \<open>active_plan = plan\<close>\<close>)
    show ?thesis
    proof (cases r1)
      case (Inl e)
      with Cons.prems(1) s1 inv show ?thesis by (simp add: \<open>answer = Inr a\<close> a)
    next
      case (Inr u)
      with Cons.prems(1) s1 have "ingest_loop E s1 answers = (s', r)" by (simp add: \<open>answer = Inr a\<close> a)
      from Cons.IH [OF this] inv Inr show ?thesis by simp
    qed
  qed
qed simp

section \<open>Properties\<close>

text \<open>
  C5. The ingest loop acknowledges only what is durable, however the run ends. Start from a store that refines an abstract
  store, and let the run end with any result: the snapshot, the read of the resume position, the connection, the stream,
  the decoder, the store or the shutdown may have failed. The store then still refines an abstract store that extends
  the history of the first one. Without a connection nothing was acknowledged and readiness was never reported. With one,
  the stream was connected at the resume position read from the store, readiness was reported only while it was
  connected, and every position acknowledged upstream is at or before the last transaction the table has persisted. A
  run without an error returns a summary that names the last acknowledged position and counts one persisted batch per
  acknowledgement. The run keeps its plan and its batches stay within the bounds of the formats.
\<close>

theorem ingest_acknowledges_durable:
  assumes "ingest_store (ie_mdbx E) view (ie_crates E)" and "plan_types_ok plan" "lookup_plan_ok plan"
    and "view (st_table st) META_LAYOUT_VERSION_KEY = Some (layout_version (storage_contract_id plan))"
    and "store_inv (ie_crates E) plan A (view (st_table st))" and "tail_dense A (view (st_table st))"
    and "run_replication_ingest_with_store_and_readiness E options (st, snapshot) connect answers shutdown = (st', ready, stream, result)"
    and "\<And>start. run_fits E view plan \<lparr> ig_decoder = decoder_new (ie_pgoutput E), ig_store = st, ig_runner = runner_connected options start \<rparr> answers"
  shows "(\<exists>A'. store_inv (ie_crates E) plan A' (view (st_table st')) \<and>
      history plan A (last_id (view (st_table st))) A' (last_id (view (st_table st')))) \<and>
    (case stream of
       None \<Rightarrow> ready = [False, False] \<and> st' = st \<and> (\<exists>e. result = Inl e)
     | Some s \<Rightarrow> ready = [False, True, False] \<and>
         (\<exists>l start. last_persisted_end_lsn (ie_mdbx E) st = Inr (Some l) \<and> connect l = Inr start) \<and>
         (\<forall>l \<in> set (rs_applied s). durable (view (st_table st')) l) \<and>
         (\<forall>su. result = Inr su \<longrightarrow>
            su_last_ack_lsn su = (if rs_applied s = [] then None else Some (last (rs_applied s))) \<and>
            su_persisted_batches su = length (rs_applied s)))"
proof (cases stream)
  case None
  with assms(7) have "ready = [False, False] \<and> st' = st \<and> (\<exists>e. result = Inl e)"
    unfolding run_replication_ingest_with_store_and_readiness_def by (auto split: sum.splits option.splits prod.splits)
  with None assms(5) history.start [of plan A "last_id (view (st_table st))"] show ?thesis by auto
next
  case (Some stream')
  let ?start = "\<lambda>start. \<lparr> ig_decoder = decoder_new (ie_pgoutput E), ig_store = st, ig_runner = runner_connected options start \<rparr>"
  obtain l start s r where pre: "last_persisted_end_lsn (ie_mdbx E) st = Inr (Some l)" "connect l = Inr start"
    and run: "ingest_loop E (?start start) answers = (s, r)"
    and res: "st' = ig_store s" "ready = [False, True, False]" "stream' = rn_stream (ig_runner s)"
      "\<forall>su. result = Inr su \<longrightarrow> su = rn_summary (ig_runner s)"
    using assms(7) unfolding run_replication_ingest_with_store_and_readiness_def Some
    by (auto elim!: rbindE split: sum.splits option.splits prod.splits)
  have "ingest_inv E view plan A (last_id (view (st_table st))) (?start start)"
    using assms(4-6) history.start [of plan A "last_id (view (st_table st))"]
    by (auto simp: ingest_inv_def Let_def runner_connected_def stream_started_def summary_new_def)
  from ingest_loop_inv [OF assms(1-3) run this assms(8)] pre res show ?thesis by (auto simp: Some ingest_inv_def Let_def)
qed

definition ex_ingest :: "(nat, unit, (bytes \<times> bytes) list) ingest_env" where
  "ex_ingest = \<lparr> ie_pgoutput = ex_pgoutput, ie_crates = ref_crates, ie_encode = (\<lambda>_. []), ie_mdbx = alist_mdbx,
     ie_env = (\<lambda>_. None) \<rparr>"

definition ex_answers :: "stream_answer list" where
  "ex_answers = map (\<lambda>e. Inr (ex_plan, Inr 1, e)) [Begin 10 1 0, XLogData 11 [], Commit 12 13 0]"

abbreviation "ex_ingest_run \<equiv>
  run_replication_ingest_with_store_and_readiness ex_ingest \<lparr> ro_max_events = Some 2 \<rparr> (ex_final, Inr ()) Inr ex_answers (Inr ())"

lemmas ex_ingest_defs [exec] =
  ex_ingest_def ex_answers_def runner_connected_def stream_started_def summary_new_def ingest_event_def persist_batch_with_plan_def
  positive_u64_env_def persist_raw_batches_enabled_def persist_batch_options_default_def stop_at_limit_def acknowledge_def
  update_applied_lsn_def stop_stream_def record_ack_lsn_def record_persisted_batch_def record_event_def should_stop_for_limit_def
  push_stream_event_def decoder_new_def decode_wal_payload_def decode_message_def push_change_def received_def ex_pgoutput_def ex_messages_def
  current_relation_column_types_def run_replication_ingest_with_store_and_readiness_def

lemma ex_ingest_result:
  "\<exists>st' s su. ex_ingest_run = (st', [False, True, False], Some s, Inr su) \<and> rs_applied s = [13]"
  by (simp add: exec ex_final_def cong: exec_cong del: exec_del)

lemma ex_ingest_fits:
  "run_fits ex_ingest map_of ex_plan \<lparr> ig_decoder = decoder_new (ie_pgoutput ex_ingest), ig_store = ex_final, ig_runner = runner_connected options start \<rparr> ex_answers"
  by (simp add: exec ex_final_def batch_fits_def counter_of_def cong: exec_cong del: exec_del)

theorem ingest_acknowledges_durable_witness:
  "case ex_ingest_run of (st', _, stream, _) \<Rightarrow> (\<exists>s. stream = Some s \<and> rs_applied s = [13]) \<and> durable (map_of (st_table st')) 13"
proof -
  obtain st' s su where run: "ex_ingest_run = (st', [False, True, False], Some s, Inr su)" and a: "rs_applied s = [13]"
    using ex_ingest_result by blast
  have law: "ingest_store (ie_mdbx ex_ingest) map_of (ie_crates ex_ingest)"
    by (simp add: ex_ingest_def ref_store.ingest_store_axioms)
  from ingest_acknowledges_durable [OF law ex_plan_ok _ _ _ run ex_ingest_fits, of ex_A] ex_final_inv ex_dense a
  have "durable (map_of (st_table st')) 13" by (simp add: ex_ingest_def ex_final_def ex_table_meta)
  with run a show ?thesis by simp
qed

end
