(* ===== verification/Control_State.thy ===== *)
theory Control_State
  imports Rule_Source Store Authentication
begin

text \<open>
  The lifecycle of sync rules (\<open>SyncRulesState\<close> and the deployment of \<open>ServiceContext\<close>, \<open>control_plane/mod.rs\<close>):
  candidates are staged, marked, and promoted or failed, each under the state's mutex; the state is
  written to a file after every change. One definition per critical section, so that the sections of
  several requests may interleave. The clock is read once per section. The file holds text: the JSON codec of
  the state is an argument, as are the outcomes of reading the file, of creating its directory, of writing it and of
  opening the store; the path in messages is left out. Of the error body the message is kept, and a panic of
  the compiler is an error with no message. The JSON of replies is not modelled.
\<close>

section \<open>State\<close>

datatype SyncRulesLifecycleStatus = Pending | Activating | Active | Failed | Retired

record PersistedActivationMetadata =
  am_operation :: string
  am_layout_change :: bool
  am_storage_contract_id :: string
  am_activated_at_ms :: nat
  am_failure_reason :: "string option"

definition activation_default :: PersistedActivationMetadata where
  "activation_default = \<lparr> am_operation = '''', am_layout_change = False, am_storage_contract_id = '''',
     am_activated_at_ms = 0, am_failure_reason = None \<rparr>"

record SyncRulesMutationOptions =
  mo_base_version :: "nat option"
  mo_intent_token :: "string option"

record PersistedSyncRulesEntry =
  pe_version :: nat
  pe_content :: string
  pe_slot_name :: "string option"
  pe_status :: SyncRulesLifecycleStatus
  pe_base_version :: "nat option"
  pe_intent_hash :: "string option"
  pe_created_at_ms :: nat
  pe_updated_at_ms :: nat
  pe_activation :: "PersistedActivationMetadata option"

record PersistedSyncRulesState =
  pr_current :: PersistedSyncRulesEntry
  pr_next :: "PersistedSyncRulesEntry option"
  pr_history :: "PersistedSyncRulesEntry list"
  pr_revision :: nat

record RuntimeSyncRulesState =
  rt_persisted :: PersistedSyncRulesState
  rt_current_plan :: RustExecutionPlan
  rt_next_plan :: "RustExecutionPlan option"

record SyncRulesState =
  sy_inner :: RuntimeSyncRulesState
  sy_file :: "string option"

text \<open>The codec of the file (\<open>serde_json\<close>), and what one write of it meets: each step may fail with a message.\<close>

record state_codec =
  sc_to_string :: "PersistedSyncRulesState \<Rightarrow> string + string"
  sc_from_str :: "string \<Rightarrow> string + PersistedSyncRulesState"

record state_io =
  si_create_dir :: "string option"
  si_to_string :: "PersistedSyncRulesState \<Rightarrow> string + string"
  si_write :: "string option"

record ControlPlaneError =
  ce_status :: nat
  ce_message :: string

datatype SyncRulesMutationOutcome =
    PendingCandidate PersistedSyncRulesEntry
  | AlreadyApplied PersistedSyncRulesEntry

definition conflict :: "string \<Rightarrow> ControlPlaneError" where
  "conflict message = \<lparr> ce_status = 409, ce_message = message \<rparr>"

definition internal :: "string \<Rightarrow> ControlPlaneError" where
  "internal message = \<lparr> ce_status = 500, ce_message = message \<rparr>"

definition invalid_sync_rules :: "sync_error \<Rightarrow> ControlPlaneError" where
  "invalid_sync_rules e =
     \<lparr> ce_status = 422, ce_message = (case e of SyncRuleError m \<Rightarrow> m | SyncPanic \<Rightarrow> '''') \<rparr>"

definition SYNC_RULES_HISTORY_LIMIT :: nat where
  "SYNC_RULES_HISTORY_LIMIT = 64"

definition push_history :: "PersistedSyncRulesEntry list \<Rightarrow> PersistedSyncRulesEntry \<Rightarrow> PersistedSyncRulesEntry list" where
  "push_history history entry =
     (let h = history @ [entry] in drop (length h - SYNC_RULES_HISTORY_LIMIT) h)"

definition compile_execution_plan ::
  "sql_lib \<Rightarrow> (string \<Rightarrow> yaml option) \<Rightarrow> string \<Rightarrow> RustExecutionPlan sync_result" where
  "compile_execution_plan S Y content =
     rbind (compile_sync_rules_source S Y content) (lower_canonical_semantic_plan S)"

definition compute_intent_hash :: "sql_lib \<Rightarrow> string \<Rightarrow> nat option \<Rightarrow> string \<Rightarrow> string option \<Rightarrow> string" where
  "compute_intent_hash S operation base_version content intent_token =
     concat (map hex_byte (sl_sha256 S
       (operation @ '':'' @ decimal (case base_version of None \<Rightarrow> 0 | Some v \<Rightarrow> v) @ '':''
        @ (case intent_token of None \<Rightarrow> '''' | Some t \<Rightarrow> t) @ '':'' @ content)))"

section \<open>Loading\<close>

definition initial_sync_rules_entry :: "nat \<Rightarrow> string \<Rightarrow> PersistedSyncRulesEntry" where
  "initial_sync_rules_entry now content =
     \<lparr> pe_version = 0, pe_content = content, pe_slot_name = None, pe_status = Active, pe_base_version = None,
       pe_intent_hash = None, pe_created_at_ms = now, pe_updated_at_ms = now,
       pe_activation = Some (activation_default\<lparr>am_operation := ''bootstrap'', am_activated_at_ms := now\<rparr>) \<rparr>"

definition fill_times :: "PersistedSyncRulesEntry \<Rightarrow> PersistedSyncRulesEntry" where
  "fill_times e =
     (let e = (if pe_updated_at_ms e = 0 then e\<lparr>pe_updated_at_ms := pe_created_at_ms e\<rparr> else e) in
      if pe_created_at_ms e = 0 then e\<lparr>pe_created_at_ms := pe_updated_at_ms e\<rparr> else e)"

definition normalize_current :: "PersistedSyncRulesEntry \<Rightarrow> PersistedSyncRulesEntry" where
  "normalize_current e =
     (let e = fill_times e;
          e = (if pe_activation e = None
               then e\<lparr>pe_activation := Some (activation_default\<lparr>am_operation := ''bootstrap'',
                                              am_activated_at_ms := pe_updated_at_ms e\<rparr>)\<rparr> else e) in
      e\<lparr>pe_status := Active\<rparr>)"

definition normalize_next :: "nat \<Rightarrow> nat \<Rightarrow> PersistedSyncRulesEntry \<Rightarrow> PersistedSyncRulesEntry" where
  "normalize_next revision current_version e =
     (let e = (if pe_status e = Active then e\<lparr>pe_status := Pending\<rparr> else e);
          e = (if pe_version e = 0 then e\<lparr>pe_version := max revision (current_version + 1)\<rparr> else e) in
      fill_times e)"

definition normalize_persisted_state :: "PersistedSyncRulesState \<Rightarrow> PersistedSyncRulesState" where
  "normalize_persisted_state p =
     (let p = p\<lparr>pr_current := normalize_current (pr_current p)\<rparr> in
      p\<lparr>pr_next := map_option (normalize_next (pr_revision p) (pe_version (pr_current p))) (pr_next p),
        pr_history := drop (length (pr_history p) - SYNC_RULES_HISTORY_LIMIT) (pr_history p)\<rparr>)"

definition from_persisted ::
  "sql_lib \<Rightarrow> (string \<Rightarrow> yaml option) \<Rightarrow> PersistedSyncRulesState \<Rightarrow> RuntimeSyncRulesState sync_result" where
  "from_persisted S Y persisted =
     (let p = normalize_persisted_state persisted in
      rbind (compile_execution_plan S Y (pe_content (pr_current p))) (\<lambda>current_plan.
      rbind (case pr_next p of None \<Rightarrow> Inr None
             | Some e \<Rightarrow> rbind (compile_execution_plan S Y (pe_content e)) (\<lambda>plan. Inr (Some plan))) (\<lambda>next_plan.
        Inr \<lparr> rt_persisted = p, rt_current_plan = current_plan, rt_next_plan = next_plan \<rparr>)))"

definition load_state ::
  "sql_lib \<Rightarrow> (string \<Rightarrow> yaml option) \<Rightarrow> state_codec \<Rightarrow> nat \<Rightarrow> (string + string) option \<Rightarrow> string \<Rightarrow> SyncRulesState sync_result" where
  "load_state S Y F now file current_content =
     rbind (case file of
              Some contents \<Rightarrow>
                rbind (map_err (\<lambda>e. SyncRuleError (''failed to read sync-rules state: '' @ e)) contents) (\<lambda>raw.
                  map_err (\<lambda>e. SyncRuleError (''failed to decode sync-rules state: '' @ e)) (sc_from_str F raw))
            | None \<Rightarrow>
                Inr \<lparr> pr_current = initial_sync_rules_entry now current_content, pr_next = None,
                      pr_history = [], pr_revision = 0 \<rparr>) (\<lambda>persisted.
     rbind (from_persisted S Y persisted) (\<lambda>inner.
       Inr \<lparr> sy_inner = inner, sy_file = (case file of Some (Inr raw) \<Rightarrow> Some raw | _ \<Rightarrow> None) \<rparr>))"

section \<open>Critical sections\<close>

text \<open>Writing the file: a temporary file is renamed over it, so it holds the old state or the new one.\<close>

definition persist_state :: "state_io \<Rightarrow> SyncRulesState \<Rightarrow> SyncRulesState \<times> (ControlPlaneError + unit)" where
  "persist_state io s =
     (case si_create_dir io of
        Some message \<Rightarrow> (s, Inl (internal message))
      | None \<Rightarrow>
          (case si_to_string io (rt_persisted (sy_inner s)) of
             Inl message \<Rightarrow> (s, Inl (internal message))
           | Inr encoded \<Rightarrow>
               (case si_write io of
                  Some message \<Rightarrow> (s, Inl (internal message))
                | None \<Rightarrow> (s\<lparr>sy_file := Some encoded\<rparr>, Inr ()))))"

definition with_persisted :: "PersistedSyncRulesState \<Rightarrow> SyncRulesState \<Rightarrow> SyncRulesState" where
  "with_persisted p s = s\<lparr>sy_inner := (sy_inner s)\<lparr>rt_persisted := p\<rparr>\<rparr>"

abbreviation persisted_of :: "SyncRulesState \<Rightarrow> PersistedSyncRulesState" where
  "persisted_of s \<equiv> rt_persisted (sy_inner s)"

definition finish ::
  "state_io \<Rightarrow> 'a \<Rightarrow> SyncRulesState \<Rightarrow> SyncRulesState \<times> (ControlPlaneError + 'a)" where
  "finish io result s = (case persist_state io s of (s, r) \<Rightarrow> (s, rbind r (\<lambda>_. Inr result)))"

definition stage_candidate ::
  "sql_lib \<Rightarrow> nat \<Rightarrow> state_io \<Rightarrow> string \<Rightarrow> RustExecutionPlan \<Rightarrow> string \<Rightarrow> SyncRulesMutationOptions \<Rightarrow> SyncRulesState \<Rightarrow>
   SyncRulesState \<times> (ControlPlaneError + SyncRulesMutationOutcome)" where
  "stage_candidate S now io content next_plan operation options s =
     (let p = persisted_of s; current = pr_current p;
          requested_base_version = (case mo_base_version options of Some v \<Rightarrow> Some v | None \<Rightarrow> Some (pe_version current));
          intent_hash = compute_intent_hash S operation requested_base_version content (mo_intent_token options);
          next_version = pr_revision p + 1;
          applied = (pe_intent_hash current = Some intent_hash) in
      case pr_next p of
        Some next \<Rightarrow>
          if pe_intent_hash next = Some intent_hash \<and> pe_base_version next = requested_base_version
          then (s, Inr (PendingCandidate next))
          else (s, Inl (conflict (''Busy processing sync rules - cannot '' @ operation)))
      | None \<Rightarrow>
          if (case requested_base_version of None \<Rightarrow> False | Some v \<Rightarrow> pe_version current \<noteq> v) then
            if applied \<and> pe_base_version current = requested_base_version then (s, Inr (AlreadyApplied current))
            else (s, Inl (conflict ''Stale base version for sync-rules mutation''))
          else if applied \<and> pe_base_version current = requested_base_version then (s, Inr (AlreadyApplied current))
          else
            (let entry = \<lparr> pe_version = next_version, pe_content = content,
                           pe_slot_name = Some (''powersync_mdbx_sync_rules_'' @ decimal next_version), pe_status = Pending,
                           pe_base_version = requested_base_version, pe_intent_hash = Some intent_hash,
                           pe_created_at_ms = now, pe_updated_at_ms = now,
                           pe_activation = Some (activation_default\<lparr>am_operation := operation\<rparr>) \<rparr>;
                 p = p\<lparr>pr_revision := next_version, pr_next := Some entry, pr_history := push_history (pr_history p) entry\<rparr> in
             finish io (PendingCandidate entry) (s\<lparr>sy_inner := (sy_inner s)\<lparr>rt_persisted := p, rt_next_plan := Some next_plan\<rparr>\<rparr>)))"

definition no_candidate :: ControlPlaneError where
  "no_candidate = conflict ''No pending sync-rules candidate exists''"

definition version_mismatch :: ControlPlaneError where
  "version_mismatch = conflict ''Pending sync-rules candidate version mismatch''"

definition mark_activating ::
  "nat \<Rightarrow> state_io \<Rightarrow> nat \<Rightarrow> string \<Rightarrow> bool \<Rightarrow> string \<Rightarrow> SyncRulesState \<Rightarrow>
   SyncRulesState \<times> (ControlPlaneError + PersistedSyncRulesEntry)" where
  "mark_activating now io version operation layout_change contract s =
     (let p = persisted_of s in
      case pr_next p of
        None \<Rightarrow> (s, Inl no_candidate)
      | Some next \<Rightarrow>
          if pe_version next \<noteq> version then (s, Inl version_mismatch)
          else
            (let entry = next\<lparr>pe_status := Activating, pe_updated_at_ms := now,
                              pe_activation := Some \<lparr> am_operation = operation, am_layout_change = layout_change,
                                am_storage_contract_id = contract, am_activated_at_ms = 0, am_failure_reason = None \<rparr>\<rparr> in
             finish io entry (with_persisted (p\<lparr>pr_next := Some entry, pr_history := push_history (pr_history p) entry\<rparr>) s)))"

definition recorded_operation :: "PersistedSyncRulesEntry \<Rightarrow> string" where
  "recorded_operation e = (case pe_activation e of None \<Rightarrow> ''activate'' | Some m \<Rightarrow> am_operation m)"

definition activate_pending ::
  "nat \<Rightarrow> state_io \<Rightarrow> nat \<Rightarrow> bool \<Rightarrow> string \<Rightarrow> SyncRulesState \<Rightarrow>
   SyncRulesState \<times> (ControlPlaneError + PersistedSyncRulesEntry)" where
  "activate_pending now io version layout_change contract s =
     (let p = persisted_of s in
      case pr_next p of
        None \<Rightarrow> (s, Inl no_candidate)
      | Some next \<Rightarrow>
          (let p = p\<lparr>pr_next := None\<rparr> in
           if pe_version next \<noteq> version then (with_persisted p s, Inl version_mismatch)
           else
             (case rt_next_plan (sy_inner s) of
                None \<Rightarrow> (with_persisted p s, Inl (internal ''pending sync-rules plan is missing compiled state''))
              | Some next_plan \<Rightarrow>
                  (let retired = (pr_current p)\<lparr>pe_status := Retired, pe_updated_at_ms := now\<rparr>;
                       current = next\<lparr>pe_status := Active, pe_updated_at_ms := now,
                                      pe_activation := Some \<lparr> am_operation = recorded_operation next,
                                        am_layout_change = layout_change, am_storage_contract_id = contract,
                                        am_activated_at_ms = now, am_failure_reason = None \<rparr>\<rparr>;
                       p = p\<lparr>pr_current := current,
                             pr_history := push_history (push_history (pr_history p) retired) current\<rparr> in
                   finish io current (s\<lparr>sy_inner := \<lparr> rt_persisted = p, rt_current_plan = next_plan, rt_next_plan = None \<rparr>\<rparr>)))))"

definition mark_failed ::
  "nat \<Rightarrow> state_io \<Rightarrow> nat \<Rightarrow> string \<Rightarrow> bool \<Rightarrow> string \<Rightarrow> SyncRulesState \<Rightarrow>
   SyncRulesState \<times> (ControlPlaneError + PersistedSyncRulesEntry)" where
  "mark_failed now io version reason layout_change contract s =
     (let p = persisted_of s in
      case pr_next p of
        None \<Rightarrow> (s, Inl no_candidate)
      | Some next \<Rightarrow>
          (let p = p\<lparr>pr_next := None\<rparr> in
           if pe_version next \<noteq> version then (with_persisted p s, Inl version_mismatch)
           else
             (let entry = next\<lparr>pe_status := Failed, pe_updated_at_ms := now,
                               pe_activation := Some \<lparr> am_operation = recorded_operation next,
                                 am_layout_change = layout_change, am_storage_contract_id = contract,
                                 am_activated_at_ms = 0, am_failure_reason = Some reason \<rparr>\<rparr>;
                  p = p\<lparr>pr_history := push_history (pr_history p) entry\<rparr> in
              finish io entry (s\<lparr>sy_inner := (sy_inner s)\<lparr>rt_persisted := p, rt_next_plan := None\<rparr>\<rparr>))))"

section \<open>Deploying\<close>

datatype critical_section = Staging | Marking | Promoting | Failing

record 't deploy_env =
  dp_sql :: sql_lib
  dp_yaml :: "string \<Rightarrow> yaml option"
  dp_mdbx :: "'t mdbx"
  dp_open :: "string option"
  dp_epoch :: "string + nat"
  dp_clock :: "critical_section \<Rightarrow> nat"
  dp_io :: "critical_section \<Rightarrow> state_io"

record MutationReply =
  mr_previous :: PersistedSyncRulesEntry
  mr_current :: PersistedSyncRulesEntry
  mr_activated :: bool
  mr_idempotent :: bool

definition active_contract :: "sql_lib \<Rightarrow> SyncRulesState \<Rightarrow> string" where
  "active_contract S s = canonical_storage_contract_id (sl_json S) (canonical (rt_current_plan (sy_inner s)))"

abbreviation disabled_reason :: string where
  "disabled_reason \<equiv> ''Layout-changing sync-rule activation is disabled until the service can build and atomically activate a complete storage generation''"

definition activate_pending_sync_rules ::
  "'t deploy_env \<Rightarrow> string \<Rightarrow> PersistedSyncRulesEntry \<Rightarrow> PersistedSyncRulesEntry \<Rightarrow> SyncRulesState \<Rightarrow> 't store \<Rightarrow>
   SyncRulesState \<times> 't store \<times> (ControlPlaneError + MutationReply)" where
  "activate_pending_sync_rules D operation previous pending s st =
     (case rt_next_plan (sy_inner s) of
        None \<Rightarrow> (s, st, Inl no_candidate)
      | Some pending_plan \<Rightarrow>
          (let contract = canonical_storage_contract_id (sl_json (dp_sql D)) (canonical pending_plan);
               layout_change = (contract \<noteq> active_contract (dp_sql D) s); version = pe_version pending in
           case mark_activating (dp_clock D Marking) (dp_io D Marking) version operation layout_change contract s of
             (s, Inl e) \<Rightarrow> (s, st, Inl e)
           | (s, Inr _) \<Rightarrow>
               if layout_change then
                 (case mark_failed (dp_clock D Failing) (dp_io D Failing) version disabled_reason True contract s of
                    (s, Inl e) \<Rightarrow> (s, st, Inl e)
                  | (s, Inr _) \<Rightarrow> (s, st, Inl (conflict disabled_reason)))
               else
                 (case dp_open D of
                    Some message \<Rightarrow> (s, st, Inl (internal message))
                  | None \<Rightarrow>
                      (case reset_for_layout_version (dp_mdbx D) (dp_epoch D) st contract of
                         (st, Inl e) \<Rightarrow>
                           (fst (mark_failed (dp_clock D Failing) (dp_io D Failing) version ''storage error'' layout_change contract s),
                            st, Inl (internal ''storage error''))
                       | (st, Inr _) \<Rightarrow>
                           (case activate_pending (dp_clock D Promoting) (dp_io D Promoting) version layout_change contract s of
                              (s, Inr current) \<Rightarrow>
                                (s, st, Inr \<lparr> mr_previous = previous, mr_current = current, mr_activated = True, mr_idempotent = False \<rparr>)
                            | (s, Inl e) \<Rightarrow>
                                (fst (mark_failed (dp_clock D Failing) (dp_io D Failing) version (ce_message e) layout_change contract s),
                                 st, Inl e))))))"

definition deploy_sync_rules ::
  "'t deploy_env \<Rightarrow> string \<Rightarrow> SyncRulesMutationOptions \<Rightarrow> SyncRulesState \<Rightarrow> 't store \<Rightarrow>
   SyncRulesState \<times> 't store \<times> (ControlPlaneError + MutationReply)" where
  "deploy_sync_rules D content options s st =
     (let previous = pr_current (persisted_of s) in
      case compile_execution_plan (dp_sql D) (dp_yaml D) content of
        Inl e \<Rightarrow> (s, st, Inl (invalid_sync_rules e))
      | Inr next_plan \<Rightarrow>
          (case stage_candidate (dp_sql D) (dp_clock D Staging) (dp_io D Staging) content next_plan ''deploy'' options s of
             (s, Inl e) \<Rightarrow> (s, st, Inl e)
           | (s, Inr (PendingCandidate entry)) \<Rightarrow> activate_pending_sync_rules D ''deploy'' previous entry s st
           | (s, Inr (AlreadyApplied current)) \<Rightarrow>
               (s, st, Inr \<lparr> mr_previous = previous, mr_current = current, mr_activated = False, mr_idempotent = True \<rparr>)))"

definition reprocess_sync_rules :: "SyncRulesMutationOptions \<Rightarrow> ControlPlaneError + MutationReply" where
  "reprocess_sync_rules options =
     Inl (conflict ''Sync-rule reprocessing is disabled until the service can build and atomically activate a complete storage generation'')"

section \<open>Source connections\<close>

record SourceConnection =
  scn_id :: string
  scn_tag :: string
  scn_uri :: string

definition parse_source_connection :: "json \<Rightarrow> SourceConnection option" where
  "parse_source_connection value =
     Option.bind (as_object value) (\<lambda>obj.
       let text = (\<lambda>key fallback. case Option.bind (map_of obj key) as_str of None \<Rightarrow> fallback | Some v \<Rightarrow> v) in
       Option.bind (Option.bind (map_of obj ''uri'') as_str) (\<lambda>uri.
         Some \<lparr> scn_id = text ''id'' ''postgresql'', scn_tag = text ''tag'' ''postgres'', scn_uri = uri \<rparr>))"

definition parse_source_connections ::
  "json_lib \<Rightarrow> environment \<Rightarrow> PowerSyncConfig option \<Rightarrow> SourceConnection list" where
  "parse_source_connections J env config =
     (case env_first env [''POWERSYNC_RUST_SOURCE_CONNECTIONS_JSON'', ''POWERSYNC_RUST_SOURCE_CONNECTIONS'', ''PS_DATA_SOURCE_URI'',
                          ''POWERSYNC_RUST_POSTGRES_REPLICATION_URI'', ''POWERSYNC_POSTGRES_REPLICATION_URI''] of
        None \<Rightarrow>
          (case Option.bind config pc_replication of
             None \<Rightarrow> []
           | Some connections \<Rightarrow>
               map (\<lambda>(index, c).
                 \<lparr> scn_id = (case rcn_id c of Some i \<Rightarrow> i | None \<Rightarrow> ''db-'' @ decimal (index + 1)),
                   scn_tag = (case rcn_tag c of Some t \<Rightarrow> t
                              | None \<Rightarrow> (case rcn_type c of Some t \<Rightarrow> t | None \<Rightarrow> ''postgres'')),
                   scn_uri = rcn_uri c \<rparr>) (List.enumerate 0 connections))
      | Some raw \<Rightarrow>
          if starts_with ''['' (trim_start raw) then
            List.map_filter parse_source_connection
              (case Option.bind (js_from_str J raw) as_array of None \<Rightarrow> [] | Some values \<Rightarrow> values)
          else
            List.map_filter (\<lambda>(index, uri).
                let uri = trim uri in
                if uri = [] then None
                else Some \<lparr> scn_id = ''db-'' @ decimal (index + 1), scn_tag = ''postgres'', scn_uri = uri \<rparr>)
              (List.enumerate 0 (split_char (CHR '','') raw)))"

end
