(* ===== verification/Control_Facts.thy ===== *)
theory Control_Facts
  imports Control_State Store_Ops Lowering_Facts
begin

text \<open>
  What the lifecycle of sync rules guarantees under every interleaving of its critical sections, what a
  restart finds, and that a deployment never changes the storage generation under a running service.
\<close>

section \<open>Invariant\<close>

definition entry_timed :: "PersistedSyncRulesEntry \<Rightarrow> bool" where
  "entry_timed e \<longleftrightarrow> 0 < pe_created_at_ms e \<and> 0 < pe_updated_at_ms e"

definition compiles :: "sql_lib \<Rightarrow> (string \<Rightarrow> yaml option) \<Rightarrow> PersistedSyncRulesEntry \<Rightarrow> bool" where
  "compiles S Y e \<longleftrightarrow> \<not> isl (compile_execution_plan S Y (pe_content e))"

definition candidate_ok :: "sql_lib \<Rightarrow> (string \<Rightarrow> yaml option) \<Rightarrow> PersistedSyncRulesState \<Rightarrow> PersistedSyncRulesEntry \<Rightarrow> bool" where
  "candidate_ok S Y p e \<longleftrightarrow> compiles S Y e \<and> (pe_status e = Pending \<or> pe_status e = Activating) \<and> entry_timed e \<and>
     pe_version e = pr_revision p \<and> pe_version (pr_current p) < pe_version e"

definition persisted_inv :: "sql_lib \<Rightarrow> (string \<Rightarrow> yaml option) \<Rightarrow> PersistedSyncRulesState \<Rightarrow> bool" where
  "persisted_inv S Y p \<longleftrightarrow> compiles S Y (pr_current p) \<and>
     pe_status (pr_current p) = Active \<and> pe_activation (pr_current p) \<noteq> None \<and> entry_timed (pr_current p) \<and>
     pe_version (pr_current p) \<le> pr_revision p \<and> length (pr_history p) \<le> SYNC_RULES_HISTORY_LIMIT \<and>
     pred_option (candidate_ok S Y p) (pr_next p)"

definition rules_inv :: "sql_lib \<Rightarrow> (string \<Rightarrow> yaml option) \<Rightarrow> state_codec \<Rightarrow> SyncRulesState \<Rightarrow> bool" where
  "rules_inv S Y F s \<longleftrightarrow> persisted_inv S Y (persisted_of s) \<and>
     compile_execution_plan S Y (pe_content (pr_current (persisted_of s))) = Inr (rt_current_plan (sy_inner s)) \<and>
     pred_option (\<lambda>e. rt_next_plan (sy_inner s) \<noteq> None \<and>
       compile_execution_plan S Y (pe_content e) = Inr (the (rt_next_plan (sy_inner s)))) (pr_next (persisted_of s)) \<and>
     pred_option (\<lambda>text. \<exists>p. sc_to_string F p = Inr text \<and> persisted_inv S Y p) (sy_file s)"

lemma push_history_limit [simp]: "length (push_history h e) \<le> SYNC_RULES_HISTORY_LIMIT"
  by (simp add: push_history_def Let_def)

lemma finish_inv:
  assumes "finish io a s = (s', r)" and "rules_inv S Y F s" and "si_to_string io = sc_to_string F"
  shows "rules_inv S Y F s' \<and> persisted_of s' = persisted_of s \<and> sy_inner s' = sy_inner s"
  using assms by (auto simp: finish_def persist_state_def rules_inv_def split: option.splits sum.splits)

lemma stage_inv:
  assumes "stage_candidate S now io content plan op options s = (s', r)" and "rules_inv S Y F s" and "0 < now"
    and "compile_execution_plan S Y content = Inr plan" and io: "si_to_string io = sc_to_string F"
  shows "rules_inv S Y F s' \<and> pr_revision (persisted_of s) \<le> pr_revision (persisted_of s') \<and>
    pr_current (persisted_of s') = pr_current (persisted_of s)"
proof (cases "\<exists>x. (s', r) = (s, x)")
  case False
  let ?p = "persisted_of s"
  let ?v = "case mo_base_version options of Some v \<Rightarrow> Some v | None \<Rightarrow> Some (pe_version (pr_current ?p))"
  let ?e = "\<lparr> pe_version = pr_revision ?p + 1, pe_content = content,
      pe_slot_name = Some (''powersync_mdbx_sync_rules_'' @ decimal (pr_revision ?p + 1)), pe_status = Pending,
      pe_base_version = ?v, pe_intent_hash = Some (compute_intent_hash S op ?v content (mo_intent_token options)),
      pe_created_at_ms = now, pe_updated_at_ms = now, pe_activation = Some (activation_default\<lparr>am_operation := op\<rparr>) \<rparr>"
  let ?s = "s\<lparr>sy_inner := (sy_inner s)\<lparr>rt_persisted := ?p\<lparr>pr_revision := pr_revision ?p + 1, pr_next := Some ?e,
      pr_history := push_history (pr_history ?p) ?e\<rparr>, rt_next_plan := Some plan\<rparr>\<rparr>"
  have f: "finish io (PendingCandidate ?e) ?s = (s', r)"
    using assms(1) False by (auto simp: stage_candidate_def Let_def split: option.splits if_splits)
  have "rules_inv S Y F ?s"
    using assms(2-4) by (auto simp: rules_inv_def persisted_inv_def candidate_ok_def compiles_def entry_timed_def)
  from finish_inv [OF f this io] show ?thesis by simp
qed (use assms(2) in auto)

lemma mark_inv:
  assumes "mark_activating now io v op lc contract s = (s', r)" and "rules_inv S Y F s" and "0 < now" and io: "si_to_string io = sc_to_string F"
  shows "rules_inv S Y F s' \<and> pr_revision (persisted_of s') = pr_revision (persisted_of s) \<and>
    pr_current (persisted_of s') = pr_current (persisted_of s)"
proof (cases "\<exists>x. (s', r) = (s, x)")
  case False
  obtain e0 e where e: "pr_next (persisted_of s) = Some e0" "e = e0\<lparr>pe_status := Activating, pe_updated_at_ms := now,
        pe_activation := Some \<lparr> am_operation = op, am_layout_change = lc, am_storage_contract_id = contract,
          am_activated_at_ms = 0, am_failure_reason = None \<rparr>\<rparr>"
    and f: "finish io e (with_persisted ((persisted_of s)\<lparr>pr_next := Some e, pr_history := push_history (pr_history (persisted_of s)) e\<rparr>) s) = (s', r)"
    using assms(1) False by (auto simp: mark_activating_def Let_def split: option.splits if_splits)
  have "rules_inv S Y F (with_persisted ((persisted_of s)\<lparr>pr_next := Some e, pr_history := push_history (pr_history (persisted_of s)) e\<rparr>) s)"
    using assms(2,3) e by (auto simp: rules_inv_def persisted_inv_def candidate_ok_def compiles_def entry_timed_def with_persisted_def)
  from finish_inv [OF f this io] show ?thesis by (simp add: with_persisted_def)
qed (use assms(2) in auto)

lemma drop_candidate_inv: "rules_inv S Y F s \<Longrightarrow> rules_inv S Y F (with_persisted ((persisted_of s)\<lparr>pr_next := None\<rparr>) s)"
  by (auto simp: rules_inv_def persisted_inv_def with_persisted_def)

lemma activate_inv:
  assumes "activate_pending now io v lc contract s = (s', r)" and "rules_inv S Y F s" and "0 < now" and io: "si_to_string io = sc_to_string F"
  shows "rules_inv S Y F s' \<and> pr_revision (persisted_of s') = pr_revision (persisted_of s) \<and>
    pe_version (pr_current (persisted_of s)) \<le> pe_version (pr_current (persisted_of s'))"
proof -
  let ?p = "persisted_of s"
  consider "s' = s" | "s' = with_persisted (?p\<lparr>pr_next := None\<rparr>) s"
    | (promote) e plan retired current where "pr_next ?p = Some e" "rt_next_plan (sy_inner s) = Some plan"
      "pe_version current = pe_version e" "pe_content current = pe_content e" "pe_status current = Active" "pe_activation current \<noteq> None"
      "pe_created_at_ms current = pe_created_at_ms e" "pe_updated_at_ms current = now"
      "finish io current (s\<lparr>sy_inner := \<lparr> rt_persisted = ?p\<lparr>pr_next := None, pr_current := current,
         pr_history := push_history (push_history (pr_history ?p) retired) current\<rparr>, rt_current_plan = plan, rt_next_plan = None \<rparr>\<rparr>) = (s', r)"
  proof -
    show thesis using assms(1) that
      by (auto simp: activate_pending_def Let_def split: option.splits if_splits) (rule that(3); simp)
  qed
  then show ?thesis
  proof cases
    case 1
    then show ?thesis using assms(2) by simp
  next
    case 2
    then show ?thesis using drop_candidate_inv [OF assms(2)] by (simp add: with_persisted_def)
  next
    case promote
    let ?s = "s\<lparr>sy_inner := \<lparr> rt_persisted = ?p\<lparr>pr_next := None, pr_current := current,
         pr_history := push_history (push_history (pr_history ?p) retired) current\<rparr>, rt_current_plan = plan, rt_next_plan = None \<rparr>\<rparr>"
    have "rules_inv S Y F ?s" "pe_version (pr_current ?p) < pe_version current"
      using assms(2,3) promote by (auto simp: rules_inv_def persisted_inv_def candidate_ok_def compiles_def entry_timed_def)
    with finish_inv [OF promote(9) _ io] show ?thesis by simp
  qed
qed

lemma fail_inv:
  assumes "mark_failed now io v reason lc contract s = (s', r)" and "rules_inv S Y F s" and io: "si_to_string io = sc_to_string F"
  shows "rules_inv S Y F s' \<and> pr_revision (persisted_of s') = pr_revision (persisted_of s) \<and>
    pr_current (persisted_of s') = pr_current (persisted_of s) \<and> rt_current_plan (sy_inner s') = rt_current_plan (sy_inner s)"
proof -
  let ?p = "persisted_of s"
  consider "s' = s" | "s' = with_persisted (?p\<lparr>pr_next := None\<rparr>) s"
    | (failed) entry where "finish io entry (s\<lparr>sy_inner := (sy_inner s)\<lparr>rt_persisted := ?p\<lparr>pr_next := None,
        pr_history := push_history (pr_history ?p) entry\<rparr>, rt_next_plan := None\<rparr>\<rparr>) = (s', r)"
    using assms(1) by (auto simp: mark_failed_def Let_def split: option.splits if_splits)
  then show ?thesis
  proof cases
    case 1
    then show ?thesis using assms(2) by simp
  next
    case 2
    then show ?thesis using drop_candidate_inv [OF assms(2)] by (simp add: with_persisted_def)
  next
    case failed
    have "rules_inv S Y F (s\<lparr>sy_inner := (sy_inner s)\<lparr>rt_persisted := ?p\<lparr>pr_next := None,
        pr_history := push_history (pr_history ?p) entry\<rparr>, rt_next_plan := None\<rparr>\<rparr>)"
      using assms(2) by (auto simp: rules_inv_def persisted_inv_def)
    from finish_inv [OF failed this io] show ?thesis by simp
  qed
qed

section \<open>Runs\<close>

text \<open>The critical sections of any number of requests, in any order, with any version and any outcome of the write.\<close>

inductive rules_run :: "sql_lib \<Rightarrow> (string \<Rightarrow> yaml option) \<Rightarrow> state_codec \<Rightarrow> SyncRulesState \<Rightarrow> SyncRulesState \<Rightarrow> bool" for S Y F s0 where
  start: "rules_run S Y F s0 s0"
| stage: "rules_run S Y F s0 s'" if "rules_run S Y F s0 s" and "compile_execution_plan S Y content = Inr plan" and "0 < now" and "si_to_string io = sc_to_string F"
    and "stage_candidate S now io content plan op options s = (s', r)"
| mark: "rules_run S Y F s0 s'" if "rules_run S Y F s0 s" and "0 < now" and "si_to_string io = sc_to_string F"
    and "mark_activating now io v op lc contract s = (s', r')"
| promote: "rules_run S Y F s0 s'" if "rules_run S Y F s0 s" and "0 < now" and "si_to_string io = sc_to_string F"
    and "activate_pending now io v lc contract s = (s', r')"
| fail: "rules_run S Y F s0 s'" if "rules_run S Y F s0 s" and "si_to_string io = sc_to_string F"
    and "mark_failed now io v reason lc contract s = (s', r')"

lemma rules_run_inv:
  assumes "rules_inv S Y F s0"
  shows "rules_run S Y F s0 s \<Longrightarrow> rules_inv S Y F s \<and> pr_revision (persisted_of s0) \<le> pr_revision (persisted_of s) \<and>
    pe_version (pr_current (persisted_of s0)) \<le> pe_version (pr_current (persisted_of s))"
proof (induction rule: rules_run.induct)
  case start
  then show ?case using assms by simp
next
  case (stage s content plan now io op options s' r)
  with stage_inv [OF stage(5) _ stage(3,2,4)] show ?case by auto
next
  case (mark s now io v op lc contract s' r')
  with mark_inv [OF mark(4) _ mark(2,3)] show ?case by auto
next
  case (promote s now io v lc contract s' r')
  with activate_inv [OF promote(4) _ promote(2,3)] show ?case by fastforce
next
  case (fail s now io v reason lc contract s' r')
  with fail_inv [OF fail(3) _ fail(2)] show ?case by auto
qed

section \<open>Restarting\<close>

lemma fill_times_id: "entry_timed e \<Longrightarrow> fill_times e = e"
  by (simp add: fill_times_def entry_timed_def Let_def)

lemma normalize_id:
  assumes "persisted_inv S Y p"
  shows "normalize_persisted_state p = p"
proof -
  have "normalize_current (pr_current p) = pr_current p"
    using assms by (simp add: normalize_current_def persisted_inv_def fill_times_id Let_def)
  moreover have "map_option (normalize_next (pr_revision p) (pe_version (pr_current p))) (pr_next p) = pr_next p"
    using assms
    by (cases "pr_next p") (auto simp: persisted_inv_def candidate_ok_def normalize_next_def fill_times_id Let_def)
  ultimately show ?thesis using assms by (simp add: normalize_persisted_state_def persisted_inv_def Let_def)
qed

lemma initial_inv:
  assumes "load_state S Y F now None content = Inr s" and "0 < now"
  shows "rules_inv S Y F s"
proof -
  let ?p = "\<lparr> pr_current = initial_sync_rules_entry now content, pr_next = None, pr_history = [], pr_revision = 0 \<rparr>"
  have n: "normalize_persisted_state ?p = ?p"
    using assms(2) by (simp add: normalize_persisted_state_def normalize_current_def fill_times_def initial_sync_rules_entry_def Let_def)
  then obtain plan where "compile_execution_plan S Y content = Inr plan"
    and "s = \<lparr> sy_inner = \<lparr> rt_persisted = ?p, rt_current_plan = plan, rt_next_plan = None \<rparr>, sy_file = None \<rparr>"
    using assms(1) by (auto simp: load_state_def from_persisted_def Let_def initial_sync_rules_entry_def elim!: rbindE)
  then show ?thesis
    using assms(2) by (simp add: rules_inv_def persisted_inv_def compiles_def entry_timed_def initial_sync_rules_entry_def)
qed

text \<open>The file holds the text of a state the service was in.\<close>

lemma finish_file:
  "finish io a s = (s', r) \<Longrightarrow> sy_file s' = sy_file s \<or>
   (\<exists>text. sy_file s' = Some text \<and> si_to_string io (persisted_of s') = Inr text)"
  by (auto simp: finish_def persist_state_def split: option.splits sum.splits)

lemma section_files:
  "stage_candidate S now io content plan op options s = (s', r) \<Longrightarrow> sy_file s' = sy_file s \<or>
     (\<exists>text. sy_file s' = Some text \<and> si_to_string io (persisted_of s') = Inr text)"
  "mark_activating now io v op lc contract s = (s', r') \<Longrightarrow> sy_file s' = sy_file s \<or>
     (\<exists>text. sy_file s' = Some text \<and> si_to_string io (persisted_of s') = Inr text)"
  "activate_pending now io v lc contract s = (s', r') \<Longrightarrow> sy_file s' = sy_file s \<or>
     (\<exists>text. sy_file s' = Some text \<and> si_to_string io (persisted_of s') = Inr text)"
  "mark_failed now io v reason lc contract s = (s', r') \<Longrightarrow> sy_file s' = sy_file s \<or>
     (\<exists>text. sy_file s' = Some text \<and> si_to_string io (persisted_of s') = Inr text)"
  by (auto simp: stage_candidate_def mark_activating_def activate_pending_def mark_failed_def Let_def with_persisted_def
      dest!: finish_file split: option.splits if_splits)

lemma rules_run_file:
  assumes "sy_file s0 = None"
  shows "rules_run S Y F s0 s \<Longrightarrow> sy_file s = Some text \<Longrightarrow>
    \<exists>s1. rules_run S Y F s0 s1 \<and> sc_to_string F (persisted_of s1) = Inr text"
proof (induction rule: rules_run.induct)
  case start
  then show ?case using assms by simp
next
  case (stage s content plan now io op options s' r)
  with rules_run.stage [OF stage(1-5)] section_files(1) [OF stage(5)] show ?case by auto
next
  case (mark s now io v op lc contract s' r')
  with rules_run.mark [OF mark(1-4)] section_files(2) [OF mark(4)] show ?case by auto
next
  case (promote s now io v lc contract s' r')
  with rules_run.promote [OF promote(1-4)] section_files(3) [OF promote(4)] show ?case by auto
next
  case (fail s now io v reason lc contract s' r')
  with rules_run.fail [OF fail(1-3)] section_files(4) [OF fail(3)] show ?case by auto
qed

lemma from_persisted_inv:
  assumes "persisted_inv S Y p"
  shows "\<exists>inner. from_persisted S Y p = Inr inner \<and> rt_persisted inner = p \<and>
    compile_execution_plan S Y (pe_content (pr_current p)) = Inr (rt_current_plan inner) \<and>
    pred_option (\<lambda>e. rt_next_plan inner \<noteq> None \<and> compile_execution_plan S Y (pe_content e) = Inr (the (rt_next_plan inner))) (pr_next p)"
proof -
  obtain plan where plan: "compile_execution_plan S Y (pe_content (pr_current p)) = Inr plan"
    using assms by (cases "compile_execution_plan S Y (pe_content (pr_current p))") (auto simp: persisted_inv_def compiles_def)
  show ?thesis
  proof (cases "pr_next p")
    case None
    with plan show ?thesis by (simp add: from_persisted_def normalize_id [OF assms] Let_def)
  next
    case (Some e)
    then obtain plan' where "compile_execution_plan S Y (pe_content e) = Inr plan'"
      using assms by (cases "compile_execution_plan S Y (pe_content e)") (auto simp: persisted_inv_def candidate_ok_def compiles_def)
    with Some plan show ?thesis by (simp add: from_persisted_def normalize_id [OF assms] Let_def)
  qed
qed

text \<open>What the service relies on of the codec: what was written is read back.\<close>

locale state_file =
  fixes F :: state_codec
  assumes read_written: "sc_to_string F p = Inr text \<Longrightarrow> sc_from_str F text = Inr p"
begin

lemma load_written:
  assumes "persisted_inv S Y p" and "sc_to_string F p = Inr text"
  shows "\<exists>s. load_state S Y F now (Some (Inr text)) content = Inr s \<and> persisted_of s = p \<and> rules_inv S Y F s"
  using from_persisted_inv [OF assms(1)] assms read_written [OF assms(2)]
  by (auto simp: load_state_def rules_inv_def)

end

text \<open>A reference codec: nested lists of strings, numbers in unary.\<close>

definition unary :: "nat \<Rightarrow> string" where
  "unary n = replicate n (CHR ''1'')"

definition opt_of :: "(string \<Rightarrow> 'a option) \<Rightarrow> string \<Rightarrow> 'a option option" where
  "opt_of f s = (case ref_opt_dec s of None \<Rightarrow> None | Some None \<Rightarrow> Some None | Some (Some x) \<Rightarrow> map_option Some (f x))"

fun status_text :: "SyncRulesLifecycleStatus \<Rightarrow> string" where
  "status_text Pending = ''pending''"
| "status_text Activating = ''activating''"
| "status_text Active = ''active''"
| "status_text Failed = ''failed''"
| "status_text Retired = ''retired''"

definition status_of :: "string \<Rightarrow> SyncRulesLifecycleStatus option" where
  "status_of s = find (\<lambda>x. status_text x = s) [Pending, Activating, Active, Failed, Retired]"

definition activation_text :: "PersistedActivationMetadata \<Rightarrow> string" where
  "activation_text m = ref_enc [am_operation m, unary (of_bool (am_layout_change m)), am_storage_contract_id m,
     unary (am_activated_at_ms m), ref_opt (am_failure_reason m)]"

definition activation_of :: "string \<Rightarrow> PersistedActivationMetadata option" where
  "activation_of s =
     (case ref_dec s of
        Some [operation, layout_change, contract, at, reason] \<Rightarrow>
          map_option (\<lambda>reason. \<lparr> am_operation = operation, am_layout_change = (length layout_change = 1), am_storage_contract_id = contract,
             am_activated_at_ms = length at, am_failure_reason = reason \<rparr>) (ref_opt_dec reason)
      | _ \<Rightarrow> None)"

definition entry_text :: "PersistedSyncRulesEntry \<Rightarrow> string" where
  "entry_text e = ref_enc [unary (pe_version e), pe_content e, ref_opt (pe_slot_name e), status_text (pe_status e),
     ref_opt (map_option unary (pe_base_version e)), ref_opt (pe_intent_hash e), unary (pe_created_at_ms e), unary (pe_updated_at_ms e),
     ref_opt (map_option activation_text (pe_activation e))]"

definition entry_of :: "string \<Rightarrow> PersistedSyncRulesEntry option" where
  "entry_of s =
     (case ref_dec s of
        Some [version, content, slot, status, base, intent, created, updated, activation] \<Rightarrow>
          Option.bind (ref_opt_dec slot) (\<lambda>slot. Option.bind (status_of status) (\<lambda>status.
          Option.bind (opt_of (\<lambda>x. Some (length x)) base) (\<lambda>base. Option.bind (ref_opt_dec intent) (\<lambda>intent.
          Option.bind (opt_of activation_of activation) (\<lambda>activation.
            Some \<lparr> pe_version = length version, pe_content = content, pe_slot_name = slot, pe_status = status, pe_base_version = base,
                   pe_intent_hash = intent, pe_created_at_ms = length created, pe_updated_at_ms = length updated,
                   pe_activation = activation \<rparr>)))))
      | _ \<Rightarrow> None)"

definition state_text :: "PersistedSyncRulesState \<Rightarrow> string" where
  "state_text p = ref_enc [entry_text (pr_current p), ref_opt (map_option entry_text (pr_next p)),
     ref_enc (map entry_text (pr_history p)), unary (pr_revision p)]"

definition state_of :: "string \<Rightarrow> PersistedSyncRulesState option" where
  "state_of s =
     (case ref_dec s of
        Some [current, next_entry, history, revision] \<Rightarrow>
          Option.bind (entry_of current) (\<lambda>current. Option.bind (opt_of entry_of next_entry) (\<lambda>next_entry.
          Option.bind (Option.bind (ref_dec history) (\<lambda>xs. those (map entry_of xs))) (\<lambda>history.
            Some \<lparr> pr_current = current, pr_next = next_entry, pr_history = history, pr_revision = length revision \<rparr>)))
      | _ \<Rightarrow> None)"

definition ref_state_codec :: state_codec where
  "ref_state_codec = \<lparr> sc_to_string = (\<lambda>p. Inr (state_text p)),
     sc_from_str = (\<lambda>s. case state_of s of None \<Rightarrow> Inl ''expected value'' | Some p \<Rightarrow> Inr p) \<rparr>"

lemma length_unary [simp]: "length (unary n) = n"
  by (simp add: unary_def)

lemma opt_of_text [simp]: "(\<And>x. f (g x) = Some x) \<Longrightarrow> opt_of f (ref_opt (map_option g y)) = Some y"
  by (cases y) (simp_all add: opt_of_def del: ref_opt.simps)

lemma status_of_text [simp]: "status_of (status_text x) = Some x"
  by (cases x) (simp_all add: status_of_def)

lemma activation_of_text [simp]: "activation_of (activation_text m) = Some m"
  by (simp add: activation_of_def activation_text_def)

lemma entry_of_text [simp]: "entry_of (entry_text e) = Some e"
  by (simp add: entry_of_def entry_text_def)

lemma those_map [simp]: "(\<And>x. f (g x) = Some x) \<Longrightarrow> those (map (f \<circ> g) xs) = Some xs"
  by (induction xs) simp_all

lemma state_of_text [simp]: "state_of (state_text p) = Some p"
  by (simp add: state_of_def state_text_def)

interpretation ref_state: state_file ref_state_codec
  by unfold_locales (auto simp: ref_state_codec_def)

section \<open>Deploying\<close>

lemma active_contract_cong: "rt_current_plan (sy_inner s') = rt_current_plan (sy_inner s) \<Longrightarrow> active_contract S s' = active_contract S s"
  by (simp add: active_contract_def)

lemma finish_plan: "finish io a s = (s', r) \<Longrightarrow> sy_inner s' = sy_inner s"
  by (auto simp: finish_def persist_state_def split: option.splits sum.splits)

lemma mark_plans:
  "mark_activating now io v op lc contract s = (s', r) \<Longrightarrow>
   rt_current_plan (sy_inner s') = rt_current_plan (sy_inner s) \<and> rt_next_plan (sy_inner s') = rt_next_plan (sy_inner s)"
  by (auto simp: mark_activating_def Let_def with_persisted_def dest!: finish_plan split: option.splits if_splits)

lemma fail_plans: "rt_current_plan (sy_inner (fst (mark_failed now io v reason lc contract s))) = rt_current_plan (sy_inner s)"
  by (cases "mark_failed now io v reason lc contract s")
    (auto simp: mark_failed_def Let_def with_persisted_def dest!: finish_plan split: option.splits if_splits)

lemma activate_plans:
  "activate_pending now io v lc contract s = (s', r) \<Longrightarrow>
   rt_current_plan (sy_inner s') = rt_current_plan (sy_inner s) \<or> Some (rt_current_plan (sy_inner s')) = rt_next_plan (sy_inner s)"
  by (auto simp: activate_pending_def Let_def with_persisted_def dest!: finish_plan split: option.splits if_splits)

lemma stage_plans:
  "stage_candidate S now io content plan op options s = (s', r) \<Longrightarrow> rt_current_plan (sy_inner s') = rt_current_plan (sy_inner s)"
  by (auto simp: stage_candidate_def Let_def dest!: finish_plan split: option.splits if_splits)

context mdbx_table
begin

lemma reset_same_layout:
  assumes "reset_for_layout_version M now st c = (st', r)"
    and "view (st_table st) META_LAYOUT_VERSION_KEY = Some (layout_version c)"
  shows "view (st_table st') = view (st_table st)"
proof -
  obtain st1 r1 where e: "ensure_layout_version_for M now st c = (st1, r1)" by (meson surj_pair)
  from ensure_layout_any [OF e assms(2)] assms(1) e show ?thesis
    by (cases r1) (auto simp: reset_for_layout_version_def)
qed

end

end
