(* ===== verification/Control_Guarantees.thy ===== *)
theory Control_Guarantees
  imports Control_Facts Rule_Guarantees
begin

text \<open>
  The properties of the control plane, with their witnesses: the lifecycle of sync rules under every
  interleaving, restarts, deployments, and the candidate that a late request removes.
\<close>

section \<open>An example\<close>

definition ex_yaml :: "string \<Rightarrow> yaml option" where
  "ex_yaml source = Some (YMapping [(YString ''streams'',
     YMapping [(YString ''all'', YMapping [(YString ''query'', YString ''SELECT * FROM tasks'')])])])"

lemma ex_fold: "fold_query ''SELECT * FROM tasks'' = ''SELECT * FROM tasks''"
  by (simp add: fold_query_def str_lines_def ends_with_def Let_def trim_plain plain_char_def)

lemma ex_normalize: "normalize_data_query_with_parameters S ''SELECT * FROM tasks'' m = Inr ''SELECT * FROM tasks''"
  by (simp add: normalize_data_query_with_parameters_def to_ascii_uppercase_def to_ascii_upper_def Let_def trim_plain plain_char_def
      starts_with_def)

definition ex_semantic :: CanonicalSemanticPlan where
  "ex_semantic = \<lparr> sp_version = CANONICAL_PLAN_VERSION, sp_edition = SUPPORTED_EDITION,
     sp_compatibility_version = SUPPORTED_COMPATIBILITY_VERSION, sp_storage_version = SUPPORTED_STORAGE_VERSION,
     sp_streams = [ex_stream ''all'' False []] \<rparr>"

definition ex_compiled :: RustExecutionPlan where
  "ex_compiled = (case lower_canonical_semantic_plan ref_sql ex_semantic of Inr plan \<Rightarrow> plan | Inl _ \<Rightarrow> empty_execution_plan ex_semantic)"

lemma ex_source: "compile_sync_rules_source ref_sql ex_yaml source = Inr ex_semantic"
  by (simp add: compile_sync_rules_source_def parse_sync_rules_source_def read_config_version_def read_parameter_queries_def
      read_stream_def yaml_get_def yaml_as_mapping_def yaml_as_str_def mapping_get_def query_string_def ex_yaml_def ex_fold ex_normalize
      compile_stream_definition_def ex_parse parsed_data_query_def merged_bucket_parameters_def plain_query_def
      merged_bucket_parameters_from_queries_def ex_semantic_def ex_stream_def Let_def)

lemma ex_compile: "compile_execution_plan ref_sql ex_yaml source = Inr ex_compiled"
proof -
  have "case lower_canonical_semantic_plan ref_sql ex_semantic of Inr plan \<Rightarrow> True | Inl _ \<Rightarrow> False" by code_simp
  then show ?thesis by (simp add: compile_execution_plan_def ex_source ex_compiled_def split: sum.splits)
qed

lemma ex_compiled_canonical: "canonical ex_compiled = ex_semantic"
  using lowered_fields(8) [of ref_sql ex_semantic ex_compiled] ex_compile [of "[]"] by (simp add: compile_execution_plan_def ex_source)

definition ex_rules :: SyncRulesState where
  "ex_rules = \<lparr> sy_inner = \<lparr> rt_persisted = \<lparr> pr_current = initial_sync_rules_entry 1 ''a'', pr_next = None, pr_history = [], pr_revision = 0 \<rparr>,
     rt_current_plan = ex_compiled, rt_next_plan = None \<rparr>, sy_file = None \<rparr>"

lemma ex_load: "load_state ref_sql ex_yaml ref_state_codec 1 None ''a'' = Inr ex_rules"
  by (simp add: load_state_def from_persisted_def normalize_persisted_state_def normalize_current_def fill_times_def
      initial_sync_rules_entry_def ex_compile ex_rules_def Let_def)

definition ex_mutation :: SyncRulesMutationOptions where
  "ex_mutation = \<lparr> mo_base_version = None, mo_intent_token = None \<rparr>"

definition ex_io :: state_io where
  "ex_io = \<lparr> si_create_dir = None, si_to_string = sc_to_string ref_state_codec, si_write = None \<rparr>"

definition ex_staged :: SyncRulesState where
  "ex_staged = fst (stage_candidate ref_sql 2 ex_io ''b'' ex_compiled ''deploy'' ex_mutation ex_rules)"

lemma ex_rules_run: "rules_run ref_sql ex_yaml ref_state_codec ex_rules ex_staged"
  unfolding ex_staged_def by (rule rules_run.stage [OF rules_run.start ex_compile, where now = 2 and io = ex_io]) (auto simp: prod_eq_iff ex_io_def)

lemma ex_staged_parts:
  "pr_next (persisted_of ex_staged) \<noteq> None" "pe_version (the (pr_next (persisted_of ex_staged))) = 1"
  "pe_status (the (pr_next (persisted_of ex_staged))) = Pending" "sy_file ex_staged = Some (state_text (persisted_of ex_staged))"
  by (simp_all add: ex_staged_def ex_io_def ref_state_codec_def ex_rules_def ex_mutation_def stage_candidate_def finish_def persist_state_def initial_sync_rules_entry_def Let_def)

definition ex_deploy :: "(bytes \<times> bytes) list deploy_env" where
  "ex_deploy = \<lparr> dp_sql = ref_sql, dp_yaml = ex_yaml, dp_mdbx = alist_mdbx, dp_open = None, dp_epoch = Inr 1, dp_clock = (\<lambda>_. 2), dp_io = (\<lambda>_. ex_io) \<rparr>"

definition ex_deployed_store :: "(bytes \<times> bytes) list store" where
  "ex_deployed_store = \<lparr> st_table = [(META_LAYOUT_VERSION_KEY, layout_version (active_contract ref_sql ex_rules))],
     st_verified_layout_version = Some (active_contract ref_sql ex_rules), st_task_tail_advance = 0 \<rparr>"

abbreviation "ex_deploying \<equiv> deploy_sync_rules ex_deploy ''b'' ex_mutation ex_rules ex_deployed_store"

lemma ex_deploying_activates: "(\<exists>reply. snd (snd ex_deploying) = Inr reply)"
  by (simp add: deploy_sync_rules_def activate_pending_sync_rules_def ex_deploy_def ex_io_def ref_state_codec_def ex_deployed_store_def ex_compile ex_rules_def ex_mutation_def
      stage_candidate_def finish_def persist_state_def initial_sync_rules_entry_def mark_activating_def activate_pending_def with_persisted_def
      active_contract_def reset_for_layout_version_def ensure_layout_version_for_def Let_def)

section \<open>Lifecycle\<close>

text \<open>
  C14. The lifecycle of sync rules is coherent under every interleaving. Whatever critical sections the requests run, in
  whatever order, with stale versions and with failing writes: the active entry is marked active and the plan in use
  is the one compiled from its content; a candidate is pending or activating, has the greatest version there is, above
  the active one, and the plan compiled from its content is kept with it; versions never go back; the history never
  exceeds its limit; and the file holds the text of a state of which the same is true.
\<close>

theorem rules_lifecycle_coherent:
  assumes "load_state S Y F now None content = Inr s0" and "0 < now" and "rules_run S Y F s0 s"
  shows "compile_execution_plan S Y (pe_content (pr_current (persisted_of s))) = Inr (rt_current_plan (sy_inner s)) \<and>
    pe_status (pr_current (persisted_of s)) = Active \<and> pe_version (pr_current (persisted_of s)) \<le> pr_revision (persisted_of s) \<and>
    pe_version (pr_current (persisted_of s0)) \<le> pe_version (pr_current (persisted_of s)) \<and>
    length (pr_history (persisted_of s)) \<le> SYNC_RULES_HISTORY_LIMIT \<and>
    (case pr_next (persisted_of s) of None \<Rightarrow> True
     | Some e \<Rightarrow> (pe_status e = Pending \<or> pe_status e = Activating) \<and> pe_version e = pr_revision (persisted_of s) \<and>
         pe_version (pr_current (persisted_of s)) < pe_version e \<and>
         rt_next_plan (sy_inner s) \<noteq> None \<and> compile_execution_plan S Y (pe_content e) = Inr (the (rt_next_plan (sy_inner s)))) \<and>
    (case sy_file s of None \<Rightarrow> True | Some text \<Rightarrow> \<exists>p. sc_to_string F p = Inr text \<and> persisted_inv S Y p)"
  using rules_run_inv [OF initial_inv [OF assms(1,2)] assms(3)]
  by (cases "pr_next (persisted_of s)"; cases "sy_file s") (simp_all add: rules_inv_def persisted_inv_def candidate_ok_def)

theorem rules_lifecycle_coherent_witness:
  "load_state ref_sql ex_yaml ref_state_codec 1 None ''a'' = Inr ex_rules \<and> rules_run ref_sql ex_yaml ref_state_codec ex_rules ex_staged \<and>
   pe_status (pr_current (persisted_of ex_staged)) = Active \<and>
   pe_version (pr_current (persisted_of ex_staged)) < pe_version (the (pr_next (persisted_of ex_staged))) \<and>
   compile_execution_plan ref_sql ex_yaml (pe_content (pr_current (persisted_of ex_staged))) = Inr (rt_current_plan (sy_inner ex_staged))"
  using rules_lifecycle_coherent [OF ex_load _ ex_rules_run] ex_load ex_rules_run ex_staged_parts by (auto split: option.splits)

text \<open>
  C25. A restart resumes where the service stopped. When the codec of the file reads back what it wrote, the text found in
  the file after any run is that of a state the service was in; loading it succeeds, changes nothing of
  it, and gives a coherent state, with the active plan and the plan of an interrupted candidate compiled again. A file
  that cannot be read or decoded is an error and never taken for a missing one.
\<close>

theorem restart_resumes:
  assumes "state_file F"
    and "load_state S Y F now None content = Inr s0" and "0 < now" and "rules_run S Y F s0 s" and "sy_file s = Some text"
  shows "(\<exists>s1 s'. rules_run S Y F s0 s1 \<and> sc_to_string F (persisted_of s1) = Inr text \<and>
      load_state S Y F now' (Some (Inr text)) content' = Inr s' \<and> persisted_of s' = persisted_of s1 \<and> rules_inv S Y F s' \<and> sy_file s' = Some text) \<and>
    (\<forall>e. \<exists>x. load_state S Y F now' (Some (Inl e)) content' = Inl x) \<and>
    (\<forall>raw e. sc_from_str F raw = Inl e \<longrightarrow> (\<exists>x. load_state S Y F now' (Some (Inr raw)) content' = Inl x))"
proof -
  have inv: "rules_inv S Y F s1" if "rules_run S Y F s0 s1" for s1
    using rules_run_inv [OF initial_inv [OF assms(2,3)] that] by blast
  have "sy_file s0 = None" using assms(2) by (auto simp: load_state_def elim!: rbindE)
  from rules_run_file [OF this assms(4,5)] obtain s1 where s1: "rules_run S Y F s0 s1" "sc_to_string F (persisted_of s1) = Inr text"
    by blast
  have "persisted_inv S Y (persisted_of s1)" using inv [OF s1(1)] by (simp add: rules_inv_def)
  from state_file.load_written [OF assms(1) this s1(2), of now' content'] obtain s' where
    s': "load_state S Y F now' (Some (Inr text)) content' = Inr s'" "persisted_of s' = persisted_of s1" "rules_inv S Y F s'" by blast
  moreover have "sy_file s' = Some text" using s'(1) by (auto simp: load_state_def elim!: rbindE)
  ultimately show ?thesis using s1 by (auto simp: load_state_def)
qed

theorem restart_resumes_witness:
  "sy_file ex_staged = Some (state_text (persisted_of ex_staged)) \<and>
   (\<exists>s1 s'. rules_run ref_sql ex_yaml ref_state_codec ex_rules s1 \<and>
      load_state ref_sql ex_yaml ref_state_codec 7 (Some (Inr (state_text (persisted_of ex_staged)))) ''a'' = Inr s' \<and>
      persisted_of s' = persisted_of s1)"
  using restart_resumes [OF ref_state.state_file_axioms ex_load _ ex_rules_run ex_staged_parts(4), of 7 "''a''"] ex_staged_parts(4) by auto

lemma activation_keeps_storage:
  assumes "mdbx_table (dp_mdbx D) view" and run: "activate_pending_sync_rules D op previous pending s st = (s', st', r)"
    and lay: "view (st_table st) META_LAYOUT_VERSION_KEY = Some (layout_version (active_contract (dp_sql D) s))"
  shows "active_contract (dp_sql D) s' = active_contract (dp_sql D) s \<and> view (st_table st') = view (st_table st)"
proof (cases "rt_next_plan (sy_inner s)")
  case (Some plan)
  let ?c = "canonical_storage_contract_id (sl_json (dp_sql D)) (canonical plan)"
  obtain s1 r1 where m: "mark_activating (dp_clock D Marking) (dp_io D Marking) (pe_version pending) op
      (?c \<noteq> active_contract (dp_sql D) s) ?c s = (s1, r1)" by (meson surj_pair)
  note plans = mark_plans [OF m]
  then have a1: "active_contract (dp_sql D) s1 = active_contract (dp_sql D) s" by (simp add: active_contract_def)
  have failing: "active_contract (dp_sql D) (fst (mark_failed now io v reason lc c t)) = active_contract (dp_sql D) t" for now io v reason lc c t
    by (simp add: active_contract_def fail_plans)
  show ?thesis
  proof (cases "\<exists>x. r1 = Inr x \<and> ?c = active_contract (dp_sql D) s")
    case False
    then show ?thesis
      using run m Some a1 failing [of "dp_clock D Failing" "dp_io D Failing" "pe_version pending" disabled_reason True ?c s1]
      by (cases r1; cases "mark_failed (dp_clock D Failing) (dp_io D Failing) (pe_version pending) disabled_reason True ?c s1")
        (auto simp: activate_pending_sync_rules_def split: sum.splits)
  next
    case True
    then obtain x where x: "r1 = Inr x" and c: "?c = active_contract (dp_sql D) s" by blast
    obtain st2 r2 where reset: "reset_for_layout_version (dp_mdbx D) (dp_epoch D) st ?c = (st2, r2)" by (meson surj_pair)
    have v: "view (st_table st2) = view (st_table st)"
      using mdbx_table.reset_same_layout [OF assms(1) reset] lay c by simp
    obtain s3 r3 where act: "activate_pending (dp_clock D Promoting) (dp_io D Promoting) (pe_version pending) False ?c s1 = (s3, r3)"
      by (meson surj_pair)
    have a3: "active_contract (dp_sql D) s3 = active_contract (dp_sql D) s"
      using activate_plans [OF act] plans Some c a1 by (auto simp: active_contract_def)
    show ?thesis
      using run m Some x c reset act v a1 a3
      by (cases "dp_open D"; cases r2; cases r3) (auto simp: activate_pending_sync_rules_def failing)
  qed
qed (use run in \<open>simp add: activate_pending_sync_rules_def\<close>)

text \<open>
  C15. A deployment never changes the storage generation. Whatever it is given and however it ends, the contract of the
  active plan is the one before, and the table of a store laid out for that contract is untouched: rules with another
  contract are refused, and the reset before a promotion finds the layout it expects.
\<close>

theorem deployment_keeps_storage:
  assumes "mdbx_table (dp_mdbx D) view" and "deploy_sync_rules D content options s st = (s', st', r)"
    and "view (st_table st) META_LAYOUT_VERSION_KEY = Some (layout_version (active_contract (dp_sql D) s))"
  shows "active_contract (dp_sql D) s' = active_contract (dp_sql D) s \<and> view (st_table st') = view (st_table st)"
proof (cases "compile_execution_plan (dp_sql D) (dp_yaml D) content")
  case (Inr plan)
  obtain s1 r1 where stage: "stage_candidate (dp_sql D) (dp_clock D Staging) (dp_io D Staging) content plan ''deploy'' options s = (s1, r1)"
    by (meson surj_pair)
  have a1: "active_contract (dp_sql D) s1 = active_contract (dp_sql D) s" by (rule active_contract_cong [OF stage_plans [OF stage]])
  show ?thesis
    using assms(2,3) Inr stage a1 activation_keeps_storage [OF assms(1), where s = s1 and st = st]
    by (cases r1; cases "projr r1") (auto simp: deploy_sync_rules_def)
qed (use assms(2) in \<open>simp add: deploy_sync_rules_def\<close>)

theorem deployment_keeps_storage_witness:
  "(\<exists>reply. snd (snd ex_deploying) = Inr reply) \<and> active_contract ref_sql (fst ex_deploying) = active_contract ref_sql ex_rules \<and>
   map_of (st_table (fst (snd ex_deploying))) = map_of (st_table ex_deployed_store)"
proof -
  obtain s' st' r where run: "ex_deploying = (s', st', r)" by (metis surj_pair)
  have "mdbx_table (dp_mdbx ex_deploy) map_of" by (simp add: ex_deploy_def alist.mdbx_table_axioms)
  from deployment_keeps_storage [OF this run] ex_deploying_activates run show ?thesis
    by (simp add: ex_deploy_def ex_deployed_store_def)
qed

text \<open>
  A promotion takes the candidate before it compares versions: one that names another version is refused, and the
  candidate it did not name is gone from the state, while the file still holds it.
\<close>

theorem stale_version_drops_candidate:
  assumes "pr_next (persisted_of s) = Some e" and "pe_version e \<noteq> v" and "activate_pending now io v lc contract s = (s', r)"
  shows "r = Inl version_mismatch \<and> pr_next (persisted_of s') = None \<and> sy_file s' = sy_file s"
  using assms by (auto simp: activate_pending_def with_persisted_def Let_def)

end
