(* ===== verification/Spec2Isabelle.thy ===== *)
theory Spec2Isabelle
  imports Guarantees Rule_Guarantees Session_Guarantees Request_Guarantees Ingest_Facts Control_Guarantees
begin

text \<open>
  Verification of the rule compiler, the ingest loop and store, the serving path and the control plane of powersync-mdbx.

  The program replicates a Postgres logical stream into one MDBX table and serves buckets of the replicated rows to
  sync clients. Its parts, in the order data flows through them (paths are under
  \<^verbatim>\<open>src/crates/powersync-mdbx/src\<close>):

  \<^item> \<^bold>\<open>Decoder\<close> (\<^verbatim>\<open>replication/ingest/decoder.rs\<close>): stream events to commit batches. Theory \<open>Decoder\<close>; its state is the
    record \<open>PgOutputBatchDecoder\<close>, one definition per method. The pgoutput parser of the pg_walstream crate, with its own state,
    and the order of its relation map are the argument \<open>pgoutput\<close>. What the messages describe is stated on
    the messages alone (\<open>stream_changes\<close>), what is refused as the inductive predicate \<open>rejected\<close>.
  \<^item> \<^bold>\<open>Derivation\<close> (\<^verbatim>\<open>replication/ingest/derive.rs\<close>, \<^verbatim>\<open>sync_rules/eval.rs\<close>): batches to row operations and lookup operations
    under an execution plan. Theories \<open>Sync_Model\<close> (the plan), \<open>Sync_Eval\<close>, \<open>Row_Json\<close>, \<open>Bucket_Plan\<close>, \<open>Derive\<close>.
  \<^item> \<^bold>\<open>Rule compiler\<close> (\<^verbatim>\<open>sync_rules/yaml.rs\<close>, \<^verbatim>\<open>query.rs\<close>, \<^verbatim>\<open>lowering.rs\<close>): a sync-rules document to that plan. \<open>Sql_Text\<close> the
    string functions and literals, \<open>Query_Parser\<close> bindings, predicates, projections and stream queries,
    \<open>Lowering\<close> the canonical plan, its contract ids and its lowering to the execution plan, \<open>Rule_Source\<close> the YAML
    front end, parameter queries and the rewriting of bucket definitions.
  \<^item> \<^bold>\<open>Store\<close> (\<^verbatim>\<open>replication/ingest/\<close>): the table. \<open>Mdbx_Table\<close> is the engine's interface, \<open>Keys\<close> the key functions,
    \<open>Batch_Codec\<close> and \<open>Postgres_Lsn\<close> the codecs, \<open>Accumulators\<close> the per-bucket checksums, \<open>Current_State\<close> the current
    documents and their route indexes, \<open>Tail_Log\<close> the operation log with its indexes and pruning, \<open>Lookup_State\<close> the
    parameter lookups, \<open>Store\<close> the transactions: layout check, batches, snapshots, index maintenance.
  \<^item> \<^bold>\<open>Serving\<close> (\<^verbatim>\<open>storage/\<close>, \<^verbatim>\<open>protocol/messages.rs\<close>): \<open>Bucket_Read\<close> the bounded reads of a bucket, \<open>Wire\<close> cursors,
    payloads and entries, \<open>Messages\<close> the checkpoint, the paged data lines and the stream iterator.
  \<^item> \<^bold>\<open>Ingest loop\<close> (\<^verbatim>\<open>replication/runner.rs\<close>): \<open>Ingest_Runner\<close>, from a stream event through the decoder and the store to the
    acknowledged position, with the summary, the event limit and the readiness flag. The replication client is
    the list of its answers, each with the plan active and the time when it arrives.
  \<^item> \<^bold>\<open>Requests\<close> (\<^verbatim>\<open>auth.rs\<close>, \<^verbatim>\<open>control_plane/parameters.rs\<close>, \<^verbatim>\<open>http/sync_stream.rs\<close>): \<open>Authentication\<close> tokens, keys, claims
    and their configuration, \<open>Sync_Request\<close> the parameters of a request, the buckets it is granted and its admission,
    with the two clock readings of the handler and the deadline of the body, \<open>Sync_Session\<close> the response as a state machine: one poll of the stream is one step, and the store may change
    between polls.
  \<^item> \<^bold>\<open>Control plane\<close> (\<^verbatim>\<open>control_plane/mod.rs\<close>): \<open>Control_State\<close>, the active and the pending sync rules, one definition per
    critical section of their mutex, the text file they are written to with the failures of reading, decoding, encoding
    and writing it, and deployments.

  \<^bold>\<open>Modelling.\<close> Pure functions are HOL functions with the names of the source. Fallible code returns
  \<open>error + value\<close>; every early return and error of the source is a branch, its message text abbreviated. Panics are the
  error \<open>Panicked\<close>. The table is threaded through as a value \<open>'t\<close>; a transaction works on its own copy and a commit
  replaces the store's. u64 counters are \<open>nat\<close> with the limit and every checked, saturating or wrapping addition written
  out; checksums are \<open>32 word\<close>. Strings and bytes are \<open>char list\<close> (one char per byte, UTF-8 validity explicit).
  BTreeMaps are association lists in key order, HashMaps association lists.

  \<^bold>\<open>Interfaces.\<close> Code outside the repository is a parameter: the engine is the record \<open>mdbx\<close>, whose law (locale
  \<open>mdbx_table\<close>) is that each call that succeeds acts on the key-value view as its documentation says, calls may
  fail at any time; \<open>mdbx_reliable\<close> adds that none does. serde and sha2 are the record \<open>crates\<close> with the locale
  \<open>serde_codecs\<close> (what is written reads back). \<open>ingest_store\<close> joins them; \<open>change_codec\<close> is the batch serializer's
  law. The rule compiler takes the record \<open>sql_lib\<close> (JSON, SHA-256, base64) and the parsed document, a \<open>yaml\<close>
  value; authentication takes the record \<open>auth_lib\<close> (signatures, digests, base64, URLs, the HTTP fetch). The JSON codec of the
  rules file is \<open>state_codec\<close>, with the locale \<open>state_file\<close>. All locales are interpreted on executable definitions (\<open>alist_mdbx\<close>, \<open>ref_crates\<close>, \<open>ref_state_codec\<close>), on which the witnesses
  run: theory \<open>Evaluation\<close> holds the rewriting set, \<open>Example\<close> a plan, batches and reads.

  \<^bold>\<open>Lemma groups.\<close> \<open>Current_Invariant\<close>, \<open>Tail_Invariant\<close>, \<open>Lookup_Invariant\<close>: each part's entries in the table are exactly those
  of an abstract map (documents, log, lookup rows), preserved by every operation. \<open>Store_Invariant\<close>, \<open>Store_Ops\<close>: their
  conjunction with the counters, the refinement of a persisted batch by \<open>abs_persist\<close>, and what a batch that fails leaves. \<open>Delta_Read\<close>,
  \<open>Snapshot_Read\<close>: what reads return. \<open>Checkpoint_Law\<close>, \<open>Wire_Checksums\<close>: checksums of accumulators and streams.
  \<open>Store_Reset\<close>: generations and redelivery. \<open>Progress\<close>: what returns on a reliable engine. \<open>Replica\<close>, \<open>Convergence\<close>: a
  client that applies what it is sent holds the bucket's contents. \<open>Query_Facts\<close>: generated SQL parses back.
  \<open>Lowering_Facts\<close>: what the tables of a lowered plan hold; \<open>lowered_plan_ok\<close> says when it meets the conditions of the store theorems.
  \<open>Auth_Facts\<close>, \<open>Request_Facts\<close>: what a verified token and a resolved request are. \<open>Session_Facts\<close>, \<open>Session_Converges\<close>: sessions as
  an \<open>inductive\<close> relation over polls and persisted batches, and their invariant. \<open>Ingest_Facts\<close>: the ingest loop over the store's
  refinement, for every outcome. \<open>Control_Facts\<close>: runs of critical sections in any order, their invariant, restarts.
  \<open>Guarantees\<close>, \<open>Rule_Guarantees\<close>, \<open>Session_Guarantees\<close>, \<open>Request_Guarantees\<close>, \<open>Control_Guarantees\<close>: the component properties.
  This theory: the properties that span components.

  \<^bold>\<open>Loops.\<close> Recursions are structural or have a measure (\<open>prune_chunks\<close>: the ids left; \<open>page_loop\<close>: the buckets left; \<open>pages\<close>:
  the entries left). The only fuel is in \<open>run_lines\<close>, which iterates the stream iterator: the number of lines plus two
  is enough, as proved. The parsers of bindings and of lookup queries call each other through an encoded query;
  \<open>parse_binding_at\<close> bounds that depth, and depth one is enough: a query inside an encoded query is refused
  (\<open>binding_parser_recursion\<close>). Budgets of the reads are the source's and exhausting one is an error or a snapshot.

  \<^bold>\<open>Not modelled.\<close> The HTTP routes, headers and bodies, the management handlers, the JSON of the control plane's replies and
  its debug pages, process start-up and the reading of configuration files, the replication connection and its
  slots (\<^verbatim>\<open>replication/runtime.rs\<close>) and the snapshot reader (\<^verbatim>\<open>replication/snapshot.rs\<close>), which are SQL over the network, TLS, the
  notification cache of \<^verbatim>\<open>storage/sync_edge.rs\<close>, the YAML parser, the compiler's warnings, timing metrics and test
  fixtures. Timeouts are the choice of when the next step happens; a stream's deadline is a number of nanoseconds
  after its start. An iterator of the engine yields its items or an error at once: a failure in the middle of a scan is that
  error, since visiting writes nothing. Debug assertions are off in release builds and left out. Concurrency inside one store is MDBX's single writer, which is why transactions are modelled as atomic.
\<close>

section \<open>The ingest store refines an abstract store\<close>

text \<open>
  C1. Persisting a commit batch on a store whose table satisfies the invariant for the abstract state
  \<open>A\<close> either leaves the table as it was, and then the table already records an end LSN at or above the
  batch's (a redelivery), or leaves a table that satisfies the invariant for
  \<open>abs_persist\<close> of the derived operations: documents, accumulators, tail log, tail indexes and
  parameter lookups all move together, the ids are consecutive, the log is cut at the retention
  floor, and the end LSN and the raw batch are recorded.
\<close>

theorem persist_batch_refines:
  assumes "ingest_store M view C"
    and "persist_batch_with_plan_options_and_tail_retention C enc M now st b plan opts retain chunk = (st', Inr ())"
    and "view (st_table st) META_LAYOUT_VERSION_KEY = Some (layout_version (storage_contract_id plan))"
    and "store_inv C plan A (view (st_table st))"
    and "plan_types_ok plan" and "lookup_plan_ok plan"
    and "\<not> assume_new_inserts opts" and "\<not> snapshot_without_tail opts"
    and "derive_sync_tail_ops_with_options C b plan False = Inr ops" and "\<forall>x \<in> set ops. put_fits x"
    and "last_id (view (st_table st)) + length ops < u64_limit"
  defines "kv \<equiv> view (st_table st)" and "kv' \<equiv> view (st_table st')"
  shows "(\<exists>s l. kv META_LAST_COMMIT_END_LSN_KEY = Some s \<and> lsn_from_str s = Inr l \<and> end_lsn b \<le> l) \<and> kv' = kv
    \<or> (\<exists>lops flr. derive_parameter_lookup_ops b plan = Inr lops \<and>
        flr = max (retained_id kv) (last_id kv + length ops - retain) \<and>
        store_inv C plan (abs_persist plan ops lops (last_id kv) flr A) kv' \<and>
        last_id kv' = last_id kv + length ops \<and> retained_id kv' = flr \<and> snapshot_id kv' = snapshot_id kv \<and>
        kv' META_LAST_COMMIT_END_LSN_KEY = Some (lsn_to_string (end_lsn b)) \<and>
        (persist_raw_batch opts \<longrightarrow> kv' (batch_key (end_lsn b)) = Some (batch_encode enc b)))"
  unfolding kv_def kv'_def by (rule ingest_store.persist_batch_spec [OF assms(1-11)])

theorem persist_batch_refines_witness:
  "\<exists>lops. store_inv ref_crates ex_plan (abs_persist ex_plan ex_ops lops 0 0 empty_abs) (map_of ex_table) \<and>
     last_id (map_of ex_table) = 2 \<and> map_of ex_table META_LAST_COMMIT_END_LSN_KEY = Some (lsn_to_string 9)"
proof -
  have "map_of (st_table ex_store) META_LAST_COMMIT_END_LSN_KEY = None"
    by (rule ex_store_meta) simp
  with persist_batch_refines [OF ref_store.ingest_store_axioms ex_run_result [unfolded ex_persist_def] ex_store_layout
      ex_store_inv ex_plan_ok _ _ ex_derive ex_ops_fit]
  show ?thesis by (auto simp: ex_options_def ex_final_def ex_batch_def)
qed

text \<open>
  C12. A batch whose end LSN is at or below the recorded one changes nothing: neither the table nor the
  value announced to the sync streams.
\<close>

theorem redelivered_batch_unchanged:
  assumes "ingest_store M view C"
    and "persist_batch_with_plan_options_and_tail_retention C enc M now st b plan opts retain chunk = (st', Inr ())"
    and "view (st_table st) META_LAYOUT_VERSION_KEY = Some (layout_version (storage_contract_id plan))"
    and "view (st_table st) META_LAST_COMMIT_END_LSN_KEY = Some (lsn_to_string l)" and "l < u64_limit" and "end_lsn b \<le> l"
  shows "view (st_table st') = view (st_table st) \<and> st_task_tail_advance st' = st_task_tail_advance st"
proof -
  have "mdbx_table M view" using assms(1) by (simp add: ingest_store_def)
  from mdbx_table.redelivery_noop [OF this assms(2-6)] show ?thesis ..
qed

theorem redelivered_batch_unchanged_witness:
  "map_of (st_table (fst (ex_persist ex_final 9 ex_events))) = map_of (st_table ex_final)"
proof -
  have "map_of (st_table ex_final) META_LAYOUT_VERSION_KEY = Some (layout_version (storage_contract_id ex_plan))"
    "map_of (st_table ex_final) META_LAST_COMMIT_END_LSN_KEY = Some (lsn_to_string 9)"
    by (simp_all add: ex_final_def ex_table_meta)
  from redelivered_batch_unchanged [OF ref_store.ingest_store_axioms ex_again [unfolded ex_persist_def] this]
  show ?thesis by (simp add: ex_again ex_batch_def)
qed

section \<open>What a sync stream is served\<close>

text \<open>
  C9. A delta read is exact: for a cursor that is not reset, the operations returned are those of the
  retained log above the cursor that one of the bucket's indexes covers, each once and in id order, and
  the cursor lies between the floors and the last id, so nothing it needs has been pruned.
\<close>

theorem delta_read_exact:
  assumes "ingest_store M view C"
    and "read_bucket_snapshot_in_transaction C M t (bucket_read_request bucket) budget = Inr (s, budget')"
    and "store_inv C plan A (view t)" and "\<not> rs_reset_required s" and "0 < rc_after bucket"
  shows "rs_tail_ops s = map (the \<circ> ab_tail A) (sorted_list_of_set
           (delta_ids plan (ab_tail A) (bucket_tail_index_keys (rc_resolved bucket)) (rc_after bucket) (last_id (view t))))
    \<and> rs_current_documents s = [] \<and> rs_latest_op_id s = last_id (view t)
    \<and> max (snapshot_id (view t)) (retained_id (view t)) \<le> rc_after bucket \<and> rc_after bucket \<le> last_id (view t)"
  using ingest_store.delta_read_spec [OF assms(1-3) request_index_names] assms(4,5) by simp

theorem delta_read_exact_witness:
  "case ex_read 1 of Inl _ \<Rightarrow> False
   | Inr (s, _) \<Rightarrow> rs_tail_ops s = map (the \<circ> ab_tail ex_A) (sorted_list_of_set
       (delta_ids ex_plan (ab_tail ex_A) (bucket_tail_index_keys ex_bucket) 1 2))"
  using ex_read_1 delta_read_exact [OF ref_store.ingest_store_axioms _ ex_final_inv]
  by (fastforce simp: ex_request_def ex_final_counters split: sum.splits)

text \<open>
  C10. A clearing snapshot is complete: the documents returned are those of the bucket's queries, each once and in
  key order, with no operations of the log, and the snapshot stands at the last id.
\<close>

theorem snapshot_read_complete:
  assumes "ingest_store M view C"
    and "read_bucket_snapshot_in_transaction C M t (bucket_read_request bucket) budget = Inr (s, budget')"
    and "store_inv C plan A (view t)"
    and "\<forall>q \<in> set (rb_queries (rc_resolved bucket)). CHR '':'' \<notin> set (rq_object_type q)"
    and "rs_reset_required s \<or> rc_after bucket = 0"
  shows "(\<exists>xs. sorted_wrt (<) xs \<and> set xs = (\<Union>q \<in> set (rb_queries (rc_resolved bucket)). query_docs plan (ab_docs A) q) \<and>
           rs_current_documents s = map (the_doc (ab_docs A)) xs)
    \<and> rs_tail_ops s = [] \<and> rs_latest_op_id s = last_id (view t)"
  using ingest_store.snapshot_read_spec [OF assms(1-3)] assms(4,5) by simp

theorem snapshot_read_complete_witness:
  "case ex_read 0 of Inl _ \<Rightarrow> False
   | Inr (s, _) \<Rightarrow> rs_tail_ops s = [] \<and> (\<exists>xs. sorted_wrt (<) xs \<and>
       set xs = (\<Union>q \<in> set (rb_queries ex_bucket). query_docs ex_plan (ab_docs ex_A) q) \<and>
       rs_current_documents s = map (the_doc (ab_docs ex_A)) xs)"
  using ex_read_0 snapshot_read_complete [OF ref_store.ingest_store_axioms _ ex_final_inv _ disjI2]
  by (fastforce simp: ex_request_def ex_bucket_types split: sum.splits)

text \<open>
  C11. A cursor from another generation (above the last id) or below a floor (pruned operations, or before the
  initial snapshot) is never served a delta: the read is a clearing snapshot.
\<close>

theorem stale_cursor_cleared:
  assumes "ingest_store M view C"
    and "read_bucket_snapshot_in_transaction C M t req budget = Inr (s, budget')"
    and "last_id (view t) < rr_after req \<or> 0 < rr_after req \<and> rr_after req < max (snapshot_id (view t)) (retained_id (view t))"
  shows "rs_reset_required s \<and> rs_tail_ops s = []"
  using ingest_store.stale_cursor_reset [OF assms(1,2)] ingest_store.reset_no_ops [OF assms(1,2)] assms(3)
  by (auto simp: less_max_iff_disj)

theorem stale_cursor_cleared_witness:
  "case ex_read 7 of Inl _ \<Rightarrow> False | Inr (s, _) \<Rightarrow> rs_reset_required s \<and> rs_tail_ops s = []"
  using ex_read_7 stale_cursor_cleared [OF ref_store.ingest_store_axioms, where t = ex_table]
  by (fastforce simp: is_ok_def ex_request_def ex_final_counters split: sum.splits)

section \<open>Replicas converge\<close>

text \<open>
  C2. A replica that follows its cursor converges. Let the replica hold the contents of a bucket in the store
  \<open>A0\<close> at the cursor's id, and let the store have grown by persisted batches since. If the read of the bucket is
  not reset, then applying the entries of the streamed data lines gives the contents of the bucket in the store
  as it is now: no change is missed by the indexes, none is applied twice, removals of rows that leave the
  bucket included. Routing values are not JSON arrays, and the plan has a route index for the bucket.
\<close>

theorem replica_follows_delta:
  assumes "ingest_store M view C"
    and "read_bucket_snapshot_in_transaction C M t (bucket_read_request bucket) budget = Inr (s, budget')"
    and "store_inv C plan A (view t)" and "tail_dense A (view t)"
    and "\<not> rs_reset_required s" and "0 < rc_after bucket"
    and "history plan A0 (rc_after bucket) A (last_id (view t))"
    and "bucket_indexed plan (rc_resolved bucket)" and "\<forall>x \<in> ran (ab_tail A). scalar_op (cr_json C) x"
    and "build_bucket_payload C bucket s = Inr p" and "pl_global_last_op_id p \<le> l"
  shows "replay (bucket_contents (cr_json C) (rc_resolved bucket) (ab_docs A0))
      (concat (map line_data (page_lines (page_iterator env sizes l (bucket_view (rc_resolved bucket) p)))))
    = bucket_contents (cr_json C) (rc_resolved bucket) (ab_docs A)"
  unfolding page_lines_def pages_data by (rule ingest_store.delta_stream_converges [OF assms])

theorem replica_follows_delta_witness:
  "case ex_read 1 of Inl _ \<Rightarrow> False | Inr (s, _) \<Rightarrow>
     (case build_bucket_payload ref_crates \<lparr> rc_resolved = ex_bucket, rc_after = 1 \<rparr> s of Inl _ \<Rightarrow> False
      | Inr p \<Rightarrow> replay (bucket_contents ref_json ex_bucket (ab_docs ex_A1)) (concat (map line_data (page_lines
          (page_iterator False \<lparr> ps_snapshot = 10, ps_delta = 10 \<rparr> 2 (bucket_view ex_bucket p)))))
        = bucket_contents ref_json ex_bucket (ab_docs ex_A))"
proof -
  have "\<forall>x \<in> ran (ab_tail ex_A). scalar_op ref_json x"
    using ex_scalar_route by (auto simp: ex_A_contents(3) ran_def scalar_op_def ex_tail_op_def ref_crates_sel(1))
  then show ?thesis
    using ex_read_1 ex_payload [of 1] ex_history ex_indexed
      replica_follows_delta [OF ref_store.ingest_store_axioms _ ex_final_inv ex_dense, where l = 2 and ?A0.0 = ex_A1
        and env = False and sizes = "\<lparr> ps_snapshot = 10, ps_delta = 10 \<rparr>" and bucket = "\<lparr> rc_resolved = ex_bucket, rc_after = 1 \<rparr>"]
    by (auto simp: ex_request_def ex_final_counters ref_crates_sel(1) split: sum.splits prod.splits)
qed

text \<open>
  C7. A clearing snapshot rebuilds a replica: whatever the replica held (or nothing, for a new cursor), applying
  the entries streamed for the snapshot gives the contents of the bucket in the store.
\<close>

theorem replica_rebuilt_by_snapshot:
  assumes "ingest_store M view C"
    and "read_bucket_snapshot_in_transaction C M t (bucket_read_request bucket) budget = Inr (s, budget')"
    and "store_inv C plan A (view t)" and "\<forall>q \<in> set (rb_queries (rc_resolved bucket)). CHR '':'' \<notin> set (rq_object_type q)"
    and "rs_reset_required s \<or> rc_after bucket = 0 \<and> R = Map.empty"
    and "bucket_indexed plan (rc_resolved bucket)"
    and "\<forall>(rf, data) \<in> ran (ab_docs A). scalar_routes (cr_json C) rf"
    and "build_bucket_payload C bucket s = Inr p" and "0 < pl_global_last_op_id p" and "pl_global_last_op_id p \<le> l"
  shows "replay R (concat (map line_data (page_lines (page_iterator env sizes l (bucket_view (rc_resolved bucket) p)))))
    = bucket_contents (cr_json C) (rc_resolved bucket) (ab_docs A)"
  unfolding page_lines_def pages_data 
  by (rule ingest_store.snapshot_stream_converges [OF assms(1-6) _ assms(8-10)]) (use assms(7) in \<open>force intro: ranI\<close>)

theorem replica_rebuilt_by_snapshot_witness:
  "case ex_read 7 of Inl _ \<Rightarrow> False | Inr (s, _) \<Rightarrow>
     (case build_bucket_payload ref_crates \<lparr> rc_resolved = ex_bucket, rc_after = 7 \<rparr> s of Inl _ \<Rightarrow> False
      | Inr p \<Rightarrow> replay [(''x'', ''y'') \<mapsto> ''z''] (concat (map line_data (page_lines
          (page_iterator False \<lparr> ps_snapshot = 10, ps_delta = 10 \<rparr> 2 (bucket_view ex_bucket p)))))
        = bucket_contents ref_json ex_bucket (ab_docs ex_A))"
proof -
  have "\<forall>(rf, data) \<in> ran (ab_docs ex_A). scalar_routes (cr_json ref_crates) rf"
    using ex_scalar_route by (simp add: ex_A_contents(1))
  then show ?thesis
    using ex_payload [of 7] ex_indexed ex_bucket_types
      ref_store.stale_cursor_reset [of ex_table "ex_request 7" ex_budget]
      replica_rebuilt_by_snapshot [OF ref_store.ingest_store_axioms _ ex_final_inv, where l = 2
        and env = False and sizes = "\<lparr> ps_snapshot = 10, ps_delta = 10 \<rparr>" and bucket = "\<lparr> rc_resolved = ex_bucket, rc_after = 7 \<rparr>"
        and R = "[(''x'', ''y'') \<mapsto> ''z'']"]
    by (auto simp: ex_request_def ex_final_counters ref_crates_sel(1) split: sum.splits prod.splits)
qed

text \<open>
  C8. Persisting a batch keeps what convergence needs: the new table satisfies the store invariant for some
  abstract store that extends the history, and its log is dense, with no id missing above the floors.
\<close>

theorem persist_batch_extends_history:
  assumes "ingest_store M view C"
    and "persist_batch_with_plan_options_and_tail_retention C enc M now st b plan opts retain chunk = (st', Inr ())"
    and "view (st_table st) META_LAYOUT_VERSION_KEY = Some (layout_version (storage_contract_id plan))"
    and "store_inv C plan A (view (st_table st))"
    and "plan_types_ok plan" "lookup_plan_ok plan"
    and "\<not> assume_new_inserts opts" "\<not> snapshot_without_tail opts"
    and "derive_sync_tail_ops_with_options C b plan False = Inr ops" "\<forall>x \<in> set ops. put_fits x"
    and "last_id (view (st_table st)) + length ops < u64_limit"
    and "tail_dense A (view (st_table st))" and "history plan A0 l0 A (last_id (view (st_table st)))"
  shows "\<exists>A'. store_inv C plan A' (view (st_table st')) \<and> tail_dense A' (view (st_table st')) \<and>
     history plan A0 l0 A' (last_id (view (st_table st')))"
  by (rule ingest_store.persist_batch_history [OF assms])

theorem persist_batch_extends_history_witness:
  "\<exists>A'. store_inv ref_crates ex_plan A' (map_of ex_table) \<and> tail_dense A' (map_of ex_table) \<and>
     history ex_plan empty_abs 0 A' (last_id (map_of ex_table))"
  using persist_batch_extends_history [OF ref_store.ingest_store_axioms ex_run_result [unfolded ex_persist_def] ex_store_layout
      ex_store_inv ex_plan_ok _ _ ex_derive ex_ops_fit, of empty_abs 0] history.start [of ex_plan empty_abs 0]
  by (auto simp: ex_options_def ex_final_def tail_dense_def empty_abs_def)

section \<open>Generations\<close>

text \<open>
  C13. When the storage contract changes, the store is cleared and a new cursor generation is seeded: the table
  holds the new layout and counters alone and satisfies the invariant of an empty store, its ids start above every
  id handed out before, and every cursor of the old generation is answered with a clearing snapshot.
\<close>

theorem contract_change_resets_cursors:
  assumes "ingest_store M view C" and "ensure_layout_version_for M now st contract = (st', Inr ())"
    and "st_verified_layout_version st \<noteq> Some contract"
    and "view (st_table st) META_LAYOUT_VERSION_KEY = Some v" and "v \<noteq> layout_version contract"
  shows "\<exists>n. last_id (view (st_table st)) < n \<and> n < u64_limit \<and> view (st_table st') = generation_kv contract (Some n) \<and>
     store_inv C plan no_rows (view (st_table st')) \<and> tail_dense no_rows (view (st_table st')) \<and>
     (\<forall>a. 0 < a \<and> a \<le> last_id (view (st_table st)) \<longrightarrow>
        reset_needed a (last_id (view (st_table st'))) (snapshot_id (view (st_table st'))) (retained_id (view (st_table st'))))"
proof -
  have tbl: "mdbx_table M view" using assms(1) by (simp add: ingest_store_def)
  have "view (st_table st) META_LAYOUT_VERSION_KEY \<noteq> Some (layout_version contract)" using assms(4,5) by simp
  from mdbx_table.ensure_layout_changed [OF tbl assms(2,3) this] obtain base where kv: "view (st_table st') = generation_kv contract base" and b: "base \<noteq> None"
    and n: "\<And>n. base = Some n \<Longrightarrow> last_id (view (st_table st)) < n \<and> n < u64_limit" using assms(4) by (metis option.distinct(1))
  then obtain n where [simp]: "base = Some n" by auto
  have "\<forall>m. base = Some m \<longrightarrow> m < u64_limit" using n by simp
  note inv = generation_inv [OF this]
  show ?thesis
    using n inv by (intro exI [of _ n]) (auto simp: kv reset_needed_def generation_counters)
qed

theorem contract_change_resets_cursors_witness:
  "reset_needed 1 (last_id (map_of (st_table (fst ex_redeploy)))) (snapshot_id (map_of (st_table (fst ex_redeploy))))
     (retained_id (map_of (st_table (fst ex_redeploy))))"
proof -
  obtain st' where run: "ex_redeploy = (st', Inr ())"
    using ex_layout by (cases ex_redeploy) (auto simp: is_ok_def split: sum.splits)
  have "layout_version ''c'' \<noteq> layout_version ''d''" by (simp add: layout_version_def)
  with contract_change_resets_cursors [OF ref_store.ingest_store_axioms run, of "layout_version ''c''" ex_plan]
  show ?thesis unfolding run by (auto simp: ex_final_def ex_table_meta ex_final_counters)
qed

section \<open>Checksums\<close>

text \<open>
  C16. The checkpoint law: over the operations of a batch, the sum of the current and the tail accumulator of
  every checkpoint key moves by exactly the checksums of the puts of rows that are in the key's bucket
  afterwards and of the removals of rows that were in it. Replacing a row moves its old checksum from the
  current accumulator to the tail accumulator and loses nothing.
\<close>

theorem checkpoint_checksum_law:
  assumes "ingest_store M view C" and "persist_task_tail_ops C M t xs plan = Inr t'"
    and "current_inv C plan D (view t)" and "tail_inv C plan L (view t)" and "ops_ok D xs"
    and "\<forall>n \<in> dom L. n \<le> last_id (view t)" and "last_id (view t) + length xs < u64_limit"
    and "\<forall>x \<in> set xs. row_op x" and "projection_keys_ok plan"
  shows "acc_plus (acc_of (view t') (current_checkpoint_accumulator_key K)) (acc_of (view t') (tail_checkpoint_accumulator_key K))
    = acc_plus (acc_plus (acc_of (view t) (current_checkpoint_accumulator_key K)) (acc_of (view t) (tail_checkpoint_accumulator_key K)))
        (contribution (concat (map (served_events C plan) (number_ops (last_id (view t)) (mat_specs D xs)))) K)"
  by (rule ingest_store.checkpoint_law [OF assms])

theorem checkpoint_checksum_law_witness:
  "case persist_task_tail_ops ref_crates alist_mdbx (st_table ex_store) ex_ops ex_plan of Inl _ \<Rightarrow> False
   | Inr t' \<Rightarrow> acc_plus (acc_of (map_of t') (current_checkpoint_accumulator_key ex_key)) (acc_of (map_of t') (tail_checkpoint_accumulator_key ex_key))
     = acc_plus (acc_plus (acc_of (map_of (st_table ex_store)) (current_checkpoint_accumulator_key ex_key))
           (acc_of (map_of (st_table ex_store)) (tail_checkpoint_accumulator_key ex_key)))
         (contribution (concat (map (served_events ref_crates ex_plan) (number_ops 0 (mat_specs Map.empty ex_ops)))) ex_key)"
proof -
  have inv: "current_inv ref_crates ex_plan Map.empty (map_of (st_table ex_store))"
    "tail_inv ref_crates ex_plan Map.empty (map_of (st_table ex_store))"
    using ex_store_inv by (simp_all add: store_inv_def empty_abs_def)
  obtain t' where run: "persist_task_tail_ops ref_crates alist_mdbx (st_table ex_store) ex_ops ex_plan = Inr t'"
    using ex_tail_run by (auto simp: is_ok_def split: sum.splits)
  from checkpoint_checksum_law [OF ref_store.ingest_store_axioms run inv derived_ops_ok [OF ex_derive ex_plan_ok(1) ex_ops_fit]
      _ _ ex_row_ops ex_keys_ok, of ex_key]
  show ?thesis by (simp add: run)
qed

text \<open>
  C17. The checkpoint of a clearing snapshot agrees with its data: the checksum announced for the bucket is the
  wrapped sum of the checksums of the entries streamed for it, the clear entry included.
\<close>

theorem snapshot_checksum_matches_stream:
  assumes "build_bucket_payload C bucket s = Inr p" and "rs_reset_required s \<or> rc_after bucket = 0"
    and "0 < pl_global_last_op_id p" and "pl_global_last_op_id p \<le> l"
  shows "pl_checkpoint_checksum p = bucket_checksum_from_entries
    (concat (map line_data (page_lines (page_iterator env sizes l (bucket_view (rc_resolved bucket) p)))))"
  unfolding page_lines_def pages_data by (rule snapshot_stream(3) [OF assms])

theorem snapshot_checksum_matches_stream_witness:
  "case ex_read 0 of Inl _ \<Rightarrow> False | Inr (s, _) \<Rightarrow>
     (case build_bucket_payload ref_crates \<lparr> rc_resolved = ex_bucket, rc_after = 0 \<rparr> s of Inl _ \<Rightarrow> False
      | Inr p \<Rightarrow> pl_checkpoint_checksum p = bucket_checksum_from_entries (concat (map line_data (page_lines
          (page_iterator False \<lparr> ps_snapshot = 10, ps_delta = 10 \<rparr> 2 (bucket_view ex_bucket p))))))"
  using ex_payload [of 0] snapshot_checksum_matches_stream [where bucket = "\<lparr> rc_resolved = ex_bucket, rc_after = 0 \<rparr>" and C = ref_crates
      and l = 2 and env = False and sizes = "\<lparr> ps_snapshot = 10, ps_delta = 10 \<rparr>"]
  by (auto split: sum.splits prod.splits)

text \<open>
  C40. A row that leaves a bucket by an update is not accounted for. Persist the put of a row whose stored version is in
  the bucket and whose new version is not. The log then holds an operation that is streamed to the bucket as a
  REMOVE entry with a checksum, but under every accumulator key of the bucket the stored accumulators, current and tail
  together, add up to what they were before: the announced checksum lacks the entry's. The condition is that no bucket
  the new version is in uses the same accumulator key, in which case the code counts the new version under it.
\<close>

theorem leaving_row_checksum_gap:
  assumes "ingest_store M view C" and "persist_task_tail_ops C M t [x] plan = Inr t'"
    and "current_inv C plan D (view t)" and "tail_inv C plan L (view t)" and "ops_ok D [x]"
    and "\<forall>n \<in> dom L. n \<le> last_id (view t)" and "last_id (view t) + 1 < u64_limit" and "projection_keys_ok plan"
    and "x = derive_row_put ty i rf new_data False" and "D (ty, i) = Some (rf0, old)"
    and "matches_object_routes_and_data (cr_json C) b ty rf0 old" "\<not> matches_object_routes_and_data (cr_json C) b ty rf new_data"
    and "\<forall>b' \<in> set (accumulator_buckets_for_row (cr_json C) plan ty rf). matches_object_routes_and_data (cr_json C) b' ty rf new_data \<longrightarrow>
      set (sync_checkpoint_accumulator_keys_for_bucket b') \<inter> set (sync_checkpoint_accumulator_keys_for_bucket b) = {}"
  shows "(\<exists>bs op e. view t' (sync_tail_op_key (last_id (view t) + 1)) = Some bs \<and> cr_op_from_slice C bs = Some op \<and>
      tail_entries_for_bucket C [op] b = Inr [e] \<and> oe_op e = RemoveOp \<and> oe_checksum e = remove_checksum C (source_subkey_for_object ty i)) \<and>
    (\<forall>K \<in> set (sync_checkpoint_accumulator_keys_for_bucket b).
      acc_plus (acc_of (view t') (current_checkpoint_accumulator_key K)) (acc_of (view t') (tail_checkpoint_accumulator_key K)) =
      acc_plus (acc_of (view t) (current_checkpoint_accumulator_key K)) (acc_of (view t) (tail_checkpoint_accumulator_key K)))"
  using ingest_store.leaving_row [OF assms(1-12)] assms(13) by blast

theorem leaving_row_checksum_gap_witness:
  "\<exists>t t'. persist_task_tail_ops ref_crates alist_mdbx (st_table ex_store) [hd ex_ops] ex_plan = Inr t \<and>
     persist_task_tail_ops ref_crates alist_mdbx t [ex_ops ! 1] ex_plan = Inr t' \<and>
     (\<exists>bs op e. map_of t' (sync_tail_op_key 2) = Some bs \<and> cr_op_from_slice ref_crates bs = Some op \<and>
        tail_entries_for_bucket ref_crates [op] ex_bucket = Inr [e] \<and> oe_op e = RemoveOp) \<and>
     ex_key \<in> set (sync_checkpoint_accumulator_keys_for_bucket ex_bucket) \<and>
     acc_plus (acc_of (map_of t') (current_checkpoint_accumulator_key ex_key)) (acc_of (map_of t') (tail_checkpoint_accumulator_key ex_key)) =
     acc_plus (acc_of (map_of t) (current_checkpoint_accumulator_key ex_key)) (acc_of (map_of t) (tail_checkpoint_accumulator_key ex_key))"
proof -
  obtain t t' where run: "persist_task_tail_ops ref_crates alist_mdbx (st_table ex_store) [hd ex_ops] ex_plan = Inr t"
    "persist_task_tail_ops ref_crates alist_mdbx t [ex_ops ! 1] ex_plan = Inr t'"
    using ex_two_runs by (auto simp: is_ok_def split: sum.splits)
  note inv = ex_one_run [OF run(1)]
  have x: "ex_ops ! 1 = derive_row_put ''tasks'' ''t1'' [(''org'', ''o1'')] (ex_json ''done'') False" by (simp add: ex_ops_def)
  have J: "cr_json ref_crates = ref_json" by (rule ref_crates_sel(1))
  have "(\<exists>bs op e. map_of t' (sync_tail_op_key (last_id (map_of t) + 1)) = Some bs \<and> cr_op_from_slice ref_crates bs = Some op \<and>
        tail_entries_for_bucket ref_crates [op] ex_bucket = Inr [e] \<and> oe_op e = RemoveOp \<and>
        oe_checksum e = remove_checksum ref_crates (source_subkey_for_object ''tasks'' ''t1'')) \<and>
    (\<forall>K \<in> set (sync_checkpoint_accumulator_keys_for_bucket ex_bucket).
      acc_plus (acc_of (map_of t') (current_checkpoint_accumulator_key K)) (acc_of (map_of t') (tail_checkpoint_accumulator_key K)) =
      acc_plus (acc_of (map_of t) (current_checkpoint_accumulator_key K)) (acc_of (map_of t) (tail_checkpoint_accumulator_key K)))"
    by (rule leaving_row_checksum_gap [OF ref_store.ingest_store_axioms run(2) inv(1,2) _ _ _ ex_keys_ok x])
      (use inv ex_leaves in \<open>simp_all add: J ex_first_docs\<close>)
  moreover have "last_id (map_of t) + 1 = 2" using inv(4) by simp
  ultimately show ?thesis using run ex_key_of_bucket by (simp only:) blast
qed

text \<open>
  A row whose routing column holds a JSON array is not found by the buckets of the array's members. The row
  matches such a bucket, yet the bucket's route is not among the indexes of the row, so neither the route
  index of the documents nor that of the log lists it there.
\<close>

theorem array_route_not_indexed:
  assumes "map_of rf k = Some u" and "map_of rc k = Some v" and "u \<noteq> v" and "route_constraints_match J rc rf"
  shows "matches_object_and_routes J (b\<lparr>rb_queries := [q\<lparr>rq_object_type := ty, rq_route_constraints := rc\<rparr>]\<rparr>) ty rf
    \<and> rc \<notin> set (required_route_indexes_for_row plan ty rf)
    \<and> (D (ty, i) = Some (rf, data) \<longrightarrow> rc \<noteq> [] \<longrightarrow>
         (ty, i) \<notin> query_docs plan D (q\<lparr>rq_object_type := ty, rq_route_constraints := rc\<rparr>))"
  using foreign_route_unindexed [OF assms(1-3)] assms(4)
  by (auto simp: matches_object_and_routes_def query_for_object_and_routes_def query_docs_def)

theorem array_route_not_indexed_witness:
  "[(''org'', ''o1'')] \<notin> set (required_route_indexes_for_row ex_plan ''tasks''
      [(''org'', ref_json_text (JArray [JString ''o1'', JString ''o2'']))])"
  using array_route_not_indexed [where k = "''org''" and rc = "[(''org'', ''o1'')]" and v = "''o1''" and J = ref_json and plan = ex_plan
      and rf = "[(''org'', ref_json_text (JArray [JString ''o1'', JString ''o2'']))]"] ex_array_route by simp

text \<open>
  A forced clear is lost when the store is at id zero: the read demands a clearing snapshot, but the stream of
  the bucket has no entry at all, so a replica from an earlier life of the store is not cleared by it.
\<close>

theorem forced_clear_lost_at_zero:
  assumes "build_bucket_payload C bucket s = Inr p" and "rs_reset_required s" and "pl_global_last_op_id p = 0"
  shows "pl_force_snapshot_clear p \<and>
    concat (map line_data (page_lines (page_iterator env sizes l (bucket_view (rc_resolved bucket) p)))) = []"
  unfolding page_lines_def pages_data using empty_store_sends_nothing [OF assms] by simp

theorem forced_clear_lost_at_zero_witness:
  "case read_bucket_snapshot_in_transaction ref_crates alist_mdbx [] (ex_request 7) ex_budget of Inl _ \<Rightarrow> False | Inr (s, _) \<Rightarrow>
     (case build_bucket_payload ref_crates \<lparr> rc_resolved = ex_bucket, rc_after = 7 \<rparr> s of Inl _ \<Rightarrow> False
      | Inr p \<Rightarrow> pl_force_snapshot_clear p \<and> concat (map line_data (page_lines
          (page_iterator False \<lparr> ps_snapshot = 10, ps_delta = 10 \<rparr> 0 (bucket_view ex_bucket p)))) = [])"
  using ex_empty_payload forced_clear_lost_at_zero [where bucket = "\<lparr> rc_resolved = ex_bucket, rc_after = 7 \<rparr>" and C = ref_crates
      and l = 0 and env = False and sizes = "\<lparr> ps_snapshot = 10, ps_delta = 10 \<rparr>"]
  by (auto split: sum.splits prod.splits)

end
